(* ===== verification/Cermet_Prelude.thy ===== *)
theory Cermet_Prelude
  imports Main "HOL-Library.Char_ord" "HOL-Library.List_Lexorder" "HOL-Library.Product_Lexorder"
begin

text \<open>
  What every component of the development shares.

  \<^item> \<open>Ok\<close> and \<open>Err\<close> name the two sides of a Rust \<^verbatim>\<open>Result\<close>; \<open>res_bind\<close> is the
    question-mark operator.
  \<^item> Text. A Rust \<^verbatim>\<open>String\<close> is a sequence of Unicode scalar values. The model uses HOL's
    \<open>string\<close>, read as a sequence of scalar values below 256, so one \<open>char\<close> is one Rust
    \<^verbatim>\<open>char\<close>; the white space of that range is the one of Unicode's \<^verbatim>\<open>White_Space\<close> property,
    and \<open>utf8\<close> gives the bytes.
  \<^item> The pieces of \<^verbatim>\<open>str\<close> the program calls: \<open>lines\<close>, \<open>split_once\<close>, \<open>split_on\<close>,
    \<open>strip_prefix\<close>, \<^verbatim>\<open>to_string\<close> and \<^verbatim>\<open>parse\<close> of an \<^verbatim>\<open>i64\<close>, \<open>hex\<close>.
  \<^item> \<^verbatim>\<open>i64\<close> values are \<open>int\<close>s with the range written out (\<open>in_i64\<close>), and checked
    arithmetic returns an option.
\<close>

section \<open>Proof collections\<close>

named_theorems lex_simps \<open>character classes and lexical predicates\<close>
named_theorems res_simps \<open>results and their sequencing\<close>

section \<open>Results\<close>

abbreviation Ok :: "'a \<Rightarrow> 'e + 'a" where "Ok \<equiv> Inr"
abbreviation Err :: "'e \<Rightarrow> 'e + 'a" where "Err \<equiv> Inl"

definition res_bind :: "'e + 'a \<Rightarrow> ('a \<Rightarrow> 'e + 'b) \<Rightarrow> 'e + 'b" where
  "res_bind r k = (case r of Inl e \<Rightarrow> Inl e | Inr x \<Rightarrow> k x)"

definition is_ok :: "'e + 'a \<Rightarrow> bool" where
  "is_ok r = (case r of Inl _ \<Rightarrow> False | Inr _ \<Rightarrow> True)"

definition ok_or :: "'e \<Rightarrow> 'a option \<Rightarrow> 'e + 'a" where
  "ok_or e v = (case v of None \<Rightarrow> Err e | Some x \<Rightarrow> Ok x)"

definition opt_filter :: "('a \<Rightarrow> bool) \<Rightarrow> 'a option \<Rightarrow> 'a option" where
  "opt_filter p v = (case v of None \<Rightarrow> None | Some x \<Rightarrow> if p x then Some x else None)"

lemma res_bind_simps [simp, res_simps]:
  "res_bind (Err e) k = Err e"
  "res_bind (Ok x) k = k x"
  by (simp_all add: res_bind_def)

lemma res_bind_eq_Ok [res_simps]:
  "res_bind r k = Ok y \<longleftrightarrow> (\<exists>x. r = Ok x \<and> k x = Ok y)"
  by (cases r) simp_all

lemma is_ok_simps [simp, res_simps]: "is_ok (Ok x)" "\<not> is_ok (Err e)"
  by (simp_all add: is_ok_def)

lemma is_ok_iff: "is_ok r \<longleftrightarrow> (\<exists>x. r = Ok x)"
  by (cases r) simp_all

lemma ok_or_simps [simp, res_simps]: "ok_or e None = Err e" "ok_or e (Some x) = Ok x"
  by (simp_all add: ok_or_def)

lemma ok_or_eq_Ok [res_simps]: "ok_or e v = Ok x \<longleftrightarrow> v = Some x"
  by (cases v) simp_all

lemma opt_filter_eq_Some [simp, res_simps]: "opt_filter p v = Some x \<longleftrightarrow> v = Some x \<and> p x"
  by (auto simp: opt_filter_def split: option.splits)

lemma opt_filter_simps [simp]:
  "opt_filter p None = None" "opt_filter p (Some x) = (if p x then Some x else None)"
  by (simp_all add: opt_filter_def)

section \<open>Machine integers\<close>

definition i64_min :: int where "i64_min = - (2 ^ 63)"
definition i64_max :: int where "i64_max = 2 ^ 63 - 1"

definition in_i64 :: "int \<Rightarrow> bool" where
  "in_i64 n \<longleftrightarrow> i64_min \<le> n \<and> n \<le> i64_max"

definition checked :: "int \<Rightarrow> int option" where
  "checked n = (if in_i64 n then Some n else None)"

lemma checked_eq_Some [simp]: "checked n = Some m \<longleftrightarrow> n = m \<and> in_i64 n"
  by (auto simp: checked_def)

lemma i64_bounds: "i64_min = -9223372036854775808" "i64_max = 9223372036854775807"
  by (simp_all add: i64_min_def i64_max_def)

lemma in_i64_numeral: "in_i64 n \<longleftrightarrow> -9223372036854775808 \<le> n \<and> n \<le> 9223372036854775807"
  by (simp add: in_i64_def i64_bounds)

section \<open>Characters\<close>

abbreviation code :: "char \<Rightarrow> nat" where "code c \<equiv> of_char c"

definition nl :: char where "nl = CHR 0x0A"
definition cr :: char where "cr = CHR 0x0D"
definition dquote :: char where "dquote = CHR 0x22"
definition squote :: char where "squote = CHR 0x27"
definition backslash :: char where "backslash = CHR 0x5C"

definition is_ascii_lowercase :: "char \<Rightarrow> bool" where
  "is_ascii_lowercase c \<longleftrightarrow> 97 \<le> code c \<and> code c \<le> 122"

definition is_ascii_digit :: "char \<Rightarrow> bool" where
  "is_ascii_digit c \<longleftrightarrow> 48 \<le> code c \<and> code c \<le> 57"

definition is_lower_hexdigit :: "char \<Rightarrow> bool" where
  "is_lower_hexdigit c \<longleftrightarrow> is_ascii_digit c \<or> (97 \<le> code c \<and> code c \<le> 102)"

definition is_whitespace :: "char \<Rightarrow> bool" where
  "is_whitespace c \<longleftrightarrow> (9 \<le> code c \<and> code c \<le> 13) \<or> code c = 32 \<or> code c = 133 \<or> code c = 160"

lemmas char_class_defs = is_ascii_lowercase_def is_ascii_digit_def is_lower_hexdigit_def
  is_whitespace_def

lemmas char_consts = nl_def cr_def dquote_def squote_def backslash_def

lemma char_code_neq: "code c \<noteq> code d \<Longrightarrow> c \<noteq> d"
  by auto

lemma char_eq_code: "c = d \<longleftrightarrow> code c = code d"
  by (metis char_of_char)

section \<open>Bytes and hexadecimal\<close>

text \<open>The UTF-8 bytes of a scalar value below 256: one byte below 128, two above.\<close>

definition utf8_char :: "char \<Rightarrow> nat list" where
  "utf8_char c = (if code c < 128 then [code c] else [192 + code c div 64, 128 + code c mod 64])"

definition utf8 :: "string \<Rightarrow> nat list" where
  "utf8 s = concat (map utf8_char s)"

text \<open>\<^verbatim>\<open>to_be_bytes\<close> and \<^verbatim>\<open>to_le_bytes\<close> of an unsigned integer of \<open>w\<close> bytes.\<close>

fun le_bytes :: "nat \<Rightarrow> nat \<Rightarrow> nat list" where
  "le_bytes 0 n = []"
| "le_bytes (Suc w) n = n mod 256 # le_bytes w (n div 256)"

definition be_bytes :: "nat \<Rightarrow> nat \<Rightarrow> nat list" where
  "be_bytes w n = rev (le_bytes w n)"

definition hex_digit :: "nat \<Rightarrow> char" where
  "hex_digit n = (if n < 10 then char_of (48 + n) else char_of (87 + n))"

definition hex :: "nat list \<Rightarrow> string" where
  "hex bytes = concat (map (\<lambda>b. [hex_digit (b div 16), hex_digit (b mod 16)]) bytes)"

lemma length_hex: "length (hex bytes) = 2 * length bytes"
  by (induction bytes) (simp_all add: hex_def)

lemma hex_digit_lower: "n < 16 \<Longrightarrow> is_lower_hexdigit (hex_digit n)"
  by (auto simp: hex_digit_def is_lower_hexdigit_def is_ascii_digit_def)

lemma hex_all_lower: "(\<forall>b \<in> set bytes. b < 256) \<Longrightarrow> list_all is_lower_hexdigit (hex bytes)"
  by (induction bytes) (auto simp: hex_def intro: hex_digit_lower)

lemma hex_digit_inj: "m < 16 \<Longrightarrow> n < 16 \<Longrightarrow> hex_digit m = hex_digit n \<Longrightarrow> m = n"
proof -
  assume *: "m < 16" "n < 16" "hex_digit m = hex_digit n"
  have code: "k < 16 \<Longrightarrow> code (hex_digit k) = (if k < 10 then 48 + k else 87 + k)" for k
    by (simp add: hex_digit_def)
  from *(3) have "code (hex_digit m) = code (hex_digit n)" by simp
  with code *(1,2) show "m = n" by (auto split: if_splits)
qed

lemma hex_inj:
  "\<forall>b \<in> set xs. b < 256 \<Longrightarrow> \<forall>b \<in> set ys. b < 256 \<Longrightarrow> hex xs = hex ys \<Longrightarrow> xs = ys"
proof (induction xs arbitrary: ys)
  case Nil
  then show ?case by (cases ys) (simp_all add: hex_def)
next
  case (Cons x xs)
  then obtain y ys' where ys: "ys = y # ys'" by (cases ys) (simp_all add: hex_def)
  with Cons.prems have "hex_digit (x div 16) = hex_digit (y div 16)"
    "hex_digit (x mod 16) = hex_digit (y mod 16)" "hex xs = hex ys'" by (simp_all add: hex_def)
  moreover from this Cons.prems ys have "x div 16 = y div 16" "x mod 16 = y mod 16"
    by (auto intro!: hex_digit_inj)
  ultimately show ?case using Cons ys by (metis div_mult_mod_eq list.set_intros(2))
qed

lemma utf8_char_inj_prefix:
  assumes "utf8_char c @ xs = utf8_char d @ ys"
  shows "c = d \<and> xs = ys"
proof -
  show ?thesis
  proof (cases "code c < 128")
    case True
    with assms have "code c = code d \<and> xs = ys"
      by (simp add: utf8_char_def split: if_splits)
    then show ?thesis using char_eq_code by blast
  next
    case False
    note hi = this
    show ?thesis
    proof (cases "code d < 128")
      case True
      then show ?thesis using assms hi by (auto simp: utf8_char_def)
    next
      case False
      with hi assms have "code c div 64 = code d div 64" "code c mod 64 = code d mod 64" "xs = ys"
        by (auto simp: utf8_char_def)
      then show ?thesis by (metis char_eq_code div_mult_mod_eq)
    qed
  qed
qed

lemma utf8_append: "utf8 (a @ b) = utf8 a @ utf8 b"
  by (simp add: utf8_def)

lemma utf8_ascii: "\<forall>c \<in> set s. code c < 128 \<Longrightarrow> utf8 s = map code s"
  by (induction s) (simp_all add: utf8_def utf8_char_def)

lemma utf8_inj: "utf8 s = utf8 t \<Longrightarrow> s = t"
proof (induction s arbitrary: t)
  case Nil
  then show ?case by (cases t) (auto simp: utf8_def utf8_char_def split: if_splits)
next
  case (Cons c s)
  then show ?case
  proof (cases t)
    case Nil
    with Cons.prems show ?thesis by (auto simp: utf8_def utf8_char_def split: if_splits)
  next
    case (Cons d t')
    with Cons.prems have "utf8_char c @ utf8 s = utf8_char d @ utf8 t'"
      by (simp add: utf8_def)
    then have "c = d" "utf8 s = utf8 t'" using utf8_char_inj_prefix by blast+
    with Cons.IH Cons show ?thesis by simp
  qed
qed

section \<open>String operations\<close>

fun strip_prefix :: "string \<Rightarrow> string \<Rightarrow> string option" where
  "strip_prefix [] s = Some s"
| "strip_prefix (p # ps) [] = None"
| "strip_prefix (p # ps) (c # cs) = (if p = c then strip_prefix ps cs else None)"

text \<open>\<^verbatim>\<open>slice::join(sep)\<close> of texts.\<close>

fun join :: "string \<Rightarrow> string list \<Rightarrow> string" where
  "join sep [] = []"
| "join sep [x] = x"
| "join sep (x # y # xs) = x @ sep @ join sep (y # xs)"

text \<open>\<^verbatim>\<open>str::split_once(ch)\<close>: the text before and after the first occurrence.\<close>

definition split_once :: "char \<Rightarrow> string \<Rightarrow> (string \<times> string) option" where
  "split_once ch s = (case dropWhile (\<lambda>c. c \<noteq> ch) s of
      [] \<Rightarrow> None
    | _ # rest \<Rightarrow> Some (takeWhile (\<lambda>c. c \<noteq> ch) s, rest))"

text \<open>\<^verbatim>\<open>str::split(ch)\<close>: never empty; adjacent separators give empty pieces.\<close>

fun split_on :: "char \<Rightarrow> string \<Rightarrow> string list" where
  "split_on ch [] = [[]]"
| "split_on ch (c # cs) =
     (if c = ch then [] # split_on ch cs
      else (case split_on ch cs of [] \<Rightarrow> [[c]] | p # ps \<Rightarrow> (c # p) # ps))"

definition strip_cr :: "string \<Rightarrow> string" where
  "strip_cr s = (if s \<noteq> [] \<and> last s = cr then butlast s else s)"

text \<open>
  \<^verbatim>\<open>str::lines\<close>: pieces ended by a line feed, which is dropped with a carriage return before
  it; a last piece with no line feed is kept as it is unless it is empty.
\<close>

function lines :: "string \<Rightarrow> string list" where
  "lines s = (case dropWhile (\<lambda>c. c \<noteq> nl) s of
      [] \<Rightarrow> (if s = [] then [] else [s])
    | _ # rest \<Rightarrow> strip_cr (takeWhile (\<lambda>c. c \<noteq> nl) s) # lines rest)"
  by pat_completeness auto
termination
proof (relation "measure length")
  fix s :: string and x :: char and rest
  assume "dropWhile (\<lambda>c. c \<noteq> nl) s = x # rest"
  then have "length (x # rest) \<le> length s" by (metis length_dropWhile_le)
  then show "(rest, s) \<in> measure length" by simp
qed simp

declare lines.simps [simp del]

lemma lines_Nil [simp]: "lines [] = []"
  by (simp add: lines.simps)

lemma lines_line:
  assumes "nl \<notin> set l"
  shows "lines (l @ nl # rest) = strip_cr l # lines rest"
proof -
  have "dropWhile (\<lambda>c. c \<noteq> nl) (l @ nl # rest) = nl # rest"
    and "takeWhile (\<lambda>c. c \<noteq> nl) (l @ nl # rest) = l"
    using assms by (auto simp: dropWhile_append takeWhile_append split: if_splits)
  then show ?thesis by (subst lines.simps) simp
qed

lemma lines_single:
  assumes "nl \<notin> set l" "l \<noteq> []"
  shows "lines l = [l]"
proof -
  have d: "dropWhile (\<lambda>c. c \<noteq> nl) l = []" using assms(1) by auto
  show ?thesis by (subst lines.simps) (simp only: d list.case assms(2) if_False)
qed

lemma lines_concat:
  assumes "\<forall>l \<in> set ls. nl \<notin> set l \<and> strip_cr l = l"
  shows "lines (concat (map (\<lambda>l. l @ [nl]) ls)) = ls"
  using assms by (induction ls) (simp_all add: lines_line)

lemma lines_no_nl: "l \<in> set (lines s) \<Longrightarrow> nl \<notin> set l"
proof (induction s rule: lines.induct)
  case (1 s)
  show ?case
  proof (cases "dropWhile (\<lambda>c. c \<noteq> nl) s")
    case Nil
    then have "nl \<notin> set s" by (auto simp: dropWhile_eq_Nil_conv)
    moreover have "lines s = (if s = [] then [] else [s])"
      by (subst lines.simps) (simp only: Nil list.case)
    ultimately show ?thesis using "1.prems" by (auto split: if_splits)
  next
    case (Cons x rest)
    have "nl \<notin> set (takeWhile (\<lambda>c. c \<noteq> nl) s)" by (auto dest: set_takeWhileD)
    then have "nl \<notin> set (strip_cr (takeWhile (\<lambda>c. c \<noteq> nl) s))"
      by (auto simp: strip_cr_def dest: in_set_butlastD)
    with Cons 1 show ?thesis by (subst (asm) lines.simps) auto
  qed
qed

lemma split_once_append:
  assumes "ch \<notin> set a"
  shows "split_once ch (a @ ch # b) = Some (a, b)"
proof -
  have "dropWhile (\<lambda>c. c \<noteq> ch) (a @ ch # b) = ch # b"
    and "takeWhile (\<lambda>c. c \<noteq> ch) (a @ ch # b) = a"
    using assms by (auto simp: dropWhile_append takeWhile_append split: if_splits)
  then show ?thesis by (simp add: split_once_def)
qed

lemma split_once_None: "split_once ch s = None \<longleftrightarrow> ch \<notin> set s"
proof -
  have "split_once ch s = None \<longleftrightarrow> dropWhile (\<lambda>c. c \<noteq> ch) s = []"
    by (cases "dropWhile (\<lambda>c. c \<noteq> ch) s") (simp_all only: split_once_def list.case, simp_all)
  then show ?thesis by (auto simp: dropWhile_eq_Nil_conv)
qed

lemma split_once_Some:
  assumes "split_once ch s = Some (a, b)"
  shows "s = a @ ch # b \<and> ch \<notin> set a"
proof -
  from assms obtain x where d: "dropWhile (\<lambda>c. c \<noteq> ch) s = x # b"
    and a: "a = takeWhile (\<lambda>c. c \<noteq> ch) s"
    by (auto simp: split_once_def split: list.splits)
  from d have "x = ch" by (metis (mono_tags, lifting) dropWhile_eq_Cons_conv)
  moreover have "s = a @ (x # b)" using a d by (metis takeWhile_dropWhile_id)
  moreover have "ch \<notin> set a" using a by (auto dest: set_takeWhileD)
  ultimately show ?thesis by simp
qed

lemma hd_split_on: "hd (split_on ch s) = takeWhile (\<lambda>c. c \<noteq> ch) s \<and> split_on ch s \<noteq> []"
  by (induction ch s rule: split_on.induct) (auto split: list.splits)

lemma strip_prefix_Some: "strip_prefix p s = Some t \<longleftrightarrow> s = p @ t"
  by (induction p s rule: strip_prefix.induct) auto

lemma strip_prefix_append [simp]: "strip_prefix p (p @ s) = Some s"
  by (simp add: strip_prefix_Some)

section \<open>Decimal integers\<close>

definition digit_char :: "nat \<Rightarrow> char" where
  "digit_char d = char_of (48 + d)"

definition digit_val :: "char \<Rightarrow> nat" where
  "digit_val c = code c - 48"

fun nat_str :: "nat \<Rightarrow> string" where
  "nat_str n = (if n < 10 then [digit_char n] else nat_str (n div 10) @ [digit_char (n mod 10)])"

declare nat_str.simps [simp del]

text \<open>\<^verbatim>\<open>i64::to_string\<close>.\<close>

definition int_str :: "int \<Rightarrow> string" where
  "int_str n = (if n < 0 then CHR ''-'' # nat_str (nat (- n)) else nat_str (nat n))"

definition nat_val :: "string \<Rightarrow> nat" where
  "nat_val s = foldl (\<lambda>a c. 10 * a + digit_val c) 0 s"

text \<open>
  \<^verbatim>\<open>str::parse::<i64>\<close>: an optional sign, then at least one ASCII digit and nothing else, and
  the value in range.
\<close>

definition parse_digits :: "(int \<Rightarrow> int) \<Rightarrow> string \<Rightarrow> int option" where
  "parse_digits f ds =
     (if ds \<noteq> [] \<and> list_all is_ascii_digit ds then checked (f (int (nat_val ds))) else None)"

definition parse_i64 :: "string \<Rightarrow> int option" where
  "parse_i64 s = (case s of
      [] \<Rightarrow> None
    | c # ds \<Rightarrow> if c = CHR ''-'' then parse_digits uminus ds
               else if c = CHR ''+'' then parse_digits id ds
               else parse_digits id s)"

lemma digit_char_code [simp]: "d < 10 \<Longrightarrow> code (digit_char d) = 48 + d"
  by (simp add: digit_char_def)

lemma digit_char_digit [simp]: "d < 10 \<Longrightarrow> is_ascii_digit (digit_char d)"
  by (simp add: is_ascii_digit_def)

lemma digit_val_char [simp]: "d < 10 \<Longrightarrow> digit_val (digit_char d) = d"
  by (simp add: digit_val_def)

lemma nat_str_digits: "list_all is_ascii_digit (nat_str n) \<and> nat_str n \<noteq> []"
proof (induction n rule: nat_str.induct)
  case (1 n)
  then show ?case by (subst (1 2) nat_str.simps) auto
qed

lemma nat_val_append: "nat_val (s @ [c]) = 10 * nat_val s + digit_val c"
  by (simp add: nat_val_def)

lemma nat_val_str [simp]: "nat_val (nat_str n) = n"
proof (induction n rule: nat_str.induct)
  case (1 n)
  show ?case
  proof (cases "n < 10")
    case True
    then show ?thesis by (subst nat_str.simps) (simp add: nat_val_def)
  next
    case False
    with 1 show ?thesis by (subst nat_str.simps) (simp add: nat_val_append)
  qed
qed

lemma int_str_nonempty [simp]: "int_str n \<noteq> []"
  using nat_str_digits by (simp add: int_str_def)

lemma int_str_chars: "c \<in> set (int_str n) \<Longrightarrow> c = CHR ''-'' \<or> is_ascii_digit c"
  using nat_str_digits by (auto simp: int_str_def list_all_iff split: if_splits)

lemma parse_i64_int_str:
  assumes "in_i64 n"
  shows "parse_i64 (int_str n) = Some n"
proof (cases "n < 0")
  case True
  then show ?thesis using nat_str_digits[of "nat (- n)"] assms
    by (simp add: int_str_def parse_i64_def parse_digits_def)
next
  case False
  then obtain c ds where s: "nat_str (nat n) = c # ds" and d: "is_ascii_digit c"
    using nat_str_digits[of "nat n"] by (cases "nat_str (nat n)") auto
  have "parse_digits id (c # ds) = Some n"
    using nat_str_digits[of "nat n"] nat_val_str[of "nat n"] False assms
    by (simp add: parse_digits_def s)
  moreover have "c \<noteq> CHR ''-''" "c \<noteq> CHR ''+''" using d by (auto simp: is_ascii_digit_def)
  ultimately show ?thesis using False s by (simp add: int_str_def parse_i64_def)
qed

lemma parse_i64_range: "parse_i64 s = Some n \<Longrightarrow> in_i64 n"
  by (auto simp: parse_i64_def parse_digits_def split: list.splits if_splits)

section \<open>Sorting and deduplication\<close>

text \<open>\<^verbatim>\<open>Vec::sort\<close> followed by \<^verbatim>\<open>Vec::dedup\<close>; also the keys of a \<^verbatim>\<open>BTreeSet\<close>.\<close>

definition sort_dedup :: "'a::linorder list \<Rightarrow> 'a list" where
  "sort_dedup xs = remdups_adj (sort xs)"

lemma set_sort_dedup [simp]: "set (sort_dedup xs) = set xs"
  by (simp add: sort_dedup_def)

lemma sorted_sort_dedup [simp]: "sorted (sort_dedup xs)"
  by (simp add: sort_dedup_def)

lemma sorted_remdups_adj_distinct: "sorted xs \<Longrightarrow> distinct (remdups_adj xs)"
proof (induction xs rule: remdups_adj.induct)
  case (3 x y xs)
  then show ?case by (cases "x = y") (auto simp: order.antisym)
qed simp_all

lemma distinct_sort_dedup [simp]: "distinct (sort_dedup xs)"
  by (simp add: sort_dedup_def sorted_remdups_adj_distinct)

lemma sort_dedup_eq_Nil [simp]: "sort_dedup xs = [] \<longleftrightarrow> xs = []"
  by (metis set_empty set_sort_dedup)

lemma sort_dedup_idem: "sort_dedup (sort_dedup xs) = sort_dedup xs"
proof -
  have "sort (sort_dedup xs) = sort_dedup xs" by (simp add: sorted_sort_id)
  then show ?thesis by (simp add: sort_dedup_def remdups_adj_distinct sorted_remdups_adj_distinct)
qed

section \<open>Lists with positions\<close>

text \<open>\<^verbatim>\<open>iter().enumerate().find(..)\<close>: the least position that satisfies the predicate.\<close>

fun find_index :: "('a \<Rightarrow> bool) \<Rightarrow> nat \<Rightarrow> 'a list \<Rightarrow> nat option" where
  "find_index p i [] = None"
| "find_index p i (x # xs) = (if p x then Some i else find_index p (Suc i) xs)"

lemma find_index_None: "find_index p i xs = None \<longleftrightarrow> (\<forall>x \<in> set xs. \<not> p x)"
  by (induction xs arbitrary: i) auto

section \<open>Ordered maps\<close>

text \<open>
  A \<^verbatim>\<open>BTreeMap\<close> is the list of its entries in key order; \<open>bt_wf\<close> is the representation
  invariant, \<open>map_of\<close> the lookup.
\<close>

type_synonym ('k, 'v) btree = "('k \<times> 'v) list"

definition bt_wf :: "('k::linorder, 'v) btree \<Rightarrow> bool" where
  "bt_wf m \<longleftrightarrow> sorted_wrt (<) (map fst m)"

fun bt_insert :: "'k::linorder \<Rightarrow> 'v \<Rightarrow> ('k, 'v) btree \<Rightarrow> ('k, 'v) btree" where
  "bt_insert k v [] = [(k, v)]"
| "bt_insert k v ((k', v') # m) =
     (if k < k' then (k, v) # (k', v') # m
      else if k = k' then (k, v) # m
      else (k', v') # bt_insert k v m)"

definition bt_has :: "('k, 'v) btree \<Rightarrow> 'k \<Rightarrow> bool" where
  "bt_has m k \<longleftrightarrow> map_of m k \<noteq> None"

lemma bt_has_iff: "bt_has m k \<longleftrightarrow> k \<in> fst ` set m"
  by (auto simp: bt_has_def map_of_eq_None_iff)

lemma bt_wf_simps [simp]: "bt_wf []" "bt_wf ((k, v) # m) \<longleftrightarrow> (\<forall>k' \<in> fst ` set m. k < k') \<and> bt_wf m"
  by (auto simp: bt_wf_def)

lemma set_keys_bt_insert [simp]: "fst ` set (bt_insert k v m) = insert k (fst ` set m)"
proof (induction m)
  case (Cons e m)
  obtain k' v' where e: "e = (k', v')" by (cases e)
  show ?case by (cases "k < k'"; cases "k = k'") (simp_all add: e Cons insert_commute)
qed simp

lemma bt_wf_insert [simp]: "bt_wf m \<Longrightarrow> bt_wf (bt_insert k v m)"
proof (induction m)
  case (Cons e m)
  obtain k' v' where e: "e = (k', v')" by (cases e)
  with Cons show ?case by (auto simp del: bt_wf_simps(2)) (auto simp: bt_wf_simps(2))
qed simp

lemma map_of_bt_insert [simp]:
  "bt_wf m \<Longrightarrow> map_of (bt_insert k v m) = (map_of m)(k \<mapsto> v)"
proof (induction m)
  case (Cons e m)
  then show ?case by (cases e) (auto simp: fun_eq_iff)
qed simp

lemma bt_wf_ext:
  assumes "bt_wf m" "bt_wf m'" "map_of m = map_of m'"
  shows "m = m'"
proof -
  have d: "distinct (map fst m)" "distinct (map fst m')"
    using assms(1,2) by (simp_all add: bt_wf_def strict_sorted_iff)
  have "sorted_wrt (<) (map fst m)" "sorted_wrt (<) (map fst m')"
    using assms(1,2) by (simp_all add: bt_wf_def)
  moreover have "set (map fst m) = set (map fst m')"
    using assms(3) by (metis dom_map_of_conv_image_fst set_map)
  ultimately have keys: "map fst m = map fst m'" by (simp add: strict_sorted_equal)
  moreover have "map (\<lambda>k. (k, the (map_of m k))) (map fst m) = m"
    if "distinct (map fst m)" for m :: "('a \<times> 'b) list"
    using that by (auto simp: comp_def intro!: map_idI dest: map_of_is_SomeI)
  ultimately show ?thesis using d assms(3) by metis
qed

section \<open>State machines\<close>

text \<open>
  The contract between a step relation and an invariant: the invariant holds at the start and every
  step keeps it, so it holds of every reachable state.
\<close>

locale invariant_system =
  fixes start :: "'s \<Rightarrow> bool"
    and step :: "'s \<Rightarrow> 's \<Rightarrow> bool"
    and inv :: "'s \<Rightarrow> bool"
  assumes inv_start: "start s \<Longrightarrow> inv s"
    and inv_step: "inv s \<Longrightarrow> step s t \<Longrightarrow> inv t"
begin

lemma inv_steps: "step\<^sup>*\<^sup>* s t \<Longrightarrow> inv s \<Longrightarrow> inv t"
  by (induction rule: rtranclp_induct) (auto intro: inv_step)

lemma inv_reachable: "start s \<Longrightarrow> step\<^sup>*\<^sup>* s t \<Longrightarrow> inv t"
  using inv_start inv_steps by blast

end

end
