(* ===== verification/Cermet_Sets.thy ===== *)
theory Cermet_Sets
  imports Cermet_Prelude
begin

text \<open>
  Sentence sets, \<^verbatim>\<open>crates/cermet-lang/src/sets.rs\<close>: the content-addressed expansion of a
  provider set, its self-check, the catalog with its recursive expansion, and the resolver that
  serves current and historical expansions. SHA-256 is the \<^verbatim>\<open>sha2\<close> package's: it is the
  parameter \<open>sha\<close>, a function on byte lists.

  The interface the sentence kernel relies on is the locale \<open>set_resolver\<close>; the catalog resolver
  is its interpretation.
\<close>

type_synonym sha_fun = "nat list \<Rightarrow> nat list"

definition sha_ok :: "sha_fun \<Rightarrow> bool" where
  "sha_ok sha \<longleftrightarrow> (\<forall>x. length (sha x) = 32 \<and> (\<forall>b \<in> set (sha x). b < 256))"

section \<open>Snapshots\<close>

record set_snapshot =
  ss_provider :: string
  ss_name :: string
  ss_digest :: string
  ss_members :: "string list"

definition set_valid_ident :: "string \<Rightarrow> bool" where
  "set_valid_ident v \<longleftrightarrow> v \<noteq> [] \<and>
     list_all (\<lambda>c. is_ascii_lowercase c \<or> is_ascii_digit c \<or> c = CHR ''_'') v"

definition hash_part :: "string \<Rightarrow> nat list" where
  "hash_part v = be_bytes 8 (length (utf8 v)) @ utf8 v"

definition snapshot_digest :: "sha_fun \<Rightarrow> string \<Rightarrow> string \<Rightarrow> string list \<Rightarrow> string" where
  "snapshot_digest sha provider name members =
     ''sha256:'' @ hex (sha (utf8 ''cermet-set-snapshot-v1'' @ hash_part provider @ hash_part name
                              @ concat (map hash_part members)))"

definition snapshot_new :: "sha_fun \<Rightarrow> string \<Rightarrow> string \<Rightarrow> string list \<Rightarrow> set_snapshot option" where
  "snapshot_new sha provider name members =
     (if \<not> set_valid_ident provider \<or> \<not> set_valid_ident name then None
      else let members = sort_dedup members in
        if members = [] \<or> list_ex (\<lambda>m. \<not> set_valid_ident m) members then None
        else Some \<lparr>ss_provider = provider, ss_name = name,
                   ss_digest = snapshot_digest sha provider name members, ss_members = members\<rparr>)"

definition is_for :: "sha_fun \<Rightarrow> set_snapshot \<Rightarrow> string \<Rightarrow> string \<Rightarrow> string \<Rightarrow> bool" where
  "is_for sha s provider name digest \<longleftrightarrow>
     ss_provider s = provider \<and> ss_name s = name \<and> ss_digest s = digest \<and>
     snapshot_new sha provider name (ss_members s) = Some s"

definition valid_snapshot_digest :: "string \<Rightarrow> bool" where
  "valid_snapshot_digest v = (case strip_prefix ''sha256:'' v of
      None \<Rightarrow> False
    | Some h \<Rightarrow> length h = 64 \<and> list_all is_lower_hexdigit h)"

section \<open>Resolvers\<close>

text \<open>
  \<^verbatim>\<open>trait SetResolver\<close>: the current expansion of a set, and an expansion by its digest.
\<close>

record set_resolver_t =
  current_snapshot :: "string \<Rightarrow> string \<Rightarrow> set_snapshot option"
  snapshot :: "string \<Rightarrow> string \<Rightarrow> string \<Rightarrow> set_snapshot option"

text \<open>The trait's default method, and the resolver with no sets.\<close>

definition default_snapshot :: "sha_fun \<Rightarrow> (string \<Rightarrow> string \<Rightarrow> set_snapshot option)
    \<Rightarrow> string \<Rightarrow> string \<Rightarrow> string \<Rightarrow> set_snapshot option" where
  "default_snapshot sha current provider nm digest =
     opt_filter (\<lambda>s. is_for sha s provider nm digest) (current provider nm)"

definition empty_set_resolver :: "sha_fun \<Rightarrow> set_resolver_t" where
  "empty_set_resolver sha =
     \<lparr>current_snapshot = (\<lambda>_ _. None), snapshot = default_snapshot sha (\<lambda>_ _. None)\<rparr>"

section \<open>The catalog\<close>

record set_definition =
  sd_members :: "string list"
  sd_include :: "string list"
  sd_history :: "(string, string list) btree"

type_synonym set_catalog = "(string, (string, set_definition) btree) btree"

text \<open>\<^verbatim>\<open>retain(|a| seen.insert(a))\<close>: the first occurrence of each element is kept.\<close>

fun retain_new :: "string list \<Rightarrow> string list \<Rightarrow> string list" where
  "retain_new seen [] = []"
| "retain_new seen (a # as) =
     (if a \<in> set seen then retain_new seen as else a # retain_new (a # seen) as)"

text \<open>
  \<^verbatim>\<open>expand\<close>. The visiting set is back at its value on entry whenever a call returns
  \<open>Some\<close>, and a \<open>None\<close> aborts every caller, so it is passed down only.
\<close>

function expand :: "(string, set_definition) btree \<Rightarrow> string \<Rightarrow> string list \<Rightarrow> string list option"
  and expand_included ::
    "(string, set_definition) btree \<Rightarrow> string list \<Rightarrow> string list \<Rightarrow> string list option" where
  "expand sets name visiting =
     (if name \<in> set visiting then None
      else case map_of sets name of
        None \<Rightarrow> None
      | Some d \<Rightarrow>
          map_option (\<lambda>included. retain_new [] (sd_members d @ included))
            (expand_included sets (sd_include d) (name # visiting)))"
| "expand_included sets [] visiting = Some []"
| "expand_included sets (i # is) visiting =
     (case expand sets i visiting of
        None \<Rightarrow> None
      | Some actions \<Rightarrow> map_option ((@) actions) (expand_included sets is visiting))"
  by pat_completeness auto
termination
proof (relation "inv_image (less_than <*lex*> less_than) (\<lambda>x. case x of
      Inl (sets, name, visiting) \<Rightarrow> (card (fst ` set sets - set visiting), 0::nat)
    | Inr (sets, is, visiting) \<Rightarrow> (card (fst ` set sets - set visiting), Suc (length is)))")
  fix sets :: "(string, set_definition) btree" and name visiting d
  assume "name \<notin> set visiting" "map_of sets name = Some d"
  then have "name \<in> fst ` set sets - set visiting"
    by (metis DiffI map_of_eq_None_iff option.distinct(1))
  moreover have "fst ` set sets - set (name # visiting) = fst ` set sets - set visiting - {name}"
    by auto
  ultimately have "card (fst ` set sets - set (name # visiting)) < card (fst ` set sets - set visiting)"
    by (metis card_Diff1_less finite_Diff finite_imageI finite_set)
  then show "(Inr (sets, sd_include d, name # visiting), Inl (sets, name, visiting))
      \<in> inv_image (less_than <*lex*> less_than) (\<lambda>x. case x of
        Inl (sets, name, visiting) \<Rightarrow> (card (fst ` set sets - set visiting), 0::nat)
      | Inr (sets, is, visiting) \<Rightarrow> (card (fst ` set sets - set visiting), Suc (length is)))"
    by simp
qed auto

declare expand.simps(1) [simp del]

definition current_snapshot_from_catalog ::
    "sha_fun \<Rightarrow> set_catalog \<Rightarrow> string \<Rightarrow> string \<Rightarrow> set_snapshot option" where
  "current_snapshot_from_catalog sha cat provider nm =
     Option.bind (map_of cat provider) (\<lambda>sets.
     Option.bind (expand sets nm []) (\<lambda>members. snapshot_new sha provider nm members))"

definition named_snapshot_from_catalog ::
    "sha_fun \<Rightarrow> set_catalog \<Rightarrow> string \<Rightarrow> string \<Rightarrow> string \<Rightarrow> set_snapshot option" where
  "named_snapshot_from_catalog sha cat provider nm name =
     (if \<not> set_valid_ident name then None
      else Option.bind (map_of cat provider) (\<lambda>sets.
           Option.bind (map_of sets nm) (\<lambda>d.
           Option.bind (map_of (sd_history d) name) (\<lambda>members.
           snapshot_new sha provider nm members))))"

definition historical_snapshots ::
    "sha_fun \<Rightarrow> string \<Rightarrow> string \<Rightarrow> set_definition \<Rightarrow> set_snapshot list" where
  "historical_snapshots sha provider nm d =
     List.map_filter (\<lambda>(_, members). snapshot_new sha provider nm members) (sd_history d)"

definition snapshot_from_catalog ::
    "sha_fun \<Rightarrow> set_catalog \<Rightarrow> string \<Rightarrow> string \<Rightarrow> string \<Rightarrow> set_snapshot option" where
  "snapshot_from_catalog sha cat provider nm digest =
     (if \<not> valid_snapshot_digest digest then None
      else case opt_filter (\<lambda>s. is_for sha s provider nm digest)
                  (current_snapshot_from_catalog sha cat provider nm) of
        Some s \<Rightarrow> Some s
      | None \<Rightarrow>
          Option.bind (map_of cat provider) (\<lambda>sets.
          Option.bind (map_of sets nm) (\<lambda>d.
          find (\<lambda>s. is_for sha s provider nm digest) (historical_snapshots sha provider nm d))))"

definition vendored_set_resolver :: "sha_fun \<Rightarrow> set_catalog \<Rightarrow> set_resolver_t" where
  "vendored_set_resolver sha cat =
     \<lparr>current_snapshot = current_snapshot_from_catalog sha cat,
      snapshot = snapshot_from_catalog sha cat\<rparr>"

definition vendored_set_actions :: "set_catalog \<Rightarrow> string \<Rightarrow> string \<Rightarrow> string list" where
  "vendored_set_actions cat provider nm = (case map_of cat provider of
      None \<Rightarrow> []
    | Some sets \<Rightarrow> (case expand sets nm [] of None \<Rightarrow> [] | Some xs \<Rightarrow> xs))"

section \<open>Facts on snapshots\<close>

lemma snapshot_new_Some:
  assumes "snapshot_new sha p n ms = Some s"
  shows "ss_provider s = p \<and> ss_name s = n \<and> ss_members s = sort_dedup ms \<and>
         ss_digest s = snapshot_digest sha p n (ss_members s) \<and> ss_members s \<noteq> [] \<and>
         (\<forall>m \<in> set (ss_members s). set_valid_ident m)"
  using assms by (auto simp: snapshot_new_def Let_def list_ex_iff split: if_splits)

lemma snapshot_new_canonical:
  assumes "snapshot_new sha p n ms = Some s"
  shows "snapshot_new sha p n (ss_members s) = Some s"
proof -
  have eq: "sort_dedup (ss_members s) = sort_dedup ms"
    using snapshot_new_Some[OF assms] by (simp add: sort_dedup_idem)
  show ?thesis using assms unfolding snapshot_new_def eq .
qed

lemma snapshot_new_is_for:
  assumes "snapshot_new sha p n ms = Some s"
  shows "is_for sha s p n (ss_digest s)"
  using snapshot_new_Some[OF assms] snapshot_new_canonical[OF assms] by (simp add: is_for_def)

lemma is_for_members:
  assumes "is_for sha s p n d"
  shows "ss_members s \<noteq> [] \<and> sorted (ss_members s) \<and> distinct (ss_members s) \<and>
         (\<forall>m \<in> set (ss_members s). set_valid_ident m)"
  using snapshot_new_Some[of sha p n "ss_members s" s] assms
  by (metis distinct_sort_dedup is_for_def sorted_sort_dedup)

lemma is_for_digest: "is_for sha s p n d \<Longrightarrow> ss_digest s = d"
  by (simp add: is_for_def)

lemma snapshot_digest_valid:
  assumes "\<forall>b. length (sha b) = 32 \<and> (\<forall>x \<in> set (sha b). x < 256)"
  shows "valid_snapshot_digest (snapshot_digest sha p n ms)"
proof -
  define h where "h = hex (sha (utf8 ''cermet-set-snapshot-v1'' @ hash_part p @ hash_part n
                              @ concat (map hash_part ms)))"
  have "length h = 64" "list_all is_lower_hexdigit h"
    using assms by (simp_all add: h_def length_hex hex_all_lower)
  moreover have "strip_prefix ''sha256:'' (''sha256:'' @ h) = Some h"
    by (simp add: strip_prefix_Some)
  ultimately show ?thesis
    by (simp add: valid_snapshot_digest_def snapshot_digest_def h_def)
qed

section \<open>The resolver interface\<close>

text \<open>
  What a client may assume of a resolver: an expansion served under a key belongs to that key,
  and the current expansion of a set is still served under its own digest.
\<close>

locale set_resolver =
  fixes sha :: sha_fun
    and current :: "string \<Rightarrow> string \<Rightarrow> set_snapshot option"
    and by_digest :: "string \<Rightarrow> string \<Rightarrow> string \<Rightarrow> set_snapshot option"
  assumes current_self: "current p n = Some s \<Longrightarrow> is_for sha s p n (ss_digest s)"
    and by_digest_key: "by_digest p n d = Some s \<Longrightarrow> is_for sha s p n d"
    and current_retained:
      "current p n = Some s \<Longrightarrow> valid_snapshot_digest (ss_digest s) \<Longrightarrow>
       by_digest p n (ss_digest s) = Some s"
begin

lemma by_digest_members:
  assumes "by_digest p n d = Some s"
  shows "ss_members s \<noteq> [] \<and> sorted (ss_members s) \<and> distinct (ss_members s) \<and>
         (\<forall>m \<in> set (ss_members s). set_valid_ident m)"
  using is_for_members[OF by_digest_key[OF assms]] .

lemma pin_then_lookup:
  assumes "current p n = Some s" "valid_snapshot_digest (ss_digest s)"
  shows "\<exists>s'. by_digest p n (ss_digest s) = Some s' \<and> ss_members s' = ss_members s \<and>
              is_for sha s' p n (ss_digest s)"
  using assms current_retained current_self by blast

end

lemma snapshot_from_catalog_is_for:
  "snapshot_from_catalog sha cat p n d = Some s \<Longrightarrow> is_for sha s p n d"
  by (auto simp: snapshot_from_catalog_def find_Some_iff bind_eq_Some_conv
      split: if_splits option.splits)

lemma current_snapshot_is_for:
  "current_snapshot_from_catalog sha cat p n = Some s \<Longrightarrow> is_for sha s p n (ss_digest s)"
  by (auto simp: current_snapshot_from_catalog_def bind_eq_Some_conv intro: snapshot_new_is_for)

interpretation vendored: set_resolver sha "current_snapshot_from_catalog sha cat"
    "snapshot_from_catalog sha cat" for sha cat
proof unfold_locales
  fix p n s
  assume c: "current_snapshot_from_catalog sha cat p n = Some s"
  then show "is_for sha s p n (ss_digest s)" by (rule current_snapshot_is_for)
  assume "valid_snapshot_digest (ss_digest s)"
  with c show "snapshot_from_catalog sha cat p n (ss_digest s) = Some s"
    by (simp add: snapshot_from_catalog_def current_snapshot_is_for)
qed (rule snapshot_from_catalog_is_for)

interpretation no_sets: set_resolver sha "current_snapshot (empty_set_resolver sha)"
    "snapshot (empty_set_resolver sha)" for sha
  by unfold_locales (simp_all add: empty_set_resolver_def default_snapshot_def)

section \<open>The expansion is the closure under inclusion\<close>

inductive set_reaches :: "(string, set_definition) btree \<Rightarrow> string \<Rightarrow> string \<Rightarrow> bool" for sets where
  here: "set_reaches sets n n"
| step: "map_of sets n = Some d \<Longrightarrow> i \<in> set (sd_include d) \<Longrightarrow> set_reaches sets i m \<Longrightarrow>
         set_reaches sets n m"

lemma set_retain_new [simp]: "set (retain_new seen xs) = set xs - set seen"
  by (induction seen xs rule: retain_new.induct) auto

lemma distinct_retain_new: "distinct (retain_new seen xs)"
  by (induction seen xs rule: retain_new.induct) auto

lemma expand_Some:
  assumes "expand sets n vis = Some xs"
  shows "n \<notin> set vis \<and> (\<exists>d ys. map_of sets n = Some d \<and>
           expand_included sets (sd_include d) (n # vis) = Some ys \<and>
           xs = retain_new [] (sd_members d @ ys))"
  using assms by (subst (asm) expand.simps) (auto split: if_splits option.splits)

lemma expand_included_Some:
  "expand_included sets is vis = Some ys \<Longrightarrow> i \<in> set is \<Longrightarrow> \<exists>zs. expand sets i vis = Some zs"
  by (induction "is" arbitrary: ys) (auto split: option.splits)

lemma expand_avoids:
  "expand sets n vis = Some xs \<Longrightarrow> set_reaches sets n m \<Longrightarrow> m \<notin> set vis"
proof (rotate_tac, induction n m arbitrary: xs vis rule: set_reaches.induct)
  case (here n)
  then show ?case using expand_Some by blast
next
  case (step n d i m)
  obtain ys where "expand_included sets (sd_include d) (n # vis) = Some ys"
    using expand_Some[OF step.prems] step.hyps(1) by auto
  then obtain zs where "expand sets i (n # vis) = Some zs"
    using expand_included_Some step.hyps(2) by blast
  from step.IH[OF this] show ?case by simp
qed

text \<open>The actions a set contributes: its own and those of the sets it reaches.\<close>

definition set_actions :: "(string, set_definition) btree \<Rightarrow> string \<Rightarrow> string set" where
  "set_actions sets n =
     {a. \<exists>m d. set_reaches sets n m \<and> map_of sets m = Some d \<and> a \<in> set (sd_members d)}"

lemma set_actions_unfold:
  assumes "map_of sets n = Some d"
  shows "set_actions sets n = set (sd_members d) \<union> (\<Union>i \<in> set (sd_include d). set_actions sets i)"
  using assms
  by (auto simp: set_actions_def intro: set_reaches.intros elim: set_reaches.cases)

lemma expand_members:
  "expand sets n vis = Some xs \<Longrightarrow> set xs = set_actions sets n"
  "expand_included sets is vis = Some ys \<Longrightarrow> set ys = (\<Union>i \<in> set is. set_actions sets i)"
proof (induction sets n vis and sets "is" vis arbitrary: xs and ys rule: expand_expand_included.induct)
  case (1 sets n vis)
  obtain d ys where n: "n \<notin> set vis" and d: "map_of sets n = Some d"
    and ys: "expand_included sets (sd_include d) (n # vis) = Some ys"
    and xs: "xs = retain_new [] (sd_members d @ ys)"
    using expand_Some[OF "1.prems"] by blast
  from "1.IH"[OF n d ys] show ?case by (simp add: xs set_actions_unfold[OF d])
next
  case (3 sets i "is" vis)
  then show ?case by (auto split: option.splits)
qed simp

section \<open>Properties\<close>

text \<open>
  Expanding a catalog set that succeeds gives, without duplicates, exactly the actions listed
  by the sets it includes, directly or through other sets, and none of the sets on the way
  includes itself again: cyclic data never expands.
\<close>

theorem expand_is_closure:
  assumes "expand sets n [] = Some xs"
  shows "distinct xs \<and> set xs = set_actions sets n \<and>
         \<not> (\<exists>d i. map_of sets n = Some d \<and> i \<in> set (sd_include d) \<and> set_reaches sets i n)"
proof (intro conjI)
  obtain d ys where d: "map_of sets n = Some d"
    and ys: "expand_included sets (sd_include d) [n] = Some ys"
    and xs: "xs = retain_new [] (sd_members d @ ys)"
    using expand_Some[OF assms] by blast
  show "distinct xs" by (simp add: xs distinct_retain_new)
  show "set xs = set_actions sets n" using expand_members(1)[OF assms] .
  show "\<not> (\<exists>d i. map_of sets n = Some d \<and> i \<in> set (sd_include d) \<and> set_reaches sets i n)"
    using d expand_included_Some[OF ys] expand_avoids by fastforce
qed

theorem expand_is_closure_witness:
  "set_actions [(''r'', \<lparr>sd_members = [''b''], sd_include = [], sd_history = []\<rparr>),
           (''w'', \<lparr>sd_members = [''a''], sd_include = [''r''], sd_history = []\<rparr>)] ''w''
     = {''a'', ''b''} \<and>
   expand [(''r'', \<lparr>sd_members = [''b''], sd_include = [], sd_history = []\<rparr>),
           (''w'', \<lparr>sd_members = [''a''], sd_include = [''r''], sd_history = []\<rparr>)] ''w'' []
     = Some [''a'', ''b'']"
proof -
  let ?c = "[(''r'', \<lparr>sd_members = [''b''], sd_include = [], sd_history = []\<rparr>),
             (''w'', \<lparr>sd_members = [''a''], sd_include = [''r''], sd_history = []\<rparr>)]"
  have e: "expand ?c ''w'' [] = Some [''a'', ''b'']" by code_simp
  from expand_is_closure[OF this] e show ?thesis by simp
qed

end
