(* ===== verification/Sentence_Syntax.thy ===== *)
theory Sentence_Syntax
  imports Cermet_Prelude Cermet_Sets
begin

text \<open>
  The sentence language as text, \<^verbatim>\<open>crates/cermet-lang/src/sentence.rs\<close>: the abstract syntax of
  rules, the lexer, the recursive-descent parser over its cursor, the canonical printer, the
  structural well-formedness check and the identity digests of canonical text.

  A parse error is \<open>AtLine\<close> with the line number and the source's message; the refusals that
  concern a whole request are \<open>Request\<close> with one constructor for each message. The cursor of the
  parser is the list of tokens not yet consumed. The number of a line is a \<open>nat\<close>.
\<close>

section \<open>Abstract syntax\<close>

datatype rule_effect = Allow | Deny

datatype window = Hour | Day

datatype aggregate_kind = Budget "string option" | Rate

record aggregate =
  ag_kind :: aggregate_kind
  ag_limit :: int
  ag_window :: window

datatype selector = SetSel string string "string option" | VerbSel string string

datatype sscalar = SInt int | SString string | SBool bool

datatype pred =
    PEq string sscalar
  | PLte string int
  | PGte string int
  | PIn string "sscalar list"

record rule =
  r_effect :: rule_effect
  r_selector :: selector
  r_conjuncts :: "pred list"
  r_aggregate :: "aggregate option"

record rule_set =
  rs_version :: nat
  rs_rules :: "rule list"

definition RULE_SET_VERSION :: nat where "RULE_SET_VERSION = 1"

definition human_rule_number :: "nat \<Rightarrow> nat" where
  "human_rule_number rule_idx = rule_idx + 1"

definition rule_index_from_human :: "nat \<Rightarrow> nat option" where
  "rule_index_from_human number = (if number = 0 then None else Some (number - 1))"

fun pred_field :: "pred \<Rightarrow> string" where
  "pred_field (PEq field _) = field"
| "pred_field (PLte field _) = field"
| "pred_field (PGte field _) = field"
| "pred_field (PIn field _) = field"

text \<open>
  The refusals of corpus preparation: the stored-subset check, unresolved references, and an allow
  rule that shadows a metered one.
\<close>

datatype subset_error = SubsetUnsupportedVersion nat | SubsetInvalidRule nat | SubsetUnpinnedSet

datatype reference_error =
    UnresolvedVerb nat string string
  | UnresolvedSet nat string string
  | UnresolvedSetMember nat string string
  | UnresolvedField nat string

record shadow_error =
  sh_plain_idx :: nat
  sh_aggregate_idx :: nat
  sh_provider :: string
  sh_action :: string
  sh_earlier_meters_differently :: bool

datatype request_error =
    UnsupportedRulesVersion nat
  | SetDoesNotResolve string string
  | TemporalDisabled nat
  | SubsetInvalid subset_error
  | SelectorUnresolved
  | SecretConstrained string
  | UnresolvedReference reference_error
  | ShadowsAggregate shadow_error
  | MoneyNotProjectable nat string string
  | MoneyConjunct nat string string string
  | SnapshotGone string string

datatype sentence_error = AtLine nat string | Request request_error

section \<open>Lexical classes\<close>

definition valid_ident :: "string \<Rightarrow> bool" where
  "valid_ident v \<longleftrightarrow> v \<noteq> [] \<and>
     list_all (\<lambda>c. is_ascii_lowercase c \<or> is_ascii_digit c \<or> c = CHR ''_'') v"

definition valid_provider_ident :: "string \<Rightarrow> bool" where
  "valid_provider_ident v \<longleftrightarrow> v \<noteq> [] \<and>
     list_all (\<lambda>c. is_ascii_lowercase c \<or> is_ascii_digit c \<or> c = CHR ''_'' \<or> c = CHR ''-'') v"

definition integer_literal :: "string \<Rightarrow> bool" where
  "integer_literal v =
     (let digits = (case v of
          [] \<Rightarrow> v
        | c # cs \<Rightarrow> if c = CHR ''-'' \<or> c = CHR ''+'' then cs else v)
      in digits \<noteq> [] \<and> list_all is_ascii_digit digits)"

definition is_reserved_aggregate_keyword :: "string \<Rightarrow> bool" where
  "is_reserved_aggregate_keyword v \<longleftrightarrow> v = ''budget'' \<or> v = ''rate''"

definition valid_field :: "string \<Rightarrow> bool" where
  "valid_field v \<longleftrightarrow> \<not> integer_literal v \<and> \<not> is_reserved_aggregate_keyword v \<and>
     list_all valid_ident (split_on (CHR ''.'') v)"

section \<open>The lexer\<close>

datatype token =
    Word string
  | Quoted string
  | TEq
  | TLte
  | TGte
  | LeftBrace
  | RightBrace
  | Comma

text \<open>
  \<^verbatim>\<open>without_comment\<close>: the text before the first number sign outside a quoted string. The two
  flags are the loop's variables.
\<close>

fun strip_comment :: "bool \<Rightarrow> bool \<Rightarrow> string \<Rightarrow> string" where
  "strip_comment quoted escaped [] = []"
| "strip_comment quoted escaped (ch # rest) =
     (if escaped then ch # strip_comment quoted False rest
      else if ch = backslash \<and> quoted then ch # strip_comment quoted True rest
      else if ch = dquote then ch # strip_comment (\<not> quoted) False rest
      else if ch = CHR ''#'' \<and> \<not> quoted then []
      else ch # strip_comment quoted False rest)"

definition without_comment :: "string \<Rightarrow> string" where
  "without_comment line = strip_comment False False line"

text \<open>The value of a quoted string and the text after its closing quote.\<close>

fun tokenize_string :: "nat \<Rightarrow> string \<Rightarrow> sentence_error + string \<times> string" where
  "tokenize_string line [] = Err (AtLine line ''unterminated quoted string'')"
| "tokenize_string line (ch # rest) =
     (if ch = dquote then Ok ([], rest)
      else if ch = backslash then
        (case rest of
           [] \<Rightarrow> Err (AtLine line ''unterminated string escape'')
         | esc # rest' \<Rightarrow>
             if esc = dquote \<or> esc = backslash
             then map_sum id (apfst ((#) esc)) (tokenize_string line rest')
             else Err (AtLine line
               (''the only string escapes are `'' @ [backslash, dquote] @ ''` and `'' @
                [backslash, backslash] @ ''`'')))
      else map_sum id (apfst ((#) ch)) (tokenize_string line rest))"

definition word_char :: "char \<Rightarrow> bool" where
  "word_char c \<longleftrightarrow> \<not> is_whitespace c \<and>
     c \<notin> {CHR ''='', CHR ''<'', CHR ''>'', CHR ''{'', CHR ''}'', CHR '','', dquote}"

lemma tokenize_string_shorter:
  "tokenize_string line s = Ok (v, rest) \<Longrightarrow> length rest < length s"
proof (induction line s arbitrary: v rest rule: tokenize_string.induct)
  case (2 line ch rs)
  show ?case
  proof (cases "ch = dquote")
    case True
    with "2.prems" show ?thesis by simp
  next
    case nq: False
    show ?thesis
    proof (cases "ch = backslash")
      case True
      with "2.prems" nq obtain esc rs' where rs: "rs = esc # rs'"
        and esc: "esc = dquote \<or> esc = backslash"
        by (auto split: list.splits if_splits)
      with "2.prems" nq True obtain v' where "tokenize_string line rs' = Ok (v', rest)"
        by (cases "tokenize_string line rs'") (auto split: if_splits)
      from "2.IH"(1)[OF nq True rs esc this] show ?thesis by (simp add: rs)
    next
      case False
      with "2.prems" nq obtain v' where "tokenize_string line rs = Ok (v', rest)"
        by (cases "tokenize_string line rs") auto
      from "2.IH"(2)[OF nq False this] show ?thesis by simp
    qed
  qed
qed simp

definition push_token :: "token \<Rightarrow> sentence_error + token list \<Rightarrow> sentence_error + token list" where
  "push_token t r = map_sum id ((#) t) r"

function tokenize :: "nat \<Rightarrow> string \<Rightarrow> sentence_error + token list" where
  "tokenize line [] = Ok []"
| "tokenize line (ch # rest) =
     (if is_whitespace ch then tokenize line rest
      else if ch = CHR ''='' then
        (case rest of
           c # rest' \<Rightarrow> if c = CHR ''='' then push_token TEq (tokenize line rest')
                       else push_token TEq (tokenize line rest)
         | [] \<Rightarrow> push_token TEq (tokenize line rest))
      else if ch = CHR ''<'' \<or> ch = CHR ''>'' then
        (case rest of
           c # rest' \<Rightarrow>
             if c = CHR ''='' then push_token (if ch = CHR ''<'' then TLte else TGte) (tokenize line rest')
             else Err (AtLine line ''unsupported comparator; expected `<=` or `>=`'')
         | [] \<Rightarrow> Err (AtLine line ''unsupported comparator; expected `<=` or `>=`''))
      else if ch = CHR ''{'' then push_token LeftBrace (tokenize line rest)
      else if ch = CHR ''}'' then push_token RightBrace (tokenize line rest)
      else if ch = CHR '','' then push_token Comma (tokenize line rest)
      else if ch = dquote then
        (case tokenize_string line rest of
           Inl e \<Rightarrow> Err e
         | Inr (v, next) \<Rightarrow> push_token (Quoted v) (tokenize line next))
      else push_token (Word (ch # takeWhile word_char rest))
             (tokenize line (dropWhile word_char rest)))"
  by pat_completeness auto
termination
  by (relation "measure (length \<circ> snd)")
     (auto simp: le_imp_less_Suc length_dropWhile_le dest: tokenize_string_shorter less_SucI)

declare tokenize.simps(2) [simp del]

section \<open>The cursor\<close>

type_synonym cursor = "token list"

definition cursor_done :: "cursor \<Rightarrow> bool" where "cursor_done cur \<longleftrightarrow> cur = []"

definition peek :: "cursor \<Rightarrow> token option" where
  "peek cur = (case cur of [] \<Rightarrow> None | t # _ \<Rightarrow> Some t)"

definition expect :: "nat \<Rightarrow> token \<Rightarrow> string \<Rightarrow> cursor \<Rightarrow> sentence_error + cursor" where
  "expect line expected lbl cur = (case cur of
      t # rest \<Rightarrow> if t = expected then Ok rest else Err (AtLine line (''expected '' @ lbl))
    | [] \<Rightarrow> Err (AtLine line (''expected '' @ lbl)))"

definition expect_word :: "nat \<Rightarrow> string \<Rightarrow> cursor \<Rightarrow> sentence_error + cursor" where
  "expect_word line expected cur = (case cur of
      Word w # rest \<Rightarrow> if w = expected then Ok rest
                       else Err (AtLine line (''expected `'' @ expected @ ''`''))
    | _ \<Rightarrow> Err (AtLine line (''expected `'' @ expected @ ''`'')))"

definition take_word :: "nat \<Rightarrow> string \<Rightarrow> cursor \<Rightarrow> sentence_error + string \<times> cursor" where
  "take_word line lbl cur = (case cur of
      Word w # rest \<Rightarrow> Ok (w, rest)
    | _ \<Rightarrow> Err (AtLine line (''expected '' @ lbl)))"

definition take_integer :: "nat \<Rightarrow> cursor \<Rightarrow> sentence_error + int \<times> cursor" where
  "take_integer line cur =
     res_bind (take_word line ''integer'' cur) (\<lambda>(raw, rest).
     res_bind (ok_or (AtLine line ''expected an integer'') (parse_i64 raw)) (\<lambda>n.
     Ok (n, rest)))"

text \<open>\<^verbatim>\<open>quote_string\<close> escapes the two characters the lexer unescapes.\<close>

fun escape :: "string \<Rightarrow> string" where
  "escape [] = []"
| "escape (ch # rest) =
     (if ch = dquote then [backslash, dquote]
      else if ch = backslash then [backslash, backslash]
      else [ch]) @ escape rest"

definition quote_string :: "string \<Rightarrow> string" where
  "quote_string v = dquote # escape v @ [dquote]"

definition take_scalar :: "nat \<Rightarrow> string \<Rightarrow> cursor \<Rightarrow> sentence_error + sscalar \<times> cursor" where
  "take_scalar line field cur = (case cur of
      Quoted v # rest \<Rightarrow> Ok (SString v, rest)
    | Word v # rest \<Rightarrow>
        if integer_literal v then
          res_bind (ok_or (AtLine line ''expected an integer'') (parse_i64 v)) (\<lambda>n. Ok (SInt n, rest))
        else if v = ''true'' then Ok (SBool True, rest)
        else if v = ''false'' then Ok (SBool False, rest)
        else Err (AtLine line (''string values are quoted: '' @ field @ '' = '' @ quote_string v))
    | _ \<Rightarrow> Err (AtLine line
        (''expected a literal: an integer, `true`/`false`, or a quoted string (string values are quoted: ''
          @ field @ '' = '' @ [dquote] @ ''...'' @ [dquote] @ '')'')))"

section \<open>The parser\<close>

definition parse_selector :: "nat \<Rightarrow> string \<Rightarrow> sentence_error + selector" where
  "parse_selector line raw =
     (if CHR '':'' \<in> set (hd (split_on (CHR ''@'') raw)) then
        Err (AtLine line
          ''set-prefix forms are reserved; write the verb bare: `allow provider.action`'')
      else
        res_bind
          (case split_once (CHR ''@'') raw of
             Some (sel, digest) \<Rightarrow>
               if CHR ''@'' \<notin> set digest \<and> valid_snapshot_digest digest
               then Ok (sel, Some digest)
               else Err (AtLine line
                 ''set snapshot must be `@sha256:` followed by 64 lowercase hex characters'')
           | None \<Rightarrow> Ok (raw, None))
          (\<lambda>(raw, digest).
             case split_once (CHR ''.'') raw of
               None \<Rightarrow> Err (AtLine line ''selector must be `provider.name`'')
             | Some (provider, name) \<Rightarrow>
                 if CHR ''.'' \<in> set name \<or> \<not> valid_provider_ident provider \<or> \<not> valid_ident name
                 then Err (AtLine line ''invalid selector'')
                 else Ok (case digest of
                      Some d \<Rightarrow> SetSel provider name (Some d)
                    | None \<Rightarrow> VerbSel provider name)))"

definition parse_aggregate :: "nat \<Rightarrow> cursor \<Rightarrow> sentence_error + aggregate \<times> cursor" where
  "parse_aggregate line cur =
     res_bind (take_word line ''`budget` or `rate`'' cur) (\<lambda>(keyword, cur).
     res_bind
       (if keyword = ''budget'' then
          (case cur of
             Word w # rest \<Rightarrow>
               if integer_literal w then Ok (Budget None, cur)
               else if \<not> valid_field w then Err (AtLine line ''invalid budget field name'')
               else Ok (Budget (Some w), rest)
           | _ \<Rightarrow> Err (AtLine line ''expected a field or a positive integer after `budget`''))
        else
          (case cur of
             Word w # rest \<Rightarrow>
               if \<not> integer_literal w then
                 Err (AtLine line ''`rate` takes no field; write `rate <positive-int> per <window>`'')
               else Ok (Rate, cur)
           | _ \<Rightarrow> Ok (Rate, cur)))
       (\<lambda>(kind, cur).
     res_bind (take_integer line cur) (\<lambda>(limit, cur).
     if limit \<le> 0 then Err (AtLine line ''aggregate limit must be a positive integer'')
     else
       res_bind (expect_word line ''per'' cur) (\<lambda>cur.
       res_bind (take_word line ''`hour` or `day`'' cur) (\<lambda>(w, cur).
       if w = ''hour'' then Ok (\<lparr>ag_kind = kind, ag_limit = limit, ag_window = Hour\<rparr>, cur)
       else if w = ''day'' then Ok (\<lparr>ag_kind = kind, ag_limit = limit, ag_window = Day\<rparr>, cur)
       else Err (AtLine line ''expected `hour` or `day`''))))))"

text \<open>The values of an \<^verbatim>\<open>in\<close> set after its opening brace, one at least.\<close>

lemma take_scalar_shorter: "take_scalar line field cur = Ok (v, rest) \<Longrightarrow> length rest < length cur"
  by (auto simp: take_scalar_def res_bind_eq_Ok split: list.splits token.splits if_splits)

function parse_in_values :: "nat \<Rightarrow> string \<Rightarrow> cursor \<Rightarrow> sentence_error + sscalar list \<times> cursor" where
  "parse_in_values line field cur =
     (case take_scalar line field cur of
        Inl e \<Rightarrow> Err e
      | Inr (v, cur') \<Rightarrow>
          (case cur' of
             Comma # rest \<Rightarrow> map_sum id (apfst ((#) v)) (parse_in_values line field rest)
           | RightBrace # rest \<Rightarrow> Ok ([v], rest)
           | _ \<Rightarrow> Err (AtLine line ''expected `,` or `}` in `in` set'')))"
  by pat_completeness auto
termination
  by (relation "measure (\<lambda>(_, _, cur). length cur)") (auto dest!: take_scalar_shorter)

declare parse_in_values.simps [simp del]

definition parse_pred :: "nat \<Rightarrow> cursor \<Rightarrow> sentence_error + pred \<times> cursor" where
  "parse_pred line cur =
     res_bind (take_word line ''field'' cur) (\<lambda>(field, cur).
     if \<not> valid_field field then Err (AtLine line ''invalid field name'')
     else (case cur of
        TEq # cur \<Rightarrow> res_bind (take_scalar line field cur) (\<lambda>(v, cur). Ok (PEq field v, cur))
      | TLte # cur \<Rightarrow> res_bind (take_integer line cur) (\<lambda>(n, cur). Ok (PLte field n, cur))
      | TGte # cur \<Rightarrow> res_bind (take_integer line cur) (\<lambda>(n, cur). Ok (PGte field n, cur))
      | Word w # cur \<Rightarrow>
          if w = ''in'' then
            res_bind (expect line LeftBrace ''`{`'' cur) (\<lambda>cur.
            if peek cur = Some RightBrace then Err (AtLine line ''an `in` set must not be empty'')
            else res_bind (parse_in_values line field cur) (\<lambda>(vs, cur). Ok (PIn field vs, cur)))
          else Err (AtLine line ''expected one of `=`, `==`, `<=`, `>=`, or `in`'')
      | _ \<Rightarrow> Err (AtLine line ''expected one of `=`, `==`, `<=`, `>=`, or `in`'')))"

text \<open>What follows a clause: the end of the line, or \<^verbatim>\<open>and\<close> and another clause.\<close>

definition after_clause :: "nat \<Rightarrow> cursor \<Rightarrow> sentence_error + cursor option" where
  "after_clause line cur =
     (if cursor_done cur then Ok None
      else res_bind (expect_word line ''and'' cur) (\<lambda>cur.
           if cursor_done cur then Err (AtLine line ''expected a conjunct after `and`'')
           else Ok (Some cur)))"

definition aggregate_next :: "cursor \<Rightarrow> bool" where
  "aggregate_next cur \<longleftrightarrow> peek cur = Some (Word ''budget'') \<or> peek cur = Some (Word ''rate'')"

subsection \<open>Every parser consumes\<close>

lemma take_word_Ok: "take_word line lbl cur = Ok (w, rest) \<longleftrightarrow> cur = Word w # rest"
  by (auto simp: take_word_def split: list.splits token.splits)

lemma take_integer_Ok:
  "take_integer line cur = Ok (n, rest) \<longleftrightarrow> (\<exists>w. cur = Word w # rest \<and> parse_i64 w = Some n)"
  by (auto simp: take_integer_def take_word_Ok res_bind_eq_Ok ok_or_eq_Ok)

lemma expect_Ok: "expect line t lbl cur = Ok rest \<longleftrightarrow> cur = t # rest"
  by (auto simp: expect_def split: list.splits)

lemma expect_word_Ok: "expect_word line w cur = Ok rest \<longleftrightarrow> cur = Word w # rest"
  by (auto simp: expect_word_def split: list.splits token.splits if_splits)

lemmas cursor_Ok = take_word_Ok take_integer_Ok expect_Ok expect_word_Ok

lemma parse_aggregate_shorter:
  "parse_aggregate line cur = Ok (a, rest) \<Longrightarrow> length rest < length cur"
  by (auto simp: parse_aggregate_def res_bind_eq_Ok cursor_Ok
      split: list.splits token.splits if_splits)

lemma parse_in_values_shorter:
  "parse_in_values line field cur = Ok (vs, rest) \<Longrightarrow> length rest < length cur"
proof (induction line field cur arbitrary: vs rest rule: parse_in_values.induct)
  case (1 line field cur)
  obtain v cur' where v: "take_scalar line field cur = Ok (v, cur')"
    using "1.prems" by (subst (asm) parse_in_values.simps) (auto split: sum.splits)
  note shorter = take_scalar_shorter[OF v]
  show ?case
  proof (cases cur')
    case Nil
    with "1.prems" v show ?thesis by (subst (asm) parse_in_values.simps) simp
  next
    case (Cons t ts)
    show ?thesis
    proof (cases "t = Comma")
      case True
      with Cons v "1.prems" obtain vs' where "parse_in_values line field ts = Ok (vs', rest)"
        by (subst (asm) parse_in_values.simps)
           (cases "parse_in_values line field ts"; auto)
      with "1.IH" v Cons True have "length rest < length ts" by blast
      with shorter Cons show ?thesis by simp
    next
      case False
      with Cons v "1.prems" have "rest = ts"
        by (subst (asm) parse_in_values.simps) (auto split: token.splits)
      with shorter Cons show ?thesis by simp
    qed
  qed
qed

lemma parse_pred_shorter:
  assumes "parse_pred line cur = Ok (p, rest)"
  shows "length rest < length cur"
proof -
  obtain field t ts where cur: "cur = Word field # t # ts" and vf: "valid_field field"
    using assms by (auto simp: parse_pred_def res_bind_eq_Ok cursor_Ok split: if_splits list.splits)
  show ?thesis using assms
    by (cases t)
       (auto simp: cur vf parse_pred_def res_bind_eq_Ok cursor_Ok take_word_def split: if_splits
         dest!: take_scalar_shorter parse_in_values_shorter)
qed

lemma after_clause_shorter: "after_clause line cur = Ok (Some rest) \<Longrightarrow> length rest < length cur"
  by (auto simp: after_clause_def res_bind_eq_Ok cursor_Ok split: if_splits)

subsection \<open>The clause loop\<close>

function parse_clauses :: "nat \<Rightarrow> rule_effect \<Rightarrow> pred list \<Rightarrow> aggregate option \<Rightarrow> cursor
    \<Rightarrow> sentence_error + pred list \<times> aggregate option" where
  "parse_clauses line effect conjuncts agg cur =
     (if aggregate_next cur then
        (case parse_aggregate line cur of
           Inl e \<Rightarrow> Err e
         | Inr (parsed, cur) \<Rightarrow>
             if agg \<noteq> None then
               Err (AtLine line ''a rule may declare at most one budget or rate aggregate'')
             else if effect \<noteq> Allow then
               Err (AtLine line ''budget and rate aggregates require an `allow` effect'')
             else (case after_clause line cur of
                Inl e \<Rightarrow> Err e
              | Inr None \<Rightarrow> Ok (conjuncts, Some parsed)
              | Inr (Some cur) \<Rightarrow> parse_clauses line effect conjuncts (Some parsed) cur))
      else
        (case parse_pred line cur of
           Inl e \<Rightarrow> Err e
         | Inr (p, cur) \<Rightarrow>
             (case after_clause line cur of
                Inl e \<Rightarrow> Err e
              | Inr None \<Rightarrow> Ok (conjuncts @ [p], agg)
              | Inr (Some cur) \<Rightarrow> parse_clauses line effect (conjuncts @ [p]) agg cur)))"
  by pat_completeness auto
termination
  by (relation "measure (\<lambda>(_, _, _, _, cur). length cur)")
     (auto dest!: parse_aggregate_shorter parse_pred_shorter after_clause_shorter)

declare parse_clauses.simps [simp del]

definition parse_rule :: "nat \<Rightarrow> cursor \<Rightarrow> sentence_error + rule" where
  "parse_rule line cur =
     res_bind (take_word line ''one of `allow` or `deny`'' cur) (\<lambda>(w, cur).
     res_bind (if w = ''allow'' then Ok Allow else if w = ''deny'' then Ok Deny
               else Err (AtLine line ''expected one of `allow` or `deny`'')) (\<lambda>effect.
     res_bind (take_word line ''selector'' cur) (\<lambda>(s, cur).
     res_bind (parse_selector line s) (\<lambda>sel.
     if cursor_done cur then
       Ok \<lparr>r_effect = effect, r_selector = sel, r_conjuncts = [], r_aggregate = None\<rparr>
     else
       res_bind (expect_word line ''where'' cur) (\<lambda>cur.
       res_bind (parse_clauses line effect [] None cur) (\<lambda>(conjuncts, agg).
       Ok \<lparr>r_effect = effect, r_selector = sel, r_conjuncts = conjuncts, r_aggregate = agg\<rparr>))))))"

fun parse_lines :: "nat \<Rightarrow> string list \<Rightarrow> sentence_error + rule list" where
  "parse_lines line_idx [] = Ok []"
| "parse_lines line_idx (raw # rest) =
     (let line = without_comment raw; line_number = line_idx + 1 in
      if list_all is_whitespace line then parse_lines (Suc line_idx) rest
      else
        res_bind (tokenize line_number line) (\<lambda>tokens.
        res_bind (parse_rule line_number tokens) (\<lambda>r.
        map_sum id ((#) r) (parse_lines (Suc line_idx) rest))))"

definition parse_rules :: "string \<Rightarrow> sentence_error + rule_set" where
  "parse_rules text =
     map_sum id (\<lambda>rs. \<lparr>rs_version = RULE_SET_VERSION, rs_rules = rs\<rparr>)
       (parse_lines 0 (lines text))"

section \<open>The printer\<close>

fun print_scalar :: "sscalar \<Rightarrow> string" where
  "print_scalar (SInt n) = int_str n"
| "print_scalar (SString v) = quote_string v"
| "print_scalar (SBool b) = (if b then ''true'' else ''false'')"

definition print_window :: "window \<Rightarrow> string" where
  "print_window w = (case w of Hour \<Rightarrow> ''hour'' | Day \<Rightarrow> ''day'')"

definition print_aggregate :: "aggregate \<Rightarrow> string" where
  "print_aggregate a = (case ag_kind a of
      Budget (Some field) \<Rightarrow>
        ''budget '' @ field @ '' '' @ int_str (ag_limit a) @ '' per '' @ print_window (ag_window a)
    | Budget None \<Rightarrow> ''budget '' @ int_str (ag_limit a) @ '' per '' @ print_window (ag_window a)
    | Rate \<Rightarrow> ''rate '' @ int_str (ag_limit a) @ '' per '' @ print_window (ag_window a))"

fun print_pred :: "pred \<Rightarrow> string" where
  "print_pred (PEq field v) = field @ '' = '' @ print_scalar v"
| "print_pred (PLte field n) = field @ '' <= '' @ int_str n"
| "print_pred (PGte field n) = field @ '' >= '' @ int_str n"
| "print_pred (PIn field vs) = field @ '' in {'' @ join '', '' (map print_scalar vs) @ ''}''"

definition print_selector :: "selector \<Rightarrow> string" where
  "print_selector s = (case s of
      SetSel provider nm (Some digest) \<Rightarrow> provider @ ''.'' @ nm @ ''@'' @ digest
    | SetSel provider nm None \<Rightarrow> provider @ ''.'' @ nm
    | VerbSel provider action \<Rightarrow> provider @ ''.'' @ action)"

definition print_effect :: "rule_effect \<Rightarrow> string" where
  "print_effect e = (case e of Allow \<Rightarrow> ''allow'' | Deny \<Rightarrow> ''deny'')"

definition rule_clauses :: "rule \<Rightarrow> string list" where
  "rule_clauses r = map print_pred (r_conjuncts r) @
     (case r_aggregate r of None \<Rightarrow> [] | Some a \<Rightarrow> [print_aggregate a])"

definition print_rule :: "rule \<Rightarrow> string" where
  "print_rule r =
     print_effect (r_effect r) @ '' '' @ print_selector (r_selector r) @
     (if r_conjuncts r \<noteq> [] \<or> r_aggregate r \<noteq> None
      then '' where '' @ join '' and '' (rule_clauses r) else [])"

definition canonical_rule_text :: "rule_set \<Rightarrow> string" where
  "canonical_rule_text rs =
     (let text = join [nl] (map print_rule (rs_rules rs)) in
      if text \<noteq> [] then text @ [nl] else text)"

definition canonical_rule_bytes :: "rule_set \<Rightarrow> nat list" where
  "canonical_rule_bytes rs = utf8 (canonical_rule_text rs)"

definition authority_digest_for :: "sha_fun \<Rightarrow> nat \<Rightarrow> nat list \<Rightarrow> string" where
  "authority_digest_for sha version canonical_bytes =
     hex (sha (utf8 ''cermet.sentence.authority'' @ [0] @ be_bytes 4 version @ canonical_bytes))"

definition authority_digest :: "sha_fun \<Rightarrow> rule_set \<Rightarrow> string" where
  "authority_digest sha rs = authority_digest_for sha (rs_version rs) (canonical_rule_bytes rs)"

definition rule_codec_round_trips :: "rule \<Rightarrow> bool" where
  "rule_codec_round_trips r = (case parse_rules (print_rule r) of
      Inl _ \<Rightarrow> False
    | Inr parsed \<Rightarrow> rs_rules parsed = [r])"

section \<open>Structural well-formedness\<close>

definition pred_is_well_formed :: "pred \<Rightarrow> bool" where
  "pred_is_well_formed p \<longleftrightarrow> valid_field (pred_field p) \<and>
     (case p of PIn _ vs \<Rightarrow> vs \<noteq> [] | _ \<Rightarrow> True)"

definition aggregate_is_well_formed :: "rule \<Rightarrow> bool" where
  "aggregate_is_well_formed r = (case r_aggregate r of
      None \<Rightarrow> True
    | Some a \<Rightarrow>
        if r_effect r \<noteq> Allow \<or> ag_limit a \<le> 0 then False
        else (case ag_kind a of Budget (Some field) \<Rightarrow> valid_field field | _ \<Rightarrow> True))"

definition selector_valid :: "selector \<Rightarrow> bool" where
  "selector_valid s = (case s of
      SetSel provider nm digest \<Rightarrow>
        valid_provider_ident provider \<and> valid_ident nm \<and>
        (case digest of None \<Rightarrow> True | Some d \<Rightarrow> valid_snapshot_digest d)
    | VerbSel provider action \<Rightarrow> valid_provider_ident provider \<and> valid_ident action)"

definition validate_rule_structure :: "rule \<Rightarrow> bool" where
  "validate_rule_structure r \<longleftrightarrow>
     selector_valid (r_selector r) \<and> list_all pred_is_well_formed (r_conjuncts r) \<and>
     aggregate_is_well_formed r"

definition ruleset_version_supported :: "rule_set \<Rightarrow> bool" where
  "ruleset_version_supported rs \<longleftrightarrow> rs_version rs = RULE_SET_VERSION"

end
