(* ===== verification/Cermet_Contract.thy ===== *)
theory Cermet_Contract
  imports Cermet_Prelude
begin

text \<open>
  Action contracts and the canonical resource, \<^verbatim>\<open>crates/cermet-lang/src/contract.rs\<close>: the
  scalar kinds, field declarations and contracts as data, the lookups on a contract, the
  consistency check of a contract, and the frozen resource with its constructors, accessors, its
  reload from storage and the two trusted merges.

  JSON text is read and written by the \<^verbatim>\<open>serde_json\<close> package: the two functions are
  parameters, collected in \<open>json_lib\<close>; \<open>json\<close> is the package's value type, with the numbers it
  tells apart (an integer that may or may not fit in an \<^verbatim>\<open>i64\<close>, or a float). Error values keep
  one constructor for each message of the source, with the message's arguments.
\<close>

section \<open>JSON values\<close>

datatype json =
    JNull
  | JBool bool
  | JInt int
  | JFloat
  | JString string
  | JArray "json list"
  | JObject "(string \<times> json) list"

fun as_str :: "json \<Rightarrow> string option" where
  "as_str (JString s) = Some s"
| "as_str _ = None"

fun as_i64 :: "json \<Rightarrow> int option" where
  "as_i64 (JInt n) = checked n"
| "as_i64 _ = None"

fun as_bool :: "json \<Rightarrow> bool option" where
  "as_bool (JBool b) = Some b"
| "as_bool _ = None"

definition jget :: "json \<Rightarrow> string \<Rightarrow> json option" where
  "jget v k = (case v of JObject es \<Rightarrow> map_of es k | _ \<Rightarrow> None)"

definition jstr :: "json \<Rightarrow> string \<Rightarrow> string option" where
  "jstr v k = Option.bind (jget v k) as_str"

definition ji64 :: "json \<Rightarrow> string \<Rightarrow> int option" where
  "ji64 v k = Option.bind (jget v k) as_i64"

fun as_u64 :: "json \<Rightarrow> nat option" where
  "as_u64 (JInt n) = (if 0 \<le> n \<and> n < 2 ^ 64 then Some (nat n) else None)"
| "as_u64 _ = None"

record json_lib =
  json_parse :: "string \<Rightarrow> json option"
  json_print :: "json \<Rightarrow> string"

section \<open>Scalars\<close>

datatype scalar_kind = KStr | KInt | KBool

datatype rscalar = RStr string | RInt int | RBool bool

definition label :: "scalar_kind \<Rightarrow> string" where
  "label k = (case k of KStr \<Rightarrow> ''string'' | KInt \<Rightarrow> ''integer'' | KBool \<Rightarrow> ''boolean'')"

fun rscalar_kind :: "rscalar \<Rightarrow> scalar_kind" where
  "rscalar_kind (RStr _) = KStr"
| "rscalar_kind (RInt _) = KInt"
| "rscalar_kind (RBool _) = KBool"

fun json_shape :: "json \<Rightarrow> string" where
  "json_shape JNull = ''null''"
| "json_shape (JBool _) = ''a boolean''"
| "json_shape (JInt _) = ''an integer''"
| "json_shape JFloat = ''a float''"
| "json_shape (JString _) = ''a string''"
| "json_shape (JArray _) = ''an array''"
| "json_shape (JObject _) = ''an object''"

datatype resource_error =
    ScalarMismatch string string string \<comment> \<open>field, expected kind, shape found\<close>
  | NotIntegerOrString string
  | NotScalar string
  | StoredNotJson
  | StoredNotObject
  | StoredUndeclared string string string
  | StoredMissing string string string
  | MergeCollision string
  | ReplaceAbsent string
  | FrozenWrongKind string string string
  | FrozenAbsent string

definition from_json :: "scalar_kind \<Rightarrow> string \<Rightarrow> json \<Rightarrow> resource_error + rscalar" where
  "from_json kind field v =
     (let mismatch = ScalarMismatch field (label kind) (json_shape v) in
      case kind of
        KStr \<Rightarrow> ok_or mismatch (map_option RStr (as_str v))
      | KInt \<Rightarrow> ok_or mismatch (map_option RInt (as_i64 v))
      | KBool \<Rightarrow> ok_or mismatch (map_option RBool (as_bool v)))"

fun to_json :: "rscalar \<Rightarrow> json" where
  "to_json (RStr s) = JString s"
| "to_json (RInt i) = JInt i"
| "to_json (RBool b) = JBool b"

fun infer :: "string \<Rightarrow> json \<Rightarrow> resource_error + rscalar" where
  "infer field (JString s) = Ok (RStr s)"
| "infer field (JBool b) = Ok (RBool b)"
| "infer field (JInt n) = ok_or (NotIntegerOrString field) (map_option RInt (as_i64 (JInt n)))"
| "infer field JFloat = ok_or (NotIntegerOrString field) (map_option RInt (as_i64 JFloat))"
| "infer field _ = Err (NotScalar field)"

text \<open>An \<^verbatim>\<open>i64\<close> scalar is in range by its type.\<close>

fun rscalar_ok :: "rscalar \<Rightarrow> bool" where
  "rscalar_ok (RInt n) = in_i64 n"
| "rscalar_ok _ = True"

section \<open>Contracts\<close>

datatype field_class_t = Unclassified | Identity | SideEffect | FreePayload | Secret | ReadFilter

datatype allow_binding = Unbound | ExactResourcePin | ExactOrPatternList string | Bounded

record field_decl_t =
  fd_name :: string
  fd_ty :: scalar_kind
  fd_required :: bool
  fd_class :: field_class_t
  fd_binding :: allow_binding

definition budget_eligible :: "field_decl_t \<Rightarrow> bool" where
  "budget_eligible d \<longleftrightarrow>
     fd_required d \<and> fd_ty d = KInt \<and> fd_class d = SideEffect \<and> fd_binding d = Bounded"

record relation_t =
  rel_from :: string
  rel_path :: "string list"
  rel_expect :: string

record action_contract =
  ac_provider :: string
  ac_action :: string
  ac_schema :: "field_decl_t list"
  ac_consumes :: "string list"
  ac_execution_targets :: "string list"
  ac_relations :: "relation_t list"
  ac_open :: bool

definition field_decl :: "action_contract \<Rightarrow> string \<Rightarrow> field_decl_t option" where
  "field_decl c name = find (\<lambda>f. fd_name f = name) (ac_schema c)"

definition field_kind :: "action_contract \<Rightarrow> string \<Rightarrow> scalar_kind option" where
  "field_kind c name = map_option fd_ty (field_decl c name)"

definition field_class :: "action_contract \<Rightarrow> string \<Rightarrow> field_class_t option" where
  "field_class c name = map_option fd_class (field_decl c name)"

definition field_binding :: "action_contract \<Rightarrow> string \<Rightarrow> allow_binding option" where
  "field_binding c name = map_option fd_binding (field_decl c name)"

definition has_schema_field :: "action_contract \<Rightarrow> string \<Rightarrow> bool" where
  "has_schema_field c name \<longleftrightarrow> field_decl c name \<noteq> None"

definition has_fully_pinned_execution_targets :: "action_contract \<Rightarrow> bool" where
  "has_fully_pinned_execution_targets c \<longleftrightarrow>
     ac_execution_targets c \<noteq> [] \<and>
     list_all (\<lambda>t. case field_decl c t of None \<Rightarrow> False
                   | Some f \<Rightarrow> fd_binding f = ExactResourcePin) (ac_execution_targets c)"

datatype consistency_error =
    ConsumesParameters
  | ConsumesUndeclared string
  | TargetUndeclared string
  | FieldUnclassified string
  | BindingIncompatible string field_class_t allow_binding
  | RelationUndeclared string

type_synonym field_row = "string \<times> scalar_kind \<times> field_class_t \<times> allow_binding \<times> bool"

fun check_consumes :: "field_row list \<Rightarrow> string list \<Rightarrow> consistency_error + unit" where
  "check_consumes flds [] = Ok ()"
| "check_consumes flds (c # cs) =
     (if c = ''parameters'' then Err ConsumesParameters
      else if c \<notin> fst ` set flds then Err (ConsumesUndeclared c)
      else check_consumes flds cs)"

fun check_targets :: "field_row list \<Rightarrow> string list \<Rightarrow> consistency_error + unit" where
  "check_targets flds [] = Ok ()"
| "check_targets flds (t # ts) =
     (if t \<notin> fst ` set flds then Err (TargetUndeclared t) else check_targets flds ts)"

definition binding_ok :: "scalar_kind \<Rightarrow> field_class_t \<Rightarrow> allow_binding \<Rightarrow> bool" where
  "binding_ok ty cls binding = (case cls of
      Identity \<Rightarrow> (case binding of ExactResourcePin \<Rightarrow> True | ExactOrPatternList _ \<Rightarrow> True | _ \<Rightarrow> False)
    | SideEffect \<Rightarrow> binding = ExactResourcePin \<or> (binding = Bounded \<and> ty = KInt)
    | FreePayload \<Rightarrow> binding = Unbound
    | Secret \<Rightarrow> binding = Unbound
    | ReadFilter \<Rightarrow> binding = Unbound
    | Unclassified \<Rightarrow> False)"

fun check_fields :: "field_row list \<Rightarrow> consistency_error + unit" where
  "check_fields [] = Ok ()"
| "check_fields ((name, ty, cls, binding, required) # fs) =
     (if cls = Unclassified then Err (FieldUnclassified name)
      else if \<not> binding_ok ty cls binding then Err (BindingIncompatible name cls binding)
      else check_fields fs)"

fun check_relations :: "field_row list \<Rightarrow> string list \<Rightarrow> consistency_error + unit" where
  "check_relations flds [] = Ok ()"
| "check_relations flds (r # rs) =
     (if r \<notin> fst ` set flds then Err (RelationUndeclared r) else check_relations flds rs)"

definition check_consistent ::
    "field_row list \<Rightarrow> string list \<Rightarrow> string list \<Rightarrow> string list \<Rightarrow> consistency_error + unit" where
  "check_consistent flds consumes execution_targets relation_froms =
     res_bind (check_consumes flds consumes) (\<lambda>_.
     res_bind (check_targets flds execution_targets) (\<lambda>_.
     res_bind (check_fields flds) (\<lambda>_.
     check_relations flds relation_froms)))"

definition validate_consistent :: "action_contract \<Rightarrow> consistency_error + unit" where
  "validate_consistent c =
     check_consistent
       (map (\<lambda>f. (fd_name f, fd_ty f, fd_class f, fd_binding f, fd_required f)) (ac_schema c))
       (ac_consumes c) (ac_execution_targets c) (map rel_from (ac_relations c))"

section \<open>The canonical resource\<close>

record canonical_resource =
  cr_fields :: "(string, rscalar) btree"

definition resource_from_map :: "(string, rscalar) btree \<Rightarrow> canonical_resource" where
  "resource_from_map flds = \<lparr>cr_fields = flds\<rparr>"

definition scalar :: "canonical_resource \<Rightarrow> string \<Rightarrow> rscalar option" where
  "scalar r field = map_of (cr_fields r) field"

fun merge_loop :: "(string, rscalar) btree \<Rightarrow> (string, rscalar) btree
    \<Rightarrow> resource_error + (string, rscalar) btree" where
  "merge_loop flds [] = Ok flds"
| "merge_loop flds ((name, value) # rest) =
     (if bt_has flds name then Err (MergeCollision name)
      else merge_loop (bt_insert name value flds) rest)"

definition merged ::
    "canonical_resource \<Rightarrow> (string, rscalar) btree \<Rightarrow> resource_error + canonical_resource" where
  "merged r additional = map_sum id resource_from_map (merge_loop (cr_fields r) additional)"

fun replace_loop :: "(string, rscalar) btree \<Rightarrow> (string, rscalar) btree
    \<Rightarrow> resource_error + (string, rscalar) btree" where
  "replace_loop flds [] = Ok flds"
| "replace_loop flds ((name, value) # rest) =
     (if \<not> bt_has flds name then Err (ReplaceAbsent name)
      else replace_loop (bt_insert name value flds) rest)"

definition replaced ::
    "canonical_resource \<Rightarrow> (string, rscalar) btree \<Rightarrow> resource_error + canonical_resource" where
  "replaced r updates = map_sum id resource_from_map (replace_loop (cr_fields r) updates)"

definition req_str :: "canonical_resource \<Rightarrow> string \<Rightarrow> resource_error + string" where
  "req_str r field = (case scalar r field of
      Some (RStr s) \<Rightarrow> Ok s
    | Some other \<Rightarrow> Err (FrozenWrongKind field (label (rscalar_kind other)) ''string'')
    | None \<Rightarrow> Err (FrozenAbsent field))"

definition req_i64 :: "canonical_resource \<Rightarrow> string \<Rightarrow> resource_error + int" where
  "req_i64 r field = (case scalar r field of
      Some (RInt i) \<Rightarrow> Ok i
    | Some other \<Rightarrow> Err (FrozenWrongKind field (label (rscalar_kind other)) ''integer'')
    | None \<Rightarrow> Err (FrozenAbsent field))"

definition req_bool :: "canonical_resource \<Rightarrow> string \<Rightarrow> resource_error + bool" where
  "req_bool r field = (case scalar r field of
      Some (RBool b) \<Rightarrow> Ok b
    | Some other \<Rightarrow> Err (FrozenWrongKind field (label (rscalar_kind other)) ''boolean'')
    | None \<Rightarrow> Err (FrozenAbsent field))"

definition get_str :: "canonical_resource \<Rightarrow> string \<Rightarrow> string option" where
  "get_str r field = (case scalar r field of Some (RStr s) \<Rightarrow> Some s | _ \<Rightarrow> None)"

definition get_bool :: "canonical_resource \<Rightarrow> string \<Rightarrow> bool option" where
  "get_bool r field = (case scalar r field of Some (RBool b) \<Rightarrow> Some b | _ \<Rightarrow> None)"

definition get_i64 :: "canonical_resource \<Rightarrow> string \<Rightarrow> int option" where
  "get_i64 r field = (case scalar r field of Some (RInt n) \<Rightarrow> Some n | _ \<Rightarrow> None)"

definition as_match_value :: "canonical_resource \<Rightarrow> json" where
  "as_match_value r = JObject (map (\<lambda>(k, v). (k, to_json v)) (cr_fields r))"

definition to_canonical_json :: "json_lib \<Rightarrow> canonical_resource \<Rightarrow> string" where
  "to_canonical_json J r = json_print J (as_match_value r)"

fun store_open :: "(string, rscalar) btree \<Rightarrow> (string \<times> json) list
    \<Rightarrow> resource_error + (string, rscalar) btree" where
  "store_open flds [] = Ok flds"
| "store_open flds ((k, v) # rest) =
     res_bind (infer k v) (\<lambda>s. store_open (bt_insert k s flds) rest)"

fun store_closed :: "action_contract \<Rightarrow> (string, rscalar) btree \<Rightarrow> (string \<times> json) list
    \<Rightarrow> resource_error + (string, rscalar) btree" where
  "store_closed c flds [] = Ok flds"
| "store_closed c flds ((k, v) # rest) = (case field_decl c k of
      None \<Rightarrow> Err (StoredUndeclared k (ac_provider c) (ac_action c))
    | Some decl \<Rightarrow>
        res_bind (from_json (fd_ty decl) k v) (\<lambda>s. store_closed c (bt_insert k s flds) rest))"

fun check_required :: "action_contract \<Rightarrow> (string, rscalar) btree \<Rightarrow> field_decl_t list
    \<Rightarrow> resource_error + unit" where
  "check_required c flds [] = Ok ()"
| "check_required c flds (d # ds) =
     (if fd_required d \<and> \<not> bt_has flds (fd_name d)
      then Err (StoredMissing (fd_name d) (ac_provider c) (ac_action c))
      else check_required c flds ds)"

definition from_stored ::
    "json_lib \<Rightarrow> string \<Rightarrow> action_contract \<Rightarrow> resource_error + canonical_resource" where
  "from_stored J text c = (case json_parse J text of
      None \<Rightarrow> Err StoredNotJson
    | Some (JObject obj) \<Rightarrow>
        if ac_open c then map_sum id resource_from_map (store_open [] obj)
        else res_bind (store_closed c [] obj) (\<lambda>flds.
             res_bind (check_required c flds (ac_schema c)) (\<lambda>_.
             Ok (resource_from_map flds)))
    | Some _ \<Rightarrow> Err StoredNotObject)"

section \<open>What a stored resource satisfies\<close>

text \<open>
  A resource conforms to a contract when it is a well-formed map of in-range scalars and, for a
  closed schema, every field is declared with its kind and every required field is present.
\<close>

definition conforms :: "action_contract \<Rightarrow> canonical_resource \<Rightarrow> bool" where
  "conforms c r \<longleftrightarrow>
     bt_wf (cr_fields r) \<and>
     (\<forall>(k, v) \<in> set (cr_fields r). rscalar_ok v) \<and>
     (\<not> ac_open c \<longrightarrow>
        (\<forall>(k, v) \<in> set (cr_fields r). field_kind c k = Some (rscalar_kind v)) \<and>
        (\<forall>d \<in> set (ac_schema c). fd_required d \<longrightarrow> bt_has (cr_fields r) (fd_name d)))"

lemma field_decl_Some: "field_decl c k = Some d \<Longrightarrow> d \<in> set (ac_schema c) \<and> fd_name d = k"
  by (auto simp: field_decl_def find_Some_iff)

lemma from_json_Ok:
  "from_json kind k v = Ok s \<longleftrightarrow> rscalar_kind s = kind \<and> rscalar_ok s \<and> v = to_json s"
  by (cases kind; cases v; cases s) (auto simp: from_json_def ok_or_eq_Ok)

lemma infer_Ok: "infer k v = Ok s \<longleftrightarrow> rscalar_ok s \<and> v = to_json s"
  by (cases v; cases s) (auto simp: ok_or_eq_Ok)

lemma bt_insert_values:
  "e \<in> set (bt_insert k v m) \<Longrightarrow> e = (k, v) \<or> e \<in> set m"
  by (induction m) (auto split: if_splits)

lemma store_open_wf:
  "store_open m obj = Ok m' \<Longrightarrow> bt_wf m \<Longrightarrow> (\<forall>e \<in> set m. rscalar_ok (snd e)) \<Longrightarrow>
   bt_wf m' \<and> (\<forall>e \<in> set m'. rscalar_ok (snd e))"
proof (induction m obj rule: store_open.induct)
  case (2 flds k v rest)
  then obtain s where s: "infer k v = Ok s" "store_open (bt_insert k s flds) rest = Ok m'"
    by (auto simp: res_bind_eq_Ok)
  with 2 show ?case by (fastforce simp: infer_Ok dest: bt_insert_values)
qed simp

lemma store_closed_wf:
  "store_closed c m obj = Ok m' \<Longrightarrow> bt_wf m \<Longrightarrow>
   (\<forall>e \<in> set m. rscalar_ok (snd e) \<and> field_kind c (fst e) = Some (rscalar_kind (snd e))) \<Longrightarrow>
   bt_wf m' \<and>
   (\<forall>e \<in> set m'. rscalar_ok (snd e) \<and> field_kind c (fst e) = Some (rscalar_kind (snd e)))"
proof (induction c m obj rule: store_closed.induct)
  case (2 c flds k v rest)
  then obtain d s where d: "field_decl c k = Some d"
    and s: "from_json (fd_ty d) k v = Ok s" "store_closed c (bt_insert k s flds) rest = Ok m'"
    by (auto simp: res_bind_eq_Ok split: option.splits)
  have "\<forall>e \<in> set (bt_insert k s flds).
          rscalar_ok (snd e) \<and> field_kind c (fst e) = Some (rscalar_kind (snd e))"
    using d s(1) "2.prems"(3) by (auto simp: from_json_Ok field_kind_def dest!: bt_insert_values)
  then show ?case using "2.IH"[OF d s(2)] "2.prems"(2) by simp
qed simp

lemma check_required_Ok:
  "check_required c m ds = Ok () \<longleftrightarrow> (\<forall>d \<in> set ds. fd_required d \<longrightarrow> bt_has m (fd_name d))"
  by (induction ds) auto

lemma from_stored_conforms_aux:
  assumes "from_stored J text c = Ok r"
  shows "conforms c r"
proof -
  from assms obtain obj where obj: "json_parse J text = Some (JObject obj)"
    by (auto simp: from_stored_def split: option.splits json.splits)
  show ?thesis
  proof (cases "ac_open c")
    case True
    with assms obj obtain m where "store_open [] obj = Ok m" "r = resource_from_map m"
      by (cases "store_open [] obj") (auto simp: from_stored_def)
    with store_open_wf[of "[]" obj m] True show ?thesis
      by (auto simp: conforms_def resource_from_map_def)
  next
    case False
    with assms obj obtain m where m: "store_closed c [] obj = Ok m" "r = resource_from_map m"
      and "check_required c m (ac_schema c) = Ok ()"
      by (auto simp: from_stored_def res_bind_eq_Ok)
    then show ?thesis using store_closed_wf[OF m(1)] False
      by (auto simp: conforms_def resource_from_map_def check_required_Ok)
  qed
qed

subsection \<open>Reloading what was printed\<close>

text \<open>
  The entries of a well-formed map, inserted one by one into a map whose keys are all smaller,
  are appended to it.
\<close>

lemma bt_insert_snoc: "(\<forall>x \<in> fst ` set m. x < k) \<Longrightarrow> bt_insert k v m = m @ [(k, v)]"
  by (induction m) (auto simp: less_not_sym less_imp_neq)

lemma bt_wf_append:
  "bt_wf (m @ m') \<longleftrightarrow> bt_wf m \<and> bt_wf m' \<and> (\<forall>x \<in> fst ` set m. \<forall>y \<in> fst ` set m'. x < y)"
  by (auto simp: bt_wf_def sorted_wrt_append)

lemma store_open_reload:
  "bt_wf (m @ es) \<Longrightarrow> (\<forall>e \<in> set es. rscalar_ok (snd e)) \<Longrightarrow>
   store_open m (map (\<lambda>(k, v). (k, to_json v)) es) = Ok (m @ es)"
proof (induction es arbitrary: m)
  case (Cons e es)
  obtain k v where e: "e = (k, v)" by (cases e)
  with Cons.prems have "infer k (to_json v) = Ok v" by (simp add: infer_Ok)
  moreover have "bt_insert k v m = m @ [(k, v)]"
    using Cons.prems(1) by (intro bt_insert_snoc) (auto simp: e bt_wf_append)
  ultimately show ?case using Cons.IH[of "m @ [(k, v)]"] Cons.prems by (simp add: e)
qed simp

lemma store_closed_reload:
  "bt_wf (m @ es) \<Longrightarrow>
   (\<forall>e \<in> set es. rscalar_ok (snd e) \<and> field_kind c (fst e) = Some (rscalar_kind (snd e))) \<Longrightarrow>
   store_closed c m (map (\<lambda>(k, v). (k, to_json v)) es) = Ok (m @ es)"
proof (induction es arbitrary: m)
  case (Cons e es)
  obtain k v where e: "e = (k, v)" by (cases e)
  with Cons.prems obtain d where d: "field_decl c k = Some d" "fd_ty d = rscalar_kind v"
    by (auto simp: field_kind_def)
  with e Cons.prems have "from_json (fd_ty d) k (to_json v) = Ok v" by (simp add: from_json_Ok)
  moreover have "bt_insert k v m = m @ [(k, v)]"
    using Cons.prems(1) by (intro bt_insert_snoc) (auto simp: e bt_wf_append)
  ultimately show ?case using Cons.IH[of "m @ [(k, v)]"] Cons.prems d by (simp add: e)
qed simp

lemma from_stored_print_aux:
  assumes "conforms c r"
    and "json_parse J (json_print J (as_match_value r)) = Some (as_match_value r)"
  shows "from_stored J (to_canonical_json J r) c = Ok r"
proof (cases "ac_open c")
  case True
  have "store_open [] (map (\<lambda>(k, v). (k, to_json v)) (cr_fields r)) = Ok (cr_fields r)"
    using store_open_reload[of "[]" "cr_fields r"] assms(1)
    by (simp add: conforms_def case_prod_beta)
  with True assms(2) show ?thesis
    by (simp add: from_stored_def to_canonical_json_def as_match_value_def resource_from_map_def)
next
  case False
  have "store_closed c [] (map (\<lambda>(k, v). (k, to_json v)) (cr_fields r)) = Ok (cr_fields r)"
    using store_closed_reload[of "[]" "cr_fields r" c] assms(1) False
    by (simp add: conforms_def case_prod_beta)
  moreover have "check_required c (cr_fields r) (ac_schema c) = Ok ()"
    using assms(1) False by (simp add: conforms_def check_required_Ok)
  ultimately show ?thesis using assms(2) False
    by (simp add: from_stored_def to_canonical_json_def as_match_value_def resource_from_map_def)
qed

lemma conforms_scalar:
  assumes "conforms c r" "scalar r k = Some v" "\<not> ac_open c"
  shows "field_kind c k = Some (rscalar_kind v)"
  using assms by (auto simp: conforms_def scalar_def dest!: map_of_SomeD)

lemma conforms_scalar_ok: "conforms c r \<Longrightarrow> scalar r k = Some v \<Longrightarrow> rscalar_ok v"
  by (auto simp: conforms_def scalar_def dest!: map_of_SomeD)

section \<open>The trusted merges\<close>

lemma map_add_bt_insert:
  assumes "bt_wf m" "bt_wf ((k, v) # m')"
  shows "map_of (bt_insert k v m) ++ map_of m' = map_of m ++ map_of ((k, v) # m')"
proof -
  have "map_of m' k = None" using assms(2) by (auto simp: map_of_eq_None_iff)
  with assms(1) show ?thesis by (auto simp: fun_eq_iff map_add_def split: option.splits)
qed

lemma merge_loop_Ok:
  assumes "bt_wf m" "bt_wf m'"
  shows "(\<exists>r. merge_loop m m' = Ok r \<and> bt_wf r \<and> map_of r = map_of m ++ map_of m')
           \<longleftrightarrow> fst ` set m \<inter> fst ` set m' = {}"
    and "fst ` set m \<inter> fst ` set m' \<noteq> {} \<Longrightarrow>
         \<exists>k. merge_loop m m' = Err (MergeCollision k) \<and> k \<in> fst ` set m \<inter> fst ` set m'"
proof -
  have good: "\<exists>r. merge_loop m m' = Ok r \<and> bt_wf r \<and> map_of r = map_of m ++ map_of m'"
    if "bt_wf m" "bt_wf m'" "fst ` set m \<inter> fst ` set m' = {}" for m m'
    using that
  proof (induction m m' rule: merge_loop.induct)
    case (2 flds name v rest)
    have nin: "\<not> bt_has flds name" using "2.prems"(3) by (simp add: bt_has_iff)
    have "fst ` set (bt_insert name v flds) \<inter> fst ` set rest = {}"
      using "2.prems"(2,3) by auto
    moreover have "bt_wf (bt_insert name v flds)" "bt_wf rest" using "2.prems" by auto
    ultimately obtain r where r: "merge_loop (bt_insert name v flds) rest = Ok r" "bt_wf r"
      "map_of r = map_of (bt_insert name v flds) ++ map_of rest"
      using "2.IH"[OF nin] by blast
    moreover have "merge_loop flds ((name, v) # rest) = Ok r" using nin r(1) by simp
    ultimately show ?case using map_add_bt_insert[OF "2.prems"(1,2)] by metis
  qed simp
  have bad: "\<exists>k. merge_loop m m' = Err (MergeCollision k) \<and> k \<in> fst ` set m \<inter> fst ` set m'"
    if "bt_wf m" "bt_wf m'" "fst ` set m \<inter> fst ` set m' \<noteq> {}" for m m'
    using that
  proof (induction m m' rule: merge_loop.induct)
    case (2 flds name v rest)
    show ?case
    proof (cases "bt_has flds name")
      case False
      then have "fst ` set (bt_insert name v flds) \<inter> fst ` set rest \<noteq> {}"
        using "2.prems" by (auto simp: bt_has_iff)
      with 2 False obtain k where "merge_loop (bt_insert name v flds) rest = Err (MergeCollision k)"
        "k \<in> fst ` set (bt_insert name v flds) \<inter> fst ` set rest" by auto
      moreover have "name \<notin> fst ` set rest" using "2.prems"(2) by auto
      ultimately show ?thesis using False by auto
    qed (auto simp: bt_has_iff)
  qed simp
  show "(\<exists>r. merge_loop m m' = Ok r \<and> bt_wf r \<and> map_of r = map_of m ++ map_of m')
           \<longleftrightarrow> fst ` set m \<inter> fst ` set m' = {}"
    using good bad assms by (metis Inl_Inr_False)
  show "fst ` set m \<inter> fst ` set m' \<noteq> {} \<Longrightarrow>
         \<exists>k. merge_loop m m' = Err (MergeCollision k) \<and> k \<in> fst ` set m \<inter> fst ` set m'"
    using bad assms by blast
qed

lemma replace_loop_Ok:
  "replace_loop m m' = Ok r \<Longrightarrow> bt_wf m \<Longrightarrow>
   bt_wf r \<and> fst ` set r = fst ` set m \<and> fst ` set m' \<subseteq> fst ` set m"
proof (induction m m' rule: replace_loop.induct)
  case (2 flds name v rest)
  then have "bt_has flds name" by (auto split: if_splits)
  moreover from this have "fst ` set (bt_insert name v flds) = fst ` set flds"
    by (simp add: bt_has_iff insert_absorb)
  ultimately show ?case using 2 by (auto simp: bt_has_iff)
qed simp

lemma replace_loop_values:
  "replace_loop m m' = Ok r \<Longrightarrow> bt_wf m \<Longrightarrow> bt_wf m' \<Longrightarrow> map_of r = map_of m ++ map_of m'"
proof (induction m m' rule: replace_loop.induct)
  case (2 flds name v rest)
  have has: "bt_has flds name" using "2.prems"(1) by (auto split: if_splits)
  moreover have "bt_wf (bt_insert name v flds)" "bt_wf rest" using "2.prems" by auto
  ultimately have "map_of r = map_of (bt_insert name v flds) ++ map_of rest"
    using "2.IH" "2.prems"(1) by simp
  then show ?case using map_add_bt_insert[OF "2.prems"(2,3)] by metis
qed simp

section \<open>Properties\<close>

text \<open>
  C38. A resource that reloads from storage conforms to the contract it was reloaded against: a
  well-formed map of in-range scalars in which, for a closed schema, every field is declared with
  its kind and no required field is missing.
\<close>

theorem from_stored_conforms:
  "from_stored J text c = Ok r \<Longrightarrow> conforms c r"
  by (rule from_stored_conforms_aux)

text \<open>
  C39. A resource that conforms to a contract survives its canonical JSON form: printing it and
  reloading the text under the same contract gives the same resource. The hypothesis on the JSON
  package is that it reads back the value it printed.
\<close>

theorem canonical_json_roundtrip:
  assumes "conforms c r"
    and "json_parse J (json_print J (as_match_value r)) = Some (as_match_value r)"
  shows "from_stored J (to_canonical_json J r) c = Ok r"
  using assms by (rule from_stored_print_aux)

section \<open>A concrete contract\<close>

text \<open>
  One closed contract with one integer field, and a JSON reader and writer for objects of that
  shape, on which the two properties are applied.
\<close>

definition counter_contract :: action_contract where
  "counter_contract =
     \<lparr>ac_provider = ''mock'', ac_action = ''count'',
      ac_schema = [\<lparr>fd_name = ''n'', fd_ty = KInt, fd_required = True, fd_class = SideEffect,
                    fd_binding = Bounded\<rparr>],
      ac_consumes = [''n''], ac_execution_targets = [], ac_relations = [], ac_open = False\<rparr>"

definition int_field_json :: json_lib where
  "int_field_json =
     \<lparr>json_parse = (\<lambda>t. Option.bind (split_once (CHR ''='') t) (\<lambda>(k, v).
                     map_option (\<lambda>n. JObject [(k, JInt n)]) (parse_i64 v))),
      json_print = (\<lambda>v. case v of JObject [(k, JInt n)] \<Rightarrow> k @ ''='' @ int_str n | _ \<Rightarrow> [])\<rparr>"

theorem from_stored_conforms_witness:
  "conforms counter_contract \<lparr>cr_fields = [(''n'', RInt (-7))]\<rparr>"
proof -
  have "from_stored int_field_json ''n=-7'' counter_contract = Ok \<lparr>cr_fields = [(''n'', RInt (-7))]\<rparr>"
    by code_simp
  then show ?thesis by (rule from_stored_conforms)
qed

theorem canonical_json_roundtrip_witness:
  "from_stored int_field_json (to_canonical_json int_field_json \<lparr>cr_fields = [(''n'', RInt 42)]\<rparr>)
     counter_contract = Ok \<lparr>cr_fields = [(''n'', RInt 42)]\<rparr>"
proof (rule canonical_json_roundtrip)
  show "conforms counter_contract \<lparr>cr_fields = [(''n'', RInt 42)]\<rparr>"
    by (simp add: conforms_def counter_contract_def field_kind_def field_decl_def bt_has_iff
        in_i64_numeral)
  show "json_parse int_field_json (json_print int_field_json
      (as_match_value \<lparr>cr_fields = [(''n'', RInt 42)]\<rparr>))
    = Some (as_match_value \<lparr>cr_fields = [(''n'', RInt 42)]\<rparr>)"
    by code_simp
qed

end
