(* ===== verification/Sentence_Eval.thy ===== *)
theory Sentence_Eval
  imports Sentence_Syntax Cermet_Contract
begin

text \<open>
  The shared evaluator of \<^verbatim>\<open>crates/cermet-lang/src/sentence.rs\<close>: resolution of contracts and
  digest-pinned sets, selector coverage, projection of a set rule onto one member action,
  predicate matching, and the decision. The two traits the evaluator is given, \<^verbatim>\<open>SetResolver\<close> and
  \<^verbatim>\<open>ContractResolver\<close>, are records of functions.

  The decision is characterised declaratively (\<open>rule_matches\<close>, \<open>rule_blocks\<close>), and the laws a
  reader of a corpus relies on - the verdict does not depend on the order of the rules, a deny rule
  only removes authority, the first matching allow governs - are proved once in the locale
  \<open>rule_scan\<close> and obtained for the evaluator by interpretation.
\<close>

section \<open>Decisions\<close>

datatype deny_reason =
    ExplicitDeny nat
  | UnresolvedDeny nat
  | UnknownSelector
  | NoMatchingRule
  | UnsupportedVersion nat
  | MissingField nat string
  | PredicateMismatch nat nat "string option"
  | BudgetExceeded window

datatype decision = DAllow nat | DDeny deny_reason

section \<open>Resolvers and the evaluator\<close>

record contract_resolver =
  lookup_contract :: "string \<Rightarrow> string \<Rightarrow> action_contract option"
  action_is_money :: "string \<Rightarrow> string \<Rightarrow> bool"
  present_field_is_valid :: "string \<Rightarrow> string \<Rightarrow> string \<Rightarrow> json \<Rightarrow> bool"

text \<open>
  \<^verbatim>\<open>trait ContractProvider\<close>, and the resolver a map of providers implements; a provider's
  canonicalisation is used only for whether it succeeds.
\<close>

record contract_provider =
  cp_action_contract :: "string \<Rightarrow> action_contract option"
  cp_is_money_action :: "string \<Rightarrow> bool"
  cp_canonicalizes :: "string \<Rightarrow> json \<Rightarrow> bool"

definition provider_map_resolver :: "(string \<rightharpoonup> contract_provider) \<Rightarrow> contract_resolver" where
  "provider_map_resolver m =
     \<lparr>lookup_contract = (\<lambda>p a. Option.bind (m p) (\<lambda>cp. cp_action_contract cp a)),
      action_is_money = (\<lambda>p a. case m p of None \<Rightarrow> False | Some cp \<Rightarrow> cp_is_money_action cp a),
      present_field_is_valid = (\<lambda>p a field v. case m p of
          None \<Rightarrow> False
        | Some cp \<Rightarrow> cp_canonicalizes cp a (JObject [(field, v)]))\<rparr>"

record evaluator =
  ev_sha :: sha_fun
  ev_sets :: set_resolver_t
  ev_contracts :: contract_resolver

definition resolve_contract :: "evaluator \<Rightarrow> string \<Rightarrow> string \<Rightarrow> action_contract option" where
  "resolve_contract ev provider action =
     opt_filter (\<lambda>c. (ac_provider c = provider \<and> ac_action c = action) \<or>
                     (ac_open c \<and> ac_provider c = ''mock'' \<and> ac_action c = ''*''))
       (lookup_contract (ev_contracts ev) provider action)"

definition resolve_set :: "evaluator \<Rightarrow> string \<Rightarrow> string \<Rightarrow> string option \<Rightarrow> set_snapshot option" where
  "resolve_set ev provider nm digest = (case digest of
      None \<Rightarrow> None
    | Some d \<Rightarrow>
        if \<not> valid_snapshot_digest d then None
        else opt_filter (\<lambda>s. is_for (ev_sha ev) s provider nm d) (snapshot (ev_sets ev) provider nm d))"

definition set_members :: "evaluator \<Rightarrow> selector \<Rightarrow> string list option" where
  "set_members ev sel = (case sel of
      SetSel provider nm digest \<Rightarrow> map_option ss_members (resolve_set ev provider nm digest)
    | VerbSel _ _ \<Rightarrow> None)"

definition covers :: "evaluator \<Rightarrow> rule \<Rightarrow> string \<Rightarrow> string \<Rightarrow> bool" where
  "covers ev r provider action = (case r_selector r of
      VerbSel selected selected_action \<Rightarrow> selected = provider \<and> selected_action = action
    | SetSel selected nm digest \<Rightarrow>
        selected = provider \<and>
        (case resolve_set ev selected nm digest of
           None \<Rightarrow> False
         | Some s \<Rightarrow> action \<in> set (ss_members s)))"

definition selector_may_cover :: "evaluator \<Rightarrow> selector \<Rightarrow> string \<Rightarrow> string \<Rightarrow> bool" where
  "selector_may_cover ev sel provider action = (case sel of
      VerbSel selected selected_action \<Rightarrow> selected = provider \<and> selected_action = action
    | SetSel selected nm digest \<Rightarrow>
        selected = provider \<and>
        (case resolve_set ev selected nm digest of
           None \<Rightarrow> True
         | Some s \<Rightarrow> action \<in> set (ss_members s)))"

section \<open>Projection\<close>

record projected_rule =
  pr_rule :: rule
  pr_original_indices :: "nat list"

definition declares :: "action_contract \<Rightarrow> string \<Rightarrow> bool" where
  "declares c field \<longleftrightarrow> ac_open c \<or> field_decl c field \<noteq> None"

definition exists_in_set :: "evaluator \<Rightarrow> string \<Rightarrow> string list \<Rightarrow> string \<Rightarrow> bool" where
  "exists_in_set ev selected members field =
     list_ex (\<lambda>m. case resolve_contract ev selected m of
                    None \<Rightarrow> False | Some c \<Rightarrow> declares c field) members"

fun project_conjuncts :: "evaluator \<Rightarrow> string \<Rightarrow> string list \<Rightarrow> action_contract \<Rightarrow> nat \<Rightarrow> pred list
    \<Rightarrow> (pred list \<times> nat list) option" where
  "project_conjuncts ev selected members c idx [] = Some ([], [])"
| "project_conjuncts ev selected members c idx (p # ps) =
     (if \<not> exists_in_set ev selected members (pred_field p) then None
      else (case project_conjuncts ev selected members c (Suc idx) ps of
          None \<Rightarrow> None
        | Some (conjuncts, indices) \<Rightarrow>
            if declares c (pred_field p) then Some (p # conjuncts, idx # indices)
            else Some (conjuncts, indices)))"

definition project_rule :: "evaluator \<Rightarrow> rule \<Rightarrow> string \<Rightarrow> string \<Rightarrow> projected_rule option" where
  "project_rule ev r provider action =
     (if \<not> covers ev r provider action then None
      else (case r_selector r of
          VerbSel _ _ \<Rightarrow>
            Some \<lparr>pr_rule = r, pr_original_indices = [0..<length (r_conjuncts r)]\<rparr>
        | SetSel selected nm digest \<Rightarrow>
            Option.bind (resolve_contract ev provider action) (\<lambda>c.
            Option.bind (resolve_set ev selected nm digest) (\<lambda>s.
            map_option (\<lambda>(conjuncts, indices).
                \<lparr>pr_rule = r\<lparr>r_conjuncts := conjuncts\<rparr>, pr_original_indices = indices\<rparr>)
              (project_conjuncts ev selected (ss_members s) c 0 (r_conjuncts r))))))"

section \<open>Matching\<close>

fun scalar_matches :: "sscalar \<Rightarrow> rscalar \<Rightarrow> bool" where
  "scalar_matches (SInt a) (RInt b) = (a = b)"
| "scalar_matches (SString a) (RStr b) = (a = b)"
| "scalar_matches (SBool a) (RBool b) = (a = b)"
| "scalar_matches _ _ = False"

fun pred_matches :: "pred \<Rightarrow> rscalar \<Rightarrow> bool" where
  "pred_matches (PEq _ v) actual = scalar_matches v actual"
| "pred_matches (PLte _ n) actual = (case actual of RInt m \<Rightarrow> m \<le> n | _ \<Rightarrow> False)"
| "pred_matches (PGte _ n) actual = (case actual of RInt m \<Rightarrow> m \<ge> n | _ \<Rightarrow> False)"
| "pred_matches (PIn _ vs) actual = list_ex (\<lambda>v. scalar_matches v actual) vs"

text \<open>The first failing conjunct, with its position; \<open>Ok\<close> when all hold.\<close>

fun conjuncts_loop :: "nat \<Rightarrow> nat \<Rightarrow> pred list \<Rightarrow> canonical_resource \<Rightarrow> deny_reason + unit" where
  "conjuncts_loop rule_idx pred_idx [] res = Ok ()"
| "conjuncts_loop rule_idx pred_idx (p # ps) res = (case scalar res (pred_field p) of
      None \<Rightarrow> Err (MissingField rule_idx (pred_field p))
    | Some actual \<Rightarrow>
        if \<not> pred_matches p actual
        then Err (PredicateMismatch rule_idx pred_idx (Some (pred_field p)))
        else conjuncts_loop rule_idx (Suc pred_idx) ps res)"

definition evaluate_conjuncts :: "nat \<Rightarrow> pred list \<Rightarrow> canonical_resource \<Rightarrow> deny_reason + unit" where
  "evaluate_conjuncts rule_idx conjuncts res = conjuncts_loop rule_idx 0 conjuncts res"

fun scalar_binds_decl :: "sscalar \<Rightarrow> field_decl_t \<Rightarrow> bool" where
  "scalar_binds_decl (SInt _) d = (fd_ty d = KInt)"
| "scalar_binds_decl (SString _) d = (fd_ty d = KStr)"
| "scalar_binds_decl (SBool _) d = (fd_ty d = KBool)"

fun pred_resolves_for_decl :: "pred \<Rightarrow> field_decl_t \<Rightarrow> bool" where
  "pred_resolves_for_decl (PEq _ v) d = scalar_binds_decl v d"
| "pred_resolves_for_decl (PLte _ _) d = (fd_ty d = KInt)"
| "pred_resolves_for_decl (PGte _ _) d = (fd_ty d = KInt)"
| "pred_resolves_for_decl (PIn _ vs) d = (vs \<noteq> [] \<and> list_all (\<lambda>v. scalar_binds_decl v d) vs)"

definition conjuncts_resolve :: "pred list \<Rightarrow> action_contract \<Rightarrow> bool" where
  "conjuncts_resolve conjuncts c =
     list_all (\<lambda>p. ac_open c \<or>
        (case field_decl c (pred_field p) of None \<Rightarrow> False | Some d \<Rightarrow> pred_resolves_for_decl p d))
       conjuncts"

section \<open>The decision\<close>

text \<open>
  What one rule contributes: it may be skipped, end the evaluation with a denial, admit the
  request, or refuse it with a reason.
\<close>

datatype rule_outcome = Skip | Halt deny_reason | Admit | Refuse deny_reason

definition set_deny_unresolved :: "evaluator \<Rightarrow> rule \<Rightarrow> string \<Rightarrow> bool" where
  "set_deny_unresolved ev r provider = (case r_selector r of
      SetSel selected nm digest \<Rightarrow>
        r_effect r = Deny \<and> selected = provider \<and> resolve_set ev selected nm digest = None
    | VerbSel _ _ \<Rightarrow> False)"

definition rule_outcome_of :: "evaluator \<Rightarrow> action_contract \<Rightarrow> string \<Rightarrow> string \<Rightarrow> canonical_resource
    \<Rightarrow> nat \<Rightarrow> rule \<Rightarrow> rule_outcome" where
  "rule_outcome_of ev c provider action res rule_idx r =
     (if \<not> validate_rule_structure r then
        (if r_effect r = Deny \<and> selector_may_cover ev (r_selector r) provider action
         then Halt (UnresolvedDeny rule_idx) else Skip)
      else if set_deny_unresolved ev r provider then Halt (UnresolvedDeny rule_idx)
      else if \<not> covers ev r provider action then Skip
      else (case project_rule ev r provider action of
          None \<Rightarrow> if r_effect r = Deny then Halt (UnresolvedDeny rule_idx) else Skip
        | Some projected \<Rightarrow>
            if r_effect r = Deny \<and> \<not> conjuncts_resolve (r_conjuncts (pr_rule projected)) c
            then Halt (UnresolvedDeny rule_idx)
            else (case evaluate_conjuncts rule_idx (r_conjuncts (pr_rule projected)) res of
                Inr _ \<Rightarrow> (case r_effect r of Deny \<Rightarrow> Halt (ExplicitDeny rule_idx) | Allow \<Rightarrow> Admit)
              | Inl reason \<Rightarrow> Refuse (case reason of
                    PredicateMismatch i k field \<Rightarrow>
                      PredicateMismatch i (pr_original_indices projected ! k) field
                  | other \<Rightarrow> other))))"

definition or_else :: "'a option \<Rightarrow> 'a \<Rightarrow> 'a option" where
  "or_else v x = (case v of None \<Rightarrow> Some x | Some y \<Rightarrow> Some y)"

fun evaluate_loop :: "evaluator \<Rightarrow> action_contract \<Rightarrow> string \<Rightarrow> string \<Rightarrow> canonical_resource
    \<Rightarrow> nat \<Rightarrow> rule list \<Rightarrow> deny_reason option \<Rightarrow> nat option \<Rightarrow> decision" where
  "evaluate_loop ev c provider action res rule_idx [] first_denial first_allow =
     (case first_allow of
        Some i \<Rightarrow> DAllow i
      | None \<Rightarrow> DDeny (case first_denial of None \<Rightarrow> NoMatchingRule | Some reason \<Rightarrow> reason))"
| "evaluate_loop ev c provider action res rule_idx (r # rs) first_denial first_allow =
     (case rule_outcome_of ev c provider action res rule_idx r of
        Halt reason \<Rightarrow> DDeny reason
      | Skip \<Rightarrow> evaluate_loop ev c provider action res (Suc rule_idx) rs first_denial first_allow
      | Admit \<Rightarrow> evaluate_loop ev c provider action res (Suc rule_idx) rs first_denial
                  (or_else first_allow rule_idx)
      | Refuse reason \<Rightarrow> evaluate_loop ev c provider action res (Suc rule_idx) rs
                  (or_else first_denial reason) first_allow)"

definition evaluate :: "evaluator \<Rightarrow> rule_set \<Rightarrow> string \<Rightarrow> string \<Rightarrow> canonical_resource \<Rightarrow> decision" where
  "evaluate ev rules provider action res =
     (if \<not> ruleset_version_supported rules then DDeny (UnsupportedVersion (rs_version rules))
      else (case resolve_contract ev provider action of
          None \<Rightarrow> DDeny UnknownSelector
        | Some c \<Rightarrow> evaluate_loop ev c provider action res 0 (rs_rules rules) None None))"

definition evaluate_match_value :: "json_lib \<Rightarrow> evaluator \<Rightarrow> rule_set \<Rightarrow> string \<Rightarrow> string \<Rightarrow> json
    \<Rightarrow> resource_error + decision" where
  "evaluate_match_value J ev rules provider action v =
     (case resolve_contract ev provider action of
        None \<Rightarrow> Ok (DDeny UnknownSelector)
      | Some c \<Rightarrow>
          res_bind (from_stored J (json_print J v) c) (\<lambda>res.
          Ok (evaluate ev rules provider action res)))"

definition has_secret_conjunct :: "evaluator \<Rightarrow> rule \<Rightarrow> string \<Rightarrow> string \<Rightarrow> bool" where
  "has_secret_conjunct ev r provider action =
     list_ex (\<lambda>p. case r_selector r of
         VerbSel _ _ \<Rightarrow>
           (case resolve_contract ev provider action of
              None \<Rightarrow> False | Some c \<Rightarrow> field_class c (pred_field p) = Some Secret)
       | SetSel selected nm digest \<Rightarrow>
           (case resolve_set ev selected nm digest of
              None \<Rightarrow> False
            | Some s \<Rightarrow> list_ex (\<lambda>m. case resolve_contract ev selected m of
                  None \<Rightarrow> False | Some c \<Rightarrow> field_class c (pred_field p) = Some Secret)
                (ss_members s)))
       (r_conjuncts r)"

section \<open>Declarative reading\<close>

text \<open>
  The conjuncts hold of a resource when each names a present field whose value it matches. A rule
  matches a request when it is well formed, covers the action and all its projected conjuncts hold;
  a deny rule blocks a request when it matches, or when the evaluator cannot establish that it does
  not apply.
\<close>

definition conjuncts_hold :: "pred list \<Rightarrow> canonical_resource \<Rightarrow> bool" where
  "conjuncts_hold ps res \<longleftrightarrow>
     list_all (\<lambda>p. case scalar res (pred_field p) of None \<Rightarrow> False | Some v \<Rightarrow> pred_matches p v) ps"

definition rule_matches :: "evaluator \<Rightarrow> string \<Rightarrow> string \<Rightarrow> canonical_resource \<Rightarrow> rule \<Rightarrow> bool" where
  "rule_matches ev provider action res r \<longleftrightarrow>
     validate_rule_structure r \<and>
     (case project_rule ev r provider action of
        None \<Rightarrow> False
      | Some pr \<Rightarrow> conjuncts_hold (r_conjuncts (pr_rule pr)) res)"

definition rule_blocks :: "evaluator \<Rightarrow> action_contract \<Rightarrow> string \<Rightarrow> string \<Rightarrow> canonical_resource
    \<Rightarrow> rule \<Rightarrow> bool" where
  "rule_blocks ev c provider action res r \<longleftrightarrow>
     r_effect r = Deny \<and>
     (if \<not> validate_rule_structure r then selector_may_cover ev (r_selector r) provider action
      else set_deny_unresolved ev r provider \<or>
           (covers ev r provider action \<and>
            (case project_rule ev r provider action of
               None \<Rightarrow> True
             | Some pr \<Rightarrow> \<not> conjuncts_resolve (r_conjuncts (pr_rule pr)) c \<or>
                          conjuncts_hold (r_conjuncts (pr_rule pr)) res)))"

lemma conjuncts_loop_Ok: "conjuncts_loop i k ps res = Ok () \<longleftrightarrow> conjuncts_hold ps res"
  by (induction ps arbitrary: k) (auto simp: conjuncts_hold_def split: option.splits)

lemma evaluate_conjuncts_Ok:
  "evaluate_conjuncts i ps res = Ok () \<longleftrightarrow> conjuncts_hold ps res"
  by (simp add: evaluate_conjuncts_def conjuncts_loop_Ok)

lemma evaluate_conjuncts_cases:
  obtains "conjuncts_hold ps res" "evaluate_conjuncts i ps res = Ok ()"
  | e where "\<not> conjuncts_hold ps res" "evaluate_conjuncts i ps res = Err e"
proof (cases "evaluate_conjuncts i ps res")
  case (Inl e)
  then have "\<not> conjuncts_hold ps res" using evaluate_conjuncts_Ok[of i ps res] by simp
  with Inl show ?thesis using that(2) by blast
next
  case (Inr u)
  then have "conjuncts_hold ps res" using evaluate_conjuncts_Ok[of i ps res] by simp
  with Inr show ?thesis using that(1) by simp
qed

lemma project_rule_covers: "project_rule ev r p a = Some pr \<Longrightarrow> covers ev r p a"
  by (auto simp: project_rule_def split: if_splits)

lemma project_rule_effect: "project_rule ev r p a = Some pr \<Longrightarrow> r_effect (pr_rule pr) = r_effect r"
  by (auto simp: project_rule_def bind_eq_Some_conv split: if_splits selector.splits)

lemma outcome_Halt:
  "(\<exists>reason. rule_outcome_of ev c p a res i r = Halt reason) \<longleftrightarrow> rule_blocks ev c p a res r"
proof -
  have "(\<exists>reason. (case evaluate_conjuncts i ps res of
        Inr _ \<Rightarrow> (case r_effect r of Deny \<Rightarrow> Halt (ExplicitDeny i) | Allow \<Rightarrow> Admit)
      | Inl reason \<Rightarrow> Refuse (g reason)) = Halt reason) \<longleftrightarrow> r_effect r = Deny \<and> conjuncts_hold ps res"
    for ps g
    by (cases rule: evaluate_conjuncts_cases[of ps res i]; cases "r_effect r") auto
  then show ?thesis
    by (auto simp: rule_outcome_of_def rule_blocks_def set_deny_unresolved_def
        split: option.splits selector.splits)
qed

lemma outcome_Admit:
  "rule_outcome_of ev c p a res i r = Admit \<longleftrightarrow> r_effect r = Allow \<and> rule_matches ev p a res r"
proof -
  have "(case evaluate_conjuncts i ps res of
        Inr _ \<Rightarrow> (case r_effect r of Deny \<Rightarrow> Halt (ExplicitDeny i) | Allow \<Rightarrow> Admit)
      | Inl reason \<Rightarrow> Refuse (g reason)) = Admit \<longleftrightarrow> r_effect r = Allow \<and> conjuncts_hold ps res"
    for ps g
    by (cases rule: evaluate_conjuncts_cases[of ps res i]; cases "r_effect r") auto
  then show ?thesis
    by (auto simp: rule_outcome_of_def rule_matches_def set_deny_unresolved_def
        split: option.splits selector.splits dest: project_rule_covers)
qed


section \<open>The scan as an interface\<close>

text \<open>
  What a reader of a corpus relies on: a list of rules is scanned to the position of the first
  admitting rule, unless some rule - anywhere in the list - halts the scan.
\<close>

locale rule_scan =
  fixes halts :: "'r \<Rightarrow> bool"
    and admits :: "'r \<Rightarrow> bool"
    and run :: "'r list \<Rightarrow> nat option"
  assumes run_spec: "run rs = Some i \<longleftrightarrow>
      (\<forall>r \<in> set rs. \<not> halts r) \<and> i < length rs \<and> admits (rs ! i) \<and> (\<forall>j < i. \<not> admits (rs ! j))"
begin

lemma allowed_iff:
  "(\<exists>i. run rs = Some i) \<longleftrightarrow> (\<forall>r \<in> set rs. \<not> halts r) \<and> (\<exists>r \<in> set rs. admits r)"
proof
  assume "\<exists>i. run rs = Some i"
  then show "(\<forall>r \<in> set rs. \<not> halts r) \<and> (\<exists>r \<in> set rs. admits r)"
    using run_spec nth_mem by blast
next
  assume *: "(\<forall>r \<in> set rs. \<not> halts r) \<and> (\<exists>r \<in> set rs. admits r)"
  then obtain i where "i < length rs \<and> admits (rs ! i)" by (auto simp: in_set_conv_nth)
  then have "(LEAST i. i < length rs \<and> admits (rs ! i)) < length rs \<and>
             admits (rs ! (LEAST i. i < length rs \<and> admits (rs ! i)))" by (rule LeastI)
  moreover have "\<not> admits (rs ! j)" if "j < (LEAST i. i < length rs \<and> admits (rs ! i))" for j
    using that calculation not_less_Least order.strict_trans by blast
  ultimately show "\<exists>i. run rs = Some i" using * run_spec by blast
qed

lemma order_irrelevant:
  "set rs = set rs' \<Longrightarrow> (\<exists>i. run rs = Some i) \<longleftrightarrow> (\<exists>i. run rs' = Some i)"
  by (simp add: allowed_iff)

lemma remove_inert:
  assumes "run (pre @ r # post) = Some i" "\<not> admits r"
  shows "run (pre @ post) = Some (if i < length pre then i else i - 1)"
proof -
  have i: "i < length (pre @ r # post)" "admits ((pre @ r # post) ! i)"
    "\<forall>r \<in> set (pre @ r # post). \<not> halts r" "\<forall>j < i. \<not> admits ((pre @ r # post) ! j)"
    using assms(1) run_spec by blast+
  then have ne: "i \<noteq> length pre" using assms(2) by auto
  show ?thesis
  proof (cases "i < length pre")
    case True
    then have "admits ((pre @ post) ! i)" "\<forall>j < i. \<not> admits ((pre @ post) ! j)"
      using i(2,4) by (auto simp: nth_append)
    with True i show ?thesis by (auto simp: run_spec)
  next
    case False
    with ne obtain k where k: "i = Suc (length pre + k)" by (metis less_imp_Suc_add nat_neq_iff)
    then have "admits ((pre @ post) ! (i - 1))" using i(2) by (simp add: nth_append)
    moreover have "\<not> admits ((pre @ post) ! j)" if "j < i - 1" for j
    proof (cases "j < length pre")
      case True
      moreover have "\<not> admits ((pre @ r # post) ! j)" using i(4) that by simp
      ultimately show ?thesis by (simp add: nth_append)
    next
      case False
      then have "\<not> admits ((pre @ r # post) ! Suc j)" using i(4) that k by simp
      then show ?thesis using False by (simp add: nth_append Suc_diff_le)
    qed
    ultimately show ?thesis using i k by (auto simp: run_spec)
  qed
qed

lemma append_keeps_winner:
  assumes "run rs = Some i" "\<forall>r \<in> set post. \<not> halts r"
  shows "run (rs @ post) = Some i"
proof -
  have "i < length rs" using assms(1) run_spec by blast
  then show ?thesis using assms by (auto simp: run_spec nth_append)
qed

end

lemma find_index_Some:
  "find_index p k xs = Some i \<longleftrightarrow>
     (\<exists>j < length xs. i = k + j \<and> p (xs ! j) \<and> (\<forall>m < j. \<not> p (xs ! m)))"
proof (induction xs arbitrary: k)
  case (Cons x xs)
  show ?case
  proof (cases "p x")
    case True
    then show ?thesis by (force simp: nth_Cons')
  next
    case False
    then show ?thesis by (simp add: Cons Ex_less_Suc2 All_less_Suc2)
  qed
qed simp

abbreviation rule_admits :: "evaluator \<Rightarrow> string \<Rightarrow> string \<Rightarrow> canonical_resource \<Rightarrow> rule \<Rightarrow> bool" where
  "rule_admits ev p a res r \<equiv> r_effect r = Allow \<and> rule_matches ev p a res r"

lemma evaluate_loop_DAllow:
  "evaluate_loop ev c p a res k rs fd fa = DAllow i \<longleftrightarrow>
     (\<forall>r \<in> set rs. \<not> rule_blocks ev c p a res r) \<and>
     (case fa of Some j \<Rightarrow> i = j | None \<Rightarrow> find_index (rule_admits ev p a res) k rs = Some i)"
proof (induction rs arbitrary: k fd fa)
  case Nil
  then show ?case by (auto split: option.splits)
next
  case (Cons r rs)
  note halt = outcome_Halt[of ev c p a res k r] and admit = outcome_Admit[of ev c p a res k r]
  show ?case
  proof (cases "rule_outcome_of ev c p a res k r")
    case Skip
    then show ?thesis using halt admit by (auto simp: Cons split: option.splits)
  next
    case (Halt reason)
    then show ?thesis using halt by simp
  next
    case Admit
    then show ?thesis using halt admit by (auto simp: Cons or_else_def split: option.splits)
  next
    case (Refuse reason)
    then show ?thesis using halt admit by (auto simp: Cons split: option.splits)
  qed
qed

definition loop_winner :: "evaluator \<Rightarrow> action_contract \<Rightarrow> string \<Rightarrow> string \<Rightarrow> canonical_resource
    \<Rightarrow> rule list \<Rightarrow> nat option" where
  "loop_winner ev c p a res rs = (case evaluate_loop ev c p a res 0 rs None None of
      DAllow i \<Rightarrow> Some i | DDeny _ \<Rightarrow> None)"

interpretation decision: rule_scan "rule_blocks ev c p a res" "rule_admits ev p a res"
    "loop_winner ev c p a res"
  for ev c p a res
proof
  fix rs i
  have "loop_winner ev c p a res rs = Some i \<longleftrightarrow>
        evaluate_loop ev c p a res 0 rs None None = DAllow i"
    by (auto simp: loop_winner_def split: decision.splits)
  then show "loop_winner ev c p a res rs = Some i \<longleftrightarrow>
      (\<forall>r \<in> set rs. \<not> rule_blocks ev c p a res r) \<and> i < length rs \<and>
      rule_admits ev p a res (rs ! i) \<and> (\<forall>j < i. \<not> rule_admits ev p a res (rs ! j))"
    by (auto simp: evaluate_loop_DAllow find_index_Some)
qed

lemma evaluate_DAllow_winner:
  "evaluate ev rules p a res = DAllow i \<longleftrightarrow>
     ruleset_version_supported rules \<and>
     (\<exists>c. resolve_contract ev p a = Some c \<and> loop_winner ev c p a res (rs_rules rules) = Some i)"
  by (auto simp: evaluate_def loop_winner_def split: option.splits decision.splits)


section \<open>What the evaluator decides\<close>

text \<open>
  C1. The decision is allow, by rule \<open>i\<close>, exactly when the rule-set version is supported, the action
  has a contract, no rule of the corpus blocks the request, and \<open>i\<close> is the first allow rule that
  matches it. There is no other way to obtain an allow.
\<close>

theorem evaluate_allow_iff:
  "evaluate ev rules p a res = DAllow i \<longleftrightarrow>
     ruleset_version_supported rules \<and>
     (\<exists>c. resolve_contract ev p a = Some c \<and>
          (\<forall>r \<in> set (rs_rules rules). \<not> rule_blocks ev c p a res r)) \<and>
     i < length (rs_rules rules) \<and>
     r_effect (rs_rules rules ! i) = Allow \<and> rule_matches ev p a res (rs_rules rules ! i) \<and>
     (\<forall>j < i. \<not> (r_effect (rs_rules rules ! j) = Allow \<and> rule_matches ev p a res (rs_rules rules ! j)))"
  unfolding evaluate_DAllow_winner decision.run_spec by blast

definition allowed :: "evaluator \<Rightarrow> rule_set \<Rightarrow> string \<Rightarrow> string \<Rightarrow> canonical_resource \<Rightarrow> bool" where
  "allowed ev rules p a res \<longleftrightarrow> (\<exists>i. evaluate ev rules p a res = DAllow i)"

lemma allowed_winner:
  "allowed ev rules p a res \<longleftrightarrow> ruleset_version_supported rules \<and>
     (\<exists>c. resolve_contract ev p a = Some c \<and> (\<exists>i. loop_winner ev c p a res (rs_rules rules) = Some i))"
  by (auto simp: allowed_def evaluate_DAllow_winner)

text \<open>
  C19. Two corpora with the same rules, in whatever order and with whatever repetitions, allow the
  same requests: the position of a deny rule relative to an allow rule never matters.
\<close>

theorem verdict_order_irrelevant:
  assumes "set (rs_rules A) = set (rs_rules B)" "rs_version A = rs_version B"
  shows "(\<exists>i. evaluate ev A p a res = DAllow i) \<longleftrightarrow> (\<exists>i. evaluate ev B p a res = DAllow i)"
  using assms decision.order_irrelevant[OF assms(1), of ev _ p a res]
  unfolding allowed_def[symmetric] allowed_winner by (simp add: ruleset_version_supported_def)

text \<open>
  C18. Inserting a rule that is not an allow rule, anywhere in a corpus, never widens it: what the
  extended corpus allows, the original allows, by the same governing rule.
\<close>

theorem deny_rule_only_narrows:
  assumes "evaluate ev (rules\<lparr>rs_rules := pre @ r # post\<rparr>) p a res = DAllow i"
    and "r_effect r = Deny"
  shows "evaluate ev (rules\<lparr>rs_rules := pre @ post\<rparr>) p a res
           = DAllow (if i < length pre then i else i - 1)
         \<and> (pre @ post) ! (if i < length pre then i else i - 1) = (pre @ r # post) ! i"
proof -
  obtain c where c: "ruleset_version_supported (rules\<lparr>rs_rules := pre @ r # post\<rparr>)"
    "resolve_contract ev p a = Some c" "loop_winner ev c p a res (pre @ r # post) = Some i"
    using assms(1) by (auto simp: evaluate_DAllow_winner)
  have inert: "\<not> rule_admits ev p a res r" using assms(2) by simp
  have "loop_winner ev c p a res (pre @ post) = Some (if i < length pre then i else i - 1)"
    using decision.remove_inert[OF c(3) inert] .
  moreover have "i \<noteq> length pre" using c(3) inert unfolding decision.run_spec by auto
  ultimately show ?thesis using c(1,2)
    by (auto simp: evaluate_DAllow_winner ruleset_version_supported_def nth_append nth_Cons'
        not_less less_Suc_eq_le Suc_diff_le)
qed

text \<open>
  Appending rules none of which blocks the request leaves the decision, and the rule it is
  attributed to, as it was.
\<close>

theorem appended_rules_keep_the_winner:
  assumes "evaluate ev rules p a res = DAllow i" "resolve_contract ev p a = Some c"
    and "list_all (\<lambda>r. \<not> rule_blocks ev c p a res r) post"
  shows "evaluate ev (rules\<lparr>rs_rules := rs_rules rules @ post\<rparr>) p a res = DAllow i"
proof -
  have w: "loop_winner ev c p a res (rs_rules rules) = Some i" and v: "ruleset_version_supported rules"
    using assms(1,2) by (auto simp: evaluate_DAllow_winner)
  have "loop_winner ev c p a res (rs_rules rules @ post) = Some i"
    using decision.append_keeps_winner[OF w] assms(3) by (simp add: list_all_iff)
  with v assms(2) show ?thesis by (simp add: evaluate_DAllow_winner ruleset_version_supported_def)
qed


section \<open>Denial reasons\<close>

lemma project_conjuncts_indices:
  "project_conjuncts ev sel ms c idx ps = Some (cs, ks) \<Longrightarrow>
     length ks = length cs \<and>
     (\<forall>k < length cs. idx \<le> ks ! k \<and> ks ! k < idx + length ps \<and> ps ! (ks ! k - idx) = cs ! k)"
proof (induction ps arbitrary: idx cs ks)
  case (Cons p ps)
  then obtain cs' ks' where rec: "project_conjuncts ev sel ms c (Suc idx) ps = Some (cs', ks')"
    and res: "(cs, ks) = (p # cs', idx # ks') \<or> (cs, ks) = (cs', ks')"
    by (auto split: if_splits option.splits)
  note IH = Cons.IH[OF rec]
  have shift: "idx \<le> ks' ! k \<and> ks' ! k < idx + length (p # ps) \<and> (p # ps) ! (ks' ! k - idx) = cs' ! k"
    if "k < length cs'" for k
  proof -
    have b: "Suc idx \<le> ks' ! k" "ks' ! k < Suc idx + length ps" "ps ! (ks' ! k - Suc idx) = cs' ! k"
      using IH that by blast+
    then have "ks' ! k - idx = Suc (ks' ! k - Suc idx)" by simp
    with b show ?thesis by simp
  qed
  from res show ?case
  proof
    assume eq: "(cs, ks) = (p # cs', idx # ks')"
    have "idx \<le> ks ! k \<and> ks ! k < idx + length (p # ps) \<and> (p # ps) ! (ks ! k - idx) = cs ! k"
      if "k < length cs" for k
      using that eq shift by (cases k) auto
    then show ?thesis using eq IH by simp
  next
    assume "(cs, ks) = (cs', ks')"
    then show ?thesis using IH shift by simp
  qed
qed simp

lemma project_rule_indices:
  assumes "project_rule ev r p a = Some pr" "k < length (r_conjuncts (pr_rule pr))"
  shows "pr_original_indices pr ! k < length (r_conjuncts r)
         \<and> r_conjuncts r ! (pr_original_indices pr ! k) = r_conjuncts (pr_rule pr) ! k"
proof (cases "r_selector r")
  case (VerbSel x y)
  with assms show ?thesis by (auto simp: project_rule_def split: if_splits)
next
  case (SetSel sel nm d)
  with assms obtain c cs ks and s :: set_snapshot where
    pc: "project_conjuncts ev sel (ss_members s) c 0 (r_conjuncts r) = Some (cs, ks)"
    and pr: "pr = \<lparr>pr_rule = r\<lparr>r_conjuncts := cs\<rparr>, pr_original_indices = ks\<rparr>"
    by (auto simp: project_rule_def bind_eq_Some_conv split: if_splits)
  show ?thesis using project_conjuncts_indices[OF pc] assms(2) pr by auto
qed

lemma conjuncts_loop_Err:
  "conjuncts_loop i k ps res = Err e \<Longrightarrow> \<exists>j < length ps.
     (e = MissingField i (pred_field (ps ! j)) \<and> scalar res (pred_field (ps ! j)) = None) \<or>
     (\<exists>v. e = PredicateMismatch i (k + j) (Some (pred_field (ps ! j))) \<and>
          scalar res (pred_field (ps ! j)) = Some v \<and> \<not> pred_matches (ps ! j) v)"
proof (induction ps arbitrary: k)
  case (Cons q ps)
  show ?case
  proof (cases "scalar res (pred_field q)")
    case None
    with Cons.prems show ?thesis by force
  next
    case (Some v)
    show ?thesis
    proof (cases "pred_matches q v")
      case True
      with Some Cons.prems have "conjuncts_loop i (Suc k) ps res = Err e" by simp
      from Cons.IH[OF this] obtain j where j: "j < length ps"
        "(e = MissingField i (pred_field (ps ! j)) \<and> scalar res (pred_field (ps ! j)) = None) \<or>
         (\<exists>v. e = PredicateMismatch i (Suc k + j) (Some (pred_field (ps ! j))) \<and>
          scalar res (pred_field (ps ! j)) = Some v \<and> \<not> pred_matches (ps ! j) v)" by blast
      then show ?thesis by (intro exI[of _ "Suc j"]) auto
    next
      case False
      with Some Cons.prems show ?thesis by force
    qed
  qed
qed simp

text \<open>What each denial reason says of the corpus and the request.\<close>

definition reason_holds :: "evaluator \<Rightarrow> action_contract \<Rightarrow> string \<Rightarrow> string \<Rightarrow> canonical_resource
    \<Rightarrow> rule list \<Rightarrow> deny_reason \<Rightarrow> bool" where
  "reason_holds ev c p a res rs reason = (case reason of
      ExplicitDeny i \<Rightarrow> i < length rs \<and> r_effect (rs ! i) = Deny \<and> rule_matches ev p a res (rs ! i)
    | UnresolvedDeny i \<Rightarrow> i < length rs \<and> rule_blocks ev c p a res (rs ! i)
    | MissingField i field \<Rightarrow> i < length rs \<and> covers ev (rs ! i) p a \<and>
        field \<in> pred_field ` set (r_conjuncts (rs ! i)) \<and> scalar res field = None
    | PredicateMismatch i k field \<Rightarrow> i < length rs \<and> covers ev (rs ! i) p a \<and>
        k < length (r_conjuncts (rs ! i)) \<and>
        (let q = r_conjuncts (rs ! i) ! k in
           field = Some (pred_field q) \<and>
           (\<exists>v. scalar res (pred_field q) = Some v \<and> \<not> pred_matches q v))
    | NoMatchingRule \<Rightarrow>
        (\<forall>r \<in> set rs. validate_rule_structure r \<longrightarrow> project_rule ev r p a = None)
    | _ \<Rightarrow> False)"

lemma outcome_reason:
  assumes "i < length rs"
    and "rule_outcome_of ev c p a res i (rs ! i) \<in> {Halt reason, Refuse reason}"
  shows "reason_holds ev c p a res rs reason"
proof (cases "rule_outcome_of ev c p a res i (rs ! i) = Halt reason")
  case True
  then have blocks: "rule_blocks ev c p a res (rs ! i)" using outcome_Halt by blast
  then have deny: "r_effect (rs ! i) = Deny" by (simp add: rule_blocks_def)
  show ?thesis
  proof (cases "reason = ExplicitDeny i")
    case True
    with \<open>rule_outcome_of ev c p a res i (rs ! i) = Halt reason\<close>
    have "rule_matches ev p a res (rs ! i)"
      by (auto simp: rule_outcome_of_def rule_matches_def evaluate_conjuncts_Ok
          split: if_splits option.splits sum.splits)
    with True deny assms(1) show ?thesis by (simp add: reason_holds_def)
  next
    case False
    with True have "reason = UnresolvedDeny i"
      by (auto simp: rule_outcome_of_def split: if_splits option.splits sum.splits rule_effect.splits)
    with blocks assms(1) show ?thesis by (simp add: reason_holds_def)
  qed
next
  case False
  with assms(2) have "rule_outcome_of ev c p a res i (rs ! i) = Refuse reason" by simp
  then obtain pr e where pr: "project_rule ev (rs ! i) p a = Some pr" "covers ev (rs ! i) p a"
    and e: "evaluate_conjuncts i (r_conjuncts (pr_rule pr)) res = Err e"
    and reason: "reason = (case e of PredicateMismatch i k field \<Rightarrow>
        PredicateMismatch i (pr_original_indices pr ! k) field | other \<Rightarrow> other)"
    by (auto simp: rule_outcome_of_def split: if_splits option.splits sum.splits rule_effect.splits)
  from conjuncts_loop_Err[OF e[unfolded evaluate_conjuncts_def]] obtain j where
    j: "j < length (r_conjuncts (pr_rule pr))" and
    c: "(e = MissingField i (pred_field (r_conjuncts (pr_rule pr) ! j)) \<and>
         scalar res (pred_field (r_conjuncts (pr_rule pr) ! j)) = None) \<or>
     (\<exists>v. e = PredicateMismatch i (0 + j) (Some (pred_field (r_conjuncts (pr_rule pr) ! j))) \<and>
          scalar res (pred_field (r_conjuncts (pr_rule pr) ! j)) = Some v \<and>
          \<not> pred_matches (r_conjuncts (pr_rule pr) ! j) v)" by blast
  from project_rule_indices[OF pr(1) j] have
    "pr_original_indices pr ! j < length (r_conjuncts (rs ! i))"
    "r_conjuncts (rs ! i) ! (pr_original_indices pr ! j) = r_conjuncts (pr_rule pr) ! j" by auto
  moreover have "pred_field (r_conjuncts (pr_rule pr) ! j) \<in> pred_field ` set (r_conjuncts (rs ! i))"
    using calculation by (metis imageI nth_mem)
  ultimately show ?thesis using c reason pr(2) assms(1)
    by (elim disjE) (auto simp: reason_holds_def Let_def)
qed

lemma evaluate_loop_DDeny:
  assumes "evaluate_loop ev c p a res (length pre) rs fd fa = DDeny reason"
    and "case fd of Some e \<Rightarrow> reason_holds ev c p a res (pre @ rs) e
         | None \<Rightarrow> fa = None \<longrightarrow> (\<forall>r \<in> set pre. validate_rule_structure r \<longrightarrow> project_rule ev r p a = None)"
  shows "reason_holds ev c p a res (pre @ rs) reason"
  using assms
proof (induction rs arbitrary: pre fd fa)
  case Nil
  then show ?case by (auto simp: reason_holds_def split: option.splits)
next
  case (Cons r rs)
  let ?o = "rule_outcome_of ev c p a res (length pre) r"
  have at: "(pre @ r # rs) ! length pre = r" "length pre < length (pre @ r # rs)" by simp_all
  have app: "pre @ r # rs = (pre @ [r]) @ rs" by simp
  note step = Cons.IH[of "pre @ [r]", unfolded app[symmetric]]
  show ?case
  proof (cases ?o)
    case Skip
    have "validate_rule_structure r \<longrightarrow> project_rule ev r p a = None"
      using Skip by (auto simp: rule_outcome_of_def project_rule_def
          split: if_splits option.splits sum.splits rule_effect.splits)
    then show ?thesis using Cons.prems Skip by (intro step) (auto split: option.splits)
  next
    case (Halt e)
    then show ?thesis using Cons.prems(1) outcome_reason[OF at(2)] at(1) by auto
  next
    case Admit
    then show ?thesis using Cons.prems
      by (intro step) (auto simp: or_else_def split: option.splits)
  next
    case (Refuse e)
    then have "reason_holds ev c p a res (pre @ r # rs) e"
      using outcome_reason[OF at(2)] at(1) by auto
    then show ?thesis using Cons.prems Refuse
      by (intro step) (auto simp: or_else_def split: option.splits)
  qed
qed

text \<open>
  C24. Every denial is explained truthfully. A supported corpus with a contract for the action is
  denied only with a reason that holds: the named rule is a deny rule that matches, or one that
  cannot be shown not to apply; the named field is constrained by a covering rule and absent; the
  conjunct at the reported position of the rule as written fails on the value present; or no rule
  of the corpus projects to the action.
\<close>

theorem denial_explained:
  assumes "evaluate ev rules p a res = DDeny reason"
  shows "if \<not> ruleset_version_supported rules then reason = UnsupportedVersion (rs_version rules)
         else case resolve_contract ev p a of
           None \<Rightarrow> reason = UnknownSelector
         | Some c \<Rightarrow> reason_holds ev c p a res (rs_rules rules) reason"
  using assms evaluate_loop_DDeny[of ev _ p a res "[]" "rs_rules rules" None None reason]
  by (auto simp: evaluate_def split: if_splits option.splits)


section \<open>Sample corpus\<close>

text \<open>
  A small provider with two actions and one set, on which the theorems with hypotheses are applied.
\<close>

definition sample_sha :: sha_fun where
  "sample_sha bytes = replicate 32 (sum_list bytes mod 256)"

definition sample_field :: "string \<Rightarrow> scalar_kind \<Rightarrow> field_class_t \<Rightarrow> allow_binding \<Rightarrow> field_decl_t" where
  "sample_field nm k cls b =
     \<lparr>fd_name = nm, fd_ty = k, fd_required = True, fd_class = cls, fd_binding = b\<rparr>"

definition sample_contract :: "string \<Rightarrow> action_contract" where
  "sample_contract action =
     \<lparr>ac_provider = ''pay'', ac_action = action,
      ac_schema = [sample_field ''amount'' KInt SideEffect Bounded,
                   sample_field ''to'' KStr Identity ExactResourcePin],
      ac_consumes = [''amount'', ''to''], ac_execution_targets = [''to''], ac_relations = [],
      ac_open = False\<rparr>"

definition sample_contracts :: contract_resolver where
  "sample_contracts =
     \<lparr>lookup_contract = (\<lambda>p a. if p = ''pay'' \<and> (a = ''send'' \<or> a = ''hold'')
                               then Some (sample_contract a) else None),
      action_is_money = (\<lambda>p a. False),
      present_field_is_valid = (\<lambda>p a f v. True)\<rparr>"

definition sample_catalog :: set_catalog where
  "sample_catalog = [(''pay'', [(''moves'', \<lparr>sd_members = [''send'', ''hold''], sd_include = [],
                                           sd_history = []\<rparr>)])]"

definition sample_evaluator :: evaluator where
  "sample_evaluator = \<lparr>ev_sha = sample_sha, ev_sets = vendored_set_resolver sample_sha sample_catalog,
                       ev_contracts = sample_contracts\<rparr>"

definition sample_allow :: rule where
  "sample_allow = \<lparr>r_effect = Allow, r_selector = VerbSel ''pay'' ''send'',
                   r_conjuncts = [PEq ''to'' (SString ''bob''), PLte ''amount'' 100],
                   r_aggregate = None\<rparr>"

definition sample_deny :: rule where
  "sample_deny = \<lparr>r_effect = Deny, r_selector = VerbSel ''pay'' ''send'',
                  r_conjuncts = [PGte ''amount'' 90], r_aggregate = None\<rparr>"

definition sample_rules :: "rule list \<Rightarrow> rule_set" where
  "sample_rules rs = \<lparr>rs_version = 1, rs_rules = rs\<rparr>"

definition sample_resource :: "int \<Rightarrow> canonical_resource" where
  "sample_resource n = \<lparr>cr_fields = [(''amount'', RInt n), (''to'', RStr ''bob'')]\<rparr>"

theorem evaluate_allow_iff_witness:
  "\<not> rule_blocks sample_evaluator (sample_contract ''send'') ''pay'' ''send'' (sample_resource 50) sample_deny
   \<and> rule_matches sample_evaluator ''pay'' ''send'' (sample_resource 50) sample_allow"
proof -
  have "evaluate sample_evaluator (sample_rules [sample_deny, sample_allow]) ''pay'' ''send''
      (sample_resource 50) = DAllow 1"
    by code_simp
  moreover have "resolve_contract sample_evaluator ''pay'' ''send'' = Some (sample_contract ''send'')"
    by code_simp
  ultimately show ?thesis unfolding evaluate_allow_iff by (simp add: sample_rules_def)
qed

theorem verdict_order_irrelevant_witness:
  "(\<exists>i. evaluate sample_evaluator (sample_rules [sample_deny, sample_allow]) ''pay'' ''send''
          (sample_resource 50) = DAllow i)
   \<longleftrightarrow> (\<exists>i. evaluate sample_evaluator (sample_rules [sample_allow, sample_deny, sample_allow])
          ''pay'' ''send'' (sample_resource 50) = DAllow i)"
  by (rule verdict_order_irrelevant) (auto simp: sample_rules_def)

theorem deny_rule_only_narrows_witness:
  "evaluate sample_evaluator (sample_rules [sample_allow]) ''pay'' ''send'' (sample_resource 50)
     = DAllow 0"
proof -
  have "evaluate sample_evaluator (sample_rules []\<lparr>rs_rules := [] @ sample_deny # [sample_allow]\<rparr>)
      ''pay'' ''send'' (sample_resource 50) = DAllow 1"
    by code_simp
  from deny_rule_only_narrows[OF this] show ?thesis
    by (simp add: sample_deny_def sample_rules_def)
qed

theorem appended_rules_keep_the_winner_witness:
  "evaluate sample_evaluator (sample_rules [sample_allow, sample_deny]) ''pay'' ''send''
     (sample_resource 50) = DAllow 0"
proof -
  have "evaluate sample_evaluator (sample_rules [sample_allow]) ''pay'' ''send'' (sample_resource 50)
      = DAllow 0"
    by code_simp
  moreover have "resolve_contract sample_evaluator ''pay'' ''send'' = Some (sample_contract ''send'')"
    by code_simp
  moreover have "list_all (\<lambda>r. \<not> rule_blocks sample_evaluator (sample_contract ''send'') ''pay'' ''send''
      (sample_resource 50) r) [sample_deny]"
    by code_simp
  ultimately have "evaluate sample_evaluator (sample_rules [sample_allow]
      \<lparr>rs_rules := rs_rules (sample_rules [sample_allow]) @ [sample_deny]\<rparr>) ''pay'' ''send''
     (sample_resource 50) = DAllow 0"
    by (rule appended_rules_keep_the_winner)
  then show ?thesis by (simp add: sample_rules_def)
qed

theorem denial_explained_witness:
  "reason_holds sample_evaluator (sample_contract ''send'') ''pay'' ''send'' (sample_resource 95)
     [sample_allow, sample_deny] (ExplicitDeny 1)"
proof -
  have "evaluate sample_evaluator (sample_rules [sample_allow, sample_deny]) ''pay'' ''send''
      (sample_resource 95) = DDeny (ExplicitDeny 1)"
    by code_simp
  moreover have "resolve_contract sample_evaluator ''pay'' ''send'' = Some (sample_contract ''send'')"
    by code_simp
  ultimately show ?thesis using denial_explained
    by (fastforce simp: sample_rules_def ruleset_version_supported_def RULE_SET_VERSION_def)
qed

end
