(* ===== verification/Sentence_Codec.thy ===== *)
theory Sentence_Codec
  imports Sentence_Syntax
begin

text \<open>
  The canonical printer and the parser are inverse. A piece of text \<open>prints\<close> a list of tokens when
  it lexes to them before any continuation that does not extend its last word, is untouched by the
  comment stripper and holds no line break; the pieces of a rule compose under the separators the
  printer writes. On the parser's side each syntactic class is read back from its tokens. Rules the
  grammar can spell (\<open>rule_printable\<close>) are exactly those that survive the codec, and every parsed
  rule is one of them.
\<close>

section \<open>Text pieces\<close>

definition boundary :: "string \<Rightarrow> bool" where
  "boundary rest \<longleftrightarrow> (case rest of [] \<Rightarrow> True | c # _ \<Rightarrow> \<not> word_char c)"

definition prepend :: "token list \<Rightarrow> sentence_error + token list \<Rightarrow> sentence_error + token list" where
  "prepend ts r = map_sum id ((@) ts) r"

definition prints :: "string \<Rightarrow> token list \<Rightarrow> bool" where
  "prints s ts \<longleftrightarrow> s \<noteq> [] \<and> last s \<noteq> cr \<and> nl \<notin> set s \<and>
     (\<forall>rest. strip_comment False False (s @ rest) = s @ strip_comment False False rest) \<and>
     (\<forall>line rest. boundary rest \<longrightarrow> tokenize line (s @ rest) = prepend ts (tokenize line rest))"

lemma prepend_simps [simp]:
  "prepend ts (Err e) = Err e" "prepend ts (Ok us) = Ok (ts @ us)" "prepend [] r = r"
  by (cases r; simp add: prepend_def)+

lemma push_token_prepend: "push_token t r = prepend [t] r"
  by (cases r) (simp_all add: push_token_def prepend_def)

lemma prepend_prepend [simp]: "prepend ts (prepend us r) = prepend (ts @ us) r"
  by (cases r) (simp_all add: prepend_def)

lemma boundary_simps [simp]: "boundary []" "boundary (c # cs) \<longleftrightarrow> \<not> word_char c"
  by (simp_all add: boundary_def)

lemma boundary_append: "boundary s \<Longrightarrow> s \<noteq> [] \<Longrightarrow> boundary (s @ rest)"
  by (cases s) simp_all

lemma prints_append:
  assumes "prints s ts" "prints s' ts'" "boundary s'"
  shows "prints (s @ s') (ts @ ts')"
  using assms by (simp add: prints_def boundary_append)

lemma prints_tokenize: "prints s ts \<Longrightarrow> tokenize line s = Ok ts"
  unfolding prints_def by (metis append_Nil2 boundary_simps(1) prepend_simps(2) tokenize.simps(1))

lemma prints_without_comment: "prints s ts \<Longrightarrow> without_comment s = s"
  unfolding prints_def without_comment_def by (metis append_Nil2 strip_comment.simps(1))

lemma prints_strip_cr: "prints s ts \<Longrightarrow> strip_cr s = s"
  by (simp add: prints_def strip_cr_def)

subsection \<open>Words\<close>

definition ident_char :: "char \<Rightarrow> bool" where
  "ident_char c \<longleftrightarrow> is_ascii_lowercase c \<or> is_ascii_digit c \<or>
     c \<in> {CHR ''_'', CHR ''-'', CHR ''.'', CHR ''@'', CHR '':''}"

lemma ident_char_facts:
  assumes "ident_char c"
  shows "word_char c" "c \<noteq> CHR ''#''" "c \<noteq> nl" "c \<noteq> cr" "c \<noteq> dquote" "\<not> is_whitespace c"
    "c \<notin> {CHR ''='', CHR ''<'', CHR ''>'', CHR ''{'', CHR ''}'', CHR '',''}"
  using assms
  by (auto simp: ident_char_def word_char_def char_class_defs char_consts)

lemma strip_comment_word:
  "list_all ident_char w \<Longrightarrow>
   strip_comment False False (w @ rest) = w @ strip_comment False False rest"
  by (induction w) (auto simp: ident_char_facts)

lemma tokenize_word:
  assumes "w \<noteq> []" "list_all ident_char w" "boundary rest"
  shows "tokenize line (w @ rest) = prepend [Word w] (tokenize line rest)"
proof -
  obtain c cs where w: "w = c # cs" using assms(1) by (cases w) auto
  have c: "ident_char c" and cs: "list_all ident_char cs" using assms(2) by (simp_all add: w)
  have t: "takeWhile word_char (cs @ rest) = cs" "dropWhile word_char (cs @ rest) = rest"
    using cs assms(3) ident_char_facts(1)
    by (induction cs; cases rest; simp)+
  show ?thesis
    using ident_char_facts[OF c] by (simp add: w tokenize.simps(2) t push_token_prepend)
qed

lemma prints_word:
  assumes "w \<noteq> []" "list_all ident_char w"
  shows "prints w [Word w]"
proof -
  have "nl \<notin> set w" using assms(2) ident_char_facts(3) by (auto simp: list_all_iff)
  moreover have "last w \<noteq> cr" using assms ident_char_facts(4) by (auto simp: list_all_iff)
  ultimately show ?thesis
    using assms by (simp add: prints_def strip_comment_word tokenize_word)
qed

subsection \<open>Punctuation\<close>

lemma white_space: "is_whitespace (CHR '' '')" "\<not> word_char (CHR '' '')"
  by (simp_all add: is_whitespace_def word_char_def)

lemma not_white_space:
  "\<not> is_whitespace (CHR ''='')" "\<not> is_whitespace (CHR ''<'')" "\<not> is_whitespace (CHR ''>'')"
  "\<not> is_whitespace (CHR ''{'')" "\<not> is_whitespace (CHR ''}'')" "\<not> is_whitespace (CHR '','')"
  "\<not> is_whitespace dquote"
  by (simp_all add: is_whitespace_def dquote_def)

lemma not_word_char:
  "\<not> word_char (CHR ''='')" "\<not> word_char (CHR ''<'')" "\<not> word_char (CHR ''>'')"
  "\<not> word_char (CHR ''{'')" "\<not> word_char (CHR ''}'')" "\<not> word_char (CHR '','')"
  "\<not> word_char dquote"
  by (simp_all add: word_char_def)

lemmas punct = white_space not_white_space not_word_char

text \<open>The separators the printer writes, each with the space after it where it writes one.\<close>

lemma prints_space: "prints s ts \<Longrightarrow> prints (CHR '' '' # s) ts"
  by (auto simp: prints_def tokenize.simps(2) punct char_consts)

lemma prints_eq_sign: "prints s ts \<Longrightarrow> prints (''= '' @ s) (TEq # ts)"
  by (auto simp: prints_def tokenize.simps(2) punct push_token_prepend char_consts)

lemma prints_lte: "prints s ts \<Longrightarrow> prints (''<= '' @ s) (TLte # ts)"
  by (auto simp: prints_def tokenize.simps(2) punct push_token_prepend char_consts)

lemma prints_gte: "prints s ts \<Longrightarrow> prints (''>= '' @ s) (TGte # ts)"
  by (auto simp: prints_def tokenize.simps(2) punct push_token_prepend char_consts)

lemma prints_comma: "prints s ts \<Longrightarrow> prints ('', '' @ s) (Comma # ts)"
  by (auto simp: prints_def tokenize.simps(2) punct push_token_prepend char_consts)

lemma prints_left: "prints s ts \<Longrightarrow> prints (''{'' @ s) (LeftBrace # ts)"
  by (auto simp: prints_def tokenize.simps(2) punct push_token_prepend char_consts)

lemma prints_right: "prints ''}'' [RightBrace]"
  by (auto simp: prints_def tokenize.simps(2) punct push_token_prepend char_consts)

text \<open>A keyword between two pieces.\<close>

lemma prints_keyword:
  assumes "w \<noteq> []" "list_all ident_char w" "prints s ts"
  shows "prints (w @ CHR '' '' # s) (Word w # ts)"
  using prints_append[OF prints_word[OF assms(1,2)] prints_space[OF assms(3)]] by (simp add: punct)

lemma ident_literals:
  "list_all ident_char ''allow''" "list_all ident_char ''deny''" "list_all ident_char ''where''"
  "list_all ident_char ''and''" "list_all ident_char ''in''" "list_all ident_char ''budget''"
  "list_all ident_char ''rate''" "list_all ident_char ''per''" "list_all ident_char ''hour''"
  "list_all ident_char ''day''" "list_all ident_char ''true''" "list_all ident_char ''false''"
  by (simp_all add: ident_char_def char_class_defs)

subsection \<open>Quoted strings\<close>

lemma tokenize_string_escape:
  "tokenize_string line (escape v @ dquote # rest) = Ok (v, rest)"
  by (induction v) (auto simp: char_consts)

lemma strip_comment_escape:
  "strip_comment True False (escape v @ rest) = escape v @ strip_comment True False rest"
  by (induction v) (auto simp: char_consts)

lemma set_escape: "set (escape v) \<subseteq> set v \<union> {backslash}"
  by (induction v) auto

lemma prints_quoted:
  assumes "nl \<notin> set v"
  shows "prints (quote_string v) [Quoted v]"
proof -
  have "nl \<notin> set (quote_string v)"
    using assms set_escape[of v] by (auto simp: quote_string_def char_consts)
  moreover have "strip_comment False False (quote_string v @ rest)
      = quote_string v @ strip_comment False False rest" for rest
    by (simp add: quote_string_def strip_comment_escape) (simp add: char_consts)
  moreover have "tokenize line (quote_string v @ rest) = prepend [Quoted v] (tokenize line rest)"
    for line rest
    by (simp add: quote_string_def tokenize.simps(2) punct tokenize_string_escape
        push_token_prepend) (simp add: char_consts)
  ultimately show ?thesis by (auto simp: prints_def quote_string_def char_consts)
qed

section \<open>What the grammar can spell\<close>

fun scalar_printable :: "sscalar \<Rightarrow> bool" where
  "scalar_printable (SInt n) = in_i64 n"
| "scalar_printable (SString v) = (nl \<notin> set v)"
| "scalar_printable (SBool b) = True"

fun pred_printable :: "pred \<Rightarrow> bool" where
  "pred_printable (PEq _ v) = scalar_printable v"
| "pred_printable (PLte _ n) = in_i64 n"
| "pred_printable (PGte _ n) = in_i64 n"
| "pred_printable (PIn _ vs) = list_all scalar_printable vs"

definition selector_pinned :: "selector \<Rightarrow> bool" where
  "selector_pinned s = (case s of SetSel _ _ d \<Rightarrow> d \<noteq> None | VerbSel _ _ \<Rightarrow> True)"

definition rule_printable :: "rule \<Rightarrow> bool" where
  "rule_printable r \<longleftrightarrow> validate_rule_structure r \<and> selector_pinned (r_selector r) \<and>
     list_all pred_printable (r_conjuncts r) \<and>
     (case r_aggregate r of None \<Rightarrow> True | Some a \<Rightarrow> in_i64 (ag_limit a))"

section \<open>Tokens of each syntactic class\<close>

fun scalar_token :: "sscalar \<Rightarrow> token" where
  "scalar_token (SInt n) = Word (int_str n)"
| "scalar_token (SString v) = Quoted v"
| "scalar_token (SBool b) = Word (if b then ''true'' else ''false'')"

fun sep_tokens :: "sscalar list \<Rightarrow> token list" where
  "sep_tokens [] = []"
| "sep_tokens [v] = [scalar_token v]"
| "sep_tokens (v # w # vs) = scalar_token v # Comma # sep_tokens (w # vs)"

fun pred_tokens :: "pred \<Rightarrow> token list" where
  "pred_tokens (PEq field v) = [Word field, TEq, scalar_token v]"
| "pred_tokens (PLte field n) = [Word field, TLte, Word (int_str n)]"
| "pred_tokens (PGte field n) = [Word field, TGte, Word (int_str n)]"
| "pred_tokens (PIn field vs) = Word field # Word ''in'' # LeftBrace # sep_tokens vs @ [RightBrace]"

definition aggregate_tokens :: "aggregate \<Rightarrow> token list" where
  "aggregate_tokens a = (case ag_kind a of
      Budget (Some field) \<Rightarrow> [Word ''budget'', Word field]
    | Budget None \<Rightarrow> [Word ''budget'']
    | Rate \<Rightarrow> [Word ''rate'']) @
    [Word (int_str (ag_limit a)), Word ''per'', Word (print_window (ag_window a))]"

fun join_tokens :: "token list list \<Rightarrow> token list" where
  "join_tokens [] = []"
| "join_tokens [t] = t"
| "join_tokens (t # u # ts) = t @ Word ''and'' # join_tokens (u # ts)"

definition clause_tokens :: "rule \<Rightarrow> token list list" where
  "clause_tokens r = map pred_tokens (r_conjuncts r) @
     (case r_aggregate r of None \<Rightarrow> [] | Some a \<Rightarrow> [aggregate_tokens a])"

definition rule_tokens :: "rule \<Rightarrow> token list" where
  "rule_tokens r = Word (print_effect (r_effect r)) # Word (print_selector (r_selector r)) #
     (if clause_tokens r \<noteq> [] then Word ''where'' # join_tokens (clause_tokens r) else [])"

section \<open>Printing\<close>

lemma valid_ident_chars: "valid_ident v \<Longrightarrow> v \<noteq> [] \<and> list_all ident_char v"
  by (auto simp: valid_ident_def list_all_iff ident_char_def)

lemma valid_provider_ident_chars: "valid_provider_ident v \<Longrightarrow> v \<noteq> [] \<and> list_all ident_char v"
  by (auto simp: valid_provider_ident_def list_all_iff ident_char_def)

lemma split_on_chars: "c \<in> set v \<Longrightarrow> c = ch \<or> (\<exists>p \<in> set (split_on ch v). c \<in> set p)"
  by (induction ch v rule: split_on.induct) (auto split: list.splits if_splits)

lemma valid_field_chars:
  assumes "valid_field v"
  shows "v \<noteq> [] \<and> list_all ident_char v"
proof
  show "v \<noteq> []" using assms by (auto simp: valid_field_def valid_ident_def)
  have "ident_char c" if "c \<in> set v" for c
    using split_on_chars[OF that, of "CHR ''.''"] assms valid_ident_chars
    by (auto simp: valid_field_def list_all_iff) (simp add: ident_char_def)
  then show "list_all ident_char v" by (simp add: list_all_iff)
qed

lemma valid_field_head:
  "valid_field v \<Longrightarrow> v \<noteq> ''budget'' \<and> v \<noteq> ''rate'' \<and> \<not> integer_literal v"
  by (simp add: valid_field_def is_reserved_aggregate_keyword_def)

lemma int_str_ident: "list_all ident_char (int_str n)"
  using int_str_chars[of _ n] by (auto simp: list_all_iff ident_char_def)

lemma prints_int: "prints (int_str n) [Word (int_str n)]"
  by (simp add: prints_word int_str_ident)

lemma prints_scalar: "scalar_printable v \<Longrightarrow> prints (print_scalar v) [scalar_token v]"
  by (cases v) (auto simp: prints_int prints_quoted intro: prints_word ident_literals)

lemma boundary_punct [simp]: "boundary ('', '' @ s)" "boundary ('' '' @ s)" "boundary ''}''"
  by (simp_all add: punct)

lemma prints_sep:
  "vs \<noteq> [] \<Longrightarrow> list_all scalar_printable vs \<Longrightarrow>
   prints (join '', '' (map print_scalar vs)) (sep_tokens vs)"
proof (induction vs rule: sep_tokens.induct)
  case (3 v w vs)
  then have "prints (print_scalar v @ ('', '' @ join '', '' (map print_scalar (w # vs))))
               ([scalar_token v] @ Comma # sep_tokens (w # vs))"
    by (intro prints_append prints_comma prints_scalar) (simp_all add: punct)
  then show ?case by simp
qed (simp_all add: prints_scalar)

lemma prints_pred:
  assumes "pred_is_well_formed p" "pred_printable p"
  shows "prints (print_pred p) (pred_tokens p)"
proof -
  have f: "pred_field p \<noteq> []" "list_all ident_char (pred_field p)"
    using assms(1) valid_field_chars by (auto simp: pred_is_well_formed_def)
  show ?thesis
  proof (cases p)
    case (PEq field v)
    with f assms(2) prints_keyword[of field, OF _ _ prints_eq_sign[OF prints_scalar]]
    show ?thesis by simp
  next
    case (PLte field n)
    with f prints_keyword[of field, OF _ _ prints_lte[OF prints_int]] show ?thesis by simp
  next
    case (PGte field n)
    with f prints_keyword[of field, OF _ _ prints_gte[OF prints_int]] show ?thesis by simp
  next
    case (PIn field vs)
    with assms have "prints (join '', '' (map print_scalar vs)) (sep_tokens vs)"
      by (intro prints_sep) (simp_all add: pred_is_well_formed_def)
    then have "prints (''{'' @ (join '', '' (map print_scalar vs) @ ''}''))
                 (LeftBrace # (sep_tokens vs @ [RightBrace]))"
      by (intro prints_left prints_append prints_right) (simp_all add: punct)
    then have "prints (''in'' @ CHR '' '' # (''{'' @ (join '', '' (map print_scalar vs) @ ''}'')))
                 (Word ''in'' # LeftBrace # (sep_tokens vs @ [RightBrace]))"
      by (intro prints_keyword) (simp_all add: ident_literals[simplified])
    with f PIn prints_keyword[of field] show ?thesis by simp
  qed
qed

lemma prints_window: "prints (print_window w) [Word (print_window w)]"
  by (cases w) (auto simp: print_window_def intro: prints_word ident_literals)

lemma prints_aggregate:
  assumes "aggregate_is_well_formed r" "r_aggregate r = Some a"
  shows "prints (print_aggregate a) (aggregate_tokens a)"
proof -
  have "prints (''per'' @ CHR '' '' # print_window (ag_window a))
          [Word ''per'', Word (print_window (ag_window a))]"
    by (intro prints_keyword prints_window) (simp_all add: ident_literals[simplified])
  then have limit: "prints (int_str (ag_limit a) @ CHR '' '' # (''per'' @ CHR '' '' # print_window (ag_window a)))
          [Word (int_str (ag_limit a)), Word ''per'', Word (print_window (ag_window a))]"
    by (rule prints_keyword[OF int_str_nonempty int_str_ident])
  show ?thesis
  proof (cases "ag_kind a")
    case (Budget field)
    show ?thesis
    proof (cases field)
      case None
      with Budget prints_keyword[of "''budget''", OF _ ident_literals(6) limit] show ?thesis
        by (simp add: print_aggregate_def aggregate_tokens_def)
    next
      case (Some f)
      with assms Budget have "valid_field f"
        by (auto simp: aggregate_is_well_formed_def split: if_splits)
      with limit have "prints (f @ CHR '' '' # (int_str (ag_limit a) @ CHR '' '' #
            (''per'' @ CHR '' '' # print_window (ag_window a))))
          [Word f, Word (int_str (ag_limit a)), Word ''per'', Word (print_window (ag_window a))]"
        using valid_field_chars by (metis prints_keyword)
      from prints_keyword[of "''budget''", OF _ ident_literals(6) this] show ?thesis
        by (simp add: print_aggregate_def aggregate_tokens_def Budget Some)
    qed
  next
    case Rate
    with prints_keyword[of "''rate''", OF _ ident_literals(7) limit] show ?thesis
      by (simp add: print_aggregate_def aggregate_tokens_def)
  qed
qed

lemma prints_join:
  "list_all2 prints ss tss \<Longrightarrow> ss \<noteq> [] \<Longrightarrow> prints (join '' and '' ss) (join_tokens tss)"
proof (induction tss arbitrary: ss rule: join_tokens.induct)
  case (2 t)
  then show ?case by (auto simp: list_all2_Cons2)
next
  case (3 t u ts)
  then obtain s s' ss' where ss: "ss = s # s' # ss'" and s: "prints s t"
    and rest: "list_all2 prints (s' # ss') (u # ts)"
    by (auto simp: list_all2_Cons2)
  have "prints (join '' and '' (s' # ss')) (join_tokens (u # ts))" using "3.IH" rest by simp
  then have "prints (CHR '' '' # (''and'' @ CHR '' '' # join '' and '' (s' # ss')))
               (Word ''and'' # join_tokens (u # ts))"
    by (intro prints_space prints_keyword) (simp_all add: ident_literals[simplified])
  with prints_append[OF s this] show ?case by (simp add: ss punct)
qed simp

lemma valid_digest_chars:
  assumes "valid_snapshot_digest d"
  shows "list_all ident_char d \<and> CHR ''@'' \<notin> set d"
proof -
  obtain h where d: "d = ''sha256:'' @ h" and h: "list_all is_lower_hexdigit h"
    using assms by (auto simp: valid_snapshot_digest_def strip_prefix_Some split: option.splits)
  have "ident_char c \<and> c \<noteq> CHR ''@''" if "is_lower_hexdigit c" for c
    using that by (auto simp: ident_char_def char_class_defs)
  then have "list_all ident_char h" "CHR ''@'' \<notin> set h" using h by (auto simp: list_all_iff)
  moreover have "list_all ident_char ''sha256:''" "CHR ''@'' \<notin> set ''sha256:''"
    by (simp_all add: ident_char_def char_class_defs)
  ultimately show ?thesis by (simp add: d)
qed

lemma selector_word:
  assumes "selector_valid s"
  shows "print_selector s \<noteq> [] \<and> list_all ident_char (print_selector s)"
proof -
  have "ident_char (CHR ''.'')" "ident_char (CHR ''@'')" by (simp_all add: ident_char_def)
  then show ?thesis
    using assms valid_ident_chars valid_provider_ident_chars valid_digest_chars
    by (auto simp: selector_valid_def print_selector_def split: selector.splits option.splits)
qed

lemma prints_rule:
  assumes "rule_printable r"
  shows "prints (print_rule r) (rule_tokens r)"
proof -
  have sel: "prints (print_selector (r_selector r)) [Word (print_selector (r_selector r))]"
    using assms selector_word by (auto simp: rule_printable_def validate_rule_structure_def intro: prints_word)
  have head: "prints (print_effect (r_effect r) @ CHR '' '' # s)
                (Word (print_effect (r_effect r)) # ts)" if "prints s ts" for s ts
    using prints_keyword[OF _ ident_literals(1) that] prints_keyword[OF _ ident_literals(2) that]
    by (cases "r_effect r") (simp_all add: print_effect_def)
  have clauses: "list_all2 prints (rule_clauses r) (clause_tokens r)"
  proof -
    have "list_all2 prints (map print_pred (r_conjuncts r)) (map pred_tokens (r_conjuncts r))"
      using assms prints_pred
      by (auto simp: rule_printable_def validate_rule_structure_def list_all_iff
          list_all2_map1 list_all2_map2 list_all2_same)
    moreover have "prints (print_aggregate a) (aggregate_tokens a)" if "r_aggregate r = Some a" for a
      using assms that prints_aggregate by (auto simp: rule_printable_def validate_rule_structure_def)
    ultimately show ?thesis
      by (cases "r_aggregate r") (simp_all add: rule_clauses_def clause_tokens_def list_all2_appendI)
  qed
  show ?thesis
  proof (cases "clause_tokens r = []")
    case True
    then have "r_conjuncts r = []" "r_aggregate r = None"
      by (auto simp: clause_tokens_def split: option.splits)
    with head[OF sel] True show ?thesis by (simp add: print_rule_def rule_tokens_def)
  next
    case False
    then have ne: "rule_clauses r \<noteq> []" using clauses by auto
    have "prints (CHR '' '' # (''where'' @ CHR '' '' # join '' and '' (rule_clauses r)))
            (Word ''where'' # join_tokens (clause_tokens r))"
      using prints_join[OF clauses ne]
      by (intro prints_space prints_keyword) (simp_all add: ident_literals[simplified])
    from head[OF prints_append[OF sel this]] False ne show ?thesis
      by (auto simp: print_rule_def rule_tokens_def rule_clauses_def punct)
  qed
qed

section \<open>Reading the tokens back\<close>

lemma integer_literal_int_str: "integer_literal (int_str n)"
proof (cases "n < 0")
  case True
  then show ?thesis using nat_str_digits by (simp add: integer_literal_def int_str_def Let_def)
next
  case False
  obtain c cs where s: "nat_str (nat n) = c # cs" "is_ascii_digit c"
    using nat_str_digits[of "nat n"] by (cases "nat_str (nat n)") auto
  have "c \<noteq> CHR ''-''" "c \<noteq> CHR ''+''" using s(2) by (auto simp: is_ascii_digit_def)
  with False s nat_str_digits[of "nat n"] show ?thesis
    by (simp add: integer_literal_def int_str_def Let_def)
qed

lemma not_integer_literals: "\<not> integer_literal ''true''" "\<not> integer_literal ''false''"
  by (simp_all add: integer_literal_def is_ascii_digit_def)

lemma take_scalar_token:
  "scalar_printable v \<Longrightarrow> take_scalar line field (scalar_token v # rest) = Ok (v, rest)"
  by (cases v) (auto simp: take_scalar_def integer_literal_int_str parse_i64_int_str
      not_integer_literals)

lemma take_integer_token: "in_i64 n \<Longrightarrow> take_integer line (Word (int_str n) # rest) = Ok (n, rest)"
  by (simp add: take_integer_Ok parse_i64_int_str)

lemma parse_in_values_tokens:
  "vs \<noteq> [] \<Longrightarrow> list_all scalar_printable vs \<Longrightarrow>
   parse_in_values line field (sep_tokens vs @ RightBrace # rest) = Ok (vs, rest)"
  by (induction vs rule: sep_tokens.induct)
     (simp_all add: parse_in_values.simps[of line field "_ # _"] take_scalar_token)

lemma sep_tokens_peek:
  "vs \<noteq> [] \<Longrightarrow> peek (sep_tokens vs @ rest) \<noteq> Some RightBrace"
proof (induction vs rule: sep_tokens.induct)
  case (2 v)
  then show ?case by (cases v) (simp_all add: peek_def)
next
  case (3 v w vs)
  then show ?case by (cases v) (simp_all add: peek_def)
qed simp

lemma parse_pred_tokens:
  assumes "pred_is_well_formed p" "pred_printable p"
  shows "parse_pred line (pred_tokens p @ rest) = Ok (p, rest)"
proof (cases p)
  case (PIn field vs)
  with assms have "vs \<noteq> []" "list_all scalar_printable vs" "valid_field field"
    by (simp_all add: pred_is_well_formed_def)
  with PIn show ?thesis
    by (simp add: parse_pred_def take_word_def expect_def sep_tokens_peek parse_in_values_tokens)
qed (use assms in \<open>simp_all add: pred_is_well_formed_def parse_pred_def take_word_def
       take_scalar_token take_integer_token\<close>)

lemma parse_aggregate_tokens:
  assumes "aggregate_is_well_formed r" "r_aggregate r = Some a" "in_i64 (ag_limit a)"
  shows "parse_aggregate line (aggregate_tokens a @ rest) = Ok (a, rest)"
proof -
  have pos: "0 < ag_limit a" using assms(1,2) by (auto simp: aggregate_is_well_formed_def split: if_splits)
  have tail: "\<lparr>ag_kind = ag_kind a, ag_limit = ag_limit a, ag_window = ag_window a\<rparr> = a" by simp
  show ?thesis
  proof (cases "ag_kind a")
    case (Budget field)
    show ?thesis
    proof (cases field)
      case None
      show ?thesis using pos assms(3) tail Budget None
        by (cases "ag_window a")
           (simp_all add: parse_aggregate_def aggregate_tokens_def take_word_def expect_word_def
             integer_literal_int_str take_integer_token print_window_def)
    next
      case (Some f)
      with assms(1,2) Budget have f: "valid_field f"
        by (auto simp: aggregate_is_well_formed_def split: if_splits)
      show ?thesis using pos assms(3) tail Budget Some f valid_field_head[OF f]
        by (cases "ag_window a")
           (simp_all add: parse_aggregate_def aggregate_tokens_def take_word_def expect_word_def
             take_integer_token print_window_def)
    qed
  next
    case Rate
    show ?thesis using pos assms(3) tail Rate
      by (cases "ag_window a")
         (simp_all add: parse_aggregate_def aggregate_tokens_def take_word_def expect_word_def
           integer_literal_int_str take_integer_token print_window_def)
  qed
qed

lemma aggregate_next_tokens:
  "aggregate_next (aggregate_tokens a @ rest)"
  "pred_is_well_formed p \<Longrightarrow> \<not> aggregate_next (pred_tokens p @ rest)"
proof -
  show "aggregate_next (aggregate_tokens a @ rest)"
    by (auto simp: aggregate_next_def aggregate_tokens_def peek_def
        split: aggregate_kind.splits option.splits)
  show "pred_is_well_formed p \<Longrightarrow> \<not> aggregate_next (pred_tokens p @ rest)"
    using valid_field_head[of "pred_field p"]
    by (cases p) (auto simp: aggregate_next_def peek_def pred_is_well_formed_def)
qed

lemma after_clause_simps:
  "after_clause line [] = Ok None"
  "after_clause line (Word ''and'' # t # ts) = Ok (Some (t # ts))"
  by (simp_all add: after_clause_def cursor_done_def expect_word_def)

lemma clause_nonempty: "pred_tokens p \<noteq> []" "aggregate_tokens a \<noteq> []"
  by (cases p; simp) (simp add: aggregate_tokens_def)

lemma join_tokens_Cons: "tss \<noteq> [] \<Longrightarrow> join_tokens (t # tss) = t @ Word ''and'' # join_tokens tss"
  by (cases tss) simp_all

lemma join_tokens_nonempty: "tss \<noteq> [] \<Longrightarrow> [] \<notin> set tss \<Longrightarrow> join_tokens tss \<noteq> []"
  by (induction tss rule: join_tokens.induct) auto

lemma parse_clauses_last:
  assumes "aggregate_is_well_formed r" "r_aggregate r = Some a" "in_i64 (ag_limit a)"
  shows "parse_clauses line (r_effect r) acc None (aggregate_tokens a) = Ok (acc, Some a)"
proof -
  have "r_effect r = Allow"
    using assms(1,2) by (auto simp: aggregate_is_well_formed_def split: if_splits)
  then show ?thesis
    using parse_aggregate_tokens[OF assms, of line "[]"] aggregate_next_tokens(1)[of a "[]"]
    by (simp add: parse_clauses.simps after_clause_simps)
qed

lemma parse_clauses_tokens:
  assumes "list_all pred_is_well_formed cs" "list_all pred_printable cs"
    and "aggregate_is_well_formed r"
    and "case r_aggregate r of None \<Rightarrow> True | Some a \<Rightarrow> in_i64 (ag_limit a)"
    and "cs \<noteq> [] \<or> r_aggregate r \<noteq> None"
  shows "parse_clauses line (r_effect r) acc None
           (join_tokens (map pred_tokens cs @
              (case r_aggregate r of None \<Rightarrow> [] | Some a \<Rightarrow> [aggregate_tokens a])))
         = Ok (acc @ cs, r_aggregate r)"
  using assms
proof (induction cs arbitrary: acc)
  case Nil
  then obtain a where "r_aggregate r = Some a" by auto
  with Nil parse_clauses_last show ?case by simp
next
  case (Cons p cs)
  let ?agg = "case r_aggregate r of None \<Rightarrow> [] | Some a \<Rightarrow> [aggregate_tokens a]"
  let ?rest = "map pred_tokens cs @ ?agg"
  have p: "pred_is_well_formed p" "pred_printable p" using Cons.prems by simp_all
  note step = parse_pred_tokens[OF p, of line] aggregate_next_tokens(2)[OF p(1)]
  show ?case
  proof (cases "?rest = []")
    case True
    then have "cs = []" "r_aggregate r = None" by (auto split: option.splits)
    then show ?thesis using step(1)[of "[]"] step(2)[of "[]"]
      by (simp add: parse_clauses.simps after_clause_simps)
  next
    case False
    have "[] \<notin> set ?rest"
      using clause_nonempty by (cases "r_aggregate r") (auto simp: eq_commute[of "[]"])
    then obtain t ts where t: "join_tokens ?rest = t # ts"
      using join_tokens_nonempty[OF False] by (cases "join_tokens ?rest") auto
    have "join_tokens (map pred_tokens (p # cs) @ ?agg) = pred_tokens p @ Word ''and'' # t # ts"
      using join_tokens_Cons[OF False] t by simp
    moreover have "cs \<noteq> [] \<or> r_aggregate r \<noteq> None" using False by (auto split: option.splits)
    ultimately show ?thesis
      using Cons.IH[of "acc @ [p]"] Cons.prems step(1)[of "Word ''and'' # t # ts"]
        step(2)[of "Word ''and'' # t # ts"] t
      by (subst parse_clauses.simps) (simp add: after_clause_simps)
  qed
qed

lemma takeWhile_at: "CHR ''@'' \<notin> set s \<Longrightarrow>
    takeWhile (\<lambda>c. c \<noteq> CHR ''@'') (s @ CHR ''@'' # d) = s \<and>
    takeWhile (\<lambda>c. c \<noteq> CHR ''@'') s = s"
  by (induction s) auto

lemma ident_no_marks:
  assumes "valid_ident v"
  shows "CHR ''@'' \<notin> set v" "CHR '':'' \<notin> set v" "CHR ''.'' \<notin> set v"
  using assms by (auto simp: valid_ident_def list_all_iff is_ascii_lowercase_def is_ascii_digit_def)

lemma provider_no_marks:
  assumes "valid_provider_ident v"
  shows "CHR ''@'' \<notin> set v" "CHR '':'' \<notin> set v" "CHR ''.'' \<notin> set v"
  using assms
  by (auto simp: valid_provider_ident_def list_all_iff is_ascii_lowercase_def is_ascii_digit_def)

lemma parse_selector_print:
  assumes "selector_valid s" "selector_pinned s"
  shows "parse_selector line (print_selector s) = Ok s"
proof (cases s)
  case (VerbSel provider action)
  with assms have v: "valid_provider_ident provider" "valid_ident action"
    by (simp_all add: selector_valid_def)
  have "CHR ''@'' \<notin> set (provider @ CHR ''.'' # action)"
    using v provider_no_marks ident_no_marks by auto
  then have "split_once (CHR ''@'') (provider @ CHR ''.'' # action) = None"
    by (subst split_once_None)
  moreover have "CHR '':'' \<notin> set (hd (split_on (CHR ''@'') (provider @ CHR ''.'' # action)))"
    using v provider_no_marks ident_no_marks
    by (auto simp: hd_split_on dest: set_takeWhileD)
  ultimately show ?thesis
    using v split_once_append[OF provider_no_marks(3)[OF v(1)], of action] ident_no_marks(3)[OF v(2)]
    by (simp add: VerbSel parse_selector_def print_selector_def)
next
  case (SetSel provider nm digest)
  with assms obtain d where d: "digest = Some d" "valid_snapshot_digest d"
    and v: "valid_provider_ident provider" "valid_ident nm"
    by (auto simp: selector_valid_def selector_pinned_def)
  let ?body = "provider @ CHR ''.'' # nm"
  have at: "CHR ''@'' \<notin> set ?body" using v provider_no_marks ident_no_marks by auto
  have "CHR '':'' \<notin> set (hd (split_on (CHR ''@'') (?body @ CHR ''@'' # d)))"
    using v provider_no_marks ident_no_marks takeWhile_at[OF at, of d] by (auto simp: hd_split_on)
  moreover have "split_once (CHR ''@'') (?body @ CHR ''@'' # d) = Some (?body, d)"
    by (rule split_once_append[OF at])
  ultimately show ?thesis
    using v d valid_digest_chars[OF d(2)] ident_no_marks(3)[OF v(2)]
      split_once_append[OF provider_no_marks(3)[OF v(1)], of nm]
    by (simp add: SetSel parse_selector_def print_selector_def)
qed

lemma parse_rule_tokens:
  assumes "rule_printable r"
  shows "parse_rule line (rule_tokens r) = Ok r"
proof -
  have sel: "parse_selector line (print_selector (r_selector r)) = Ok (r_selector r)"
    using assms parse_selector_print
    by (auto simp: rule_printable_def validate_rule_structure_def)
  have eff: "(if print_effect e = ''allow'' then Ok Allow else if print_effect e = ''deny'' then Ok Deny
       else Err x) = Ok e" for e :: rule_effect and x :: sentence_error
    by (cases e) (simp_all add: print_effect_def)
  show ?thesis
  proof (cases "clause_tokens r = []")
    case True
    then have "r_conjuncts r = []" "r_aggregate r = None"
      by (auto simp: clause_tokens_def split: option.splits)
    with sel eff True show ?thesis
      by (simp add: parse_rule_def rule_tokens_def take_word_def cursor_done_def)
  next
    case False
    then have "r_conjuncts r \<noteq> [] \<or> r_aggregate r \<noteq> None"
      by (auto simp: clause_tokens_def split: option.splits)
    with parse_clauses_tokens[of "r_conjuncts r" r line "[]"] assms
    have "parse_clauses line (r_effect r) [] None (join_tokens (clause_tokens r))
        = Ok (r_conjuncts r, r_aggregate r)"
      by (simp add: rule_printable_def validate_rule_structure_def clause_tokens_def)
    with sel eff False show ?thesis
      by (simp add: parse_rule_def rule_tokens_def take_word_def cursor_done_def expect_word_def)
  qed
qed

section \<open>Whole corpora\<close>

lemma print_rule_first: "\<exists>c cs. print_rule r = c # cs \<and> \<not> is_whitespace c"
  by (cases "r_effect r") (simp_all add: print_rule_def print_effect_def is_whitespace_def)

lemma print_rule_nonempty: "print_rule r \<noteq> []"
  using print_rule_first[of r] by auto

lemma parse_lines_print:
  "list_all rule_printable rs \<Longrightarrow> parse_lines i (map print_rule rs) = Ok rs"
proof (induction rs arbitrary: i)
  case (Cons r rs)
  then have p: "prints (print_rule r) (rule_tokens r)" by (simp add: prints_rule)
  obtain c cs where "print_rule r = c # cs" "\<not> is_whitespace c" using print_rule_first by blast
  then have "\<not> list_all is_whitespace (print_rule r)" by simp
  with Cons p show ?case
    by (simp add: prints_without_comment prints_tokenize parse_rule_tokens)
qed simp

lemma join_nl: "ls \<noteq> [] \<Longrightarrow> join [nl] ls @ [nl] = concat (map (\<lambda>l. l @ [nl]) ls)"
  by (induction "[nl]" ls rule: join.induct) auto

lemma lines_canonical:
  assumes "list_all rule_printable (rs_rules rs)"
  shows "lines (canonical_rule_text rs) = map print_rule (rs_rules rs)"
proof (cases "rs_rules rs = []")
  case True
  then show ?thesis by (simp add: canonical_rule_text_def)
next
  case False
  let ?ls = "map print_rule (rs_rules rs)"
  have "\<forall>l \<in> set ?ls. nl \<notin> set l \<and> strip_cr l = l"
    using assms prints_strip_cr[OF prints_rule] prints_rule
    by (auto simp: list_all_iff) (auto simp: prints_def)
  from lines_concat[OF this] have "lines (join [nl] ?ls @ [nl]) = ?ls"
    using join_nl[of ?ls] False by simp
  moreover have "join [nl] ?ls \<noteq> []"
    using False print_rule_nonempty by (cases "rs_rules rs"; cases "tl (rs_rules rs)") auto
  ultimately show ?thesis by (simp add: canonical_rule_text_def Let_def)
qed

lemma parse_canonical:
  assumes "list_all rule_printable (rs_rules rs)" "ruleset_version_supported rs"
  shows "parse_rules (canonical_rule_text rs) = Ok rs"
  using assms
  by (simp add: parse_rules_def lines_canonical parse_lines_print ruleset_version_supported_def)

lemma parse_print_rule:
  assumes "rule_printable r"
  shows "parse_rules (print_rule r) = Ok \<lparr>rs_version = RULE_SET_VERSION, rs_rules = [r]\<rparr>"
proof -
  have "nl \<notin> set (print_rule r)" "print_rule r \<noteq> []"
    using prints_rule[OF assms] by (simp_all add: prints_def)
  then have "lines (print_rule r) = map print_rule [r]" by (simp add: lines_single)
  with assms parse_lines_print[of "[r]" 0] show ?thesis by (simp add: parse_rules_def)
qed

section \<open>Every parsed rule is printable\<close>

definition tokens_ok :: "token list \<Rightarrow> bool" where
  "tokens_ok ts \<longleftrightarrow> (\<forall>v. Quoted v \<in> set ts \<longrightarrow> nl \<notin> set v)"

lemma tokens_ok_subset: "tokens_ok ts \<Longrightarrow> set us \<subseteq> set ts \<Longrightarrow> tokens_ok us"
  by (auto simp: tokens_ok_def)

lemma tokenize_string_chars:
  "tokenize_string line s = Ok (v, rest) \<Longrightarrow> set v \<subseteq> set s \<and> set rest \<subseteq> set s"
proof (induction line s arbitrary: v rest rule: tokenize_string.induct)
  case (2 line ch rs)
  show ?case
  proof (cases "ch = dquote")
    case True
    with "2.prems" show ?thesis by auto
  next
    case nq: False
    show ?thesis
    proof (cases "ch = backslash")
      case True
      with "2.prems" nq obtain esc rs' where rs: "rs = esc # rs'"
        and esc: "esc = dquote \<or> esc = backslash"
        by (auto split: list.splits if_splits)
      with "2.prems" nq True obtain v' where v: "v = esc # v'" "tokenize_string line rs' = Ok (v', rest)"
        by (cases "tokenize_string line rs'") (auto split: if_splits)
      from "2.IH"(1)[OF nq True rs esc v(2)] show ?thesis by (auto simp: rs v)
    next
      case False
      with "2.prems" nq obtain v' where v: "v = ch # v'" "tokenize_string line rs = Ok (v', rest)"
        by (cases "tokenize_string line rs") auto
      from "2.IH"(2)[OF nq False v(2)] show ?thesis by (auto simp: v)
    qed
  qed
qed simp

lemma push_token_Ok: "push_token t r = Ok ts \<longleftrightarrow> (\<exists>us. r = Ok us \<and> ts = t # us)"
  by (cases r) (auto simp: push_token_def)

text \<open>One step of the lexer outside a string: a token that is no string, and a suffix to go on with.\<close>

definition lex_step :: "nat \<Rightarrow> string \<Rightarrow> token list \<Rightarrow> bool" where
  "lex_step line rest ts \<longleftrightarrow> (\<exists>t us rest'. ts = t # us \<and> (\<forall>v. t \<noteq> Quoted v) \<and>
     tokenize line rest' = Ok us \<and> set rest' \<subseteq> set rest \<and> length rest' \<le> length rest)"

lemma lex_stepI:
  "push_token t (tokenize line rest') = Ok ts \<Longrightarrow> (\<And>v. t \<noteq> Quoted v) \<Longrightarrow> set rest' \<subseteq> set rest \<Longrightarrow>
   length rest' \<le> length rest \<Longrightarrow> lex_step line rest ts"
  by (auto simp: lex_step_def push_token_Ok)

lemma tokenize_step:
  assumes "tokenize line (ch # rest) = Ok ts" "\<not> is_whitespace ch" "ch \<noteq> dquote"
  shows "lex_step line rest ts"
proof (cases "ch = CHR ''='' \<or> ch = CHR ''<'' \<or> ch = CHR ''>''")
  case True
  show ?thesis
  proof (cases rest)
    case Nil
    with True assms show ?thesis
      by (auto simp: tokenize.simps(2) intro: lex_stepI[of _ line "[]"] split: if_splits)
  next
    case (Cons c cs)
    show ?thesis
    proof (cases "c = CHR ''=''")
      case True
      with Cons \<open>ch = CHR ''='' \<or> ch = CHR ''<'' \<or> ch = CHR ''>''\<close>
        assms(1)[unfolded tokenize.simps(2)] assms(2)
      have "push_token TEq (tokenize line cs) = Ok ts \<or> push_token TLte (tokenize line cs) = Ok ts \<or>
            push_token TGte (tokenize line cs) = Ok ts"
        by (auto split: if_splits)
      then show ?thesis using Cons by (auto intro: lex_stepI)
    next
      case False
      with Cons True assms(1)[unfolded tokenize.simps(2)] assms(2)
      have "push_token TEq (tokenize line rest) = Ok ts"
        by (auto split: if_splits)
      then show ?thesis by (auto intro: lex_stepI)
    qed
  qed
next
  case False
  then obtain t rest' where t: "push_token t (tokenize line rest') = Ok ts" "\<forall>v. t \<noteq> Quoted v"
    and r: "rest' = rest \<or> rest' = dropWhile word_char rest"
    using assms by (simp add: tokenize.simps(2)[of line ch rest] split: if_splits)
  then show ?thesis
    by (auto intro!: lex_stepI simp: length_dropWhile_le dest: set_dropWhileD)
qed

lemma tokenize_chars:
  "tokenize line s = Ok ts \<Longrightarrow> Quoted v \<in> set ts \<Longrightarrow> set v \<subseteq> set s"
proof (induction s arbitrary: ts rule: length_induct)
  case (1 s)
  show ?case
  proof (cases s)
    case Nil
    with "1.prems" show ?thesis by simp
  next
    case (Cons ch rest)
    note IH = "1.IH"[rule_format]
    show ?thesis
    proof (cases "is_whitespace ch")
      case True
      with Cons "1.prems" have "tokenize line rest = Ok ts" by (simp add: tokenize.simps(2))
      with IH[of rest ts] Cons "1.prems"(2) show ?thesis by auto
    next
      case ws: False
      show ?thesis
      proof (cases "ch = dquote")
        case True
        then have other: "ch \<noteq> CHR ''=''" "\<not> (ch = CHR ''<'' \<or> ch = CHR ''>'')" "ch \<noteq> CHR ''{''"
          "ch \<noteq> CHR ''}''" "ch \<noteq> CHR '',''" by (auto simp: dquote_def)
        with ws True "1.prems"(1) Cons obtain q nxt us where
          q: "tokenize_string line rest = Ok (q, nxt)"
          and us: "tokenize line nxt = Ok us" "ts = Quoted q # us"
          by (auto simp: tokenize.simps(2) push_token_Ok split: sum.splits)
        have "set q \<subseteq> set rest" "set nxt \<subseteq> set rest" "length nxt < length rest"
          using tokenize_string_chars[OF q] tokenize_string_shorter[OF q] by auto
        with IH[of nxt us] us Cons "1.prems"(2) show ?thesis by auto
      next
        case False
        from tokenize_step[OF _ ws False] "1.prems"(1) Cons have "lex_step line rest ts" by simp
        then obtain t us rest' where "ts = t # us" "\<forall>v. t \<noteq> Quoted v"
          "tokenize line rest' = Ok us" "set rest' \<subseteq> set rest" "length rest' \<le> length rest"
          by (auto simp: lex_step_def)
        with IH[of rest' us] Cons "1.prems"(2) show ?thesis by auto
      qed
    qed
  qed
qed

lemma take_scalar_printable:
  assumes "take_scalar line field cur = Ok (v, rest)" "tokens_ok cur"
  shows "scalar_printable v \<and> set rest \<subseteq> set cur"
  using assms
  by (auto simp: take_scalar_def tokens_ok_def res_bind_eq_Ok ok_or_eq_Ok
      split: list.splits token.splits if_splits dest: parse_i64_range)

lemma parse_in_values_step:
  assumes "parse_in_values line field cur = Ok (vs, rest)"
  obtains v where "take_scalar line field cur = Ok (v, RightBrace # rest)" "vs = [v]"
  | v vs' ts where "take_scalar line field cur = Ok (v, Comma # ts)"
      "parse_in_values line field ts = Ok (vs', rest)" "vs = v # vs'"
proof -
  obtain v cur' where v: "take_scalar line field cur = Ok (v, cur')"
    using assms by (subst (asm) parse_in_values.simps) (auto split: sum.splits)
  show thesis
  proof (cases cur')
    case Nil
    with assms v show ?thesis by (subst (asm) parse_in_values.simps) simp
  next
    case (Cons t ts)
    show ?thesis
    proof (cases "t = Comma")
      case True
      with Cons v assms show ?thesis
        by (subst (asm) parse_in_values.simps)
           (cases "parse_in_values line field ts"; auto intro: that(2))
    next
      case False
      with Cons v assms show ?thesis
        by (subst (asm) parse_in_values.simps) (auto split: token.splits intro: that(1))
    qed
  qed
qed

lemma parse_in_values_printable:
  "parse_in_values line field cur = Ok (vs, rest) \<Longrightarrow> tokens_ok cur \<Longrightarrow>
   vs \<noteq> [] \<and> list_all scalar_printable vs \<and> set rest \<subseteq> set cur"
proof (induction vs arbitrary: cur)
  case Nil
  then show ?case by (auto elim: parse_in_values_step)
next
  case (Cons w ws)
  from Cons.prems(1) show ?case
  proof (cases rule: parse_in_values_step)
    case (1 v)
    with take_scalar_printable[OF 1(1) Cons.prems(2)] show ?thesis by auto
  next
    case (2 v vs' ts)
    from take_scalar_printable[OF 2(1) Cons.prems(2)]
    have v: "scalar_printable v" and sub: "set ts \<subseteq> set cur" by auto
    from tokens_ok_subset[OF Cons.prems(2) sub] Cons.IH[of ts] 2 v sub show ?thesis by auto
  qed
qed

lemma parse_pred_printable:
  assumes "parse_pred line cur = Ok (p, rest)" "tokens_ok cur"
  shows "pred_is_well_formed p \<and> pred_printable p \<and> set rest \<subseteq> set cur"
proof -
  obtain field t ts where cur: "cur = Word field # t # ts" and vf: "valid_field field"
    using assms(1) by (auto simp: parse_pred_def res_bind_eq_Ok cursor_Ok split: if_splits list.splits)
  have ok: "tokens_ok ts" using assms(2) by (rule tokens_ok_subset) (auto simp: cur)
  then have ok': "tokens_ok us" if "set us \<subseteq> set ts" for us using tokens_ok_subset that by blast
  show ?thesis using assms(1)
    by (cases t)
       (auto simp: cur vf parse_pred_def res_bind_eq_Ok cursor_Ok take_word_def pred_is_well_formed_def
         split: if_splits dest: parse_i64_range dest!: take_scalar_printable[OF _ ok]
         parse_in_values_printable[OF _ ok'])
qed

lemma parse_aggregate_printable:
  assumes "parse_aggregate line cur = Ok (a, rest)"
  shows "0 < ag_limit a \<and> in_i64 (ag_limit a) \<and> set rest \<subseteq> set cur \<and>
         (\<forall>f. ag_kind a = Budget (Some f) \<longrightarrow> valid_field f)"
  using assms
  by (auto simp: parse_aggregate_def res_bind_eq_Ok cursor_Ok
      split: list.splits token.splits if_splits dest: parse_i64_range)

lemma after_clause_subset: "after_clause line cur = Ok (Some rest) \<Longrightarrow> set rest \<subseteq> set cur"
  by (auto simp: after_clause_def res_bind_eq_Ok cursor_Ok split: if_splits)

definition clauses_ok :: "rule_effect \<Rightarrow> pred list \<Rightarrow> aggregate option \<Rightarrow> bool" where
  "clauses_ok e cs agg \<longleftrightarrow> list_all pred_is_well_formed cs \<and> list_all pred_printable cs \<and>
     (case agg of None \<Rightarrow> True
      | Some a \<Rightarrow> e = Allow \<and> 0 < ag_limit a \<and> in_i64 (ag_limit a) \<and>
          (\<forall>f. ag_kind a = Budget (Some f) \<longrightarrow> valid_field f))"

lemma parse_clauses_printable:
  "parse_clauses line e acc agg cur = Ok (cs, agg') \<Longrightarrow> tokens_ok cur \<Longrightarrow> clauses_ok e acc agg \<Longrightarrow>
   clauses_ok e cs agg'"
proof (induction line e acc agg cur rule: parse_clauses.induct)
  case (1 line e acc agg cur)
  show ?case
  proof (cases "aggregate_next cur")
    case True
    with "1.prems"(1) obtain a rest where a: "parse_aggregate line cur = Ok (a, rest)"
      by (subst (asm) parse_clauses.simps) (auto split: sum.splits)
    note pa = parse_aggregate_printable[OF a]
    have guards: "\<not> agg \<noteq> None" "\<not> e \<noteq> Allow"
      using "1.prems"(1) True a by (auto simp: parse_clauses.simps[of line e acc agg cur] split: if_splits)
    obtain nx where nx: "after_clause line rest = Ok nx"
      using "1.prems"(1) True a guards
      by (auto simp: parse_clauses.simps[of line e acc agg cur] split: sum.splits)
    show ?thesis
    proof (cases nx)
      case None
      with "1.prems" True a guards nx pa show ?thesis
        by (auto simp: parse_clauses.simps[of line e acc agg cur] clauses_ok_def)
    next
      case (Some cur')
      have "parse_clauses line e acc (Some a) cur' = Ok (cs, agg')"
        using "1.prems"(1) True a guards nx Some
        by (simp add: parse_clauses.simps[of line e acc agg cur])
      moreover have "tokens_ok cur'"
        using "1.prems"(2) pa after_clause_subset nx Some tokens_ok_subset by (metis subset_trans)
      moreover have "clauses_ok e acc (Some a)" using "1.prems"(3) pa guards by (simp add: clauses_ok_def)
      ultimately show ?thesis using "1.IH"(1)[OF True a refl guards nx Some] by simp
    qed
  next
    case False
    with "1.prems"(1) obtain p rest where p: "parse_pred line cur = Ok (p, rest)"
      by (subst (asm) parse_clauses.simps) (auto split: sum.splits)
    note pp = parse_pred_printable[OF p "1.prems"(2)]
    obtain nx where nx: "after_clause line rest = Ok nx"
      using "1.prems"(1) False p
      by (auto simp: parse_clauses.simps[of line e acc agg cur] split: sum.splits)
    have acc: "clauses_ok e (acc @ [p]) agg" using "1.prems"(3) pp by (simp add: clauses_ok_def)
    show ?thesis
    proof (cases nx)
      case None
      with "1.prems" False p nx acc show ?thesis
        by (simp add: parse_clauses.simps[of line e acc agg cur])
    next
      case (Some cur')
      have "parse_clauses line e (acc @ [p]) agg cur' = Ok (cs, agg')"
        using "1.prems"(1) False p nx Some by (simp add: parse_clauses.simps[of line e acc agg cur])
      moreover have "tokens_ok cur'"
        using "1.prems"(2) pp after_clause_subset nx Some tokens_ok_subset by (metis subset_trans)
      ultimately show ?thesis using "1.IH"(2)[OF False p refl nx Some] acc by simp
    qed
  qed
qed

lemma parse_selector_valid:
  assumes "parse_selector line raw = Ok s"
  shows "selector_valid s \<and> selector_pinned s"
proof -
  define pre where "pre = (case split_once (CHR ''@'') raw of
             Some (sel, digest) \<Rightarrow>
               if CHR ''@'' \<notin> set digest \<and> valid_snapshot_digest digest
               then Ok (sel, Some digest)
               else Err (AtLine line
                 ''set snapshot must be `@sha256:` followed by 64 lowercase hex characters'')
           | None \<Rightarrow> Ok (raw, None))"
  obtain body digest where p: "pre = Ok (body, digest)"
    using assms by (auto simp: parse_selector_def pre_def res_bind_eq_Ok split: if_splits)
  have d: "valid_snapshot_digest x" if "digest = Some x" for x
    using p that by (auto simp: pre_def split: option.splits if_splits)
  obtain provider nm where "split_once (CHR ''.'') body = Some (provider, nm)"
    using assms p by (auto simp: parse_selector_def pre_def[symmetric] split: if_splits option.splits)
  with assms p have "valid_provider_ident provider" "valid_ident nm"
    "s = (case digest of Some d \<Rightarrow> SetSel provider nm (Some d) | None \<Rightarrow> VerbSel provider nm)"
    by (auto simp: parse_selector_def pre_def[symmetric] split: if_splits)
  with d show ?thesis
    by (auto simp: selector_valid_def selector_pinned_def split: option.splits)
qed

lemma parse_rule_printable:
  assumes "parse_rule line ts = Ok r" "tokens_ok ts"
  shows "rule_printable r"
proof -
  obtain w sel_word cur where ts: "ts = Word w # Word sel_word # cur"
    and sel: "parse_selector line sel_word = Ok (r_selector r)"
    using assms(1) by (auto simp: parse_rule_def res_bind_eq_Ok cursor_Ok split: if_splits)
  have "clauses_ok (r_effect r) (r_conjuncts r) (r_aggregate r)"
  proof (cases "cur = []")
    case True
    with assms(1) show ?thesis
      by (auto simp: ts parse_rule_def res_bind_eq_Ok cursor_Ok cursor_done_def clauses_ok_def
          split: if_splits)
  next
    case False
    with assms(1) obtain cur' where cur: "cur = Word ''where'' # cur'"
      and "parse_clauses line (r_effect r) [] None cur' = Ok (r_conjuncts r, r_aggregate r)"
      by (auto simp: ts parse_rule_def res_bind_eq_Ok cursor_Ok cursor_done_def split: if_splits)
    moreover have "tokens_ok cur'"
      using assms(2) by (rule tokens_ok_subset) (auto simp: ts cur)
    ultimately show ?thesis
      using parse_clauses_printable by (fastforce simp: clauses_ok_def)
  qed
  with parse_selector_valid[OF sel] show ?thesis
    by (auto simp: rule_printable_def validate_rule_structure_def clauses_ok_def
        aggregate_is_well_formed_def split: option.splits aggregate_kind.splits)
qed

lemma strip_comment_subset: "set (strip_comment q e s) \<subseteq> set s"
  by (induction q e s rule: strip_comment.induct) auto

lemma parse_lines_printable:
  "parse_lines i ls = Ok rs \<Longrightarrow> \<forall>l \<in> set ls. nl \<notin> set l \<Longrightarrow> list_all rule_printable rs"
proof (induction ls arbitrary: i rs)
  case (Cons l ls)
  show ?case
  proof (cases "list_all is_whitespace (without_comment l)")
    case True
    with Cons show ?thesis by simp
  next
    case False
    with Cons.prems(1) obtain ts r rs' where ts: "tokenize (Suc i) (without_comment l) = Ok ts"
      and r: "parse_rule (Suc i) ts = Ok r" and rs: "parse_lines (Suc i) ls = Ok rs'" "rs = r # rs'"
      by (cases "parse_lines (Suc i) ls") (auto simp: res_bind_eq_Ok Let_def)
    have "nl \<notin> set (without_comment l)"
      using Cons.prems(2) strip_comment_subset by (fastforce simp: without_comment_def)
    then have "tokens_ok ts" using tokenize_chars[OF ts] by (auto simp: tokens_ok_def)
    with r parse_rule_printable Cons.IH rs Cons.prems(2) show ?thesis by auto
  qed
qed simp

lemma parse_rules_printable:
  assumes "parse_rules text = Ok rs"
  shows "list_all rule_printable (rs_rules rs) \<and> ruleset_version_supported rs"
proof -
  obtain rules where "parse_lines 0 (lines text) = Ok rules"
    and "rs = \<lparr>rs_version = RULE_SET_VERSION, rs_rules = rules\<rparr>"
    using assms by (cases "parse_lines 0 (lines text)") (auto simp: parse_rules_def)
  with parse_lines_printable lines_no_nl show ?thesis
    by (auto simp: ruleset_version_supported_def)
qed

section \<open>Properties\<close>

text \<open>
  C6. The canonical text of a parsed corpus parses back to the same corpus: for every text the
  parser accepts, printing the rules and parsing the result gives the rules again, in order.
\<close>

theorem canonical_text_roundtrip:
  assumes "parse_rules text = Ok rs"
  shows "parse_rules (canonical_rule_text rs) = Ok rs"
  using parse_rules_printable[OF assms] parse_canonical by blast

theorem canonical_text_roundtrip_witness:
  "parse_rules (canonical_rule_text
     \<lparr>rs_version = 1, rs_rules = [\<lparr>r_effect = Allow, r_selector = VerbSel ''stripe'' ''refund'',
        r_conjuncts = [PLte ''amount'' 5000], r_aggregate = None\<rparr>]\<rparr>)
   = Ok \<lparr>rs_version = 1, rs_rules = [\<lparr>r_effect = Allow, r_selector = VerbSel ''stripe'' ''refund'',
        r_conjuncts = [PLte ''amount'' 5000], r_aggregate = None\<rparr>]\<rparr>"
proof -
  have "parse_rules ''allow stripe.refund where amount <= 5000  # cap'' =
    Ok \<lparr>rs_version = 1, rs_rules = [\<lparr>r_effect = Allow, r_selector = VerbSel ''stripe'' ''refund'',
        r_conjuncts = [PLte ''amount'' 5000], r_aggregate = None\<rparr>]\<rparr>"
    by code_simp
  from canonical_text_roundtrip[OF this] show ?thesis .
qed

text \<open>
  The codec guard of the suggestion paths is exact: a rule survives printing and parsing if and
  only if it is structurally valid, its integers are machine integers, its set selector is pinned
  and no string value of it holds a line feed.
\<close>

theorem codec_round_trip_exact: "rule_codec_round_trips r \<longleftrightarrow> rule_printable r"
proof
  assume "rule_printable r"
  then show "rule_codec_round_trips r" by (simp add: rule_codec_round_trips_def parse_print_rule)
next
  assume "rule_codec_round_trips r"
  then obtain rs where "parse_rules (print_rule r) = Ok rs" "rs_rules rs = [r]"
    by (auto simp: rule_codec_round_trips_def split: sum.splits)
  with parse_rules_printable[of "print_rule r" rs] show "rule_printable r" by simp
qed

text \<open>
  Every rule the parser accepts passes the structural check that the evaluator, discovery and
  custody run on stored rules.
\<close>

theorem parsed_rules_well_formed:
  assumes "parse_rules text = Ok rs" "r \<in> set (rs_rules rs)"
  shows "validate_rule_structure r"
  using parse_rules_printable[OF assms(1)] assms(2) by (auto simp: list_all_iff rule_printable_def)

theorem parsed_rules_well_formed_witness:
  "validate_rule_structure \<lparr>r_effect = Deny, r_selector = VerbSel ''github'' ''push'',
     r_conjuncts = [PEq ''force'' (SBool True)], r_aggregate = None\<rparr>"
proof -
  have "parse_rules ''deny github.push where force == true'' =
    Ok \<lparr>rs_version = 1, rs_rules = [\<lparr>r_effect = Deny, r_selector = VerbSel ''github'' ''push'',
      r_conjuncts = [PEq ''force'' (SBool True)], r_aggregate = None\<rparr>]\<rparr>"
    by code_simp
  from parsed_rules_well_formed[OF this] show ?thesis by simp
qed

end
