(* ===== verification/Sentence_Widen.thy ===== *)
theory Sentence_Widen
  imports Sentence_Eval Sentence_Codec
begin

text \<open>
  Containment and widening, \<^verbatim>\<open>crates/cermet-lang/src/sentence.rs\<close>: the structural implication
  between rules, the match of conjuncts against a stored resource, the widening of one allow rule so
  that it admits a denied request, and the two suggestion paths that print a widened or a first rule
  as a shell command.

  A suggestion's wording is a value of \<open>widen_hint\<close>, one constructor for each of the three texts
  of the source with the parts it interpolates. The shell that reads the command is described by
  \<open>sh_word\<close>, the POSIX rule for a word made of quoted segments.
\<close>

section \<open>Implication\<close>

text \<open>The match on the two predicates, once they name the same field.\<close>

fun forms_imply :: "bool \<Rightarrow> pred \<Rightarrow> pred \<Rightarrow> bool" where
  "forms_imply numeric_field (PEq _ a) (PEq _ b) = (a = b)"
| "forms_imply numeric_field (PLte _ a) (PLte _ b) = (a \<le> b)"
| "forms_imply numeric_field (PGte _ a) (PGte _ b) = (a \<ge> b)"
| "forms_imply numeric_field (PIn _ a) (PIn _ b) = list_all (\<lambda>v. v \<in> set b) a"
| "forms_imply numeric_field (PEq _ v) (PIn _ vs) = (v \<in> set vs)"
| "forms_imply numeric_field (PIn _ vs) (PEq _ v) = (vs \<noteq> [] \<and> list_all (\<lambda>candidate. candidate = v) vs)"
| "forms_imply numeric_field (PEq _ (SInt a)) (PLte _ b) = (numeric_field \<and> a \<le> b)"
| "forms_imply numeric_field (PEq _ (SInt a)) (PGte _ b) = (numeric_field \<and> a \<ge> b)"
| "forms_imply numeric_field (PIn _ vs) (PLte _ v) = (numeric_field \<and>
     list_all (\<lambda>candidate. case candidate of SInt n \<Rightarrow> n \<le> v | _ \<Rightarrow> False) vs)"
| "forms_imply numeric_field (PIn _ vs) (PGte _ v) = (numeric_field \<and>
     list_all (\<lambda>candidate. case candidate of SInt n \<Rightarrow> n \<ge> v | _ \<Rightarrow> False) vs)"
| "forms_imply numeric_field _ _ = False"

definition pred_implies :: "pred \<Rightarrow> pred \<Rightarrow> action_contract \<Rightarrow> bool" where
  "pred_implies narrower wider c =
     (let field = pred_field narrower in
      if field \<noteq> pred_field wider then False
      else forms_imply (case field_decl c field of None \<Rightarrow> False | Some d \<Rightarrow> fd_ty d = KInt)
             narrower wider)"

definition implies :: "rule \<Rightarrow> rule \<Rightarrow> action_contract \<Rightarrow> bool" where
  "implies narrower wider c \<longleftrightarrow>
     r_aggregate narrower = None \<and> r_aggregate wider = None \<and>
     r_effect narrower = r_effect wider \<and> r_selector narrower = r_selector wider \<and>
     list_all (\<lambda>wide. list_ex (\<lambda>narrow. pred_implies narrow wide c) (r_conjuncts narrower))
       (r_conjuncts wider)"

section \<open>Widening one rule\<close>

definition conjuncts_match_resource ::
    "json_lib \<Rightarrow> pred list \<Rightarrow> canonical_resource \<Rightarrow> action_contract \<Rightarrow> bool" where
  "conjuncts_match_resource J conjuncts res c =
     (if \<not> list_all pred_is_well_formed conjuncts \<or> \<not> conjuncts_resolve conjuncts c then False
      else (case from_stored J (to_canonical_json J res) c of
          Inl _ \<Rightarrow> False
        | Inr res' \<Rightarrow> is_ok (evaluate_conjuncts 0 conjuncts res')))"

record widening =
  wd_rule :: rule
  wd_omitted_pins :: "string list"

fun sentence_scalar :: "rscalar \<Rightarrow> sscalar" where
  "sentence_scalar (RInt n) = SInt n"
| "sentence_scalar (RStr s) = SString s"
| "sentence_scalar (RBool b) = SBool b"

text \<open>The arms of the match on one conjunct whose field the request names.\<close>

fun widen_pred :: "pred \<Rightarrow> rscalar \<Rightarrow> (pred \<times> bool) option" where
  "widen_pred (PEq field expected) v =
     (if \<not> scalar_matches expected v
      then Some (PIn field [expected, sentence_scalar v], True)
      else Some (PEq field expected, False))"
| "widen_pred (PIn field vs) v =
     (if \<not> list_ex (\<lambda>expected. scalar_matches expected v) vs
      then Some (PIn field (vs @ [sentence_scalar v]), True)
      else Some (PIn field vs, False))"
| "widen_pred (PLte field limit) v = (case v of
      RInt requested \<Rightarrow>
        if requested > limit then Some (PLte field requested, True)
        else Some (PLte field limit, False)
    | _ \<Rightarrow> None)"
| "widen_pred (PGte field limit) v = (case v of
      RInt requested \<Rightarrow>
        if requested < limit then Some (PGte field requested, True)
        else Some (PGte field limit, False)
    | _ \<Rightarrow> None)"

text \<open>The loop: the new conjuncts, the omitted pins and whether a conjunct changed.\<close>

fun widen_loop :: "canonical_resource \<Rightarrow> pred list \<Rightarrow> (pred list \<times> string list \<times> bool) option" where
  "widen_loop res [] = Some ([], [], False)"
| "widen_loop res (p # ps) = (case scalar res (pred_field p) of
      None \<Rightarrow>
        map_option (\<lambda>(conjuncts, omitted, changed). (p # conjuncts, pred_field p # omitted, changed))
          (widen_loop res ps)
    | Some v \<Rightarrow>
        (case widen_pred p v of
           None \<Rightarrow> None
         | Some (p', changed_here) \<Rightarrow>
             map_option (\<lambda>(conjuncts, omitted, changed).
                 (p' # conjuncts, omitted, changed_here \<or> changed))
               (widen_loop res ps)))"

definition widen_rule_for_request ::
    "json_lib \<Rightarrow> rule \<Rightarrow> canonical_resource \<Rightarrow> action_contract \<Rightarrow> widening option" where
  "widen_rule_for_request J old res c =
     (if \<not> validate_rule_structure old then None
      else if r_aggregate old \<noteq> None then None
      else if list_ex (\<lambda>p. field_decl c (pred_field p) = None) (r_conjuncts old) then None
      else if list_ex (\<lambda>p. field_class c (pred_field p) = Some Secret) (r_conjuncts old) then None
      else (case widen_loop res (r_conjuncts old) of
          None \<Rightarrow> None
        | Some (conjuncts, omitted_pins, changed) \<Rightarrow>
            let widened = \<lparr>r_effect = r_effect old, r_selector = r_selector old,
                           r_conjuncts = conjuncts, r_aggregate = r_aggregate old\<rparr>;
                judged = filter (\<lambda>p. pred_field p \<notin> set omitted_pins) conjuncts in
            if \<not> implies old widened c \<or> (\<not> changed \<and> omitted_pins = []) then None
            else if r_effect widened \<noteq> Allow then None
            else if conjuncts_match_resource J judged res c
                 then Some \<lparr>wd_rule = widened, wd_omitted_pins = omitted_pins\<rparr> else None))"

section \<open>Suggestions\<close>

definition posix_shell_quote :: "string \<Rightarrow> string" where
  "posix_shell_quote v =
     squote # concat (map (\<lambda>c. if c = squote then [squote, dquote, squote, dquote, squote] else [c]) v)
       @ [squote]"

definition named_fields :: "string list \<Rightarrow> string" where
  "named_fields flds = join '', '' (map (\<lambda>f. ''`'' @ f @ ''`'') flds)"

definition allow_command :: "string \<Rightarrow> string" where
  "allow_command printed_rule =
     ''to allow: cermet rules allow '' @
     posix_shell_quote (case strip_prefix ''allow '' printed_rule of
         None \<Rightarrow> printed_rule | Some argument \<Rightarrow> argument)"

datatype widen_hint =
    PinStands string string bool  \<comment> \<open>the standing rule, the omitted fields, whether there is one\<close>
  | AllowCommand string
  | OmittedThenCommand string bool string

text \<open>
  The conjuncts of the rule as written, with the projected ones replaced by their widened form. The
  positions are in increasing order, so \<^verbatim>\<open>binary_search\<close> is membership.
\<close>

fun splice :: "nat \<Rightarrow> nat list \<Rightarrow> pred list \<Rightarrow> pred list \<Rightarrow> pred list" where
  "splice idx indices projected [] = []"
| "splice idx indices projected (original # rest) =
     (if idx \<notin> set indices then original # splice (Suc idx) indices projected rest
      else (case projected of
          q # qs \<Rightarrow> if pred_field q = pred_field original
                    then q # splice (Suc idx) indices qs rest
                    else splice (Suc idx) indices projected rest
        | [] \<Rightarrow> splice (Suc idx) indices projected rest))"

definition widen_candidate :: "json_lib \<Rightarrow> evaluator \<Rightarrow> action_contract \<Rightarrow> string \<Rightarrow> string
    \<Rightarrow> canonical_resource \<Rightarrow> rule \<Rightarrow> (rule \<times> string list \<times> bool) option" where
  "widen_candidate J ev c provider action res r =
     (if \<not> validate_rule_structure r then None
      else if has_secret_conjunct ev r provider action then None
      else Option.bind (project_rule ev r provider action) (\<lambda>effective.
           Option.bind (widen_rule_for_request J (pr_rule effective) res c) (\<lambda>widened.
             let reconstructed = \<lparr>r_effect = r_effect r, r_selector = r_selector r,
                   r_conjuncts = splice 0 (pr_original_indices effective)
                                   (r_conjuncts (wd_rule widened)) (r_conjuncts r),
                   r_aggregate = r_aggregate r\<rparr> in
             if \<not> validate_rule_structure reconstructed \<or> \<not> rule_codec_round_trips reconstructed
             then None
             else Some (reconstructed, wd_omitted_pins widened, reconstructed = r))))"

fun first_widening :: "json_lib \<Rightarrow> evaluator \<Rightarrow> action_contract \<Rightarrow> string \<Rightarrow> string
    \<Rightarrow> canonical_resource \<Rightarrow> rule list \<Rightarrow> (rule \<times> string list \<times> bool) option" where
  "first_widening J ev c provider action res [] = None"
| "first_widening J ev c provider action res (r # rs) =
     (case widen_candidate J ev c provider action res r of
        Some x \<Rightarrow> Some x
      | None \<Rightarrow> first_widening J ev c provider action res rs)"

definition widen_hint_for_request :: "json_lib \<Rightarrow> evaluator \<Rightarrow> rule_set \<Rightarrow> string \<Rightarrow> string
    \<Rightarrow> canonical_resource \<Rightarrow> widen_hint option" where
  "widen_hint_for_request J ev rules provider action res =
     (if \<not> ruleset_version_supported rules then None
      else Option.bind (resolve_contract ev provider action) (\<lambda>c.
           map_option (\<lambda>(reconstructed, omitted_pins, unchanged).
               if unchanged
               then PinStands (print_rule reconstructed) (named_fields omitted_pins)
                      (length omitted_pins = 1)
               else if omitted_pins = [] then AllowCommand (allow_command (print_rule reconstructed))
               else OmittedThenCommand (named_fields omitted_pins) (length omitted_pins = 1)
                      (allow_command (print_rule reconstructed)))
             (first_widening J ev c provider action res (rs_rules rules))))"

text \<open>The pins of a first rule: one for each execution target the request names.\<close>

fun target_pins :: "action_contract \<Rightarrow> canonical_resource \<Rightarrow> string list \<Rightarrow> pred list option" where
  "target_pins c res [] = Some []"
| "target_pins c res (t # ts) =
     (if field_class c t = Some Secret then None
      else (case scalar res t of
          None \<Rightarrow>
            if (case field_decl c t of None \<Rightarrow> False | Some d \<Rightarrow> fd_required d) then None
            else target_pins c res ts
        | Some v \<Rightarrow> map_option ((#) (PEq t (sentence_scalar v))) (target_pins c res ts)))"

definition unruled_allow_hint :: "json_lib \<Rightarrow> evaluator \<Rightarrow> string \<Rightarrow> string \<Rightarrow> canonical_resource
    \<Rightarrow> widen_hint option" where
  "unruled_allow_hint J ev provider action res =
     Option.bind (resolve_contract ev provider action) (\<lambda>c.
     Option.bind (if has_fully_pinned_execution_targets c
                  then target_pins c res (ac_execution_targets c) else Some []) (\<lambda>conjuncts.
       let r = \<lparr>r_effect = Allow, r_selector = VerbSel provider action,
                r_conjuncts = conjuncts, r_aggregate = None\<rparr> in
       if \<not> validate_rule_structure r \<or> \<not> rule_codec_round_trips r then None
       else if \<not> conjuncts_match_resource J conjuncts res c then None
       else Some (AllowCommand (allow_command (print_rule r)))))"

record sentence_evaluation =
  se_decision :: decision
  se_widen_hint :: "widen_hint option"

definition evaluate_with_widen_hint :: "json_lib \<Rightarrow> evaluator \<Rightarrow> rule_set \<Rightarrow> string \<Rightarrow> string
    \<Rightarrow> canonical_resource \<Rightarrow> sentence_evaluation" where
  "evaluate_with_widen_hint J ev rules provider action res =
     (let decision = evaluate ev rules provider action res in
      \<lparr>se_decision = decision,
       se_widen_hint = (case decision of
          DDeny (MissingField _ _) \<Rightarrow> widen_hint_for_request J ev rules provider action res
        | DDeny (PredicateMismatch _ _ _) \<Rightarrow> widen_hint_for_request J ev rules provider action res
        | DDeny NoMatchingRule \<Rightarrow> unruled_allow_hint J ev provider action res
        | _ \<Rightarrow> None)\<rparr>)"

text \<open>The predicate forms a catalog publishes for a field.\<close>

definition admissible_forms :: "field_decl_t \<Rightarrow> bool \<Rightarrow> string list" where
  "admissible_forms d temporal_clauses =
     (if fd_class d = Secret then []
      else let literals = [SInt 1, SString ''v'', SBool True];
               resolves = (\<lambda>p. pred_resolves_for_decl p d) in
        (if list_ex (\<lambda>v. resolves (PEq (fd_name d) v)) literals then [''=''] else []) @
        (if list_ex (\<lambda>v. resolves (PIn (fd_name d) [v])) literals then [''in''] else []) @
        (if resolves (PLte (fd_name d) 1) then [''<=''] else []) @
        (if resolves (PGte (fd_name d) 1) then [''>=''] else []) @
        (if temporal_clauses \<and> budget_eligible d then [''budget''] else []))"

section \<open>Soundness of implication\<close>

lemma scalar_matches_iff [simp]: "scalar_matches s v \<longleftrightarrow> s = sentence_scalar v"
  by (cases s; cases v) auto

lemma forms_imply_sound: "forms_imply num n w \<Longrightarrow> pred_matches n v \<Longrightarrow> pred_matches w v"
proof (induction num n w rule: forms_imply.induct)
  case (6 num f vs g x)
  then show ?case by (auto simp: list_ex_iff list_all_iff)
next
  case (7 num f a g b)
  then show ?case by (cases v) auto
next
  case (8 num f a g b)
  then show ?case by (cases v) auto
next
  case (9 num f vs g b)
  then show ?case by (cases v) (auto simp: list_ex_iff list_all_iff split: sscalar.splits)
next
  case (10 num f vs g b)
  then show ?case by (cases v) (auto simp: list_ex_iff list_all_iff split: sscalar.splits)
qed (auto simp: list_ex_iff list_all_iff split: rscalar.splits)

lemma pred_implies_sound: "pred_implies n w c \<Longrightarrow> pred_matches n v \<Longrightarrow> pred_matches w v"
  by (auto simp: pred_implies_def Let_def intro: forms_imply_sound split: if_splits)

lemma pred_implies_field: "pred_implies n w c \<Longrightarrow> pred_field n = pred_field w"
  by (simp add: pred_implies_def Let_def split: if_splits)

lemma conjuncts_hold_iff:
  "conjuncts_hold ps res \<longleftrightarrow>
     (\<forall>p \<in> set ps. \<exists>v. scalar res (pred_field p) = Some v \<and> pred_matches p v)"
  by (auto simp: conjuncts_hold_def list_all_iff split: option.splits)

lemma implied_conjuncts_hold:
  assumes "\<forall>w \<in> set ws. \<exists>n \<in> set ns. pred_implies n w c" "conjuncts_hold ns res"
  shows "conjuncts_hold ws res"
  using assms pred_implies_sound pred_implies_field unfolding conjuncts_hold_iff by metis

lemma project_conjuncts_fst:
  "map_option fst (project_conjuncts ev sel ms c idx ps) =
     (if list_all (\<lambda>p. exists_in_set ev sel ms (pred_field p)) ps
      then Some (filter (\<lambda>p. declares c (pred_field p)) ps) else None)"
proof (induction ps arbitrary: idx)
  case (Cons p ps)
  show ?case using Cons[of "Suc idx"]
    by (cases "project_conjuncts ev sel ms c (Suc idx) ps") (auto split: if_splits)
qed simp

text \<open>What it takes for a rule to match, read off its selector.\<close>

lemma rule_matches_iff:
  "rule_matches ev p a res r \<longleftrightarrow> validate_rule_structure r \<and> covers ev r p a \<and>
     (case r_selector r of
        VerbSel _ _ \<Rightarrow> conjuncts_hold (r_conjuncts r) res
      | SetSel sel nm d \<Rightarrow> \<exists>c s. resolve_contract ev p a = Some c \<and> resolve_set ev sel nm d = Some s \<and>
          list_all (\<lambda>q. exists_in_set ev sel (ss_members s) (pred_field q)) (r_conjuncts r) \<and>
          conjuncts_hold (filter (\<lambda>q. declares c (pred_field q)) (r_conjuncts r)) res)"
proof (cases "r_selector r")
  case (VerbSel x y)
  then show ?thesis by (auto simp: rule_matches_def project_rule_def)
next
  case (SetSel sel nm d)
  show ?thesis
  proof (cases "\<exists>c s. covers ev r p a \<and> resolve_contract ev p a = Some c \<and> resolve_set ev sel nm d = Some s")
    case False
    then show ?thesis using SetSel
      by (auto simp: rule_matches_def project_rule_def bind_eq_Some_conv split: option.splits)
  next
    case True
    then obtain c s where cs: "covers ev r p a" "resolve_contract ev p a = Some c"
      "resolve_set ev sel nm d = Some s" by blast
    show ?thesis
      using project_conjuncts_fst[of ev sel "ss_members s" c 0 "r_conjuncts r"] cs SetSel
      by (cases "project_conjuncts ev sel (ss_members s) c 0 (r_conjuncts r)")
         (auto simp: rule_matches_def project_rule_def split: if_splits)
  qed
qed

lemma covers_selector: "r_selector r = r_selector r' \<Longrightarrow> covers ev r p a = covers ev r' p a"
  by (simp add: covers_def)

lemma implies_matches:
  assumes imp: "implies n w c'" and wf: "validate_rule_structure w"
    and m: "rule_matches ev p a res n"
  shows "rule_matches ev p a res w"
proof -
  have sel: "r_selector w = r_selector n"
    and sub: "\<forall>q \<in> set (r_conjuncts w). \<exists>q' \<in> set (r_conjuncts n). pred_implies q' q c'"
    using imp by (auto simp: implies_def list_all_iff list_ex_iff)
  have fields: "\<forall>q \<in> set (r_conjuncts w). \<exists>q' \<in> set (r_conjuncts n). pred_field q = pred_field q'"
    using sub pred_implies_field by metis
  have filt: "\<forall>q \<in> set (filter (\<lambda>q. P (pred_field q)) (r_conjuncts w)).
      \<exists>q' \<in> set (filter (\<lambda>q. P (pred_field q)) (r_conjuncts n)). pred_implies q' q c'" for P
    using sub pred_implies_field by fastforce
  have cov: "covers ev w p a = covers ev n p a" by (rule covers_selector) (rule sel)
  show ?thesis using m wf sel fields implied_conjuncts_hold[OF sub] implied_conjuncts_hold[OF filt]
    unfolding rule_matches_iff cov
    by (cases "r_selector n") (fastforce simp: list_all_iff)+
qed

text \<open>
  The containment relation is sound for the evaluator: if one rule structurally implies another,
  then every request, under every provider contract and set expansion, that matches the narrower
  rule matches the wider one.
\<close>

theorem implies_sound:
  assumes "implies n w c'" "validate_rule_structure w" "rule_matches ev p a res n"
  shows "rule_matches ev p a res w"
  using assms by (rule implies_matches)

section \<open>What a widening is\<close>

lemma widen_pred_spec:
  "widen_pred p v = Some (q, ch) \<Longrightarrow> pred_field q = pred_field p \<and> pred_matches q v"
  by (cases p) (auto simp: list_ex_iff split: if_splits rscalar.splits)

text \<open>How a widened conjunct relates to the one it replaces, for a request.\<close>

definition widened_conjunct :: "canonical_resource \<Rightarrow> pred \<Rightarrow> pred \<Rightarrow> bool" where
  "widened_conjunct res p q \<longleftrightarrow> pred_field q = pred_field p \<and>
     (case scalar res (pred_field p) of None \<Rightarrow> q = p | Some v \<Rightarrow> pred_matches q v)"

lemma widen_loop_spec:
  "widen_loop res ps = Some (cs, om, ch) \<Longrightarrow>
     list_all2 (widened_conjunct res) ps cs \<and>
     om = filter (\<lambda>f. scalar res f = None) (map pred_field ps)"
proof (induction ps arbitrary: cs om ch)
  case (Cons p ps)
  show ?case
  proof (cases "scalar res (pred_field p)")
    case None
    moreover from this have "widened_conjunct res p p" by (simp add: widened_conjunct_def)
    ultimately show ?thesis using Cons by auto
  next
    case (Some v)
    with Cons.prems obtain q b where q: "widen_pred p v = Some (q, b)"
      by (auto split: option.splits)
    have "widened_conjunct res p q" using Some widen_pred_spec[OF q] by (simp add: widened_conjunct_def)
    with Some q Cons show ?thesis by auto
  qed
qed simp

lemma widened_fields:
  "list_all2 (widened_conjunct res) ps cs \<Longrightarrow> map pred_field cs = map pred_field ps"
  by (induction rule: list_all2_induct) (auto simp: widened_conjunct_def)

lemma widened_hold:
  "list_all2 (widened_conjunct res) ps cs \<Longrightarrow>
     conjuncts_hold (filter (\<lambda>q. scalar res (pred_field q) \<noteq> None) cs) res"
  by (induction rule: list_all2_induct)
     (auto simp: widened_conjunct_def conjuncts_hold_def split: option.splits)

lemma widen_rule_spec:
  assumes "widen_rule_for_request J old res c = Some wd"
  shows "implies old (wd_rule wd) c \<and> r_effect (wd_rule wd) = Allow \<and>
         list_all2 (widened_conjunct res) (r_conjuncts old) (r_conjuncts (wd_rule wd)) \<and>
         wd_omitted_pins wd = filter (\<lambda>f. scalar res f = None) (map pred_field (r_conjuncts old))"
proof -
  from assms obtain cs om ch where loop: "widen_loop res (r_conjuncts old) = Some (cs, om, ch)"
    and wd: "wd = \<lparr>wd_rule = \<lparr>r_effect = r_effect old, r_selector = r_selector old,
                  r_conjuncts = cs, r_aggregate = r_aggregate old\<rparr>, wd_omitted_pins = om\<rparr>"
    and "implies old (wd_rule wd) c" "r_effect old = Allow"
    by (auto simp: widen_rule_for_request_def Let_def split: if_splits option.splits)
  then show ?thesis using widen_loop_spec[OF loop] by simp
qed

text \<open>
  C17. A widening of a rule for a request contains the old rule, keeps its fields in order, and is
  exact about what the request left out: a conjunct over an omitted field is carried verbatim and
  listed, and every conjunct over a field the request names matches the request's value.
\<close>

theorem widening_sound:
  assumes "widen_rule_for_request J old res c = Some wd"
  shows "implies old (wd_rule wd) c \<and> r_effect (wd_rule wd) = Allow \<and>
         map pred_field (r_conjuncts (wd_rule wd)) = map pred_field (r_conjuncts old) \<and>
         list_all2 (\<lambda>p q. scalar res (pred_field p) = None \<longrightarrow> q = p)
           (r_conjuncts old) (r_conjuncts (wd_rule wd)) \<and>
         wd_omitted_pins wd = filter (\<lambda>f. scalar res f = None) (map pred_field (r_conjuncts old)) \<and>
         conjuncts_hold (filter (\<lambda>q. scalar res (pred_field q) \<noteq> None) (r_conjuncts (wd_rule wd))) res"
proof -
  have "list_all2 (widened_conjunct res) (r_conjuncts old) (r_conjuncts (wd_rule wd))"
    using widen_rule_spec[OF assms] by blast
  then have "list_all2 (\<lambda>p q. scalar res (pred_field p) = None \<longrightarrow> q = p)
      (r_conjuncts old) (r_conjuncts (wd_rule wd))"
    by (rule list_all2_mono) (auto simp: widened_conjunct_def)
  then show ?thesis using widen_rule_spec[OF assms] widened_fields widened_hold by blast
qed

section \<open>Splicing a widened projection back\<close>

lemma splice_drop: "k < idx \<Longrightarrow> splice idx (k # ks) qs ps = splice idx ks qs ps"
proof (induction ps arbitrary: idx qs)
  case (Cons p ps)
  have "splice (Suc idx) (k # ks) qs' ps = splice (Suc idx) ks qs' ps" for qs'
    using Cons by simp
  then show ?case using Cons.prems by (auto split: list.splits)
qed simp

lemma splice_all:
  assumes "map pred_field cs = map pred_field ps"
    and "\<forall>i. idx \<le> i \<and> i < idx + length ps \<longrightarrow> i \<in> set ks"
  shows "splice idx ks cs ps = cs"
  using assms
proof (induction ps arbitrary: idx cs)
  case (Cons p ps)
  then obtain q qs where cs: "cs = q # qs" "pred_field q = pred_field p"
    "map pred_field qs = map pred_field ps" by auto
  have "idx \<in> set ks" using Cons.prems(2) by simp
  moreover have "splice (Suc idx) ks qs ps = qs" using Cons.prems(2) cs(3) by (intro Cons.IH) auto
  ultimately show ?case using cs by simp
qed simp

lemma splice_projected:
  assumes "project_conjuncts ev sel ms c idx ps = Some (cs0, ks)"
    and "map pred_field cs = map pred_field cs0"
  shows "project_conjuncts ev sel ms c idx (splice idx ks cs ps) = Some (cs, ks) \<and>
         set (splice idx ks cs ps) \<subseteq> set ps \<union> set cs"
  using assms
proof (induction ps arbitrary: idx cs0 ks cs)
  case (Cons p ps)
  then obtain cs' ks' where ex: "exists_in_set ev sel ms (pred_field p)"
    and rec: "project_conjuncts ev sel ms c (Suc idx) ps = Some (cs', ks')"
    and res: "(cs0, ks) = (if declares c (pred_field p) then (p # cs', idx # ks') else (cs', ks'))"
    by (auto split: if_splits option.splits)
  show ?case
  proof (cases "declares c (pred_field p)")
    case True
    with res Cons.prems(2) obtain q qs where q: "cs = q # qs" "pred_field q = pred_field p"
      "map pred_field qs = map pred_field cs'" "ks = idx # ks'" by auto
    then show ?thesis using Cons.IH[OF rec q(3)] True ex by (auto simp: splice_drop)
  next
    case False
    with res have eq: "cs0 = cs'" "ks = ks'" by simp_all
    have "\<forall>k < length cs'. Suc idx \<le> ks' ! k" "length ks' = length cs'"
      using project_conjuncts_indices[OF rec] by auto
    then have "idx \<notin> set ks" using eq by (auto simp: in_set_conv_nth)
    moreover have "map pred_field cs = map pred_field cs'" using Cons.prems(2) eq by simp
    ultimately show ?thesis using Cons.IH[OF rec, of cs] False ex eq by auto
  qed
qed simp

lemma pred_implies_refl: "pred_implies p p c"
  by (cases p) (simp_all add: pred_implies_def Let_def list_all_iff)

text \<open>
  The rule rebuilt from a widened projection projects to the widened conjuncts, and contains the rule
  it came from.
\<close>

lemma reconstructed_rule:
  assumes pr: "project_rule ev r p a = Some pr"
    and wd: "widen_rule_for_request J (pr_rule pr) res c = Some wd"
  defines "r' \<equiv> r\<lparr>r_conjuncts := splice 0 (pr_original_indices pr) (r_conjuncts (wd_rule wd)) (r_conjuncts r)\<rparr>"
  shows "implies r r' c \<and>
    (\<exists>pr'. project_rule ev r' p a = Some pr' \<and> r_conjuncts (pr_rule pr') = r_conjuncts (wd_rule wd))"
proof -
  let ?ws = "r_conjuncts (wd_rule wd)"
  note spec = widen_rule_spec[OF wd]
  have flds: "map pred_field ?ws = map pred_field (r_conjuncts (pr_rule pr))"
    using spec widened_fields by blast
  have cov: "covers ev r p a" using project_rule_covers[OF pr] .
  have cov': "covers ev r' p a" using cov covers_selector[of r' r] by (simp add: r'_def)
  have "set (r_conjuncts r') \<subseteq> set (r_conjuncts r) \<union> set ?ws \<and>
     set (r_conjuncts (pr_rule pr)) \<subseteq> set (r_conjuncts r) \<and> r_aggregate (pr_rule pr) = r_aggregate r \<and>
     (\<exists>pr'. project_rule ev r' p a = Some pr' \<and> r_conjuncts (pr_rule pr') = ?ws)"
  proof (cases "r_selector r")
    case (VerbSel x y)
    then have "pr = \<lparr>pr_rule = r, pr_original_indices = [0..<length (r_conjuncts r)]\<rparr>"
      using pr cov by (simp add: project_rule_def)
    moreover from this have "r_conjuncts r' = ?ws" using flds by (simp add: r'_def splice_all)
    ultimately show ?thesis using cov' VerbSel by (simp add: project_rule_def r'_def)
  next
    case (SetSel sel nm d)
    with pr obtain ct cs ks and s :: set_snapshot where
      rc: "resolve_contract ev p a = Some ct" "resolve_set ev sel nm d = Some s"
      and pc: "project_conjuncts ev sel (ss_members s) ct 0 (r_conjuncts r) = Some (cs, ks)"
      and preq: "pr = \<lparr>pr_rule = r\<lparr>r_conjuncts := cs\<rparr>, pr_original_indices = ks\<rparr>"
      by (auto simp: project_rule_def bind_eq_Some_conv split: if_splits)
    have "set cs \<subseteq> set (r_conjuncts r)"
      using project_conjuncts_fst[of ev sel "ss_members s" ct 0 "r_conjuncts r"] pc
      by (auto split: if_splits)
    moreover have "project_conjuncts ev sel (ss_members s) ct 0 (r_conjuncts r') = Some (?ws, ks) \<and>
        set (r_conjuncts r') \<subseteq> set (r_conjuncts r) \<union> set ?ws"
      using splice_projected[OF pc] flds preq by (simp add: r'_def)
    ultimately show ?thesis using cov' SetSel rc preq by (simp add: project_rule_def r'_def)
  qed
  then show ?thesis using spec pred_implies_refl
    by (auto simp: implies_def list_all_iff list_ex_iff r'_def) blast+
qed

section \<open>The command a shell reads\<close>

text \<open>
  A shell word made of quoted segments only: everything between single quotes is literal; between
  double quotes the dollar sign, the backquote and the backslash are not. Any other form of word has
  no reading here.
\<close>

definition dquote_literal :: "string \<Rightarrow> bool" where
  "dquote_literal s \<longleftrightarrow> list_all (\<lambda>c. c \<notin> {CHR ''$'', CHR ''`'', backslash}) s"

function sh_word :: "string \<Rightarrow> string option" where
  "sh_word [] = Some []"
| "sh_word (c # cs) =
     (if c = squote then
        (case split_once squote cs of
           None \<Rightarrow> None
         | Some (lit, rest) \<Rightarrow> map_option ((@) lit) (sh_word rest))
      else if c = dquote then
        (case split_once dquote cs of
           None \<Rightarrow> None
         | Some (lit, rest) \<Rightarrow>
             if dquote_literal lit then map_option ((@) lit) (sh_word rest) else None)
      else None)"
  by pat_completeness auto
termination
  by (relation "measure length") (auto dest: split_once_Some)

lemma squote_neq_dquote [simp]: "squote \<noteq> dquote" "dquote \<noteq> squote"
  by (simp_all add: char_consts)

abbreviation quote_char :: "char \<Rightarrow> string" where
  "quote_char c \<equiv> (if c = squote then [squote, dquote, squote, dquote, squote] else [c])"

lemma quote_chars_plain: "squote \<notin> set v \<Longrightarrow> concat (map quote_char v) = v"
  by (induction v) auto

lemma sh_word_single:
  "squote \<notin> set lit \<Longrightarrow> sh_word (squote # lit @ squote # rest) = map_option ((@) lit) (sh_word rest)"
  by (simp add: split_once_append)

lemma sh_word_double_quoted_quote:
  "sh_word (dquote # squote # dquote # rest) = map_option ((#) squote) (sh_word rest)"
proof -
  have "dquote_literal [squote]" by (simp add: dquote_literal_def char_consts)
  moreover have "split_once dquote (squote # dquote # rest) = Some ([squote], rest)"
    using split_once_append[of dquote "[squote]" rest] by simp
  moreover have "(@) [squote] = (#) squote" by (simp add: fun_eq_iff)
  ultimately show ?thesis by simp
qed

lemma sh_word_quote_body: "sh_word (squote # concat (map quote_char v) @ [squote]) = Some v"
proof (induction v rule: length_induct)
  case (1 v)
  show ?case
  proof (cases "squote \<in> set v")
    case False
    then have "concat (map quote_char v) = v" by (rule quote_chars_plain)
    moreover have "split_once squote (v @ [squote]) = Some (v, [])"
      using split_once_append[OF False, of "[]"] by simp
    ultimately show ?thesis by simp
  next
    case True
    then obtain u w where v: "v = u @ squote # w" and u: "squote \<notin> set u"
      by (metis split_list_first)
    have enc: "concat (map quote_char v) @ [squote] =
        u @ squote # (dquote # squote # dquote # squote # concat (map quote_char w) @ [squote])"
      using quote_chars_plain[OF u] by (simp add: v)
    have "sh_word (squote # concat (map quote_char w) @ [squote]) = Some w"
      using 1 v by simp
    then have "sh_word (dquote # squote # dquote # squote # concat (map quote_char w) @ [squote])
        = Some (squote # w)" by (simp only: sh_word_double_quoted_quote option.map)
    then have "sh_word (squote # concat (map quote_char v) @ [squote]) = Some (u @ squote # w)"
      by (simp only: enc sh_word_single[OF u] option.map)
    then show ?thesis by (simp only: v)
  qed
qed

text \<open>
  The argument of a suggested command survives the shell: whatever characters the rule text
  holds, quotes included, a POSIX shell reads the quoted form as exactly that text.
\<close>

theorem shell_quote_roundtrip: "sh_word (posix_shell_quote v) = Some v"
  using sh_word_quote_body[of v] by (simp add: posix_shell_quote_def)

lemma sh_word_quote: "sh_word (posix_shell_quote v) = Some v"
  using sh_word_quote_body[of v] by (simp add: posix_shell_quote_def)

text \<open>
  What an operator gets by pasting a suggestion: the command's argument, read by the shell, is the
  text of a rule.
\<close>

definition pasted_rule :: "string \<Rightarrow> rule option" where
  "pasted_rule command =
     Option.bind (strip_prefix ''to allow: cermet rules allow '' command) (\<lambda>arg.
     Option.bind (sh_word arg) (\<lambda>text.
     case parse_rules (''allow '' @ text) of
       Inl _ \<Rightarrow> None
     | Inr parsed \<Rightarrow> (case rs_rules parsed of [r] \<Rightarrow> Some r | _ \<Rightarrow> None)))"

lemma pasted_allow_command:
  assumes "r_effect r = Allow" "rule_codec_round_trips r"
  shows "pasted_rule (allow_command (print_rule r)) = Some r"
proof -
  obtain arg where txt_eq: "print_rule r = ''allow '' @ arg"
    using assms(1) by (simp add: print_rule_def print_effect_def)
  have cmd: "allow_command (print_rule r) = ''to allow: cermet rules allow '' @ posix_shell_quote arg"
    by (simp only: allow_command_def txt_eq strip_prefix_append option.case)
  obtain parsed where "parse_rules (''allow '' @ arg) = Ok parsed" "rs_rules parsed = [r]"
    using assms(2) unfolding rule_codec_round_trips_def txt_eq by (auto split: sum.splits)
  then show ?thesis
    by (simp only: pasted_rule_def cmd strip_prefix_append Option.bind.bind_lunit sh_word_quote
        sum.case list.case)
qed

section \<open>Suggestions are remedies\<close>

lemma rule_rebuild:
  "\<lparr>r_effect = r_effect r, r_selector = r_selector r, r_conjuncts = ps, r_aggregate = r_aggregate r\<rparr>
     = r\<lparr>r_conjuncts := ps\<rparr>"
  by (cases r) simp

lemma widen_candidate_spec:
  assumes "widen_candidate J ev c p a res r = Some (r', om, un)"
  shows "rule_codec_round_trips r' \<and> r_effect r' = Allow \<and> r_selector r' = r_selector r \<and>
         validate_rule_structure r' \<and> implies r r' c \<and> (om = [] \<longrightarrow> rule_matches ev p a res r')"
proof -
  from assms obtain pr wd where pr: "project_rule ev r p a = Some pr"
    and wd: "widen_rule_for_request J (pr_rule pr) res c = Some wd"
    and r': "r' = r\<lparr>r_conjuncts :=
          splice 0 (pr_original_indices pr) (r_conjuncts (wd_rule wd)) (r_conjuncts r)\<rparr>"
    and ok: "validate_rule_structure r'" "rule_codec_round_trips r'"
    and om: "om = wd_omitted_pins wd"
    unfolding widen_candidate_def Let_def rule_rebuild
    by (auto simp: bind_eq_Some_conv split: if_splits)
  note rec = reconstructed_rule[OF pr wd, folded r'] and spec = widen_rule_spec[OF wd]
  have eff: "r_effect r' = Allow"
    using spec rec project_rule_effect[OF pr] by (simp add: implies_def)
  have "rule_matches ev p a res r'" if "om = []"
  proof -
    have w: "list_all2 (widened_conjunct res) (r_conjuncts (pr_rule pr)) (r_conjuncts (wd_rule wd))"
      using spec by blast
    have "\<forall>q \<in> set (r_conjuncts (wd_rule wd)). scalar res (pred_field q) \<noteq> None"
      using that om spec widened_fields[OF w]
      by (metis (mono_tags, lifting) filter_empty_conv image_eqI list.set_map)
    then have "filter (\<lambda>q. scalar res (pred_field q) \<noteq> None) (r_conjuncts (wd_rule wd))
        = r_conjuncts (wd_rule wd)" by simp
    with widened_hold[OF w] have "conjuncts_hold (r_conjuncts (wd_rule wd)) res" by simp
    with rec ok show ?thesis by (auto simp: rule_matches_def)
  qed
  then show ?thesis using rec ok eff r' by simp
qed

lemma first_widening_Some:
  "first_widening J ev c p a res rs = Some x \<Longrightarrow>
     \<exists>r \<in> set rs. widen_candidate J ev c p a res r = Some x"
  by (induction rs) (auto split: option.splits)

lemma widen_hint_spec:
  assumes "widen_hint_for_request J ev rules p a res = Some (AllowCommand cmd)"
  shows "\<exists>r \<in> set (rs_rules rules). \<exists>r' c. pasted_rule cmd = Some r' \<and> r_effect r' = Allow \<and>
     r_selector r' = r_selector r \<and> implies r r' c \<and> validate_rule_structure r' \<and>
     rule_matches ev p a res r'"
proof -
  from assms obtain c r' un where
    fw: "first_widening J ev c p a res (rs_rules rules) = Some (r', [], un)"
    and cmd: "cmd = allow_command (print_rule r')"
    by (auto simp: widen_hint_for_request_def bind_eq_Some_conv split: if_splits)
  from first_widening_Some[OF fw] obtain r where r: "r \<in> set (rs_rules rules)"
    and cand: "widen_candidate J ev c p a res r = Some (r', [], un)" by blast
  have "pasted_rule cmd = Some r'"
    using widen_candidate_spec[OF cand] unfolding cmd by (intro pasted_allow_command) auto
  with r widen_candidate_spec[OF cand] show ?thesis by blast
qed

lemma target_pins_hold: "target_pins c res ts = Some ps \<Longrightarrow> conjuncts_hold ps res"
  by (induction ts arbitrary: ps) (auto simp: conjuncts_hold_def split: if_splits option.splits)

lemma unruled_hint_spec:
  assumes "unruled_allow_hint J ev p a res = Some (AllowCommand cmd)"
  shows "\<exists>r. pasted_rule cmd = Some r \<and> r_effect r = Allow \<and> r_selector r = VerbSel p a \<and>
             rule_matches ev p a res r"
proof -
  from assms obtain c ps r where
    pins: "(if has_fully_pinned_execution_targets c
            then target_pins c res (ac_execution_targets c) else Some []) = Some ps"
    and r: "r = \<lparr>r_effect = Allow, r_selector = VerbSel p a, r_conjuncts = ps, r_aggregate = None\<rparr>"
    and ok: "validate_rule_structure r" "rule_codec_round_trips r"
    and cmd: "cmd = allow_command (print_rule r)"
    unfolding unruled_allow_hint_def Let_def Option.bind_eq_Some_conv
    by (metis (no_types, lifting) option.distinct(1) option.inject widen_hint.inject(2))
  have ps: "conjuncts_hold ps res"
    using pins target_pins_hold by (auto simp: conjuncts_hold_def split: if_splits)
  have "rule_matches ev p a res r"
    unfolding rule_matches_iff using ps ok by (simp add: r covers_def)
  moreover have "pasted_rule cmd = Some r"
    unfolding cmd using ok r by (intro pasted_allow_command) auto
  ultimately show ?thesis using r by auto
qed

lemma blocked_denial:
  assumes "\<exists>r \<in> set rs. rule_blocks ev c p a res r"
  shows "\<exists>i. evaluate_loop ev c p a res k rs fd fa \<in> {DDeny (ExplicitDeny i), DDeny (UnresolvedDeny i)}"
  using assms
proof (induction rs arbitrary: k fd fa)
  case (Cons r rs)
  show ?case
  proof (cases "rule_blocks ev c p a res r")
    case True
    then obtain reason where h: "rule_outcome_of ev c p a res k r = Halt reason"
      using outcome_Halt by blast
    then have "reason = ExplicitDeny k \<or> reason = UnresolvedDeny k"
      by (auto simp: rule_outcome_of_def split: if_splits option.splits sum.splits rule_effect.splits)
    with h show ?thesis by auto
  next
    case False
    then have "rule_outcome_of ev c p a res k r \<noteq> Halt reason" for reason
      using outcome_Halt by blast
    moreover have "\<exists>r \<in> set rs. rule_blocks ev c p a res r" using Cons.prems False by simp
    ultimately show ?thesis using Cons.IH by (auto split: rule_outcome.splits)
  qed
qed simp

lemma remedied:
  assumes deny: "evaluate ev rules p a res = DDeny reason"
    and reason: "\<forall>i. reason \<noteq> ExplicitDeny i \<and> reason \<noteq> UnresolvedDeny i"
    and v: "ruleset_version_supported rules" and c: "resolve_contract ev p a = Some c"
    and r: "r_effect r = Allow" "rule_matches ev p a res r"
  shows "evaluate ev (rules\<lparr>rs_rules := rs_rules rules @ [r]\<rparr>) p a res = DAllow (length (rs_rules rules))"
proof -
  have loop: "evaluate_loop ev c p a res 0 (rs_rules rules) None None = DDeny reason"
    using deny v c by (simp add: evaluate_def)
  have nb: "\<forall>r \<in> set (rs_rules rules). \<not> rule_blocks ev c p a res r"
    using blocked_denial[of "rs_rules rules" ev c p a res 0 None None] loop reason by auto
  have "loop_winner ev c p a res (rs_rules rules) = None" using loop by (simp add: loop_winner_def)
  with nb have na: "\<forall>q \<in> set (rs_rules rules). \<not> rule_admits ev p a res q"
    using decision.allowed_iff[of ev c p a res "rs_rules rules"] by auto
  have "\<not> rule_blocks ev c p a res r" using r(1) by (simp add: rule_blocks_def)
  then have "loop_winner ev c p a res (rs_rules rules @ [r]) = Some (length (rs_rules rules))"
    using nb na r unfolding decision.run_spec by (auto simp: nth_append)
  then show ?thesis using v c by (simp add: evaluate_DAllow_winner ruleset_version_supported_def)
qed

text \<open>
  C37. A denial that carries a plain command carries a remedy: pasted into a shell, the command's
  argument parses to one allow rule, and adding that rule to the corpus makes the evaluator allow
  this request, by that rule.
\<close>

theorem hint_is_a_remedy:
  assumes "se_widen_hint (evaluate_with_widen_hint J ev rules p a res) = Some (AllowCommand cmd)"
  shows "\<exists>r. pasted_rule cmd = Some r \<and> r_effect r = Allow \<and>
     evaluate ev (rules\<lparr>rs_rules := rs_rules rules @ [r]\<rparr>) p a res = DAllow (length (rs_rules rules))"
proof -
  from assms obtain reason where deny: "evaluate ev rules p a res = DDeny reason"
    and hint: "widen_hint_for_request J ev rules p a res = Some (AllowCommand cmd) \<or>
               unruled_allow_hint J ev p a res = Some (AllowCommand cmd)"
    and reason: "(\<exists>i f. reason = MissingField i f) \<or> (\<exists>i k f. reason = PredicateMismatch i k f) \<or>
                 reason = NoMatchingRule"
    by (auto simp: evaluate_with_widen_hint_def Let_def split: decision.splits deny_reason.splits)
  then obtain c where ctx: "ruleset_version_supported rules" "resolve_contract ev p a = Some c"
    by (auto simp: evaluate_def split: if_splits option.splits)
  obtain r where "pasted_rule cmd = Some r" "r_effect r = Allow" "rule_matches ev p a res r"
    using hint widen_hint_spec unruled_hint_spec by meson
  then show ?thesis using remedied[OF deny _ ctx] reason by blast
qed

text \<open>
  A suggested widening never takes authority away from the corpus it is read against: every
  request that matches the rule it was derived from, on whatever action of its selector, matches
  the pasted rule, which has the same selector.
\<close>

theorem hint_contains_the_old_rule:
  assumes "widen_hint_for_request J ev rules p a res = Some (AllowCommand cmd)"
  shows "\<exists>r \<in> set (rs_rules rules). \<exists>r'. pasted_rule cmd = Some r' \<and> r_selector r' = r_selector r \<and>
     (\<forall>p' a' res'. rule_matches ev p' a' res' r \<longrightarrow> rule_matches ev p' a' res' r')"
  using widen_hint_spec[OF assms] implies_matches by blast

section \<open>A concrete suggestion\<close>

text \<open>
  A reader and writer of flat objects of integers and strings stands for the JSON package:
  \<^verbatim>\<open>k=i5;\<close> or \<^verbatim>\<open>k=stext;\<close> for each entry.
\<close>

fun flat_entry :: "string \<times> json \<Rightarrow> string" where
  "flat_entry (k, JInt n) = k @ ''=i'' @ int_str n @ '';''"
| "flat_entry (k, JString t) = k @ ''=s'' @ t @ '';''"
| "flat_entry (k, _) = []"

fun read_entries :: "string list \<Rightarrow> (string \<times> json) list option" where
  "read_entries [] = Some []"
| "read_entries (e # es) =
     (if e = [] then read_entries es
      else (case split_once (CHR ''='') e of
          Some (k, t # v) \<Rightarrow>
            if t = CHR ''s'' then map_option ((#) (k, JString v)) (read_entries es)
            else (case parse_i64 v of
                None \<Rightarrow> None
              | Some n \<Rightarrow> map_option ((#) (k, JInt n)) (read_entries es))
        | _ \<Rightarrow> None))"

definition flat_json :: json_lib where
  "flat_json =
     \<lparr>json_parse = (\<lambda>t. map_option JObject (read_entries (split_on (CHR '';'') t))),
      json_print = (\<lambda>v. case v of JObject es \<Rightarrow> concat (map flat_entry es) | _ \<Rightarrow> [])\<rparr>"

definition widened_sample :: widening where
  "widened_sample = \<lparr>wd_rule = sample_allow\<lparr>r_conjuncts :=
      [PEq ''to'' (SString ''bob''), PLte ''amount'' 150]\<rparr>, wd_omitted_pins = []\<rparr>"

theorem implies_sound_witness:
  "rule_matches sample_evaluator ''pay'' ''send'' (sample_resource 50) (wd_rule widened_sample)"
proof (rule implies_sound)
  show "implies sample_allow (wd_rule widened_sample) (sample_contract ''send'')" by code_simp
  show "validate_rule_structure (wd_rule widened_sample)" by code_simp
  show "rule_matches sample_evaluator ''pay'' ''send'' (sample_resource 50) sample_allow" by code_simp
qed

theorem widening_sound_witness:
  "conjuncts_hold (filter (\<lambda>q. scalar (sample_resource 150) (pred_field q) \<noteq> None)
     (r_conjuncts (wd_rule widened_sample))) (sample_resource 150)"
proof -
  have "widen_rule_for_request flat_json sample_allow (sample_resource 150) (sample_contract ''send'')
      = Some widened_sample"
    by code_simp
  from widening_sound[OF this] show ?thesis by blast
qed

definition sample_command :: string where
  "sample_command = allow_command (print_rule (wd_rule widened_sample))"

theorem hint_is_a_remedy_witness:
  "\<exists>r. pasted_rule sample_command = Some r \<and> r_effect r = Allow \<and>
     evaluate sample_evaluator (sample_rules [sample_allow]\<lparr>rs_rules := rs_rules (sample_rules [sample_allow]) @ [r]\<rparr>)
       ''pay'' ''send'' (sample_resource 150) = DAllow (length (rs_rules (sample_rules [sample_allow])))"
proof (rule hint_is_a_remedy)
  show "se_widen_hint (evaluate_with_widen_hint flat_json sample_evaluator (sample_rules [sample_allow])
      ''pay'' ''send'' (sample_resource 150)) = Some (AllowCommand sample_command)"
    by code_simp
qed

theorem hint_contains_the_old_rule_witness:
  "\<exists>r \<in> set (rs_rules (sample_rules [sample_allow])). \<exists>r'. pasted_rule sample_command = Some r' \<and>
     r_selector r' = r_selector r \<and>
     (\<forall>p' a' res'. rule_matches sample_evaluator p' a' res' r \<longrightarrow>
                   rule_matches sample_evaluator p' a' res' r')"
proof (rule hint_contains_the_old_rule)
  show "widen_hint_for_request flat_json sample_evaluator (sample_rules [sample_allow])
      ''pay'' ''send'' (sample_resource 150) = Some (AllowCommand sample_command)"
    by code_simp
qed

end
