(* ===== verification/Sentence_Corpus.thy ===== *)
theory Sentence_Corpus
  imports Sentence_Codec Sentence_Eval
begin

text \<open>
  Corpus admission, \<^verbatim>\<open>crates/cermet-lang/src/sentence.rs\<close>: the checks a candidate corpus
  passes before it can become authority - the temporal gate, pinning of set references, the stored
  subset, the ban on secret fields, reference resolution, the shadowing of metered rules, the exact
  pins of money actions - and \<open>prepare_sentence_authority\<close>, which runs them in order and returns
  the canonical text with its digest.

  A rule's serialized form is written by the \<^verbatim>\<open>serde_json\<close> package; it enters only the identity of
  a counter and is the parameter \<open>rule_json\<close>.
\<close>

type_synonym rule_json_fun = "rule \<Rightarrow> nat list"

section \<open>Pinning\<close>

definition set_references_are_pinned :: "rule_set \<Rightarrow> bool" where
  "set_references_are_pinned rules =
     list_all (\<lambda>r. case r_selector r of
         VerbSel _ _ \<Rightarrow> True
       | SetSel _ _ digest \<Rightarrow> (case digest of None \<Rightarrow> False | Some d \<Rightarrow> valid_snapshot_digest d))
       (rs_rules rules)"

definition pin_selector :: "sha_fun \<Rightarrow> set_resolver_t \<Rightarrow> selector \<Rightarrow> sentence_error + selector" where
  "pin_selector sha sets sel = (case sel of
      VerbSel _ _ \<Rightarrow> Ok sel
    | SetSel provider nm digest \<Rightarrow>
        res_bind
          (ok_or (Request (SetDoesNotResolve provider nm))
            (case digest of
               Some pinned \<Rightarrow> opt_filter (\<lambda>s. is_for sha s provider nm pinned)
                                (snapshot sets provider nm pinned)
             | None \<Rightarrow> opt_filter (\<lambda>s. is_for sha s provider nm (ss_digest s))
                         (current_snapshot sets provider nm)))
          (\<lambda>s. Ok (SetSel provider nm (Some (ss_digest s)))))"

fun pin_rules :: "sha_fun \<Rightarrow> set_resolver_t \<Rightarrow> rule list \<Rightarrow> sentence_error + rule list" where
  "pin_rules sha sets [] = Ok []"
| "pin_rules sha sets (r # rs) =
     res_bind (pin_selector sha sets (r_selector r)) (\<lambda>sel.
     res_bind (pin_rules sha sets rs) (\<lambda>rs'. Ok (r\<lparr>r_selector := sel\<rparr> # rs')))"

definition pin_set_references :: "sha_fun \<Rightarrow> set_resolver_t \<Rightarrow> rule_set \<Rightarrow> sentence_error + rule_set" where
  "pin_set_references sha sets rules =
     (if rs_version rules \<noteq> RULE_SET_VERSION then Err (Request (UnsupportedRulesVersion (rs_version rules)))
      else res_bind (pin_rules sha sets (rs_rules rules)) (\<lambda>rs. Ok (rules\<lparr>rs_rules := rs\<rparr>)))"

section \<open>The checks\<close>

definition validate_sentence_authority :: "rule_set \<Rightarrow> subset_error + unit" where
  "validate_sentence_authority rules =
     (if \<not> ruleset_version_supported rules then Err (SubsetUnsupportedVersion (rs_version rules))
      else (case find_index (\<lambda>r. \<not> validate_rule_structure r) 0 (rs_rules rules) of
          Some rule_idx \<Rightarrow> Err (SubsetInvalidRule rule_idx)
        | None \<Rightarrow> if \<not> set_references_are_pinned rules then Err SubsetUnpinnedSet else Ok ()))"

definition covered_of :: "evaluator \<Rightarrow> rule \<Rightarrow> (string \<times> string) list" where
  "covered_of ev r = (case r_selector r of
      VerbSel provider action \<Rightarrow> [(provider, action)]
    | SetSel provider _ _ \<Rightarrow> (case set_members ev (r_selector r) of
          None \<Rightarrow> []
        | Some members \<Rightarrow> map (Pair provider) members))"

definition covered_actions :: "evaluator \<Rightarrow> rule_set \<Rightarrow> subset_error + (string \<times> string) list" where
  "covered_actions ev rules =
     res_bind (validate_sentence_authority rules) (\<lambda>_.
     Ok (sort_dedup (concat (map (covered_of ev) (rs_rules rules)))))"

definition validate_temporal_clauses :: "rule_set \<Rightarrow> bool \<Rightarrow> sentence_error + unit" where
  "validate_temporal_clauses rules enabled =
     (if enabled then Ok ()
      else (case find_index (\<lambda>r. r_aggregate r \<noteq> None) 0 (rs_rules rules) of
          Some rule_idx \<Rightarrow> Err (Request (TemporalDisabled (human_rule_number rule_idx)))
        | None \<Rightarrow> Ok ()))"

definition aggregate_budget_field :: "rule \<Rightarrow> string option" where
  "aggregate_budget_field r = (case map_option ag_kind (r_aggregate r) of
      Some (Budget (Some field)) \<Rightarrow> Some field
    | _ \<Rightarrow> None)"

definition reference_selector_members ::
    "sha_fun \<Rightarrow> set_resolver_t \<Rightarrow> selector \<Rightarrow> (string \<times> string) list option" where
  "reference_selector_members sha sets sel = (case sel of
      VerbSel provider action \<Rightarrow> Some [(provider, action)]
    | SetSel provider nm digest \<Rightarrow>
        Option.bind digest (\<lambda>d.
        if \<not> valid_snapshot_digest d then None
        else map_option (\<lambda>s. sort_dedup (map (Pair provider) (ss_members s)))
               (opt_filter (\<lambda>s. is_for sha s provider nm d) (snapshot sets provider nm d))))"

definition selector_members ::
    "sha_fun \<Rightarrow> set_resolver_t \<Rightarrow> selector \<Rightarrow> (string \<times> string) list option" where
  "selector_members sha sets sel = reference_selector_members sha sets sel"

definition constrained_fields :: "rule \<Rightarrow> string list" where
  "constrained_fields r = map pred_field (r_conjuncts r) @
     (case aggregate_budget_field r of None \<Rightarrow> [] | Some f \<Rightarrow> [f])"

definition is_secret_in :: "contract_resolver \<Rightarrow> (string \<times> string) list \<Rightarrow> string \<Rightarrow> bool" where
  "is_secret_in contracts members field =
     list_ex (\<lambda>(p, a). Option.bind (lookup_contract contracts p a) (\<lambda>c. field_class c field)
                        = Some Secret) members"

fun reject_secret_loop :: "sha_fun \<Rightarrow> set_resolver_t \<Rightarrow> contract_resolver \<Rightarrow> rule list
    \<Rightarrow> sentence_error + unit" where
  "reject_secret_loop sha sets contracts [] = Ok ()"
| "reject_secret_loop sha sets contracts (r # rs) =
     (case selector_members sha sets (r_selector r) of
        None \<Rightarrow> Err (Request SelectorUnresolved)
      | Some members \<Rightarrow>
          (case find (is_secret_in contracts members) (constrained_fields r) of
             Some field \<Rightarrow> Err (Request (SecretConstrained field))
           | None \<Rightarrow> reject_secret_loop sha sets contracts rs))"

definition reject_secret_conjuncts ::
    "sha_fun \<Rightarrow> set_resolver_t \<Rightarrow> contract_resolver \<Rightarrow> rule_set \<Rightarrow> sentence_error + unit" where
  "reject_secret_conjuncts sha sets contracts rules =
     reject_secret_loop sha sets contracts (rs_rules rules)"

text \<open>References: the contract a selector names, and the fields a rule constrains.\<close>

definition exact_contract :: "contract_resolver \<Rightarrow> string \<Rightarrow> string \<Rightarrow> action_contract option" where
  "exact_contract contracts p a =
     opt_filter (\<lambda>c. ac_provider c = p \<and> ac_action c = a) (lookup_contract contracts p a)"

definition declared_somewhere :: "contract_resolver \<Rightarrow> (string \<times> string) list \<Rightarrow> string \<Rightarrow> bool" where
  "declared_somewhere contracts members field =
     list_ex (\<lambda>(p, a). case lookup_contract contracts p a of
         None \<Rightarrow> False | Some c \<Rightarrow> ac_open c \<or> has_schema_field c field) members"

definition validate_rule_references ::
    "sha_fun \<Rightarrow> set_resolver_t \<Rightarrow> contract_resolver \<Rightarrow> nat \<Rightarrow> rule \<Rightarrow> reference_error + unit" where
  "validate_rule_references sha sets contracts rule_idx r = (case r_selector r of
      VerbSel provider action \<Rightarrow>
        (case exact_contract contracts provider action of
           None \<Rightarrow> Err (UnresolvedVerb rule_idx provider action)
         | Some c \<Rightarrow>
             (case find (\<lambda>field. \<not> ac_open c \<and> \<not> has_schema_field c field) (constrained_fields r) of
                Some field \<Rightarrow> Err (UnresolvedField rule_idx field)
              | None \<Rightarrow> Ok ()))
    | SetSel provider nm _ \<Rightarrow>
        (case reference_selector_members sha sets (r_selector r) of
           None \<Rightarrow> Err (UnresolvedSet rule_idx provider nm)
         | Some members \<Rightarrow>
             (case find (\<lambda>(p, a). exact_contract contracts p a = None) members of
                Some (p, a) \<Rightarrow> Err (UnresolvedSetMember rule_idx p a)
              | None \<Rightarrow>
                  (case find (\<lambda>field. \<not> declared_somewhere contracts members field)
                          (constrained_fields r) of
                     Some field \<Rightarrow> Err (UnresolvedField rule_idx field)
                   | None \<Rightarrow> Ok ()))))"

fun validate_references_loop :: "sha_fun \<Rightarrow> set_resolver_t \<Rightarrow> contract_resolver \<Rightarrow> nat \<Rightarrow> rule list
    \<Rightarrow> reference_error + unit" where
  "validate_references_loop sha sets contracts rule_idx [] = Ok ()"
| "validate_references_loop sha sets contracts rule_idx (r # rs) =
     res_bind (validate_rule_references sha sets contracts rule_idx r) (\<lambda>_.
     validate_references_loop sha sets contracts (Suc rule_idx) rs)"

definition validate_references ::
    "sha_fun \<Rightarrow> set_resolver_t \<Rightarrow> contract_resolver \<Rightarrow> rule_set \<Rightarrow> reference_error + unit" where
  "validate_references sha sets contracts rules =
     validate_references_loop sha sets contracts 0 (rs_rules rules)"

text \<open>The ledger identity of a rule, and the shadowing of a metered rule by an earlier allow.\<close>

definition aggregate_id :: "sha_fun \<Rightarrow> rule_json_fun \<Rightarrow> rule \<Rightarrow> string" where
  "aggregate_id sha rule_json r =
     (let canonical = rule_json r in
      hex (sha (utf8 ''cermet-aggregate-v1'' @ [0] @ le_bytes 8 (length canonical) @ canonical)))"

definition shadows :: "sha_fun \<Rightarrow> rule_json_fun \<Rightarrow> set_resolver_t \<Rightarrow> (string \<times> string) list \<Rightarrow> rule \<Rightarrow> rule
    \<Rightarrow> (string \<times> string) option" where
  "shadows sha rj sets members_b budgeted earlier =
     (if r_effect earlier \<noteq> Allow then None
      else if aggregate_id sha rj earlier = aggregate_id sha rj budgeted then None
      else Option.bind (reference_selector_members sha sets (r_selector earlier)) (\<lambda>members_p.
           find (\<lambda>m. m \<in> set members_b) members_p))"

fun shadow_inner :: "sha_fun \<Rightarrow> rule_json_fun \<Rightarrow> set_resolver_t \<Rightarrow> (string \<times> string) list \<Rightarrow> nat \<Rightarrow> rule
    \<Rightarrow> nat \<Rightarrow> rule list \<Rightarrow> shadow_error + unit" where
  "shadow_inner sha rj sets members_b aggregate_idx budgeted plain_idx [] = Ok ()"
| "shadow_inner sha rj sets members_b aggregate_idx budgeted plain_idx (earlier # rest) =
     (case shadows sha rj sets members_b budgeted earlier of
        Some (provider, action) \<Rightarrow>
          Err \<lparr>sh_plain_idx = plain_idx, sh_aggregate_idx = aggregate_idx, sh_provider = provider,
               sh_action = action, sh_earlier_meters_differently = (r_aggregate earlier \<noteq> None)\<rparr>
      | None \<Rightarrow> shadow_inner sha rj sets members_b aggregate_idx budgeted (Suc plain_idx) rest)"

text \<open>The outer loop; \<open>before\<close> are the rules already passed, which the inner loop takes.\<close>

fun shadow_loop :: "sha_fun \<Rightarrow> rule_json_fun \<Rightarrow> set_resolver_t \<Rightarrow> rule list \<Rightarrow> rule list
    \<Rightarrow> shadow_error + unit" where
  "shadow_loop sha rj sets before [] = Ok ()"
| "shadow_loop sha rj sets before (budgeted # rest) =
     res_bind
       (if r_effect budgeted \<noteq> Allow \<or> r_aggregate budgeted = None then Ok ()
        else (case reference_selector_members sha sets (r_selector budgeted) of
            None \<Rightarrow> Ok ()
          | Some members_b \<Rightarrow> shadow_inner sha rj sets members_b (length before) budgeted 0 before))
       (\<lambda>_. shadow_loop sha rj sets (before @ [budgeted]) rest)"

definition validate_aggregate_shadowing ::
    "sha_fun \<Rightarrow> rule_json_fun \<Rightarrow> set_resolver_t \<Rightarrow> rule_set \<Rightarrow> shadow_error + unit" where
  "validate_aggregate_shadowing sha rj sets rules = shadow_loop sha rj sets [] (rs_rules rules)"

text \<open>Money actions.\<close>

definition money_actions :: "sha_fun \<Rightarrow> set_resolver_t \<Rightarrow> selector \<Rightarrow> (string \<times> string) list" where
  "money_actions sha sets sel = (case sel of
      VerbSel provider action \<Rightarrow> [(provider, action)]
    | SetSel provider nm (Some digest) \<Rightarrow>
        (case opt_filter (\<lambda>s. is_for sha s provider nm digest) (snapshot sets provider nm digest) of
           None \<Rightarrow> []
         | Some s \<Rightarrow> map (Pair provider) (ss_members s))
    | SetSel _ _ None \<Rightarrow> [])"

definition money_field_exact :: "pred list \<Rightarrow> string \<Rightarrow> bool" where
  "money_field_exact conjuncts field =
     (case filter (\<lambda>p. pred_field p = field) conjuncts of
        [PEq _ _] \<Rightarrow> True
      | _ \<Rightarrow> False)"

fun money_actions_loop :: "evaluator \<Rightarrow> nat \<Rightarrow> rule \<Rightarrow> (string \<times> string) list \<Rightarrow> sentence_error + unit" where
  "money_actions_loop ev rule_idx r [] = Ok ()"
| "money_actions_loop ev rule_idx r ((provider, action) # rest) =
     (if \<not> action_is_money (ev_contracts ev) provider action then money_actions_loop ev rule_idx r rest
      else (case project_rule ev r provider action of
          None \<Rightarrow> Err (Request (MoneyNotProjectable (human_rule_number rule_idx) provider action))
        | Some projected \<Rightarrow>
            (case find (\<lambda>field. \<not> money_field_exact (r_conjuncts (pr_rule projected)) field)
                    [''account'', ''mode'', ''currency''] of
               Some field \<Rightarrow>
                 Err (Request (MoneyConjunct (human_rule_number rule_idx) provider action field))
             | None \<Rightarrow> money_actions_loop ev rule_idx r rest)))"

fun money_loop :: "evaluator \<Rightarrow> nat \<Rightarrow> rule list \<Rightarrow> sentence_error + unit" where
  "money_loop ev rule_idx [] = Ok ()"
| "money_loop ev rule_idx (r # rs) =
     res_bind (if r_effect r \<noteq> Allow then Ok ()
               else money_actions_loop ev rule_idx r
                      (money_actions (ev_sha ev) (ev_sets ev) (r_selector r)))
       (\<lambda>_. money_loop ev (Suc rule_idx) rs)"

definition validate_money_authority :: "evaluator \<Rightarrow> rule_set \<Rightarrow> sentence_error + unit" where
  "validate_money_authority ev rules = money_loop ev 0 (rs_rules rules)"

section \<open>Preparation\<close>

record prepared_set_snapshot =
  ps_rule_index :: nat
  ps_provider :: string
  ps_set :: string
  ps_digest :: string
  ps_members :: "string list"

record prepared_corpus =
  pc_canonical_digest :: string
  pc_canonical_text :: string
  pc_rule_count :: nat
  pc_set_snapshots :: "prepared_set_snapshot list"

fun collect_snapshots :: "sha_fun \<Rightarrow> set_resolver_t \<Rightarrow> nat \<Rightarrow> rule list
    \<Rightarrow> sentence_error + prepared_set_snapshot list" where
  "collect_snapshots sha sets rule_index [] = Ok []"
| "collect_snapshots sha sets rule_index (r # rs) = (case r_selector r of
      SetSel provider nm (Some digest) \<Rightarrow>
        res_bind (ok_or (Request (SnapshotGone provider nm))
                   (opt_filter (\<lambda>s. is_for sha s provider nm digest) (snapshot sets provider nm digest)))
          (\<lambda>s.
        res_bind (collect_snapshots sha sets (Suc rule_index) rs) (\<lambda>rest.
        Ok (\<lparr>ps_rule_index = rule_index, ps_provider = provider, ps_set = nm, ps_digest = digest,
             ps_members = ss_members s\<rparr> # rest)))
    | _ \<Rightarrow> collect_snapshots sha sets (Suc rule_index) rs)"

definition prepare_sentence_authority ::
    "rule_json_fun \<Rightarrow> evaluator \<Rightarrow> string \<Rightarrow> bool \<Rightarrow> sentence_error + prepared_corpus" where
  "prepare_sentence_authority rj ev candidate_text temporal_clauses =
     (let sha = ev_sha ev; sets = ev_sets ev; contracts = ev_contracts ev in
      res_bind (parse_rules candidate_text) (\<lambda>rules.
      res_bind (validate_temporal_clauses rules temporal_clauses) (\<lambda>_.
      res_bind (pin_set_references sha sets rules) (\<lambda>rules.
      res_bind (map_sum (Request \<circ> SubsetInvalid) id (validate_sentence_authority rules)) (\<lambda>_.
      res_bind (reject_secret_conjuncts sha sets contracts rules) (\<lambda>_.
      res_bind (map_sum (Request \<circ> UnresolvedReference) id
                  (validate_references sha sets contracts rules)) (\<lambda>_.
      res_bind (map_sum (Request \<circ> ShadowsAggregate) id
                  (validate_aggregate_shadowing sha rj sets rules)) (\<lambda>_.
      res_bind (validate_money_authority ev rules) (\<lambda>_.
      res_bind (collect_snapshots sha sets 0 (rs_rules rules)) (\<lambda>set_snapshots.
      Ok \<lparr>pc_canonical_digest = authority_digest_for sha (rs_version rules) (canonical_rule_bytes rules),
          pc_canonical_text = canonical_rule_text rules,
          pc_rule_count = length (rs_rules rules),
          pc_set_snapshots = set_snapshots\<rparr>))))))))))"

section \<open>Product availability\<close>

datatype product_availability_t = Enabled | ProviderDisabled

definition PRODUCT_ENABLED_PROVIDERS :: "string list" where
  "PRODUCT_ENABLED_PROVIDERS = [''github'', ''stripe'', ''vercel'']"

definition product_availability :: "string \<Rightarrow> string \<Rightarrow> product_availability_t" where
  "product_availability provider action =
     (if provider \<in> set PRODUCT_ENABLED_PROVIDERS then Enabled else ProviderDisabled)"

definition validate_product_availability :: "rule_set \<Rightarrow> product_availability_t" where
  "validate_product_availability rules =
     (if list_ex (\<lambda>r. (case r_selector r of
            VerbSel provider action \<Rightarrow> product_availability provider action
          | SetSel provider nm _ \<Rightarrow> product_availability provider nm) = ProviderDisabled)
         (rs_rules rules)
      then ProviderDisabled else Enabled)"

section \<open>What each check establishes\<close>

lemma resolve_set_members:
  "resolve_set ev p nm d = Some s \<longleftrightarrow>
     (\<exists>dg. d = Some dg \<and> valid_snapshot_digest dg \<and> snapshot (ev_sets ev) p nm dg = Some s \<and>
           is_for (ev_sha ev) s p nm dg)"
  by (auto simp: resolve_set_def split: option.splits)

lemma covers_members:
  "covers ev r p a \<longleftrightarrow>
     (\<exists>ms. reference_selector_members (ev_sha ev) (ev_sets ev) (r_selector r) = Some ms \<and> (p, a) \<in> set ms)"
proof (cases "r_selector r")
  case (VerbSel x y)
  then show ?thesis by (auto simp: covers_def reference_selector_members_def)
next
  case (SetSel x nm d)
  have "reference_selector_members (ev_sha ev) (ev_sets ev) (SetSel x nm d) =
      map_option (\<lambda>s. sort_dedup (map (Pair x) (ss_members s))) (resolve_set ev x nm d)"
    by (auto simp: reference_selector_members_def resolve_set_def split: option.splits)
  then show ?thesis using SetSel by (auto simp: covers_def split: option.splits)
qed

lemma find_None_iff_all: "find P xs = None \<longleftrightarrow> (\<forall>x \<in> set xs. \<not> P x)"
  by (auto simp: find_None_iff)

lemma reject_secret_loop_Ok:
  "reject_secret_loop sha sets contracts rs = Ok () \<Longrightarrow> r \<in> set rs \<Longrightarrow>
     \<exists>ms. selector_members sha sets (r_selector r) = Some ms \<and>
          (\<forall>f \<in> set (constrained_fields r). \<not> is_secret_in contracts ms f)"
  by (induction rs) (auto simp: find_None_iff_all split: option.splits)

lemma no_secret_constrained:
  assumes "reject_secret_conjuncts (ev_sha ev) (ev_sets ev) (ev_contracts ev) rules = Ok ()"
    and "r \<in> set (rs_rules rules)" "covers ev r p a" "f \<in> set (constrained_fields r)"
    and "lookup_contract (ev_contracts ev) p a = Some c"
  shows "field_class c f \<noteq> Some Secret"
proof -
  from reject_secret_loop_Ok[OF assms(1)[unfolded reject_secret_conjuncts_def] assms(2)] obtain ms where
    ms: "selector_members (ev_sha ev) (ev_sets ev) (r_selector r) = Some ms"
    and ns: "\<forall>f \<in> set (constrained_fields r). \<not> is_secret_in (ev_contracts ev) ms f" by blast
  have "(p, a) \<in> set ms" using assms(3) ms by (auto simp: covers_members selector_members_def)
  with ns assms(4,5) show ?thesis by (fastforce simp: is_secret_in_def list_ex_iff)
qed

lemma validate_references_loop_Ok:
  "validate_references_loop sha sets contracts i rs = Ok () \<Longrightarrow> r \<in> set rs \<Longrightarrow>
     \<exists>j. validate_rule_references sha sets contracts j r = Ok ()"
  by (induction rs arbitrary: i) (auto simp: res_bind_eq_Ok)

lemma exact_contract_resolves:
  "exact_contract (ev_contracts ev) p a = Some c \<Longrightarrow> resolve_contract ev p a = Some c"
  by (auto simp: exact_contract_def resolve_contract_def)

lemma project_conjuncts_total:
  "\<forall>p \<in> set ps. exists_in_set ev sel ms (pred_field p) \<Longrightarrow>
     \<exists>x. project_conjuncts ev sel ms c idx ps = Some x"
proof (induction ps arbitrary: idx)
  case (Cons p ps)
  then obtain cs ks where "project_conjuncts ev sel ms c (Suc idx) ps = Some (cs, ks)"
    by (metis list.set_intros(2) surj_pair)
  then show ?case using Cons.prems by simp
qed simp

lemma declared_exists_in_set:
  assumes "declared_somewhere (ev_contracts ev) ms f" "set ms = Pair sel ` set acts"
    and "\<forall>(p, a) \<in> set ms. exact_contract (ev_contracts ev) p a \<noteq> None"
  shows "exists_in_set ev sel acts f"
proof -
  from assms(1,2) obtain a c where a: "a \<in> set acts" "lookup_contract (ev_contracts ev) sel a = Some c"
    and decl: "ac_open c \<or> has_schema_field c f"
    by (auto simp: declared_somewhere_def list_ex_iff split: option.splits)
  have "exact_contract (ev_contracts ev) sel a \<noteq> None" using assms(2,3) a(1) by blast
  then have "exact_contract (ev_contracts ev) sel a = Some c"
    using a(2) by (auto simp: exact_contract_def split: if_splits)
  then have "resolve_contract ev sel a = Some c" by (rule exact_contract_resolves)
  with a(1) decl show ?thesis
    by (auto simp: exists_in_set_def list_ex_iff declares_def has_schema_field_def intro!: bexI[of _ a])
qed

text \<open>A rule whose references resolve has a contract for, and projects onto, each action it covers.\<close>

lemma referenced_rule_applies:
  assumes ok: "validate_rule_references (ev_sha ev) (ev_sets ev) (ev_contracts ev) i r = Ok ()"
    and cov: "covers ev r p a"
  shows "\<exists>c pr. resolve_contract ev p a = Some c \<and> ac_provider c = p \<and> ac_action c = a \<and>
                project_rule ev r p a = Some pr"
proof (cases "r_selector r")
  case (VerbSel x y)
  with cov have "x = p" "y = a" by (auto simp: covers_def)
  with ok VerbSel obtain c where c: "exact_contract (ev_contracts ev) p a = Some c"
    by (auto simp: validate_rule_references_def split: option.splits)
  moreover from this have "ac_provider c = p \<and> ac_action c = a" by (auto simp: exact_contract_def)
  moreover have "\<exists>pr. project_rule ev r p a = Some pr" using VerbSel cov by (simp add: project_rule_def)
  ultimately show ?thesis using exact_contract_resolves by blast
next
  case (SetSel sel nm d)
  with cov obtain s where s: "resolve_set ev sel nm d = Some s" and p: "sel = p" and a: "a \<in> set (ss_members s)"
    by (auto simp: covers_def split: option.splits)
  have ms: "reference_selector_members (ev_sha ev) (ev_sets ev) (r_selector r)
      = Some (sort_dedup (map (Pair sel) (ss_members s)))"
    using s SetSel by (auto simp: reference_selector_members_def resolve_set_members)
  let ?ms = "sort_dedup (map (Pair sel) (ss_members s))"
  from ok ms SetSel have ex: "\<forall>(p, a) \<in> set ?ms. exact_contract (ev_contracts ev) p a \<noteq> None"
    and decl: "\<forall>f \<in> set (constrained_fields r). declared_somewhere (ev_contracts ev) ?ms f"
    by (auto simp: validate_rule_references_def find_None_iff_all split: option.splits)
  obtain c where c: "exact_contract (ev_contracts ev) p a = Some c" using ex a p by auto
  have "\<forall>q \<in> set (r_conjuncts r). exists_in_set ev sel (ss_members s) (pred_field q)"
    using decl ex by (auto simp: constrained_fields_def intro!: declared_exists_in_set[of ev ?ms])
  then obtain x where "project_conjuncts ev sel (ss_members s) c 0 (r_conjuncts r) = Some x"
    using project_conjuncts_total by blast
  then have "\<exists>pr. project_rule ev r p a = Some pr"
    using cov SetSel s exact_contract_resolves[OF c] by (simp add: project_rule_def)
  moreover have "ac_provider c = p \<and> ac_action c = a" using c by (auto simp: exact_contract_def)
  ultimately show ?thesis using exact_contract_resolves[OF c] by blast
qed

lemma references_apply:
  assumes "validate_references (ev_sha ev) (ev_sets ev) (ev_contracts ev) rules = Ok ()"
    and "r \<in> set (rs_rules rules)" "covers ev r p a"
  shows "\<exists>c pr. resolve_contract ev p a = Some c \<and> ac_provider c = p \<and> ac_action c = a \<and>
                project_rule ev r p a = Some pr"
  using validate_references_loop_Ok[OF assms(1)[unfolded validate_references_def] assms(2)]
    referenced_rule_applies assms(3) by blast

subsection \<open>Shadowing\<close>

lemma shadow_inner_Ok:
  "shadow_inner sha rj sets mb j b i es = Ok () \<Longrightarrow> e \<in> set es \<Longrightarrow> shadows sha rj sets mb b e = None"
  by (induction es arbitrary: i) (auto split: option.splits)

lemma shadow_loop_Ok:
  assumes "shadow_loop sha rj sets before rs = Ok ()" "j < length rs"
    and "r_effect (rs ! j) = Allow" "r_aggregate (rs ! j) \<noteq> None"
    and "reference_selector_members sha sets (r_selector (rs ! j)) = Some mb"
    and "e \<in> set (before @ take j rs)"
  shows "shadows sha rj sets mb (rs ! j) e = None"
  using assms
proof (induction rs arbitrary: before j)
  case (Cons r rs)
  show ?case
  proof (cases j)
    case 0
    with Cons.prems have "shadow_inner sha rj sets mb (length before) r 0 before = Ok ()"
      by (auto simp: res_bind_eq_Ok)
    with shadow_inner_Ok Cons.prems(6) 0 show ?thesis by fastforce
  next
    case (Suc k)
    with Cons.prems have "shadow_loop sha rj sets (before @ [r]) rs = Ok ()"
      by (auto simp: res_bind_eq_Ok)
    from Cons.IH[OF this, of k] Cons.prems Suc show ?thesis by auto
  qed
qed simp

lemma rule_matches_covers: "rule_matches ev p a res r \<Longrightarrow> covers ev r p a"
  by (auto simp: rule_matches_def dest: project_rule_covers split: option.splits)

lemma shadow_free_counter:
  assumes ok: "validate_aggregate_shadowing (ev_sha ev) rj (ev_sets ev) rules = Ok ()"
    and dec: "evaluate ev rules p a res = DAllow i"
    and j: "j < length (rs_rules rules)" "r_effect (rs_rules rules ! j) = Allow"
      "r_aggregate (rs_rules rules ! j) \<noteq> None" "rule_matches ev p a res (rs_rules rules ! j)"
  shows "i \<le> j \<and> aggregate_id (ev_sha ev) rj (rs_rules rules ! i) = aggregate_id (ev_sha ev) rj (rs_rules rules ! j)"
proof -
  let ?r = "\<lambda>k. rs_rules rules ! k"
  obtain c where "loop_winner ev c p a res (rs_rules rules) = Some i"
    using dec by (auto simp: evaluate_DAllow_winner)
  then have i: "rule_admits ev p a res (?r i)" "\<forall>k < i. \<not> rule_admits ev p a res (?r k)"
    unfolding decision.run_spec by blast+
  then have le: "i \<le> j" using j by (meson not_le)
  show ?thesis
  proof (cases "i = j")
    case False
    with le have lt: "i < j" by simp
    obtain mb where mb: "reference_selector_members (ev_sha ev) (ev_sets ev) (r_selector (?r j)) = Some mb"
      "(p, a) \<in> set mb" using rule_matches_covers[OF j(4)] unfolding covers_members by blast
    obtain mp where mp: "reference_selector_members (ev_sha ev) (ev_sets ev) (r_selector (?r i)) = Some mp"
      "(p, a) \<in> set mp" using i(1) rule_matches_covers unfolding covers_members by blast
    have "?r i \<in> set ([] @ take j (rs_rules rules))"
      using lt j(1) by (auto simp: in_set_conv_nth intro!: exI[of _ i])
    from shadow_loop_Ok[OF ok[unfolded validate_aggregate_shadowing_def] j(1,2,3) mb(1) this]
    have "shadows (ev_sha ev) rj (ev_sets ev) mb (?r j) (?r i) = None" .
    moreover have "find (\<lambda>m. m \<in> set mb) mp \<noteq> None" using mb(2) mp(2) by (auto simp: find_None_iff_all)
    ultimately show ?thesis using le i(1) mp(1) by (auto simp: shadows_def split: if_splits)
  qed simp
qed

subsection \<open>Money\<close>

lemma projected_subset:
  "project_rule ev r p a = Some pr \<Longrightarrow> set (r_conjuncts (pr_rule pr)) \<subseteq> set (r_conjuncts r)"
  using project_rule_indices by (fastforce simp: in_set_conv_nth)

lemma money_field_exact_PEq: "money_field_exact ps f \<Longrightarrow> \<exists>s. PEq f s \<in> set ps"
proof -
  assume "money_field_exact ps f"
  then obtain g s where "filter (\<lambda>p. pred_field p = f) ps = [PEq g s]"
    by (auto simp: money_field_exact_def split: list.splits pred.splits)
  then have "PEq g s \<in> set (filter (\<lambda>p. pred_field p = f) ps)" by simp
  then show ?thesis by auto
qed

abbreviation money_fields :: "string list" where
  "money_fields \<equiv> [''account'', ''mode'', ''currency'']"

lemma money_actions_loop_Ok:
  "money_actions_loop ev i r acts = Ok () \<Longrightarrow> (p, a) \<in> set acts \<Longrightarrow>
     action_is_money (ev_contracts ev) p a \<Longrightarrow>
     \<exists>pr. project_rule ev r p a = Some pr \<and>
          (\<forall>f \<in> set money_fields. money_field_exact (r_conjuncts (pr_rule pr)) f)"
proof (induction ev i r acts rule: money_actions_loop.induct)
  case (2 ev i r provider action rest)
  show ?case
  proof (cases "(p, a) = (provider, action)")
    case True
    then show ?thesis using "2.prems"
      by (auto simp: find_None_iff_all simp del: find.simps split: option.splits)
  next
    case False
    then show ?thesis using 2 by (auto split: if_splits option.splits)
  qed
qed simp

lemma money_loop_Ok:
  "money_loop ev i rs = Ok () \<Longrightarrow> r \<in> set rs \<Longrightarrow> r_effect r = Allow \<Longrightarrow>
     \<exists>j. money_actions_loop ev j r (money_actions (ev_sha ev) (ev_sets ev) (r_selector r)) = Ok ()"
  by (induction rs arbitrary: i) (auto simp: res_bind_eq_Ok)

lemma covers_money_actions:
  "covers ev r p a \<Longrightarrow> (p, a) \<in> set (money_actions (ev_sha ev) (ev_sets ev) (r_selector r))"
  by (auto simp: covers_def money_actions_def resolve_set_members split: selector.splits option.splits)

lemma money_rule_pins:
  assumes "validate_money_authority ev rules = Ok ()" "r \<in> set (rs_rules rules)"
    and "r_effect r = Allow" "rule_matches ev p a res r"
    and "action_is_money (ev_contracts ev) p a" "f \<in> set money_fields"
  shows "\<exists>s v. PEq f s \<in> set (r_conjuncts r) \<and> scalar res f = Some v \<and> scalar_matches s v"
proof -
  have cov: "covers ev r p a" using assms(4) by (rule rule_matches_covers)
  obtain pr where pr: "project_rule ev r p a = Some pr"
    and ex: "money_field_exact (r_conjuncts (pr_rule pr)) f"
    using money_loop_Ok[OF assms(1)[unfolded validate_money_authority_def] assms(2,3)]
      money_actions_loop_Ok covers_money_actions[OF cov] assms(5,6) by blast
  obtain s where s: "PEq f s \<in> set (r_conjuncts (pr_rule pr))" using money_field_exact_PEq[OF ex] by blast
  have "conjuncts_hold (r_conjuncts (pr_rule pr)) res" using assms(4) pr by (simp add: rule_matches_def)
  with s have "\<exists>v. scalar res f = Some v \<and> scalar_matches s v"
    by (fastforce simp: conjuncts_hold_def list_all_iff split: option.splits)
  then show ?thesis using s projected_subset[OF pr] by blast
qed

section \<open>Preparation, decomposed\<close>

definition admissible :: "rule_json_fun \<Rightarrow> evaluator \<Rightarrow> bool \<Rightarrow> rule_set \<Rightarrow> bool" where
  "admissible rj ev temporal rules \<longleftrightarrow>
     validate_temporal_clauses rules temporal = Ok () \<and>
     pin_set_references (ev_sha ev) (ev_sets ev) rules = Ok rules \<and>
     validate_sentence_authority rules = Ok () \<and>
     reject_secret_conjuncts (ev_sha ev) (ev_sets ev) (ev_contracts ev) rules = Ok () \<and>
     validate_references (ev_sha ev) (ev_sets ev) (ev_contracts ev) rules = Ok () \<and>
     validate_aggregate_shadowing (ev_sha ev) rj (ev_sets ev) rules = Ok () \<and>
     validate_money_authority ev rules = Ok ()"

definition prepared :: "evaluator \<Rightarrow> rule_set \<Rightarrow> prepared_set_snapshot list \<Rightarrow> prepared_corpus" where
  "prepared ev rules sn =
     \<lparr>pc_canonical_digest = authority_digest (ev_sha ev) rules,
      pc_canonical_text = canonical_rule_text rules,
      pc_rule_count = length (rs_rules rules), pc_set_snapshots = sn\<rparr>"

lemma pin_selector_pinned:
  "selector_pinned sel \<Longrightarrow> pin_selector sha sets sel = Ok sel' \<Longrightarrow> sel' = sel"
  by (auto simp: pin_selector_def selector_pinned_def res_bind_eq_Ok ok_or_eq_Ok is_for_def
      split: selector.splits)

lemma pin_rules_pinned:
  "list_all (selector_pinned \<circ> r_selector) rs \<Longrightarrow> pin_rules sha sets rs = Ok rs' \<Longrightarrow> rs' = rs"
proof (induction rs arbitrary: rs')
  case (Cons r rs)
  from Cons.prems obtain sel us where "pin_selector sha sets (r_selector r) = Ok sel"
    "pin_rules sha sets rs = Ok us" "rs' = r\<lparr>r_selector := sel\<rparr> # us"
    by (auto simp: res_bind_eq_Ok)
  moreover from this Cons.prems have "sel = r_selector r" using pin_selector_pinned by auto
  ultimately show ?case using Cons by simp
qed simp

lemma pin_parsed:
  assumes "parse_rules t = Ok rules" "pin_set_references sha sets rules = Ok rules'"
  shows "rules' = rules"
proof -
  have "list_all (selector_pinned \<circ> r_selector) (rs_rules rules)"
    using parse_rules_printable[OF assms(1)] by (auto simp: list_all_iff rule_printable_def)
  with assms(2) show ?thesis
    by (auto simp: pin_set_references_def res_bind_eq_Ok dest!: pin_rules_pinned split: if_splits)
qed

lemma prepare_iff:
  "prepare_sentence_authority rj ev t temporal = Ok pc \<longleftrightarrow>
     (\<exists>rules sn. parse_rules t = Ok rules \<and> admissible rj ev temporal rules \<and>
        collect_snapshots (ev_sha ev) (ev_sets ev) 0 (rs_rules rules) = Ok sn \<and> pc = prepared ev rules sn)"
    (is "?L \<longleftrightarrow> ?R")
proof
  have map_sum_Ok: "map_sum f id x = Ok y \<longleftrightarrow> x = Ok y" for f :: "'e \<Rightarrow> sentence_error" and x :: "'e + unit" and y
    by (cases x) auto
  assume ?L
  then obtain rules rules' sn where r: "parse_rules t = Ok rules"
    and pin: "pin_set_references (ev_sha ev) (ev_sets ev) rules = Ok rules'"
    and rest: "validate_temporal_clauses rules temporal = Ok ()"
      "validate_sentence_authority rules' = Ok ()"
      "reject_secret_conjuncts (ev_sha ev) (ev_sets ev) (ev_contracts ev) rules' = Ok ()"
      "validate_references (ev_sha ev) (ev_sets ev) (ev_contracts ev) rules' = Ok ()"
      "validate_aggregate_shadowing (ev_sha ev) rj (ev_sets ev) rules' = Ok ()"
      "validate_money_authority ev rules' = Ok ()"
      "collect_snapshots (ev_sha ev) (ev_sets ev) 0 (rs_rules rules') = Ok sn"
      "pc = prepared ev rules' sn"
    by (auto simp: prepare_sentence_authority_def Let_def res_bind_eq_Ok map_sum_Ok prepared_def
        authority_digest_def)
  with pin_parsed[OF r pin] show ?R by (auto simp: admissible_def)
next
  assume ?R
  then show ?L
    by (auto simp: prepare_sentence_authority_def Let_def admissible_def prepared_def
        authority_digest_def)
qed

section \<open>Admission as an interface\<close>

text \<open>
  What the custody path relies on: admission reads a text to rules, and an admitted corpus is
  admitted again, unchanged, from its own canonical text.
\<close>

locale corpus_admission =
  fixes admit :: "string \<Rightarrow> 'rules option"
    and canonical :: "'rules \<Rightarrow> string"
    and holds :: "'rules \<Rightarrow> bool"
  assumes admit_canonical: "admit t = Some rules \<Longrightarrow> admit (canonical rules) = Some rules"
    and admit_holds: "admit t = Some rules \<Longrightarrow> holds rules"
begin

lemma canonical_determines:
  assumes "admit t = Some rules" "admit t' = Some rules'" "canonical rules = canonical rules'"
  shows "rules = rules'"
  by (metis admit_canonical assms option.inject)

lemma stored_text_holds: "admit t = Some rules \<Longrightarrow> admit (canonical rules) = Some rules' \<Longrightarrow> holds rules'"
  using admit_holds by blast

end

definition admit_corpus :: "rule_json_fun \<Rightarrow> evaluator \<Rightarrow> bool \<Rightarrow> string \<Rightarrow> rule_set option" where
  "admit_corpus rj ev temporal t =
     (case prepare_sentence_authority rj ev t temporal of
        Inl _ \<Rightarrow> None
      | Inr _ \<Rightarrow> (case parse_rules t of Inl _ \<Rightarrow> None | Inr rules \<Rightarrow> Some rules))"

lemma admit_corpus_iff:
  "admit_corpus rj ev temporal t = Some rules \<longleftrightarrow>
     parse_rules t = Ok rules \<and> admissible rj ev temporal rules \<and>
     is_ok (collect_snapshots (ev_sha ev) (ev_sets ev) 0 (rs_rules rules))"
proof -
  have "(\<exists>pc. prepare_sentence_authority rj ev t temporal = Ok pc) \<longleftrightarrow>
      (\<exists>rules. parse_rules t = Ok rules \<and> admissible rj ev temporal rules \<and>
         is_ok (collect_snapshots (ev_sha ev) (ev_sets ev) 0 (rs_rules rules)))"
    unfolding prepare_iff is_ok_iff by blast
  then show ?thesis
    by (auto simp: admit_corpus_def split: sum.splits)
qed

lemma parse_canonical_parsed: "parse_rules t = Ok rules \<Longrightarrow> parse_rules (canonical_rule_text rules) = Ok rules"
  using parse_rules_printable parse_canonical by blast

interpretation custody: corpus_admission "admit_corpus rj ev temporal" canonical_rule_text
    "admissible rj ev temporal"
  for rj ev temporal
  by unfold_locales (auto simp: admit_corpus_iff parse_canonical_parsed)

section \<open>Properties of an admitted corpus\<close>

text \<open>
  Preparation is idempotent: preparing the canonical text of a prepared corpus, against the same
  sets and contracts, succeeds with the same text, digest, rule count and set snapshots.
\<close>

theorem prepare_idempotent:
  assumes "prepare_sentence_authority rj ev t temporal = Ok pc"
  shows "prepare_sentence_authority rj ev (pc_canonical_text pc) temporal = Ok pc"
proof -
  from assms obtain rules sn where *: "parse_rules t = Ok rules" "admissible rj ev temporal rules"
    "collect_snapshots (ev_sha ev) (ev_sets ev) 0 (rs_rules rules) = Ok sn" "pc = prepared ev rules sn"
    unfolding prepare_iff by blast
  then have "parse_rules (pc_canonical_text pc) = Ok rules"
    by (simp add: prepared_def parse_canonical_parsed)
  with * show ?thesis unfolding prepare_iff by blast
qed

text \<open>
  No rule of an admitted corpus is dormant: for each action a rule covers there is a contract of
  exactly that provider and action, and the rule projects onto it, so that its conjuncts are judged.
\<close>

theorem admitted_rules_apply:
  assumes "admit_corpus rj ev temporal t = Some rules"
    and "r \<in> set (rs_rules rules)" "covers ev r p a"
  shows "\<exists>c pr. resolve_contract ev p a = Some c \<and> ac_provider c = p \<and> ac_action c = a \<and>
                project_rule ev r p a = Some pr"
  using references_apply[OF _ assms(2,3)] custody.admit_holds[OF assms(1)] by (simp add: admissible_def)

text \<open>
  C13. In an admitted corpus the cap of a budget or rate rule cannot be bypassed by an earlier allow:
  whenever a metered allow rule matches an allowed request, the rule the decision is attributed to
  drains the very same ledger counter.
\<close>

theorem metered_rule_not_bypassed:
  assumes "admit_corpus rj ev temporal t = Some rules" "evaluate ev rules p a res = DAllow i"
    and "j < length (rs_rules rules)" "r_effect (rs_rules rules ! j) = Allow"
    and "r_aggregate (rs_rules rules ! j) \<noteq> None" "rule_matches ev p a res (rs_rules rules ! j)"
  shows "aggregate_id (ev_sha ev) rj (rs_rules rules ! i) = aggregate_id (ev_sha ev) rj (rs_rules rules ! j)"
proof -
  have "validate_aggregate_shadowing (ev_sha ev) rj (ev_sets ev) rules = Ok ()"
    using custody.admit_holds[OF assms(1)] by (simp add: admissible_def)
  from shadow_free_counter[OF this assms(2-)] show ?thesis by blast
qed

text \<open>
  C12. A money action is allowed by an admitted corpus only with its account, mode and currency
  pinned: the governing rule carries an equality on each of the three, and the request's value is the
  pinned one.
\<close>

theorem money_is_pinned:
  assumes "admit_corpus rj ev temporal t = Some rules" "evaluate ev rules p a res = DAllow i"
    and "action_is_money (ev_contracts ev) p a" "f \<in> set [''account'', ''mode'', ''currency'']"
  shows "\<exists>s v. PEq f s \<in> set (r_conjuncts (rs_rules rules ! i)) \<and> scalar res f = Some v \<and>
               scalar_matches s v"
proof -
  obtain c where "loop_winner ev c p a res (rs_rules rules) = Some i"
    using assms(2) by (auto simp: evaluate_DAllow_winner)
  then have "rs_rules rules ! i \<in> set (rs_rules rules)" "rule_admits ev p a res (rs_rules rules ! i)"
    unfolding decision.run_spec by auto
  moreover have "validate_money_authority ev rules = Ok ()"
    using custody.admit_holds[OF assms(1)] by (simp add: admissible_def)
  ultimately show ?thesis using money_rule_pins assms(3,4) by blast
qed

text \<open>
  No rule of an admitted corpus constrains, or meters, a field that the contract of an action it
  covers classes as secret.
\<close>

theorem secrets_unconstrained:
  assumes "admit_corpus rj ev temporal t = Some rules" "r \<in> set (rs_rules rules)" "covers ev r p a"
    and "f \<in> set (constrained_fields r)" "lookup_contract (ev_contracts ev) p a = Some c"
  shows "field_class c f \<noteq> Some Secret"
  using no_secret_constrained[OF _ assms(2-)] custody.admit_holds[OF assms(1)]
  by (simp add: admissible_def)

definition authority_preimage :: "rule_set \<Rightarrow> nat list" where
  "authority_preimage rules =
     utf8 ''cermet.sentence.authority'' @ [0] @ be_bytes 4 (rs_version rules) @ canonical_rule_bytes rules"

text \<open>
  The authority digest identifies the corpus: if two parsed corpora have the same digest, and
  SHA-256 gives bytes and does not collide on the two texts hashed, then they are the same rules.
\<close>

theorem digest_identifies_corpus:
  assumes "parse_rules t = Ok rules" "parse_rules t' = Ok rules'"
    and "authority_digest sha rules = authority_digest sha rules'"
    and bytes: "\<forall>x. \<forall>b \<in> set (sha x). b < 256"
    and no_collision: "sha (authority_preimage rules) = sha (authority_preimage rules') \<longrightarrow>
          authority_preimage rules = authority_preimage rules'"
  shows "rules = rules'"
proof -
  have v: "rs_version rules = 1" "rs_version rules' = 1"
    using parse_rules_printable assms(1,2)
    by (auto simp: ruleset_version_supported_def RULE_SET_VERSION_def)
  have "hex (sha (authority_preimage rules)) = hex (sha (authority_preimage rules'))"
    using assms(3) by (simp add: authority_digest_def authority_digest_for_def authority_preimage_def)
  with hex_inj bytes have "sha (authority_preimage rules) = sha (authority_preimage rules')" by blast
  with no_collision have "canonical_rule_bytes rules = canonical_rule_bytes rules'"
    by (simp add: authority_preimage_def v)
  then have "canonical_rule_text rules = canonical_rule_text rules'"
    unfolding canonical_rule_bytes_def by (rule utf8_inj)
  then show ?thesis using parse_canonical_parsed assms(1,2) by (metis sum.inject(2))
qed

section \<open>A corpus with every clause\<close>

text \<open>
  The sample provider with a money action, a metered rule and its set, for the theorems above.
\<close>

definition money_contract :: action_contract where
  "money_contract =
     \<lparr>ac_provider = ''pay'', ac_action = ''send'',
      ac_schema = [sample_field ''account'' KStr Identity ExactResourcePin,
                   sample_field ''amount'' KInt SideEffect Bounded,
                   sample_field ''currency'' KStr Identity ExactResourcePin,
                   sample_field ''mode'' KStr Identity ExactResourcePin],
      ac_consumes = [], ac_execution_targets = [], ac_relations = [], ac_open = False\<rparr>"

definition money_evaluator :: evaluator where
  "money_evaluator = \<lparr>ev_sha = sample_sha, ev_sets = empty_set_resolver sample_sha,
     ev_contracts = \<lparr>lookup_contract = (\<lambda>p a. if p = ''pay'' \<and> a = ''send'' then Some money_contract else None),
                     action_is_money = (\<lambda>p a. a = ''send''),
                     present_field_is_valid = (\<lambda>p a f v. True)\<rparr>\<rparr>"

definition money_text :: string where
  "money_text = ''allow pay.send where account = '' @ quote_string ''acme'' @
     '' and mode = '' @ quote_string ''live'' @ '' and currency = '' @ quote_string ''eur'' @
     '' and amount <= 500 and budget amount 1000 per day''"

definition money_rule :: rule where
  "money_rule = \<lparr>r_effect = Allow, r_selector = VerbSel ''pay'' ''send'',
     r_conjuncts = [PEq ''account'' (SString ''acme''), PEq ''mode'' (SString ''live''),
                    PEq ''currency'' (SString ''eur''), PLte ''amount'' 500],
     r_aggregate = Some \<lparr>ag_kind = Budget (Some ''amount''), ag_limit = 1000, ag_window = Day\<rparr>\<rparr>"

definition money_resource :: canonical_resource where
  "money_resource = \<lparr>cr_fields = [(''account'', RStr ''acme''), (''amount'', RInt 40),
                                 (''currency'', RStr ''eur''), (''mode'', RStr ''live'')]\<rparr>"

definition sample_rule_json :: rule_json_fun where
  "sample_rule_json r = utf8 (print_rule r)"

lemma money_admitted:
  "admit_corpus sample_rule_json money_evaluator True money_text = Some (sample_rules [money_rule])"
  unfolding admit_corpus_iff by (intro conjI; code_simp)

lemma money_allowed:
  "evaluate money_evaluator (sample_rules [money_rule]) ''pay'' ''send'' money_resource = DAllow 0"
  by code_simp

lemma money_covers: "covers money_evaluator money_rule ''pay'' ''send''"
  by code_simp

theorem prepare_idempotent_witness:
  "\<exists>pc. prepare_sentence_authority sample_rule_json money_evaluator money_text True = Ok pc \<and>
     prepare_sentence_authority sample_rule_json money_evaluator (pc_canonical_text pc) True = Ok pc"
proof -
  obtain pc where pc: "prepare_sentence_authority sample_rule_json money_evaluator money_text True = Ok pc"
    using money_admitted by (auto simp: admit_corpus_def split: sum.splits)
  from prepare_idempotent[OF this] pc show ?thesis by blast
qed

theorem admitted_rules_apply_witness:
  "\<exists>c pr. resolve_contract money_evaluator ''pay'' ''send'' = Some c \<and> ac_provider c = ''pay'' \<and>
     ac_action c = ''send'' \<and> project_rule money_evaluator money_rule ''pay'' ''send'' = Some pr"
  using admitted_rules_apply[OF money_admitted _ money_covers] by (simp add: sample_rules_def)

theorem metered_rule_not_bypassed_witness:
  "aggregate_id sample_sha sample_rule_json (rs_rules (sample_rules [money_rule]) ! 0)
     = aggregate_id sample_sha sample_rule_json money_rule"
proof -
  have "rule_matches money_evaluator ''pay'' ''send'' money_resource money_rule" by code_simp
  then show ?thesis
    using metered_rule_not_bypassed[OF money_admitted money_allowed, of 0]
    by (simp add: sample_rules_def money_rule_def money_evaluator_def)
qed

theorem money_is_pinned_witness:
  "\<exists>s v. PEq ''currency'' s \<in> set (r_conjuncts money_rule) \<and>
     scalar money_resource ''currency'' = Some v \<and> scalar_matches s v"
proof -
  have "action_is_money (ev_contracts money_evaluator) ''pay'' ''send''" by (simp add: money_evaluator_def)
  from money_is_pinned[OF money_admitted money_allowed this, of "''currency''"] show ?thesis
    by (simp add: sample_rules_def)
qed

theorem secrets_unconstrained_witness: "field_class money_contract ''amount'' \<noteq> Some Secret"
proof (rule secrets_unconstrained[OF money_admitted _ money_covers])
  show "money_rule \<in> set (rs_rules (sample_rules [money_rule]))" by (simp add: sample_rules_def)
  show "''amount'' \<in> set (constrained_fields money_rule)" by code_simp
  show "lookup_contract (ev_contracts money_evaluator) ''pay'' ''send'' = Some money_contract"
    by (simp add: money_evaluator_def)
qed

theorem digest_identifies_corpus_witness: "sample_rules [sample_allow] = sample_rules [sample_allow]"
proof (rule digest_identifies_corpus[where sha = sample_sha and t = "print_rule sample_allow"
      and t' = "print_rule sample_allow @ ''  # same''"])
  show "parse_rules (print_rule sample_allow) = Ok (sample_rules [sample_allow])" by code_simp
  show "parse_rules (print_rule sample_allow @ ''  # same'') = Ok (sample_rules [sample_allow])"
    by code_simp
  show "\<forall>x. \<forall>b \<in> set (sample_sha x). b < 256" by (simp add: sample_sha_def)
qed simp_all

end
