(* ===== verification/Sentence_Discovery.thy ===== *)
theory Sentence_Discovery
  imports Sentence_Corpus
begin

text \<open>
  The discovery projection of \<^verbatim>\<open>crates/cermet-lang/src/sentence.rs\<close>: whether some completion of a
  request shape, or of a composition of shapes that share values, would be allowed. The values of
  each variable are cut into finitely many atoms by the constants of the rules; rules become boxes of
  atoms, deny boxes are subtracted from allow boxes, and the boxes of the shapes are intersected.

  A \<^verbatim>\<open>BTreeSet\<close> of texts or integers is its ordered list; a set of atom indices is a \<open>nat set\<close>. The
  first part follows the source; then each box operation is given its meaning on points, and atoms
  theirs on values, which gives the decision's meaning on requests.
\<close>

section \<open>Atoms\<close>

datatype symbolic_atom =
    AAbsent | AStr string | AStrOther | AIntRange int int | ABool bool | AAnyPresent

record variable_spec =
  vs_kind :: "scalar_kind option"
  vs_strings :: "string list"
  vs_integers :: "int list"

definition empty_spec :: variable_spec where
  "empty_spec = \<lparr>vs_kind = None, vs_strings = [], vs_integers = []\<rparr>"

definition constrain_kind :: "scalar_kind \<Rightarrow> variable_spec \<Rightarrow> variable_spec option" where
  "constrain_kind k spec =
     (if vs_kind spec \<noteq> None \<and> vs_kind spec \<noteq> Some k then None
      else Some (spec\<lparr>vs_kind := Some k\<rparr>))"

fun add_scalar :: "rscalar \<Rightarrow> variable_spec \<Rightarrow> variable_spec" where
  "add_scalar (RStr v) spec = spec\<lparr>vs_strings := insort_insert v (vs_strings spec)\<rparr>"
| "add_scalar (RInt v) spec = spec\<lparr>vs_integers := insort_insert v (vs_integers spec)\<rparr>"
| "add_scalar (RBool _) spec = spec"

fun add_sentence_scalar :: "sscalar \<Rightarrow> variable_spec \<Rightarrow> variable_spec" where
  "add_sentence_scalar (SString v) spec = spec\<lparr>vs_strings := insort_insert v (vs_strings spec)\<rparr>"
| "add_sentence_scalar (SInt v) spec = spec\<lparr>vs_integers := insort_insert v (vs_integers spec)\<rparr>"
| "add_sentence_scalar (SBool _) spec = spec"

fun add_predicate :: "pred \<Rightarrow> variable_spec \<Rightarrow> variable_spec" where
  "add_predicate (PEq _ v) spec = add_sentence_scalar v spec"
| "add_predicate (PLte _ v) spec = spec\<lparr>vs_integers := insort_insert v (vs_integers spec)\<rparr>"
| "add_predicate (PGte _ v) spec = spec\<lparr>vs_integers := insort_insert v (vs_integers spec)\<rparr>"
| "add_predicate (PIn _ vs) spec = fold add_sentence_scalar vs spec"

fun int_atoms :: "int \<Rightarrow> int list \<Rightarrow> symbolic_atom list" where
  "int_atoms nxt [] = [AIntRange nxt i64_max]"
| "int_atoms nxt (point # points) =
     (if nxt < point then [AIntRange nxt (point - 1)] else []) @ [AIntRange point point] @
     (case checked (point + 1) of None \<Rightarrow> [] | Some after \<Rightarrow> int_atoms after points)"

definition atoms :: "variable_spec \<Rightarrow> symbolic_atom list" where
  "atoms spec = AAbsent # (case vs_kind spec of
      Some KStr \<Rightarrow> map AStr (vs_strings spec) @ [AStrOther]
    | Some KInt \<Rightarrow> int_atoms i64_min (vs_integers spec)
    | Some KBool \<Rightarrow> [ABool False, ABool True]
    | None \<Rightarrow> [AAnyPresent])"

fun symbolic_atom_exact_json :: "symbolic_atom \<Rightarrow> json option" where
  "symbolic_atom_exact_json (AStr v) = Some (JString v)"
| "symbolic_atom_exact_json (AIntRange lo hi) = (if lo = hi then Some (JInt lo) else None)"
| "symbolic_atom_exact_json (ABool b) = Some (JBool b)"
| "symbolic_atom_exact_json _ = None"

fun atom_contains_scalar :: "symbolic_atom \<Rightarrow> rscalar \<Rightarrow> bool" where
  "atom_contains_scalar (AStr expected) (RStr actual) = (expected = actual)"
| "atom_contains_scalar AStrOther (RStr _) = True"
| "atom_contains_scalar (AIntRange lo hi) (RInt actual) = (lo \<le> actual \<and> actual \<le> hi)"
| "atom_contains_scalar (ABool expected) (RBool actual) = (expected = actual)"
| "atom_contains_scalar AAnyPresent _ = True"
| "atom_contains_scalar _ _ = False"

fun symbolic_atom_matches_pred :: "symbolic_atom \<Rightarrow> pred \<Rightarrow> bool" where
  "symbolic_atom_matches_pred (AStr actual) p = (case p of
      PEq _ v \<Rightarrow> v = SString actual
    | PIn _ vs \<Rightarrow> list_ex (\<lambda>v. v = SString actual) vs
    | _ \<Rightarrow> False)"
| "symbolic_atom_matches_pred (AIntRange actual _) p = (case p of
      PEq _ v \<Rightarrow> v = SInt actual
    | PLte _ v \<Rightarrow> actual \<le> v
    | PGte _ v \<Rightarrow> actual \<ge> v
    | PIn _ vs \<Rightarrow> list_ex (\<lambda>v. v = SInt actual) vs)"
| "symbolic_atom_matches_pred (ABool actual) p = (case p of
      PEq _ v \<Rightarrow> v = SBool actual
    | PIn _ vs \<Rightarrow> list_ex (\<lambda>v. v = SBool actual) vs
    | _ \<Rightarrow> False)"
| "symbolic_atom_matches_pred _ p = False"

section \<open>Kinds of predicates\<close>

fun sentence_scalar_kind :: "sscalar \<Rightarrow> scalar_kind option" where
  "sentence_scalar_kind (SInt _) = Some KInt"
| "sentence_scalar_kind (SString _) = Some KStr"
| "sentence_scalar_kind (SBool _) = Some KBool"

fun pred_own_kind :: "pred \<Rightarrow> scalar_kind option" where
  "pred_own_kind (PEq _ v) = sentence_scalar_kind v"
| "pred_own_kind (PLte _ _) = Some KInt"
| "pred_own_kind (PGte _ _) = Some KInt"
| "pred_own_kind (PIn _ vs) = (case vs of
      [] \<Rightarrow> None
    | v # _ \<Rightarrow> opt_filter (\<lambda>k. list_all (\<lambda>w. sentence_scalar_kind w = Some k) vs) (sentence_scalar_kind v))"

fun open_kind_loop :: "scalar_kind option \<Rightarrow> pred list \<Rightarrow> scalar_kind option" where
  "open_kind_loop kind [] = kind"
| "open_kind_loop kind (p # ps) = (case pred_own_kind p of
      None \<Rightarrow> None
    | Some current \<Rightarrow>
        if kind \<noteq> None \<and> kind \<noteq> Some current then None else open_kind_loop (Some current) ps)"

definition open_predicate_kind :: "pred list \<Rightarrow> scalar_kind option" where
  "open_predicate_kind ps = open_kind_loop None ps"

fun predicate_kind :: "pred \<Rightarrow> scalar_kind option" where
  "predicate_kind (PEq _ v) = sentence_scalar_kind v"
| "predicate_kind (PLte _ _) = Some KInt"
| "predicate_kind (PGte _ _) = Some KInt"
| "predicate_kind (PIn f vs) = (case open_predicate_kind [PIn f vs] of
      Some k \<Rightarrow> Some k
    | None \<Rightarrow> (case vs of
        [] \<Rightarrow> None
      | v # _ \<Rightarrow> opt_filter (\<lambda>k. list_all (\<lambda>w. sentence_scalar_kind w = Some k) vs) (sentence_scalar_kind v)))"

section \<open>Boxes\<close>

type_synonym symbolic_region = "nat set list"

definition intersect_symbolic_regions :: "symbolic_region \<Rightarrow> symbolic_region \<Rightarrow> symbolic_region option" where
  "intersect_symbolic_regions l r =
     (let domains = map2 (\<inter>) l r in if list_all (\<lambda>d. d \<noteq> {}) domains then Some domains else None)"

fun subtract_loop :: "symbolic_region \<Rightarrow> nat list \<Rightarrow> symbolic_region \<Rightarrow> symbolic_region list \<Rightarrow> symbolic_region list" where
  "subtract_loop deny [] core residual = residual"
| "subtract_loop deny (i # is) core residual =
     (let outside = core ! i - deny ! i;
          residual' = (if outside \<noteq> {} then residual @ [core[i := outside]] else residual);
          core' = core[i := core ! i \<inter> deny ! i] in
      if core' ! i = {} then residual' else subtract_loop deny is core' residual')"

definition subtract_symbolic_region :: "symbolic_region \<Rightarrow> symbolic_region \<Rightarrow> symbolic_region list" where
  "subtract_symbolic_region region deny = (case intersect_symbolic_regions region deny of
      None \<Rightarrow> [region]
    | Some _ \<Rightarrow> subtract_loop deny [0..<length region] region [])"

definition region_contains :: "symbolic_region \<Rightarrow> symbolic_region \<Rightarrow> bool" where
  "region_contains outer inner = list_all (\<lambda>(out, inn). inn \<subseteq> out) (zip outer inner)"

fun minimize_loop :: "symbolic_region list \<Rightarrow> symbolic_region list \<Rightarrow> symbolic_region list" where
  "minimize_loop [] minimal = minimal"
| "minimize_loop (r # rs) minimal =
     (if list_ex (\<lambda>existing. region_contains existing r) minimal then minimize_loop rs minimal
      else minimize_loop rs (filter (\<lambda>existing. \<not> region_contains r existing) minimal @ [r]))"

definition minimize_symbolic_regions :: "symbolic_region list \<Rightarrow> symbolic_region list" where
  "minimize_symbolic_regions regions = minimize_loop regions []"

fun rule_region_loop :: "symbolic_atom list list \<Rightarrow> (string \<times> nat) list \<Rightarrow> pred list \<Rightarrow> symbolic_region
    \<Rightarrow> symbolic_region option" where
  "rule_region_loop unis fvs [] region = Some region"
| "rule_region_loop unis fvs (p # ps) region = (case map_of fvs (pred_field p) of
      None \<Rightarrow> None
    | Some i \<Rightarrow>
        let d = Set.filter (\<lambda>k. symbolic_atom_matches_pred (unis ! i ! k) p) (region ! i) in
        if d = {} then None else rule_region_loop unis fvs ps (region[i := d]))"

definition symbolic_rule_region :: "symbolic_region \<Rightarrow> rule \<Rightarrow> (string \<times> nat) list
    \<Rightarrow> symbolic_atom list list \<Rightarrow> symbolic_region option" where
  "symbolic_rule_region base r fvs unis = rule_region_loop unis fvs (r_conjuncts r) base"

section \<open>Shapes\<close>

record resource_shape =
  shp_provider :: string
  shp_action :: string
  shp_known :: "(string, json) btree"
  shp_unknown :: "string list"
  shp_present :: "string list"
  shp_field_variables :: "(string, string) btree"

datatype symbolic_base = BKnown rscalar | BUnknown bool | BAbsent

record pending_shape =
  pn_provider :: string
  pn_action :: string
  pn_rules :: "rule list"
  pn_field_variables :: "(string, string) btree"
  pn_bases :: "(string \<times> symbolic_base) list"

fun project_all :: "evaluator \<Rightarrow> action_contract \<Rightarrow> string \<Rightarrow> string \<Rightarrow> rule list \<Rightarrow> rule list option" where
  "project_all ev c provider action [] = Some []"
| "project_all ev c provider action (r # rs) =
     (if \<not> selector_may_cover ev (r_selector r) provider action then project_all ev c provider action rs
      else (case project_rule ev r provider action of
          None \<Rightarrow> None
        | Some projected \<Rightarrow>
            if \<not> conjuncts_resolve (r_conjuncts (pr_rule projected)) c then None
            else map_option ((#) (pr_rule projected)) (project_all ev c provider action rs)))"

definition projected_discovery_rules :: "evaluator \<Rightarrow> rule_set \<Rightarrow> string \<Rightarrow> string
    \<Rightarrow> (action_contract \<times> rule list) option" where
  "projected_discovery_rules ev rules provider action =
     (if \<not> ruleset_version_supported rules \<or> \<not> set_references_are_pinned rules \<or>
         list_ex (\<lambda>r. \<not> validate_rule_structure r) (rs_rules rules) then None
      else (case resolve_contract ev provider action of
          None \<Rightarrow> None
        | Some c \<Rightarrow> map_option (Pair c) (project_all ev c provider action (rs_rules rules))))"

definition all_conjuncts :: "rule list \<Rightarrow> pred list" where
  "all_conjuncts rules = concat (map r_conjuncts rules)"

text \<open>The guard of the shape loop: the shape fits the contract and some rule could allow it.\<close>

definition shape_fits :: "action_contract \<Rightarrow> rule list \<Rightarrow> resource_shape \<Rightarrow> bool" where
  "shape_fits c rules shape \<longleftrightarrow>
     list_ex (\<lambda>r. r_effect r = Allow) rules \<and>
     list_all (\<lambda>(f, _). declares c f) (shp_known shape) \<and>
     list_all (declares c) (shp_unknown shape) \<and>
     list_all (\<lambda>f. f \<in> set (shp_unknown shape)) (shp_present shape) \<and>
     \<not> list_ex (\<lambda>d. fd_required d \<and> \<not> bt_has (shp_known shape) (fd_name d) \<and>
                      fd_name d \<notin> set (shp_unknown shape)) (ac_schema c)"

definition relevant_fields :: "action_contract \<Rightarrow> rule list \<Rightarrow> resource_shape \<Rightarrow> string list" where
  "relevant_fields c rules shape = sort_dedup
     (map fst (shp_known shape) @ shp_unknown shape @ map fd_name (filter fd_required (ac_schema c)) @
      map pred_field (all_conjuncts rules))"

definition field_variable :: "resource_shape \<Rightarrow> nat \<Rightarrow> string \<Rightarrow> string" where
  "field_variable shape shape_idx field = (case map_of (shp_field_variables shape) field of
      Some v \<Rightarrow> v
    | None \<Rightarrow> ''shape:'' @ nat_str shape_idx @ '':field:'' @ field)"

definition decode_known :: "action_contract \<Rightarrow> string \<Rightarrow> json \<Rightarrow> rscalar option" where
  "decode_known c field v = (case field_decl c field of
      None \<Rightarrow> if ac_open c then (case infer field v of Inr s \<Rightarrow> Some s | Inl _ \<Rightarrow> None) else None
    | Some d \<Rightarrow> (case from_json (fd_ty d) field v of Inr s \<Rightarrow> Some s | Inl _ \<Rightarrow> None))"

fun constrain_predicates :: "pred list \<Rightarrow> variable_spec \<Rightarrow> variable_spec option" where
  "constrain_predicates [] spec = Some spec"
| "constrain_predicates (p # ps) spec = (case predicate_kind p of
      None \<Rightarrow> constrain_predicates ps spec
    | Some k \<Rightarrow> Option.bind (constrain_kind k spec) (constrain_predicates ps))"

text \<open>The kind of a field: the contract's, else the known value's, else the predicates' own.\<close>

definition symbolic_kind :: "action_contract \<Rightarrow> string \<Rightarrow> rscalar option \<Rightarrow> pred list \<Rightarrow> scalar_kind option" where
  "symbolic_kind c field known preds = (case field_kind c field of
      Some k \<Rightarrow> Some k
    | None \<Rightarrow> (case known of Some v \<Rightarrow> Some (rscalar_kind v) | None \<Rightarrow> open_predicate_kind preds))"

definition extend_spec :: "scalar_kind option \<Rightarrow> rscalar option \<Rightarrow> pred list \<Rightarrow> variable_spec \<Rightarrow> variable_spec option" where
  "extend_spec kind known preds spec =
     Option.bind (case kind of None \<Rightarrow> Some spec | Some k \<Rightarrow> constrain_kind k spec) (\<lambda>spec1.
     map_option (\<lambda>spec2. fold add_predicate preds
         (case known of None \<Rightarrow> spec2 | Some v \<Rightarrow> add_scalar v spec2))
       (constrain_predicates preds spec1))"

definition symbolic_base_of :: "action_contract \<Rightarrow> resource_shape \<Rightarrow> string \<Rightarrow> rscalar option \<Rightarrow> symbolic_base" where
  "symbolic_base_of c shape field known =
     (let required = (case field_decl c field of None \<Rightarrow> False | Some d \<Rightarrow> fd_required d) in
      case known of
        Some v \<Rightarrow> BKnown v
      | None \<Rightarrow> if field \<in> set (shp_unknown shape)
                then BUnknown (\<not> required \<and> field \<notin> set (shp_present shape)) else BAbsent)"

type_synonym specs = "(string, variable_spec) btree"

definition field_step :: "action_contract \<Rightarrow> rule list \<Rightarrow> resource_shape \<Rightarrow> nat \<Rightarrow> string \<Rightarrow> specs
    \<Rightarrow> (specs \<times> string \<times> symbolic_base) option" where
  "field_step c rules shape shape_idx field specs =
     (let variable = field_variable shape shape_idx field;
          preds = filter (\<lambda>p. pred_field p = field) (all_conjuncts rules);
          known = Option.bind (map_of (shp_known shape) field) (decode_known c field);
          kind = symbolic_kind c field known preds in
      if bt_has (shp_known shape) field \<and> known = None then None
      else if preds \<noteq> [] \<and> kind = None then None
      else map_option (\<lambda>spec. (bt_insert variable spec specs, variable,
                                symbolic_base_of c shape field known))
             (extend_spec kind known preds
                (case map_of specs variable of None \<Rightarrow> empty_spec | Some spec \<Rightarrow> spec)))"

fun fields_loop :: "action_contract \<Rightarrow> rule list \<Rightarrow> resource_shape \<Rightarrow> nat \<Rightarrow> string list \<Rightarrow> specs
    \<Rightarrow> (specs \<times> (string, string) btree \<times> (string \<times> symbolic_base) list) option" where
  "fields_loop c rules shape shape_idx [] specs = Some (specs, [], [])"
| "fields_loop c rules shape shape_idx (field # rest) specs =
     (case field_step c rules shape shape_idx field specs of
        None \<Rightarrow> None
      | Some (specs', variable, base) \<Rightarrow>
          map_option (\<lambda>(specs'', fvs, bases). (specs'', (field, variable) # fvs, (variable, base) # bases))
            (fields_loop c rules shape shape_idx rest specs'))"

fun shapes_loop :: "evaluator \<Rightarrow> rule_set \<Rightarrow> nat \<Rightarrow> resource_shape list \<Rightarrow> specs
    \<Rightarrow> (specs \<times> pending_shape list) option" where
  "shapes_loop ev rules shape_idx [] specs = Some (specs, [])"
| "shapes_loop ev rules shape_idx (shape # shapes) specs =
     (case projected_discovery_rules ev rules (shp_provider shape) (shp_action shape) of
        None \<Rightarrow> None
      | Some (c, projected_rules) \<Rightarrow>
          if \<not> shape_fits c projected_rules shape then None
          else (case fields_loop c projected_rules shape shape_idx
                       (relevant_fields c projected_rules shape) specs of
              None \<Rightarrow> None
            | Some (specs', fvs, bases) \<Rightarrow>
                map_option (\<lambda>(specs'', pending).
                    (specs'', \<lparr>pn_provider = shp_provider shape, pn_action = shp_action shape,
                               pn_rules = projected_rules, pn_field_variables = fvs,
                               pn_bases = bases\<rparr> # pending))
                  (shapes_loop ev rules (Suc shape_idx) shapes specs')))"

section \<open>The base box\<close>

definition variable_index :: "specs \<Rightarrow> string \<Rightarrow> nat option" where
  "variable_index specs v = find_index (\<lambda>e. fst e = v) 0 specs"

fun prune_fields :: "evaluator \<Rightarrow> specs \<Rightarrow> symbolic_atom list list \<Rightarrow> resource_shape
    \<Rightarrow> (string \<times> string) list \<Rightarrow> symbolic_region \<Rightarrow> symbolic_region option" where
  "prune_fields ev specs unis shape [] base = Some base"
| "prune_fields ev specs unis shape ((field, variable) # rest) base =
     (case variable_index specs variable of
        None \<Rightarrow> None
      | Some i \<Rightarrow>
          if field \<in> set (shp_unknown shape) then prune_fields ev specs unis shape rest base
          else let d = Set.filter (\<lambda>k. case symbolic_atom_exact_json (unis ! i ! k) of
                   None \<Rightarrow> True
                 | Some v \<Rightarrow> present_field_is_valid (ev_contracts ev) (shp_provider shape)
                               (shp_action shape) field v) (base ! i) in
               if d = {} then None else prune_fields ev specs unis shape rest (base[i := d]))"

definition position_atom :: "(symbolic_atom \<Rightarrow> bool) \<Rightarrow> symbolic_atom list \<Rightarrow> nat set" where
  "position_atom P universe = (case find_index P 0 universe of None \<Rightarrow> {} | Some k \<Rightarrow> {k})"

definition base_atoms :: "symbolic_atom list \<Rightarrow> symbolic_base \<Rightarrow> nat set" where
  "base_atoms universe base = (case base of
      BKnown v \<Rightarrow> position_atom (\<lambda>atom. atom_contains_scalar atom v) universe
    | BUnknown may_be_absent \<Rightarrow>
        set (filter (\<lambda>k. may_be_absent \<or> universe ! k \<noteq> AAbsent) [0..<length universe])
    | BAbsent \<Rightarrow> position_atom (\<lambda>atom. atom = AAbsent) universe)"

fun apply_bases :: "specs \<Rightarrow> symbolic_atom list list \<Rightarrow> (string \<times> symbolic_base) list \<Rightarrow> symbolic_region
    \<Rightarrow> symbolic_region option" where
  "apply_bases specs unis [] base = Some base"
| "apply_bases specs unis ((variable, fb) # rest) base = (case variable_index specs variable of
      None \<Rightarrow> None
    | Some i \<Rightarrow>
        let d = base ! i \<inter> base_atoms (unis ! i) fb in
        if d = {} then None else apply_bases specs unis rest (base[i := d]))"

fun base_loop :: "evaluator \<Rightarrow> specs \<Rightarrow> symbolic_atom list list \<Rightarrow> (pending_shape \<times> resource_shape) list
    \<Rightarrow> symbolic_region \<Rightarrow> symbolic_region option" where
  "base_loop ev specs unis [] base = Some base"
| "base_loop ev specs unis ((pn, shape) # rest) base =
     Option.bind (prune_fields ev specs unis shape (pn_field_variables pn) base) (\<lambda>base1.
     Option.bind (apply_bases specs unis (pn_bases pn) base1) (\<lambda>base2.
     base_loop ev specs unis rest base2))"

section \<open>The decision\<close>

definition indexed_fields :: "specs \<Rightarrow> (string \<times> string) list \<Rightarrow> (string \<times> nat) list option" where
  "indexed_fields specs fvs = those (map (\<lambda>(field, v). map_option (Pair field) (variable_index specs v)) fvs)"

fun residual_loop :: "symbolic_region list \<Rightarrow> symbolic_region list \<Rightarrow> symbolic_region list" where
  "residual_loop [] residual = residual"
| "residual_loop (deny # denies) residual =
     (let residual' = minimize_symbolic_regions
            (concat (map (\<lambda>candidate. subtract_symbolic_region candidate deny) residual)) in
      if residual' = [] then [] else residual_loop denies residual')"

definition regions_of :: "symbolic_region \<Rightarrow> (string \<times> nat) list \<Rightarrow> symbolic_atom list list \<Rightarrow> rule_effect
    \<Rightarrow> rule list \<Rightarrow> symbolic_region list" where
  "regions_of base fvs unis effect rules =
     List.map_filter (\<lambda>r. symbolic_rule_region base r fvs unis) (filter (\<lambda>r. r_effect r = effect) rules)"

definition allowed_regions :: "symbolic_region \<Rightarrow> (string \<times> nat) list \<Rightarrow> symbolic_atom list list \<Rightarrow> rule list
    \<Rightarrow> symbolic_region list" where
  "allowed_regions base fvs unis rules =
     minimize_symbolic_regions
       (concat (map (\<lambda>region. residual_loop (regions_of base fvs unis Deny rules) [region])
                  (regions_of base fvs unis Allow rules)))"

fun combine_loop :: "symbolic_region \<Rightarrow> symbolic_atom list list \<Rightarrow> (rule list \<times> (string \<times> nat) list) list
    \<Rightarrow> symbolic_region list \<Rightarrow> bool" where
  "combine_loop base unis [] combined = (combined \<noteq> [])"
| "combine_loop base unis ((rules, fvs) # rest) combined =
     (let allowed = allowed_regions base fvs unis rules in
      if allowed = [] then False
      else let combined' = minimize_symbolic_regions
                 (concat (map (\<lambda>l. List.map_filter (intersect_symbolic_regions l) allowed) combined)) in
           if combined' = [] then False else combine_loop base unis rest combined')"

definition symbolic_shapes_are_discoverable :: "evaluator \<Rightarrow> rule_set \<Rightarrow> resource_shape list \<Rightarrow> bool" where
  "symbolic_shapes_are_discoverable ev rules shapes =
     (if shapes = [] then False
      else (case shapes_loop ev rules 0 shapes [] of
          None \<Rightarrow> False
        | Some (specs, pending) \<Rightarrow>
            let unis = map (\<lambda>(v, spec). atoms spec) specs in
            (case base_loop ev specs unis (zip pending shapes)
                    (map (\<lambda>atms. {0..<length atms}) unis) of
               None \<Rightarrow> False
             | Some base \<Rightarrow>
                 let prepared = (case those (map (\<lambda>pn. map_option (Pair (pn_rules pn))
                                        (indexed_fields specs (pn_field_variables pn))) pending) of
                       None \<Rightarrow> [] | Some ps \<Rightarrow> ps) in
                 if length prepared \<noteq> length shapes then False
                 else combine_loop base unis prepared [base])))"

definition resource_shapes_are_discoverable :: "evaluator \<Rightarrow> rule_set \<Rightarrow> resource_shape list \<Rightarrow> bool" where
  "resource_shapes_are_discoverable ev rules shapes = symbolic_shapes_are_discoverable ev rules shapes"

definition resource_shape_is_discoverable :: "evaluator \<Rightarrow> rule_set \<Rightarrow> string \<Rightarrow> string
    \<Rightarrow> (string, json) btree \<Rightarrow> string list \<Rightarrow> string list \<Rightarrow> bool" where
  "resource_shape_is_discoverable ev rules provider action known unknown present =
     resource_shapes_are_discoverable ev rules
       [\<lparr>shp_provider = provider, shp_action = action, shp_known = known, shp_unknown = unknown,
         shp_present = present, shp_field_variables = []\<rparr>]"

definition action_is_discoverable :: "evaluator \<Rightarrow> rule_set \<Rightarrow> string \<Rightarrow> string \<Rightarrow> bool" where
  "action_is_discoverable ev rules provider action =
     (case resolve_contract ev provider action of
        None \<Rightarrow> False
      | Some c \<Rightarrow>
          resource_shape_is_discoverable ev rules provider action []
            (sort_dedup (map fd_name (ac_schema c) @
               (if ac_open c then map pred_field (all_conjuncts (rs_rules rules)) else []))) [])"

section \<open>Boxes as sets of points\<close>

text \<open>A point chooses one atom of each variable. A proper box has \<open>n\<close> sides, none of them empty.\<close>

definition inside :: "(nat \<Rightarrow> nat) \<Rightarrow> symbolic_region \<Rightarrow> bool" where
  "inside c R \<longleftrightarrow> (\<forall>i < length R. c i \<in> R ! i)"

definition box :: "nat \<Rightarrow> symbolic_region \<Rightarrow> bool" where
  "box n R \<longleftrightarrow> length R = n \<and> (\<forall>i < n. R ! i \<noteq> {})"

definition inside_any :: "(nat \<Rightarrow> nat) \<Rightarrow> symbolic_region list \<Rightarrow> bool" where
  "inside_any c Rs \<longleftrightarrow> (\<exists>R \<in> set Rs. inside c R)"

lemma inside_any_simps [simp]:
  "inside_any c [] \<longleftrightarrow> False" "inside_any c (R # Rs) \<longleftrightarrow> inside c R \<or> inside_any c Rs"
  "inside_any c (Rs @ Rs') \<longleftrightarrow> inside_any c Rs \<or> inside_any c Rs'"
  by (auto simp: inside_any_def)

lemma inside_any_concat: "inside_any c (concat Rss) \<longleftrightarrow> (\<exists>Rs \<in> set Rss. inside_any c Rs)"
  by (auto simp: inside_any_def)

lemma box_inhabited: "box n R \<Longrightarrow> \<exists>c. inside c R"
proof -
  assume "box n R"
  then have "\<forall>i. \<exists>k. i < length R \<longrightarrow> k \<in> R ! i" by (auto simp: box_def)
  then show ?thesis unfolding inside_def by (rule choice[THEN exE]) blast
qed

lemma boxes_inhabited: "\<forall>R \<in> set Rs. box n R \<Longrightarrow> Rs = [] \<longleftrightarrow> (\<forall>c. \<not> inside_any c Rs)"
  using box_inhabited by (cases Rs) (simp, fastforce)

lemma inside_update: "i < length R \<Longrightarrow> inside c R \<Longrightarrow> inside c (R[i := d]) \<longleftrightarrow> c i \<in> d"
  by (auto simp: inside_def nth_list_update)

lemma inside_update_sub: "d \<subseteq> R ! i \<Longrightarrow> inside c (R[i := d]) \<Longrightarrow> inside c R"
  by (cases "i < length R") (force simp: inside_def nth_list_update split: if_splits)+

lemma inside_shrink: "i < length R \<Longrightarrow> d \<subseteq> R ! i \<Longrightarrow> inside c (R[i := d]) \<longleftrightarrow> inside c R \<and> c i \<in> d"
  using inside_update inside_update_sub by blast

lemma box_update: "box n R \<Longrightarrow> d \<noteq> {} \<Longrightarrow> box n (R[i := d])"
  by (cases "i < length R") (auto simp: box_def nth_list_update split: if_splits)

lemma intersect_None:
  "length l = length r \<Longrightarrow> intersect_symbolic_regions l r = None \<Longrightarrow> \<not> (inside c l \<and> inside c r)"
  by (fastforce simp: intersect_symbolic_regions_def inside_def list_all_length Let_def split: if_splits)

lemma intersect_Some:
  assumes "intersect_symbolic_regions l r = Some s" "length l = n" "length r = n"
  shows "box n s \<and> (inside c s \<longleftrightarrow> inside c l \<and> inside c r)"
  using assms by (auto simp: intersect_symbolic_regions_def inside_def box_def list_all_length Let_def
      split: if_splits)

lemma subtract_loop_spec:
  assumes "box n core" "\<forall>R \<in> set residual. box n R" "\<forall>i \<in> set is. i < n"
  shows "(\<forall>R \<in> set (subtract_loop deny is core residual). box n R) \<and>
    (inside_any c (subtract_loop deny is core residual) \<longleftrightarrow>
       inside_any c residual \<or> inside c core \<and> (\<exists>i \<in> set is. c i \<notin> deny ! i))"
  using assms
proof (induction "is" arbitrary: core residual)
  case (Cons i "is")
  let ?out = "core ! i - deny ! i" and ?in = "core ! i \<inter> deny ! i"
  let ?res = "if ?out \<noteq> {} then residual @ [core[i := ?out]] else residual"
  have i: "i < length core" using Cons.prems by (simp add: box_def)
  have out: "inside c (core[i := ?out]) \<longleftrightarrow> inside c core \<and> c i \<notin> deny ! i"
    using inside_shrink[OF i, of ?out c] i by (auto simp: inside_def)
  have inn: "inside c (core[i := ?in]) \<longleftrightarrow> inside c core \<and> c i \<in> deny ! i"
    using inside_shrink[OF i, of ?in c] i by (auto simp: inside_def)
  have res: "\<forall>R \<in> set ?res. box n R" using Cons.prems(1,2) box_update by auto
  have any: "inside_any c ?res \<longleftrightarrow> inside_any c residual \<or> inside c core \<and> c i \<notin> deny ! i"
    using out i by (auto simp: inside_def)
  have empty: "?in = {} \<Longrightarrow> inside c core \<Longrightarrow> c i \<notin> deny ! i" using i by (auto simp: inside_def)
  show ?case
  proof (cases "?in = {}")
    case True
    then have "subtract_loop deny (i # is) core residual = ?res" using i by (simp add: Let_def)
    then show ?thesis using res any empty[OF True] by auto
  next
    case False
    then have "subtract_loop deny (i # is) core residual = subtract_loop deny is (core[i := ?in]) ?res"
      using i by (simp add: Let_def)
    moreover have "box n (core[i := ?in])" using Cons.prems(1) False by (rule box_update)
    ultimately show ?thesis using Cons.IH[OF _ res] Cons.prems(3) any inn by auto
  qed
qed simp

lemma subtract_spec:
  assumes "box n R" "length deny = n"
  shows "(\<forall>S \<in> set (subtract_symbolic_region R deny). box n S) \<and>
    (inside_any c (subtract_symbolic_region R deny) \<longleftrightarrow> inside c R \<and> \<not> inside c deny)"
proof (cases "intersect_symbolic_regions R deny")
  case None
  have "length R = length deny" using assms by (simp add: box_def)
  from intersect_None[OF this None] have "\<not> (inside c R \<and> inside c deny)" .
  with None assms show ?thesis by (auto simp: subtract_symbolic_region_def)
next
  case (Some s)
  have n: "length R = n" using assms(1) by (simp add: box_def)
  have "subtract_symbolic_region R deny = subtract_loop deny [0..<n] R []"
    using Some n by (simp add: subtract_symbolic_region_def)
  moreover have "(\<exists>i \<in> set [0..<n]. c i \<notin> deny ! i) \<longleftrightarrow> \<not> inside c deny"
    using assms(2) by (auto simp: inside_def)
  ultimately show ?thesis using subtract_loop_spec[OF assms(1), of "[]" "[0..<n]" deny c] by simp
qed

lemma region_contains_inside:
  "length l = length r \<Longrightarrow> region_contains l r \<Longrightarrow> inside c r \<Longrightarrow> inside c l"
  by (fastforce simp: region_contains_def inside_def list_all_length)

lemma minimize_loop_spec:
  assumes "\<forall>R \<in> set rs \<union> set minimal. box n R"
  shows "set (minimize_loop rs minimal) \<subseteq> set rs \<union> set minimal \<and>
    (inside_any c (minimize_loop rs minimal) \<longleftrightarrow> inside_any c rs \<or> inside_any c minimal)"
  using assms
proof (induction rs arbitrary: minimal)
  case (Cons r rs)
  have len: "length R = length r" if "R \<in> set minimal" for R using Cons.prems that by (auto simp: box_def)
  show ?case
  proof (cases "list_ex (\<lambda>e. region_contains e r) minimal")
    case True
    then obtain e where "e \<in> set minimal" "region_contains e r" by (auto simp: list_ex_iff)
    then have "inside c r \<Longrightarrow> inside_any c minimal"
      using region_contains_inside[OF len] by (auto simp: inside_any_def)
    with True Cons show ?thesis by auto
  next
    case False
    let ?m = "filter (\<lambda>e. \<not> region_contains r e) minimal @ [r]"
    have "inside_any c ?m \<longleftrightarrow> inside_any c minimal \<or> inside c r"
      using region_contains_inside len by (auto simp: inside_any_def) metis
    moreover have "set ?m \<subseteq> insert r (set minimal)" by auto
    ultimately show ?thesis using False Cons.IH[of ?m] Cons.prems by auto
  qed
qed simp

lemma minimize_spec:
  assumes "\<forall>R \<in> set rs. box n R"
  shows "(\<forall>R \<in> set (minimize_symbolic_regions rs). box n R) \<and>
    (inside_any c (minimize_symbolic_regions rs) \<longleftrightarrow> inside_any c rs)"
  using minimize_loop_spec[of rs "[]" n c] assms by (auto simp: minimize_symbolic_regions_def)

end
