(* ===== verification/Discovery_Meaning.thy ===== *)
theory Discovery_Meaning
  imports Sentence_Discovery
begin

text \<open>
  What the discovery projection means. The box computation decides whether a point of the base box
  satisfies, for every shape, an allow rule and no deny rule; atoms partition the values of a
  variable so that every rule is constant on an atom; so the projection answers whether a completion
  of the shapes is allowed by the evaluator.
\<close>

section \<open>Rules as boxes\<close>

definition atom_sat :: "symbolic_atom list list \<Rightarrow> (string \<times> nat) list \<Rightarrow> (nat \<Rightarrow> nat) \<Rightarrow> pred \<Rightarrow> bool" where
  "atom_sat unis fvs c p \<longleftrightarrow> (case map_of fvs (pred_field p) of
      None \<Rightarrow> False | Some i \<Rightarrow> symbolic_atom_matches_pred (unis ! i ! c i) p)"

definition rule_sat :: "symbolic_atom list list \<Rightarrow> (string \<times> nat) list \<Rightarrow> (nat \<Rightarrow> nat) \<Rightarrow> rule \<Rightarrow> bool" where
  "rule_sat unis fvs c r \<longleftrightarrow> list_all (atom_sat unis fvs c) (r_conjuncts r)"

definition permits :: "symbolic_atom list list \<Rightarrow> rule list \<Rightarrow> (string \<times> nat) list \<Rightarrow> (nat \<Rightarrow> nat) \<Rightarrow> bool" where
  "permits unis rules fvs c \<longleftrightarrow>
     (\<exists>r \<in> set rules. r_effect r = Allow \<and> rule_sat unis fvs c r) \<and>
     \<not> (\<exists>r \<in> set rules. r_effect r = Deny \<and> rule_sat unis fvs c r)"

text \<open>Keeping the atoms of one side that satisfy a condition.\<close>

lemma narrow:
  assumes "box n R" "i < n" "d = {k \<in> R ! i. P k}"
  shows "inside c (R[i := d]) \<longleftrightarrow> inside c R \<and> P (c i)"
    and "d = {} \<Longrightarrow> \<not> (inside c R \<and> P (c i))"
    and "d \<noteq> {} \<Longrightarrow> box n (R[i := d])"
proof -
  have i: "i < length R" using assms by (simp add: box_def)
  have "d \<subseteq> R ! i" using assms(3) by auto
  from inside_shrink[OF i this] show *: "inside c (R[i := d]) \<longleftrightarrow> inside c R \<and> P (c i)" for c
    using i assms(3) by (auto simp: inside_def)
  show "\<not> (inside c R \<and> P (c i))" if "d = {}" using *[of c] that i by (auto simp: inside_def)
  show "d \<noteq> {} \<Longrightarrow> box n (R[i := d])" using assms(1) by (rule box_update)
qed

lemma rule_region_loop_spec:
  assumes "box n R" "\<forall>i \<in> snd ` set fvs. i < n"
  shows "case rule_region_loop unis fvs ps R of
      None \<Rightarrow> \<forall>c. \<not> (inside c R \<and> list_all (atom_sat unis fvs c) ps)
    | Some S \<Rightarrow> box n S \<and> (\<forall>c. inside c S \<longleftrightarrow> inside c R \<and> list_all (atom_sat unis fvs c) ps)"
  using assms(1)
proof (induction ps arbitrary: R)
  case (Cons p ps)
  show ?case
  proof (cases "map_of fvs (pred_field p)")
    case None
    then show ?thesis by (simp add: atom_sat_def)
  next
    case (Some i)
    define d where "d = {k \<in> R ! i. symbolic_atom_matches_pred (unis ! i ! k) p}"
    have i: "i < n" using assms(2) Some by (force dest: map_of_SomeD)
    have sat: "atom_sat unis fvs c p \<longleftrightarrow> symbolic_atom_matches_pred (unis ! i ! c i) p" for c
      using Some by (simp add: atom_sat_def)
    note d = narrow[OF Cons.prems i d_def, folded sat]
    have step: "rule_region_loop unis fvs (p # ps) R =
        (if d = {} then None else rule_region_loop unis fvs ps (R[i := d]))"
      by (simp only: d_def rule_region_loop.simps Some option.case Let_def Set.filter_eq)
    show ?thesis
    proof (cases "d = {}")
      case True
      then show ?thesis unfolding step using d(2) by auto
    next
      case False
      from Cons.IH[OF d(3)[OF False]] False show ?thesis
        unfolding step by (cases "rule_region_loop unis fvs ps (R[i := d])") (simp_all add: d(1))
    qed
  qed
qed simp

lemma rule_region_None:
  assumes "box n R" "\<forall>i \<in> snd ` set fvs. i < n" "symbolic_rule_region R r fvs unis = None"
  shows "\<not> (inside c R \<and> rule_sat unis fvs c r)"
  using rule_region_loop_spec[OF assms(1,2), of unis "r_conjuncts r"] assms(3)
  by (simp add: symbolic_rule_region_def rule_sat_def)

lemma rule_region_Some:
  assumes "box n R" "\<forall>i \<in> snd ` set fvs. i < n" "symbolic_rule_region R r fvs unis = Some S"
  shows "box n S" "inside c S \<longleftrightarrow> inside c R \<and> rule_sat unis fvs c r"
  using rule_region_loop_spec[OF assms(1,2), of unis "r_conjuncts r"] assms(3)
  by (simp_all add: symbolic_rule_region_def rule_sat_def)

lemma regions_of_spec:
  assumes "box n R" "\<forall>i \<in> snd ` set fvs. i < n"
  shows "(\<forall>S \<in> set (regions_of R fvs unis eff rules). box n S) \<and>
    (inside_any c (regions_of R fvs unis eff rules) \<longleftrightarrow>
       inside c R \<and> (\<exists>r \<in> set rules. r_effect r = eff \<and> rule_sat unis fvs c r))"
proof (induction rules)
  case Nil
  then show ?case by (simp add: regions_of_def List.map_filter_simps)
next
  case (Cons r rules)
  show ?case
  proof (cases "symbolic_rule_region R r fvs unis")
    case None
    then show ?thesis using Cons rule_region_None[OF assms None, of c]
      by (auto simp: regions_of_def List.map_filter_simps)
  next
    case (Some S)
    then show ?thesis using Cons rule_region_Some[OF assms Some]
      by (auto simp: regions_of_def List.map_filter_simps)
  qed
qed

lemma residual_loop_spec:
  assumes "\<forall>D \<in> set denies. length D = n" "\<forall>R \<in> set residual. box n R"
  shows "(\<forall>R \<in> set (residual_loop denies residual). box n R) \<and>
    (\<forall>c. inside_any c (residual_loop denies residual) \<longleftrightarrow>
       inside_any c residual \<and> \<not> inside_any c denies)"
  using assms
proof (induction denies arbitrary: residual)
  case (Cons D denies)
  let ?cut = "concat (map (\<lambda>R. subtract_symbolic_region R D) residual)"
  have D: "length D = n" using Cons.prems by simp
  have boxes: "\<forall>R \<in> set ?cut. box n R" using subtract_spec[OF _ D] Cons.prems(2) by auto
  have cut: "inside_any c ?cut \<longleftrightarrow> inside_any c residual \<and> \<not> inside c D" for c
    using subtract_spec[OF _ D, of _ c] Cons.prems(2) by (auto simp: inside_any_concat inside_any_def)
  have m: "\<forall>R \<in> set (minimize_symbolic_regions ?cut). box n R"
    "\<And>c. inside_any c (minimize_symbolic_regions ?cut) \<longleftrightarrow> inside_any c residual \<and> \<not> inside c D"
    using minimize_spec[OF boxes] cut by auto
  show ?case
  proof (cases "minimize_symbolic_regions ?cut = []")
    case True
    then have "\<not> (inside_any c residual \<and> \<not> inside c D)" for c using m(2)[of c] by simp
    with True show ?thesis by (auto simp: Let_def)
  next
    case False
    then show ?thesis using Cons.IH[OF _ m(1)] Cons.prems(1) m(2) by (auto simp: Let_def)
  qed
qed simp

lemma allowed_regions_spec:
  assumes "box n base" "\<forall>i \<in> snd ` set fvs. i < n"
  shows "(\<forall>R \<in> set (allowed_regions base fvs unis rules). box n R) \<and>
    (\<forall>c. inside_any c (allowed_regions base fvs unis rules) \<longleftrightarrow>
       inside c base \<and> permits unis rules fvs c)"
proof -
  let ?D = "regions_of base fvs unis Deny rules" and ?A = "regions_of base fvs unis Allow rules"
  let ?all = "concat (map (\<lambda>R. residual_loop ?D [R]) ?A)"
  note A = regions_of_spec[OF assms, of unis Allow rules]
  note D = regions_of_spec[OF assms, of unis Deny rules]
  have lens: "\<forall>R \<in> set ?D. length R = n" using D by (auto simp: box_def)
  have res: "(\<forall>S \<in> set (residual_loop ?D [R]). box n S) \<and>
      (\<forall>c. inside_any c (residual_loop ?D [R]) \<longleftrightarrow> inside c R \<and> \<not> inside_any c ?D)"
    if "R \<in> set ?A" for R
    using residual_loop_spec[OF lens, of "[R]"] A that by auto
  then have boxes: "\<forall>R \<in> set ?all. box n R" by auto
  have "inside_any c ?all \<longleftrightarrow> inside_any c ?A \<and> \<not> inside_any c ?D" for c
    using res by (auto simp: inside_any_concat inside_any_def)
  with A D have "inside_any c ?all \<longleftrightarrow> inside c base \<and> permits unis rules fvs c" for c
    by (auto simp: permits_def)
  with minimize_spec[OF boxes] show ?thesis by (simp add: allowed_regions_def)
qed

lemma meet_all_spec:
  assumes "\<forall>R \<in> set ls. box n R" "\<forall>R \<in> set rs. box n R"
  shows "(\<forall>S \<in> set (concat (map (\<lambda>l. List.map_filter (intersect_symbolic_regions l) rs) ls)). box n S) \<and>
    (inside_any c (concat (map (\<lambda>l. List.map_filter (intersect_symbolic_regions l) rs) ls)) \<longleftrightarrow>
       inside_any c ls \<and> inside_any c rs)"
proof -
  have "(\<forall>S \<in> set (List.map_filter (intersect_symbolic_regions l) rs). box n S) \<and>
    (inside_any c (List.map_filter (intersect_symbolic_regions l) rs) \<longleftrightarrow> inside c l \<and> inside_any c rs)"
    if "box n l" for l
    using assms(2)
  proof (induction rs)
    case Nil
    then show ?case by (simp add: List.map_filter_simps)
  next
    case (Cons r rs)
    have len: "length l = n" "length r = n" using that Cons.prems by (simp_all add: box_def)
    show ?case
    proof (cases "intersect_symbolic_regions l r")
      case None
      then show ?thesis using Cons intersect_None[of l r c] len by (auto simp: List.map_filter_simps)
    next
      case (Some s)
      then show ?thesis using Cons intersect_Some[OF Some len, of c] by (auto simp: List.map_filter_simps)
    qed
  qed
  with assms(1) show ?thesis by (auto simp: inside_any_concat inside_any_def)
qed

lemma combine_loop_spec:
  assumes "box n base" "\<forall>(rules, fvs) \<in> set ready. \<forall>i \<in> snd ` set fvs. i < n"
    and "\<forall>R \<in> set combined. box n R"
  shows "combine_loop base unis ready combined \<longleftrightarrow>
    (\<exists>c. inside_any c combined \<and>
         (\<forall>(rules, fvs) \<in> set ready. inside c base \<and> permits unis rules fvs c))"
  using assms(2,3)
proof (induction ready arbitrary: combined)
  case Nil
  then show ?case using boxes_inhabited[OF Nil(2)] by auto
next
  case (Cons e ready)
  obtain rules fvs where e: "e = (rules, fvs)" by (cases e)
  let ?A = "allowed_regions base fvs unis rules"
  let ?M = "concat (map (\<lambda>l. List.map_filter (intersect_symbolic_regions l) ?A) combined)"
  have A: "\<forall>R \<in> set ?A. box n R"
    "\<And>c. inside_any c ?A \<longleftrightarrow> inside c base \<and> permits unis rules fvs c"
    using allowed_regions_spec[OF assms(1), of fvs unis rules] Cons.prems(1) e by auto
  have M: "\<forall>R \<in> set ?M. box n R" "\<And>c. inside_any c ?M \<longleftrightarrow> inside_any c combined \<and> inside_any c ?A"
    using meet_all_spec[OF Cons.prems(2) A(1)] by auto
  have N: "\<forall>R \<in> set (minimize_symbolic_regions ?M). box n R"
    "\<And>c. inside_any c (minimize_symbolic_regions ?M) \<longleftrightarrow> inside_any c combined \<and> inside c base \<and> permits unis rules fvs c"
    using minimize_spec[OF M(1)] M(2) A(2) by auto
  show ?case
  proof (cases "?A = [] \<or> minimize_symbolic_regions ?M = []")
    case True
    then have "\<not> (inside_any c combined \<and> inside c base \<and> permits unis rules fvs c)" for c
      using A(2)[of c] N(2)[of c] by auto
    with True show ?thesis by (auto simp: e Let_def)
  next
    case False
    then show ?thesis using Cons.IH[OF _ N(1)] Cons.prems(1) N(2) by (simp add: e Let_def)
  qed
qed

section \<open>The base box\<close>

definition atom_valid :: "evaluator \<Rightarrow> specs \<Rightarrow> symbolic_atom list list \<Rightarrow> resource_shape \<Rightarrow> (nat \<Rightarrow> nat)
    \<Rightarrow> string \<times> string \<Rightarrow> bool" where
  "atom_valid ev specs unis shape c e \<longleftrightarrow> (case e of (field, v) \<Rightarrow>
     field \<in> set (shp_unknown shape) \<or>
     (case variable_index specs v of
        None \<Rightarrow> False
      | Some i \<Rightarrow> (case symbolic_atom_exact_json (unis ! i ! c i) of
          None \<Rightarrow> True
        | Some j \<Rightarrow> present_field_is_valid (ev_contracts ev) (shp_provider shape) (shp_action shape) field j)))"

definition atom_based :: "specs \<Rightarrow> symbolic_atom list list \<Rightarrow> (nat \<Rightarrow> nat) \<Rightarrow> string \<times> symbolic_base \<Rightarrow> bool" where
  "atom_based specs unis c e \<longleftrightarrow> (case e of (v, fb) \<Rightarrow>
     (case variable_index specs v of None \<Rightarrow> False | Some i \<Rightarrow> c i \<in> base_atoms (unis ! i) fb))"

definition indexed :: "specs \<Rightarrow> nat \<Rightarrow> string \<Rightarrow> bool" where
  "indexed specs n v \<longleftrightarrow> (\<exists>i < n. variable_index specs v = Some i)"

lemma prune_fields_spec:
  assumes "box n R" "\<forall>(f, v) \<in> set fvs. indexed specs n v"
  shows "case prune_fields ev specs unis shape fvs R of
      None \<Rightarrow> \<forall>c. \<not> (inside c R \<and> list_all (atom_valid ev specs unis shape c) fvs)
    | Some S \<Rightarrow> box n S \<and> (\<forall>c. inside c S \<longleftrightarrow> inside c R \<and> list_all (atom_valid ev specs unis shape c) fvs)"
  using assms
proof (induction fvs arbitrary: R)
  case (Cons e fvs)
  obtain f v where e: "e = (f, v)" by (cases e)
  obtain i where i: "i < n" "variable_index specs v = Some i"
    using Cons.prems(2) e by (auto simp: indexed_def)
  let ?P = "\<lambda>k. case symbolic_atom_exact_json (unis ! i ! k) of None \<Rightarrow> True
      | Some j \<Rightarrow> present_field_is_valid (ev_contracts ev) (shp_provider shape) (shp_action shape) f j"
  define d where "d = {k \<in> R ! i. ?P k}"
  show ?case
  proof (cases "f \<in> set (shp_unknown shape)")
    case True
    then have "atom_valid ev specs unis shape c (f, v)" for c by (simp add: atom_valid_def)
    moreover have "prune_fields ev specs unis shape ((f, v) # fvs) R = prune_fields ev specs unis shape fvs R"
      using True i by simp
    ultimately show ?thesis using Cons.IH[OF Cons.prems(1)] Cons.prems(2) unfolding e
      by (cases "prune_fields ev specs unis shape fvs R") simp_all
  next
    case False
    have valid: "atom_valid ev specs unis shape c e \<longleftrightarrow> ?P (c i)" for c
      using False i by (simp add: e atom_valid_def)
    note d = narrow[OF Cons.prems(1) i(1) d_def, folded valid]
    have step: "prune_fields ev specs unis shape (e # fvs) R =
        (if d = {} then None else prune_fields ev specs unis shape fvs (R[i := d]))"
      by (simp only: e d_def prune_fields.simps i option.case Let_def Set.filter_eq False if_False)
    show ?thesis
    proof (cases "d = {}")
      case True
      then show ?thesis unfolding step using d(2) by auto
    next
      case False
      from Cons.IH[OF d(3)[OF False]] Cons.prems(2) False show ?thesis
        unfolding step by (cases "prune_fields ev specs unis shape fvs (R[i := d])") (simp_all add: d(1))
    qed
  qed
qed simp

lemma apply_bases_spec:
  assumes "box n R" "\<forall>(v, fb) \<in> set bases. indexed specs n v"
  shows "case apply_bases specs unis bases R of
      None \<Rightarrow> \<forall>c. \<not> (inside c R \<and> list_all (atom_based specs unis c) bases)
    | Some S \<Rightarrow> box n S \<and> (\<forall>c. inside c S \<longleftrightarrow> inside c R \<and> list_all (atom_based specs unis c) bases)"
  using assms
proof (induction bases arbitrary: R)
  case (Cons e bases)
  obtain v fb where e: "e = (v, fb)" by (cases e)
  obtain i where i: "i < n" "variable_index specs v = Some i"
    using Cons.prems(2) e by (auto simp: indexed_def)
  define d where "d = {k \<in> R ! i. k \<in> base_atoms (unis ! i) fb}"
  have based: "atom_based specs unis c e \<longleftrightarrow> c i \<in> base_atoms (unis ! i) fb" for c
    using i by (simp add: e atom_based_def)
  note d = narrow[OF Cons.prems(1) i(1) d_def, folded based]
  have step: "apply_bases specs unis (e # bases) R =
      (if d = {} then None else apply_bases specs unis bases (R[i := d]))"
    by (simp only: e d_def apply_bases.simps i option.case Let_def Int_def)
  show ?case
  proof (cases "d = {}")
    case True
    then show ?thesis unfolding step using d(2) by auto
  next
    case False
    from Cons.IH[OF d(3)[OF False]] Cons.prems(2) False show ?thesis
      unfolding step by (cases "apply_bases specs unis bases (R[i := d])") (simp_all add: d(1))
  qed
qed simp

definition point_fits :: "evaluator \<Rightarrow> specs \<Rightarrow> symbolic_atom list list \<Rightarrow> (nat \<Rightarrow> nat) \<Rightarrow> pending_shape \<times> resource_shape \<Rightarrow> bool" where
  "point_fits ev specs unis c e \<longleftrightarrow> (case e of (pn, shape) \<Rightarrow>
     list_all (atom_valid ev specs unis shape c) (pn_field_variables pn) \<and>
     list_all (atom_based specs unis c) (pn_bases pn))"

lemma base_loop_spec:
  assumes "box n R"
    and "\<forall>(pn, shape) \<in> set es. (\<forall>(f, v) \<in> set (pn_field_variables pn). indexed specs n v) \<and>
           (\<forall>(v, fb) \<in> set (pn_bases pn). indexed specs n v)"
  shows "case base_loop ev specs unis es R of
      None \<Rightarrow> \<forall>c. \<not> (inside c R \<and> list_all (point_fits ev specs unis c) es)
    | Some S \<Rightarrow> box n S \<and> (\<forall>c. inside c S \<longleftrightarrow> inside c R \<and> list_all (point_fits ev specs unis c) es)"
  using assms
proof (induction es arbitrary: R)
  case (Cons e es)
  obtain pn shape where e: "e = (pn, shape)" by (cases e)
  have vars: "\<forall>(f, v) \<in> set (pn_field_variables pn). indexed specs n v"
    "\<forall>(v, fb) \<in> set (pn_bases pn). indexed specs n v" using Cons.prems(2) e by auto
  note p = prune_fields_spec[OF Cons.prems(1) vars(1), of ev unis shape]
  show ?case
  proof (cases "prune_fields ev specs unis shape (pn_field_variables pn) R")
    case None
    with p show ?thesis by (auto simp: e point_fits_def)
  next
    case (Some R1)
    with p have R1: "box n R1" "\<And>c. inside c R1 \<longleftrightarrow> inside c R \<and>
        list_all (atom_valid ev specs unis shape c) (pn_field_variables pn)" by auto
    note q = apply_bases_spec[OF R1(1) vars(2), of unis]
    show ?thesis
    proof (cases "apply_bases specs unis (pn_bases pn) R1")
      case None
      with q Some R1 show ?thesis by (auto simp: e point_fits_def)
    next
      case (Some R2)
      with q R1 have R2: "box n R2" "\<And>c. inside c R2 \<longleftrightarrow> inside c R \<and> point_fits ev specs unis c e"
        by (auto simp: e point_fits_def)
      have step: "base_loop ev specs unis (e # es) R = base_loop ev specs unis es R2"
        using Some \<open>prune_fields _ _ _ _ _ _ = Some R1\<close> by (simp add: e)
      from Cons.IH[OF R2(1)] Cons.prems(2) show ?thesis
        unfolding step by (cases "base_loop ev specs unis es R2") (auto simp: R2(2))
    qed
  qed
qed simp

section \<open>Atoms as sets of values\<close>

fun atom_holds :: "string list \<Rightarrow> symbolic_atom \<Rightarrow> rscalar option \<Rightarrow> bool" where
  "atom_holds ss AAbsent v \<longleftrightarrow> v = None"
| "atom_holds ss (AStr s) v \<longleftrightarrow> v = Some (RStr s)"
| "atom_holds ss AStrOther v \<longleftrightarrow> (\<exists>s. v = Some (RStr s) \<and> s \<notin> set ss)"
| "atom_holds ss (AIntRange lo hi) v \<longleftrightarrow> (\<exists>n. v = Some (RInt n) \<and> lo \<le> n \<and> n \<le> hi)"
| "atom_holds ss (ABool b) v \<longleftrightarrow> v = Some (RBool b)"
| "atom_holds ss AAnyPresent v \<longleftrightarrow> v \<noteq> None"

definition spec_wf :: "variable_spec \<Rightarrow> bool" where
  "spec_wf sp \<longleftrightarrow> sorted_wrt (<) (vs_integers sp) \<and> (\<forall>n \<in> set (vs_integers sp). in_i64 n)"

definition value_fits :: "variable_spec \<Rightarrow> rscalar option \<Rightarrow> bool" where
  "value_fits sp v \<longleftrightarrow> (case v of
      None \<Rightarrow> True
    | Some x \<Rightarrow> rscalar_ok x \<and> (case vs_kind sp of None \<Rightarrow> True | Some k \<Rightarrow> rscalar_kind x = k))"

lemma int_atoms_form: "atom \<in> set (int_atoms nxt pts) \<Longrightarrow> \<exists>lo hi. atom = AIntRange lo hi"
proof (induction nxt pts rule: int_atoms.induct)
  case (2 nxt p pts)
  then show ?case by (cases "checked (p + 1)") (auto split: if_splits)
qed simp

lemma checked_after: "in_i64 p \<Longrightarrow> checked (p + 1) = (if p = i64_max then None else Some (p + 1))"
  by (auto simp: checked_def in_i64_def)

lemma int_atoms_bounds:
  assumes "AIntRange lo hi \<in> set (int_atoms nxt pts)" "nxt \<le> i64_max" "sorted_wrt (<) pts"
    and "\<forall>p \<in> set pts. nxt \<le> p \<and> in_i64 p"
  shows "nxt \<le> lo \<and> lo \<le> hi \<and> hi \<le> i64_max \<and> (\<forall>q \<in> set pts. q < lo \<or> hi < q \<or> (lo = q \<and> hi = q))"
  using assms
proof (induction nxt pts rule: int_atoms.induct)
  case (2 nxt p pts)
  have p: "in_i64 p" "nxt \<le> p" "p \<le> i64_max" using "2.prems" by (auto simp: in_i64_def)
  have later: "\<forall>q \<in> set pts. p < q \<and> in_i64 q" using "2.prems" by auto
  consider "nxt < p" "lo = nxt" "hi = p - 1" | "lo = p" "hi = p"
    | "p \<noteq> i64_max" "AIntRange lo hi \<in> set (int_atoms (p + 1) pts)"
    using "2.prems"(1) p by (auto simp: checked_after split: if_splits)
  then show ?case
  proof cases
    case 1
    then show ?thesis using p later by force
  next
    case 2
    then show ?thesis using p later by force
  next
    case 3
    then have "p + 1 \<le> lo \<and> lo \<le> hi \<and> hi \<le> i64_max \<and> (\<forall>q \<in> set pts. q < lo \<or> hi < q \<or> (lo = q \<and> hi = q))"
      using "2.IH"[of "p + 1"] "2.prems"(3) p later by (force simp: checked_after)
    then show ?thesis using p by force
  qed
qed simp

lemma int_atoms_cover:
  assumes "nxt \<le> n" "n \<le> i64_max" "sorted_wrt (<) pts" "\<forall>p \<in> set pts. nxt \<le> p \<and> in_i64 p"
  shows "\<exists>lo hi. AIntRange lo hi \<in> set (int_atoms nxt pts) \<and> lo \<le> n \<and> n \<le> hi"
  using assms
proof (induction nxt pts rule: int_atoms.induct)
  case (2 nxt p pts)
  have p: "in_i64 p" using "2.prems" by simp
  consider "n < p" | "n = p" | "p < n" by linarith
  then show ?case
  proof cases
    case 1
    then show ?thesis using "2.prems" by (intro exI[of _ nxt] exI[of _ "p - 1"]) auto
  next
    case 2
    then show ?thesis by auto
  next
    case 3
    then have "p \<noteq> i64_max" using "2.prems" by simp
    moreover have "\<forall>q \<in> set pts. p + 1 \<le> q \<and> in_i64 q" using "2.prems"(3,4) by force
    ultimately have "\<exists>lo hi. AIntRange lo hi \<in> set (int_atoms (p + 1) pts) \<and> lo \<le> n \<and> n \<le> hi"
      using "2.IH"[of "p + 1"] "2.prems" p 3 by (simp add: checked_after)
    then show ?thesis using \<open>p \<noteq> i64_max\<close> p by (auto simp: checked_after)
  qed
qed simp

lemma spec_ints:
  assumes "spec_wf sp"
  shows "sorted_wrt (<) (vs_integers sp)" "\<forall>p \<in> set (vs_integers sp). i64_min \<le> p \<and> in_i64 p"
  using assms by (auto simp: spec_wf_def in_i64_def)

lemma new_string: "\<exists>s. s \<notin> set (ss :: string list)"
  using ex_new_if_finite[OF infinite_UNIV_listI, of "set ss"] by simp

lemma atom_inhabited:
  assumes "atom \<in> set (atoms sp)" "spec_wf sp"
  shows "\<exists>v. atom_holds (vs_strings sp) atom v \<and> value_fits sp v"
proof (cases "vs_kind sp")
  case None
  with assms show ?thesis
    by (auto simp: atoms_def value_fits_def intro: exI[of _ None] exI[of _ "Some (RBool True)"])
next
  case (Some k)
  show ?thesis
  proof (cases "atom = AAbsent")
    case True
    then show ?thesis by (auto simp: value_fits_def)
  next
    case False
    show ?thesis
    proof (cases k)
      case KStr
      with assms(1) Some False consider s where "atom = AStr s" | "atom = AStrOther"
        by (auto simp: atoms_def)
      then show ?thesis
      proof cases
        case (1 s)
        with Some KStr show ?thesis by (simp add: value_fits_def)
      next
        case 2
        obtain s where "s \<notin> set (vs_strings sp)" using new_string by blast
        with 2 Some KStr show ?thesis by (intro exI[of _ "Some (RStr s)"]) (simp add: value_fits_def)
      qed
    next
      case KInt
      with assms(1) Some False obtain lo hi where
        a: "atom = AIntRange lo hi" "AIntRange lo hi \<in> set (int_atoms i64_min (vs_integers sp))"
        using int_atoms_form by (force simp: atoms_def)
      then have "i64_min \<le> lo" "lo \<le> hi" "hi \<le> i64_max"
        using int_atoms_bounds[OF a(2) _ spec_ints[OF assms(2)]] by (simp_all add: i64_min_def i64_max_def)
      then show ?thesis using a(1) Some KInt
        by (intro exI[of _ "Some (RInt lo)"]) (simp add: value_fits_def in_i64_def)
    next
      case KBool
      with assms Some False show ?thesis by (auto simp: atoms_def value_fits_def)
    qed
  qed
qed

lemma atoms_cover:
  assumes "value_fits sp v" "spec_wf sp"
  shows "\<exists>k < length (atoms sp). atom_holds (vs_strings sp) (atoms sp ! k) v"
proof -
  have "\<exists>atom \<in> set (atoms sp). atom_holds (vs_strings sp) atom v"
  proof (cases v)
    case None
    then show ?thesis by (simp add: atoms_def)
  next
    case (Some x)
    show ?thesis
    proof (cases "vs_kind sp")
      case None
      with Some show ?thesis by (simp add: atoms_def)
    next
      case (Some k)
      with assms \<open>v = Some x\<close> have x: "rscalar_kind x = k" "rscalar_ok x" by (simp_all add: value_fits_def)
      show ?thesis
      proof (cases x)
        case (RStr s)
        with x Some \<open>v = Some x\<close> show ?thesis by (cases "s \<in> set (vs_strings sp)") (auto simp: atoms_def)
      next
        case (RInt n)
        with x have "i64_min \<le> n" "n \<le> i64_max" by (simp_all add: in_i64_def)
        from int_atoms_cover[OF this spec_ints[OF assms(2)]] obtain lo hi where
          "AIntRange lo hi \<in> set (int_atoms i64_min (vs_integers sp))" "lo \<le> n" "n \<le> hi" by blast
        with x RInt Some \<open>v = Some x\<close> show ?thesis
          by (auto simp: atoms_def intro!: bexI[of _ "AIntRange lo hi"])
      next
        case (RBool b)
        with x Some \<open>v = Some x\<close> show ?thesis by (cases b) (auto simp: atoms_def)
      qed
    qed
  qed
  then show ?thesis by (auto simp: in_set_conv_nth)
qed

text \<open>The constants a specification has been cut at.\<close>

fun scalar_cut :: "variable_spec \<Rightarrow> sscalar \<Rightarrow> bool" where
  "scalar_cut sp (SString s) \<longleftrightarrow> s \<in> set (vs_strings sp)"
| "scalar_cut sp (SInt n) \<longleftrightarrow> n \<in> set (vs_integers sp)"
| "scalar_cut sp (SBool _) \<longleftrightarrow> True"

fun pred_cut :: "variable_spec \<Rightarrow> pred \<Rightarrow> bool" where
  "pred_cut sp (PEq _ v) \<longleftrightarrow> scalar_cut sp v"
| "pred_cut sp (PLte _ n) \<longleftrightarrow> n \<in> set (vs_integers sp)"
| "pred_cut sp (PGte _ n) \<longleftrightarrow> n \<in> set (vs_integers sp)"
| "pred_cut sp (PIn _ vs) \<longleftrightarrow> (\<forall>v \<in> set vs. scalar_cut sp v)"

lemma scalar_const_on_atom:
  assumes "atom \<in> set (atoms sp)" "spec_wf sp" "vs_kind sp \<noteq> None"
    and "atom_holds (vs_strings sp) atom (Some x)" "scalar_cut sp s"
  shows "scalar_matches s x \<longleftrightarrow> (case atom of AStr t \<Rightarrow> s = SString t | AIntRange lo _ \<Rightarrow> s = SInt lo
      | ABool b \<Rightarrow> s = SBool b | _ \<Rightarrow> False)"
proof (cases atom)
  case (AIntRange lo hi)
  then have "AIntRange lo hi \<in> set (int_atoms i64_min (vs_integers sp))"
    using assms(1,3) by (auto simp: atoms_def split: option.splits scalar_kind.splits)
  from int_atoms_bounds[OF this _ spec_ints[OF assms(2)]] have
    "\<forall>q \<in> set (vs_integers sp). q < lo \<or> hi < q \<or> (lo = q \<and> hi = q)" by (simp add: i64_min_def i64_max_def)
  then show ?thesis using AIntRange assms(4,5) by (cases s) force+
next
  case AAnyPresent
  then show ?thesis using assms(1,3) by (auto simp: atoms_def dest: int_atoms_form split: option.splits scalar_kind.splits)
qed (use assms(4,5) in \<open>cases s; auto\<close>)+

lemma pred_const_on_atom:
  assumes "atom \<in> set (atoms sp)" "spec_wf sp" "vs_kind sp \<noteq> None"
    and "atom_holds (vs_strings sp) atom v" "pred_cut sp p"
  shows "symbolic_atom_matches_pred atom p \<longleftrightarrow> (case v of None \<Rightarrow> False | Some x \<Rightarrow> pred_matches p x)"
proof (cases v)
  case None
  with assms(4) have "atom = AAbsent" by (cases atom) auto
  with None show ?thesis by simp
next
  case (Some x)
  note const = scalar_const_on_atom[OF assms(1-3) assms(4)[unfolded Some]]
  show ?thesis
  proof (cases p)
    case (PEq f s)
    then show ?thesis using const[of s] assms(5) Some by (cases atom) simp_all
  next
    case (PIn f ss)
    have "list_ex (\<lambda>s. scalar_matches s x) ss \<longleftrightarrow> list_ex (\<lambda>s. case atom of AStr t \<Rightarrow> s = SString t
        | AIntRange lo _ \<Rightarrow> s = SInt lo | ABool b \<Rightarrow> s = SBool b | _ \<Rightarrow> False) ss"
      using const assms(5) PIn by (auto simp: list_ex_iff)
    then show ?thesis using PIn Some by (cases atom) (simp_all add: list_ex_iff)
  next
    case (PLte f n)
    show ?thesis
    proof (cases atom)
      case (AIntRange lo hi)
      then have "AIntRange lo hi \<in> set (int_atoms i64_min (vs_integers sp))"
        using assms(1,3) by (auto simp: atoms_def split: option.splits scalar_kind.splits)
      from int_atoms_bounds[OF this _ spec_ints[OF assms(2)]] have
        "n < lo \<or> hi < n \<or> (lo = n \<and> hi = n)" using PLte assms(5) by (simp add: i64_min_def i64_max_def)
      then show ?thesis using PLte AIntRange Some assms(4) by auto
    next
      case AAnyPresent
      then show ?thesis using assms(1,3)
        by (auto simp: atoms_def dest: int_atoms_form split: option.splits scalar_kind.splits)
    qed (use PLte Some assms(4) in auto)
  next
    case (PGte f n)
    show ?thesis
    proof (cases atom)
      case (AIntRange lo hi)
      then have "AIntRange lo hi \<in> set (int_atoms i64_min (vs_integers sp))"
        using assms(1,3) by (auto simp: atoms_def split: option.splits scalar_kind.splits)
      from int_atoms_bounds[OF this _ spec_ints[OF assms(2)]] have
        "n < lo \<or> hi < n \<or> (lo = n \<and> hi = n)" using PGte assms(5) by (simp add: i64_min_def i64_max_def)
      then show ?thesis using PGte AIntRange Some assms(4) by auto
    next
      case AAnyPresent
      then show ?thesis using assms(1,3)
        by (auto simp: atoms_def dest: int_atoms_form split: option.splits scalar_kind.splits)
    qed (use PGte Some assms(4) in auto)
  qed
qed

lemma atom_holds_contains: "atom_holds ss atom (Some x) \<Longrightarrow> atom_contains_scalar atom x"
  by (cases atom; cases x) auto

text \<open>The first atom that contains a constant of the specification is the exact one.\<close>

lemma first_known_atom:
  assumes "spec_wf sp" "vs_kind sp = Some (rscalar_kind x)" "scalar_cut sp (case x of RStr s \<Rightarrow> SString s
      | RInt n \<Rightarrow> SInt n | RBool b \<Rightarrow> SBool b)"
    and "k < length (atoms sp)" "atom_contains_scalar (atoms sp ! k) x"
    and "\<forall>m < k. \<not> atom_contains_scalar (atoms sp ! m) x"
  shows "symbolic_atom_exact_json (atoms sp ! k) = Some (to_json x)"
    and "atom_holds ss (atoms sp ! k) v \<longleftrightarrow> v = Some x"
proof -
  have mem: "atoms sp ! k \<in> set (atoms sp)" using assms(4) by simp
  have "symbolic_atom_exact_json (atoms sp ! k) = Some (to_json x) \<and> (\<forall>v. atom_holds ss (atoms sp ! k) v \<longleftrightarrow> v = Some x)"
  proof (cases x)
    case (RStr s)
    obtain j where j: "j < length (vs_strings sp)" "vs_strings sp ! j = s"
      using assms(3) RStr by (auto simp: in_set_conv_nth)
    have at: "atoms sp = AAbsent # map AStr (vs_strings sp) @ [AStrOther]" using assms(2) RStr by (simp add: atoms_def)
    have "atom_contains_scalar (atoms sp ! Suc j) x" using at j RStr by (simp add: nth_append)
    then have "k \<le> Suc j" using assms(6) not_less by blast
    then have "atoms sp ! k \<in> {AAbsent} \<union> AStr ` set (vs_strings sp)"
      using at j(1) by (cases k) (auto simp: nth_append)
    with assms(5) RStr show ?thesis by auto
  next
    case (RInt n)
    with assms(2,5) mem obtain lo hi where a: "atoms sp ! k = AIntRange lo hi" "lo \<le> n" "n \<le> hi"
      by (cases "atoms sp ! k") (auto simp: atoms_def dest: int_atoms_form)
    then have "AIntRange lo hi \<in> set (int_atoms i64_min (vs_integers sp))"
      using mem assms(2) RInt by (auto simp: atoms_def)
    from int_atoms_bounds[OF this _ spec_ints[OF assms(1)]] have "lo = n \<and> hi = n"
      using a(2,3) assms(3) RInt by (force simp: i64_min_def i64_max_def)
    with a RInt show ?thesis by auto
  next
    case (RBool b)
    with assms(2,5) mem show ?thesis by (auto simp: atoms_def)
  qed
  then show "symbolic_atom_exact_json (atoms sp ! k) = Some (to_json x)"
    "atom_holds ss (atoms sp ! k) v \<longleftrightarrow> v = Some x" by auto
qed

lemma exact_json_value: "atom_holds ss atom (Some x) \<Longrightarrow> symbolic_atom_exact_json atom = Some j \<Longrightarrow> j = to_json x"
  by (cases atom) (auto split: if_splits)

end
