(* ===== verification/Discovery_Sound.thy ===== *)
theory Discovery_Sound
  imports Discovery_Meaning
begin

text \<open>
  The discovery projection against the evaluator. The shape loop only refines the specification of a
  variable; once it has run, every predicate of every shape is constant on the atoms of its variable.
  A point of the base box that satisfies the rules is then a completion of the shapes that the
  evaluator allows, and on closed contracts every allowed completion is such a point.
\<close>

section \<open>How specifications grow\<close>

definition spec_le :: "variable_spec \<Rightarrow> variable_spec \<Rightarrow> bool" where
  "spec_le sp sp' \<longleftrightarrow> (vs_kind sp \<noteq> None \<longrightarrow> vs_kind sp' = vs_kind sp) \<and>
     set (vs_strings sp) \<subseteq> set (vs_strings sp') \<and> set (vs_integers sp) \<subseteq> set (vs_integers sp')"

lemma spec_le_refl [simp]: "spec_le sp sp"
  by (simp add: spec_le_def)

lemma spec_le_kind: "spec_le sp sp' \<Longrightarrow> vs_kind sp = Some k \<Longrightarrow> vs_kind sp' = Some k"
  by (simp add: spec_le_def)

lemma spec_le_trans [trans]: "spec_le a b \<Longrightarrow> spec_le b d \<Longrightarrow> spec_le a d"
  by (auto simp: spec_le_def)

lemma scalar_cut_mono: "spec_le sp sp' \<Longrightarrow> scalar_cut sp s \<Longrightarrow> scalar_cut sp' s"
  by (cases s) (auto simp: spec_le_def)

lemma pred_cut_mono: "spec_le sp sp' \<Longrightarrow> pred_cut sp p \<Longrightarrow> pred_cut sp' p"
proof (cases p)
  case (PLte f n)
  then show "spec_le sp sp' \<Longrightarrow> pred_cut sp p \<Longrightarrow> pred_cut sp' p" by (auto simp: spec_le_def)
next
  case (PGte f n)
  then show "spec_le sp sp' \<Longrightarrow> pred_cut sp p \<Longrightarrow> pred_cut sp' p" by (auto simp: spec_le_def)
qed (auto dest: scalar_cut_mono)

fun scalar_in_range :: "sscalar \<Rightarrow> bool" where
  "scalar_in_range (SInt n) = in_i64 n"
| "scalar_in_range _ = True"

fun pred_in_range :: "pred \<Rightarrow> bool" where
  "pred_in_range (PEq _ v) = scalar_in_range v"
| "pred_in_range (PLte _ n) = in_i64 n"
| "pred_in_range (PGte _ n) = in_i64 n"
| "pred_in_range (PIn _ vs) = list_all scalar_in_range vs"

lemma strict_insort_insert:
  "sorted_wrt (<) (xs :: 'a::linorder list) \<Longrightarrow> sorted_wrt (<) (insort_insert x xs)"
  by (simp add: strict_sorted_iff sorted_insort_insert distinct_insort_insert)

text \<open>One step of a growing specification: it refines, and it keeps the kind and well-formedness.\<close>

definition grows :: "variable_spec \<Rightarrow> variable_spec \<Rightarrow> bool" where
  "grows sp sp' \<longleftrightarrow> spec_le sp sp' \<and> vs_kind sp' = vs_kind sp"

lemma grows_trans: "grows a b \<Longrightarrow> grows b d \<Longrightarrow> grows a d"
  using spec_le_trans by (auto simp: grows_def)

lemma grows_insert:
  "grows sp (sp\<lparr>vs_strings := insort_insert s (vs_strings sp)\<rparr>)"
  "grows sp (sp\<lparr>vs_integers := insort_insert n (vs_integers sp)\<rparr>)"
  "grows sp sp"
  by (auto simp: grows_def spec_le_def set_insort_insert)

lemma spec_wf_insert:
  "spec_wf sp \<Longrightarrow> spec_wf (sp\<lparr>vs_strings := insort_insert s (vs_strings sp)\<rparr>)"
  "spec_wf sp \<Longrightarrow> in_i64 n \<Longrightarrow> spec_wf (sp\<lparr>vs_integers := insort_insert n (vs_integers sp)\<rparr>)"
  by (auto simp: spec_wf_def set_insort_insert strict_insort_insert)

lemma add_scalar_grows: "grows sp (add_sentence_scalar s sp)" "scalar_cut (add_sentence_scalar s sp) s"
  "spec_wf sp \<Longrightarrow> scalar_in_range s \<Longrightarrow> spec_wf (add_sentence_scalar s sp)"
  by (cases s; simp add: grows_insert spec_wf_insert set_insort_insert)+

lemma add_scalars_grow: "grows sp (fold add_sentence_scalar ss sp)"
  by (induction ss arbitrary: sp) (auto simp: grows_insert intro: grows_trans add_scalar_grows)

lemma add_scalars_cut: "s \<in> set ss \<Longrightarrow> scalar_cut (fold add_sentence_scalar ss sp) s"
proof (induction ss arbitrary: sp)
  case (Cons s' ss)
  have "spec_le (add_sentence_scalar s' sp) (fold add_sentence_scalar ss (add_sentence_scalar s' sp))"
    using add_scalars_grow by (simp add: grows_def)
  with Cons show ?case using add_scalar_grows(2) scalar_cut_mono by auto
qed simp

lemma add_scalars_wf:
  "spec_wf sp \<Longrightarrow> list_all scalar_in_range ss \<Longrightarrow> spec_wf (fold add_sentence_scalar ss sp)"
  by (induction ss arbitrary: sp) (auto intro: add_scalar_grows)

lemma add_predicate_grows: "grows sp (add_predicate p sp)" "pred_cut (add_predicate p sp) p"
  "spec_wf sp \<Longrightarrow> pred_in_range p \<Longrightarrow> spec_wf (add_predicate p sp)"
  by (cases p; simp add: grows_insert spec_wf_insert set_insort_insert add_scalar_grows add_scalars_grow
      add_scalars_cut add_scalars_wf)+

lemma add_predicates_grow: "grows sp (fold add_predicate ps sp)"
  by (induction ps arbitrary: sp) (auto simp: grows_insert intro: grows_trans add_predicate_grows)

lemma add_predicates_cut: "p \<in> set ps \<Longrightarrow> pred_cut (fold add_predicate ps sp) p"
proof (induction ps arbitrary: sp)
  case (Cons q ps)
  have "spec_le (add_predicate q sp) (fold add_predicate ps (add_predicate q sp))"
    using add_predicates_grow by (simp add: grows_def)
  with Cons show ?case using add_predicate_grows(2) pred_cut_mono by auto
qed simp

lemma add_predicates_wf: "spec_wf sp \<Longrightarrow> list_all pred_in_range ps \<Longrightarrow> spec_wf (fold add_predicate ps sp)"
  by (induction ps arbitrary: sp) (auto intro: add_predicate_grows)

fun sentence_of :: "rscalar \<Rightarrow> sscalar" where
  "sentence_of (RStr s) = SString s"
| "sentence_of (RInt n) = SInt n"
| "sentence_of (RBool b) = SBool b"

lemma add_scalar_sentence: "add_scalar x = add_sentence_scalar (sentence_of x)"
  by (cases x) auto

lemma constrain_predicates_spec:
  "constrain_predicates ps sp = Some sp' \<Longrightarrow> spec_le sp sp' \<and> (spec_wf sp \<longrightarrow> spec_wf sp')"
proof (induction ps arbitrary: sp)
  case (Cons p ps)
  show ?case
  proof (cases "predicate_kind p")
    case (Some k)
    with Cons.prems obtain sp1 where sp1: "constrain_kind k sp = Some sp1" "constrain_predicates ps sp1 = Some sp'"
      by (auto simp: bind_eq_Some_conv)
    then have "spec_le sp sp1" "spec_wf sp \<longrightarrow> spec_wf sp1"
      by (auto simp: constrain_kind_def spec_le_def spec_wf_def split: if_splits)
    with Cons.IH[OF sp1(2)] show ?thesis using spec_le_trans by blast
  qed (use Cons in simp)
qed simp

lemma extend_spec_spec:
  assumes "extend_spec kind known preds sp = Some sp'"
  shows "spec_le sp sp'" "\<forall>p \<in> set preds. pred_cut sp' p" "kind \<noteq> None \<Longrightarrow> vs_kind sp' = kind"
    and "known = Some x \<Longrightarrow> scalar_cut sp' (sentence_of x)"
    and "spec_wf sp \<Longrightarrow> list_all pred_in_range preds \<Longrightarrow> (\<forall>x. known = Some x \<longrightarrow> rscalar_ok x) \<Longrightarrow> spec_wf sp'"
proof -
  from assms obtain sp1 sp2 where
    1: "(case kind of None \<Rightarrow> Some sp | Some k \<Rightarrow> constrain_kind k sp) = Some sp1" and
    2: "constrain_predicates preds sp1 = Some sp2" and
    3: "sp' = fold add_predicate preds (case known of None \<Rightarrow> sp2 | Some v \<Rightarrow> add_scalar v sp2)"
    by (auto simp: extend_spec_def bind_eq_Some_conv)
  define sp3 where "sp3 = (case known of None \<Rightarrow> sp2 | Some v \<Rightarrow> add_scalar v sp2)"
  have le1: "spec_le sp sp1" "spec_wf sp \<Longrightarrow> spec_wf sp1" "kind \<noteq> None \<Longrightarrow> vs_kind sp1 = kind"
    using 1 by (auto simp: constrain_kind_def spec_le_def spec_wf_def split: if_splits option.splits)
  have le2: "spec_le sp1 sp2" "spec_wf sp1 \<Longrightarrow> spec_wf sp2" using constrain_predicates_spec[OF 2] by auto
  have le3: "spec_le sp2 sp3" "vs_kind sp3 = vs_kind sp2"
    using add_scalar_grows(1) by (auto simp: sp3_def add_scalar_sentence grows_def split: option.splits)
  have le4: "spec_le sp3 sp'" "vs_kind sp' = vs_kind sp3"
    using add_predicates_grow 3 by (auto simp: sp3_def grows_def)
  show "spec_le sp sp'" using le1 le2 le3 le4 spec_le_trans by blast
  show "\<forall>p \<in> set preds. pred_cut sp' p" using add_predicates_cut 3 by auto
  show "vs_kind sp' = kind" if "kind \<noteq> None"
    using le1(3)[OF that] le2(1) le3(2) le4(2) that by (simp add: spec_le_def)
  show "scalar_cut sp' (sentence_of x)" if "known = Some x"
    using that scalar_cut_mono[OF le4(1)] add_scalar_grows(2) by (simp add: sp3_def add_scalar_sentence)
  assume wf: "spec_wf sp" "list_all pred_in_range preds" "\<forall>x. known = Some x \<longrightarrow> rscalar_ok x"
  have "scalar_in_range (sentence_of x)" if "rscalar_ok x" for x using that by (cases x) auto
  with wf have "spec_wf sp3" using le1(2) le2(2) add_scalar_grows(3)
    by (auto simp: sp3_def add_scalar_sentence split: option.splits)
  with wf(2) show "spec_wf sp'" using add_predicates_wf 3 by (simp add: sp3_def)
qed

section \<open>What the shape loop prepares\<close>

definition specs_le :: "specs \<Rightarrow> specs \<Rightarrow> bool" where
  "specs_le m m' \<longleftrightarrow> (\<forall>v sp. map_of m v = Some sp \<longrightarrow> (\<exists>sp'. map_of m' v = Some sp' \<and> spec_le sp sp'))"

definition specs_wf :: "specs \<Rightarrow> bool" where
  "specs_wf m \<longleftrightarrow> bt_wf m \<and> (\<forall>v sp. map_of m v = Some sp \<longrightarrow> spec_wf sp)"

lemma specs_le_refl [simp]: "specs_le m m"
  by (simp add: specs_le_def)

lemma specs_le_trans: "specs_le a b \<Longrightarrow> specs_le b d \<Longrightarrow> specs_le a d"
  unfolding specs_le_def using spec_le_trans by meson

definition known_value :: "action_contract \<Rightarrow> resource_shape \<Rightarrow> string \<Rightarrow> rscalar option" where
  "known_value c shape f = Option.bind (map_of (shp_known shape) f) (decode_known c f)"

definition field_preds :: "rule list \<Rightarrow> string \<Rightarrow> pred list" where
  "field_preds rules f = filter (\<lambda>p. pred_field p = f) (all_conjuncts rules)"

definition field_ready :: "action_contract \<Rightarrow> rule list \<Rightarrow> resource_shape \<Rightarrow> string \<Rightarrow> variable_spec \<Rightarrow> bool" where
  "field_ready c rules shape f sp \<longleftrightarrow>
     (\<forall>p \<in> set (field_preds rules f). pred_cut sp p) \<and>
     (field_preds rules f \<noteq> [] \<longrightarrow> vs_kind sp \<noteq> None) \<and>
     (\<forall>k. field_kind c f = Some k \<longrightarrow> vs_kind sp = Some k) \<and>
     (\<forall>x. known_value c shape f = Some x \<longrightarrow>
            scalar_cut sp (sentence_of x) \<and> vs_kind sp = Some (rscalar_kind x)) \<and>
     (bt_has (shp_known shape) f \<longrightarrow> known_value c shape f \<noteq> None)"

lemma field_ready_mono:
  assumes "spec_le sp sp'" "field_ready c rules shape f sp"
  shows "field_ready c rules shape f sp'"
proof -
  note kind = spec_le_kind[OF assms(1)] and cut = pred_cut_mono[OF assms(1)] scalar_cut_mono[OF assms(1)]
  show ?thesis using assms(2) kind cut unfolding field_ready_def by auto
qed

lemma decode_known_Some:
  "decode_known c f j = Some x \<Longrightarrow> rscalar_ok x \<and> j = to_json x \<and> (\<forall>k. field_kind c f = Some k \<longrightarrow> rscalar_kind x = k)"
  by (auto simp: decode_known_def field_kind_def from_json_Ok infer_Ok split: option.splits if_splits sum.splits)

lemma known_value_Some:
  "known_value c shape f = Some x \<Longrightarrow> rscalar_ok x \<and> map_of (shp_known shape) f = Some (to_json x) \<and>
     (\<forall>k. field_kind c f = Some k \<longrightarrow> rscalar_kind x = k)"
  by (auto simp: known_value_def bind_eq_Some_conv dest: decode_known_Some)

definition specs_ready :: "action_contract \<Rightarrow> rule list \<Rightarrow> resource_shape \<Rightarrow> nat \<Rightarrow> specs \<Rightarrow> string \<Rightarrow> bool" where
  "specs_ready c rules shape k m f \<longleftrightarrow>
     (\<exists>sp. map_of m (field_variable shape k f) = Some sp \<and> field_ready c rules shape f sp)"

lemma specs_ready_mono: "specs_le m m' \<Longrightarrow> specs_ready c rules shape k m f \<Longrightarrow> specs_ready c rules shape k m' f"
  unfolding specs_ready_def specs_le_def using field_ready_mono by blast

lemma field_step_spec:
  assumes "field_step c rules shape k f m = Some (m', v, b)" "specs_wf m"
    and "list_all pred_in_range (all_conjuncts rules)"
  shows "specs_wf m'" "specs_le m m'" "specs_ready c rules shape k m' f"
    and "v = field_variable shape k f" "b = symbolic_base_of c shape f (known_value c shape f)"
proof -
  let ?old = "case map_of m v of None \<Rightarrow> empty_spec | Some sp \<Rightarrow> sp"
  let ?kind = "symbolic_kind c f (known_value c shape f) (field_preds rules f)"
  from assms(1) obtain sp where
    v: "v = field_variable shape k f" and
    known: "\<not> (bt_has (shp_known shape) f \<and> known_value c shape f = None)" and
    kind: "\<not> (field_preds rules f \<noteq> [] \<and> ?kind = None)" and
    sp: "extend_spec ?kind (known_value c shape f) (field_preds rules f) ?old = Some sp" and
    m': "m' = bt_insert v sp m" and b: "b = symbolic_base_of c shape f (known_value c shape f)"
    by (auto simp: field_step_def Let_def known_value_def field_preds_def split: if_splits)
  note ext = extend_spec_spec[OF sp]
  have bt: "bt_wf m" using assms(2) by (simp add: specs_wf_def)
  have old: "spec_wf ?old" using assms(2)
    by (cases "map_of m v") (simp_all add: specs_wf_def spec_wf_def empty_spec_def)
  have ranges: "list_all pred_in_range (field_preds rules f)"
    using assms(3) by (auto simp: field_preds_def list_all_iff)
  show "v = field_variable shape k f" "b = symbolic_base_of c shape f (known_value c shape f)" by fact+
  show "specs_wf m'" using ext(5)[OF old ranges] known_value_Some assms(2) bt
    by (auto simp: specs_wf_def m')
  show "specs_le m m'" using ext(1) bt by (auto simp: specs_le_def m')
  have "vs_kind sp = Some (rscalar_kind x)" if "known_value c shape f = Some x" for x
    using ext(3) known_value_Some[OF that] that
    by (cases "field_kind c f") (simp_all add: symbolic_kind_def)
  moreover have "vs_kind sp = Some k" if "field_kind c f = Some k" for k
    using ext(3) that by (simp add: symbolic_kind_def)
  ultimately have "field_ready c rules shape f sp"
    using ext(2,3,4) known kind by (auto simp: field_ready_def)
  then show "specs_ready c rules shape k m' f" using bt by (simp add: specs_ready_def m' v)
qed

lemma fields_loop_spec:
  assumes "fields_loop c rules shape k fs m = Some (m', fvs, bases)" "specs_wf m"
    and "list_all pred_in_range (all_conjuncts rules)"
  shows "specs_wf m' \<and> specs_le m m' \<and> (\<forall>f \<in> set fs. specs_ready c rules shape k m' f) \<and>
    fvs = map (\<lambda>f. (f, field_variable shape k f)) fs \<and>
    bases = map (\<lambda>f. (field_variable shape k f, symbolic_base_of c shape f (known_value c shape f))) fs"
  using assms(1,2)
proof (induction fs arbitrary: m fvs bases)
  case (Cons f fs)
  then obtain m1 v b fvs1 bases1 where
    step: "field_step c rules shape k f m = Some (m1, v, b)" and
    rest: "fields_loop c rules shape k fs m1 = Some (m', fvs1, bases1)" and
    out: "fvs = (f, v) # fvs1" "bases = (v, b) # bases1"
    by (auto split: option.splits)
  note one = field_step_spec[OF step Cons.prems(2) assms(3)]
  note IH = Cons.IH[OF rest one(1)]
  have "specs_le m m'" using IH one(2) specs_le_trans by blast
  moreover have "specs_ready c rules shape k m' f" using IH one(3) specs_ready_mono by blast
  ultimately show ?case using IH one(4,5) by (simp add: out)
qed simp

definition pending_ok :: "evaluator \<Rightarrow> rule_set \<Rightarrow> specs \<Rightarrow> nat \<Rightarrow> resource_shape \<Rightarrow> pending_shape \<Rightarrow> bool" where
  "pending_ok ev rules m k shape pn \<longleftrightarrow>
     (\<exists>c prs. projected_discovery_rules ev rules (shp_provider shape) (shp_action shape) = Some (c, prs) \<and>
        shape_fits c prs shape \<and> pn_rules pn = prs \<and>
        (\<forall>f \<in> set (relevant_fields c prs shape). specs_ready c prs shape k m f) \<and>
        pn_field_variables pn = map (\<lambda>f. (f, field_variable shape k f)) (relevant_fields c prs shape) \<and>
        pn_bases pn = map (\<lambda>f. (field_variable shape k f, symbolic_base_of c shape f (known_value c shape f)))
                        (relevant_fields c prs shape))"

lemma pending_ok_mono: "specs_le m m' \<Longrightarrow> pending_ok ev rules m k shape pn \<Longrightarrow> pending_ok ev rules m' k shape pn"
  unfolding pending_ok_def using specs_ready_mono by blast

definition rules_in_range :: "rule_set \<Rightarrow> bool" where
  "rules_in_range rules = list_all pred_in_range (all_conjuncts (rs_rules rules))"

lemma project_all_subset:
  "project_all ev c p a rs = Some prs \<Longrightarrow> set (all_conjuncts prs) \<subseteq> set (all_conjuncts rs)"
proof (induction rs arbitrary: prs)
  case (Cons r rs)
  show ?case
  proof (cases "selector_may_cover ev (r_selector r) p a")
    case True
    with Cons.prems obtain pr prs' where pr: "project_rule ev r p a = Some pr" "project_all ev c p a rs = Some prs'"
      "prs = pr_rule pr # prs'" by (auto split: option.splits if_splits)
    then show ?thesis using projected_subset[OF pr(1)] Cons.IH[OF pr(2)] by (auto simp: all_conjuncts_def)
  next
    case False
    then show ?thesis using Cons by (auto simp: all_conjuncts_def)
  qed
qed (simp add: all_conjuncts_def)

lemma projected_in_range:
  "rules_in_range rules \<Longrightarrow> projected_discovery_rules ev rules p a = Some (c, prs) \<Longrightarrow>
   list_all pred_in_range (all_conjuncts prs)"
  by (auto simp: rules_in_range_def projected_discovery_rules_def list_all_iff
      split: if_splits option.splits dest!: project_all_subset)

lemma shapes_loop_spec:
  assumes "shapes_loop ev rules k shapes m = Some (m', pending)" "specs_wf m" "rules_in_range rules"
  shows "specs_wf m' \<and> specs_le m m' \<and> length pending = length shapes \<and>
    (\<forall>i < length shapes. pending_ok ev rules m' (k + i) (shapes ! i) (pending ! i))"
  using assms(1,2)
proof (induction shapes arbitrary: k m pending)
  case (Cons shape shapes)
  obtain c prs where prs: "projected_discovery_rules ev rules (shp_provider shape) (shp_action shape) = Some (c, prs)"
    using Cons.prems(1) by (auto split: option.splits)
  then obtain m1 fvs bases pending1 where
    fits: "shape_fits c prs shape" and
    loop: "fields_loop c prs shape k (relevant_fields c prs shape) m = Some (m1, fvs, bases)" and
    rest: "shapes_loop ev rules (Suc k) shapes m1 = Some (m', pending1)" and
    out: "pending = \<lparr>pn_provider = shp_provider shape, pn_action = shp_action shape, pn_rules = prs,
      pn_field_variables = fvs, pn_bases = bases\<rparr> # pending1"
    using Cons.prems(1) by (auto split: option.splits if_splits)
  note one = fields_loop_spec[OF loop Cons.prems(2) projected_in_range[OF assms(3) prs]]
  then have IH: "specs_wf m' \<and> specs_le m1 m' \<and> length pending1 = length shapes \<and>
      (\<forall>i < length shapes. pending_ok ev rules m' (Suc k + i) (shapes ! i) (pending1 ! i))"
    using Cons.IH[OF rest] by blast
  have "pending_ok ev rules m1 k shape (pending ! 0)"
    unfolding pending_ok_def using prs fits one by (simp add: out)
  then have first: "pending_ok ev rules m' k shape (pending ! 0)" using IH pending_ok_mono by blast
  have le: "specs_le m m'" using IH one specs_le_trans by blast
  have "pending_ok ev rules m' (k + i) ((shape # shapes) ! i) (pending ! i)" if "i < Suc (length shapes)" for i
    using that first IH by (cases i) (simp_all add: out)
  with IH le show ?case by (simp add: out)
qed simp

section \<open>Points and values\<close>

lemma variable_index_iff:
  assumes "bt_wf m"
  shows "variable_index m v = Some i \<longleftrightarrow> i < length m \<and> fst (m ! i) = v"
proof -
  have "distinct (map fst m)" using assms by (simp add: bt_wf_def strict_sorted_iff)
  then have inj: "i = j" if "i < length m" "j < length m" "fst (m ! i) = fst (m ! j)" for i j
    using that nth_eq_iff_index_eq[of "map fst m" i j] by simp
  then have "\<forall>j < i. fst (m ! j) \<noteq> v" if "i < length m" "fst (m ! i) = v"
    using that by (metis less_trans less_irrefl)
  then show ?thesis by (auto simp: variable_index_def find_index_Some)
qed

lemma variable_index_map_of:
  assumes "bt_wf m"
  shows "map_of m v = Some sp \<longleftrightarrow> (\<exists>i. variable_index m v = Some i \<and> m ! i = (v, sp))"
proof -
  have "distinct (map fst m)" using assms by (simp add: bt_wf_def strict_sorted_iff)
  then show ?thesis
    by (auto simp: variable_index_iff[OF assms] map_of_eq_Some_iff in_set_conv_nth)
qed

text \<open>
  A point and a valuation of the variables agree when each variable's value lies in its atom; a point
  is the first one when no earlier atom holds of the value.
\<close>

definition agree :: "specs \<Rightarrow> (nat \<Rightarrow> nat) \<Rightarrow> (string \<Rightarrow> rscalar option) \<Rightarrow> bool" where
  "agree m pt val \<longleftrightarrow> (\<forall>v sp i. variable_index m v = Some i \<longrightarrow> m ! i = (v, sp) \<longrightarrow>
     pt i < length (atoms sp) \<and> atom_holds (vs_strings sp) (atoms sp ! pt i) (val v) \<and> value_fits sp (val v))"

definition first_point :: "specs \<Rightarrow> (nat \<Rightarrow> nat) \<Rightarrow> (string \<Rightarrow> rscalar option) \<Rightarrow> bool" where
  "first_point m pt val \<longleftrightarrow> (\<forall>v sp i. variable_index m v = Some i \<longrightarrow> m ! i = (v, sp) \<longrightarrow>
     (\<forall>k < pt i. \<not> atom_holds (vs_strings sp) (atoms sp ! k) (val v)))"

abbreviation universes :: "specs \<Rightarrow> symbolic_atom list list" where
  "universes m \<equiv> map (\<lambda>(v, sp). atoms sp) m"

definition whole :: "specs \<Rightarrow> symbolic_region" where
  "whole m = map (\<lambda>atms. {0..<length atms}) (universes m)"

lemma atoms_nonempty [simp]: "atoms sp \<noteq> []" "atoms sp ! 0 = AAbsent"
  by (simp_all add: atoms_def)

lemma box_whole: "box (length m) (whole m)"
  by (auto simp: box_def whole_def split_beta)

lemma inside_whole:
  "inside pt (whole m) \<longleftrightarrow> (\<forall>i < length m. pt i < length (atoms (snd (m ! i))))"
  by (simp add: inside_def whole_def split_beta)

lemma point_has_values:
  assumes "specs_wf m" "inside pt (whole m)"
  shows "\<exists>val. agree m pt val"
proof -
  have bt: "bt_wf m" using assms(1) by (simp add: specs_wf_def)
  have "\<exists>x. \<forall>i sp. variable_index m v = Some i \<longrightarrow> m ! i = (v, sp) \<longrightarrow>
      pt i < length (atoms sp) \<and> atom_holds (vs_strings sp) (atoms sp ! pt i) x \<and> value_fits sp x" for v
  proof (cases "map_of m v")
    case None
    then show ?thesis using variable_index_map_of[OF bt] by (metis option.distinct(1))
  next
    case (Some sp)
    then obtain i where i: "variable_index m v = Some i" "m ! i = (v, sp)"
      using variable_index_map_of[OF bt] by blast
    then have "i < length m" using variable_index_iff[OF bt] by blast
    then have k: "pt i < length (atoms sp)" using assms(2) i(2) by (auto simp: inside_whole)
    have "spec_wf sp" using assms(1) Some by (simp add: specs_wf_def)
    with k obtain x where "atom_holds (vs_strings sp) (atoms sp ! pt i) x \<and> value_fits sp x"
      using atom_inhabited nth_mem by blast
    with i k show ?thesis by (intro exI[of _ x]) simp
  qed
  then show ?thesis unfolding agree_def by metis
qed

lemma values_have_point:
  assumes "specs_wf m" "\<forall>v sp. map_of m v = Some sp \<longrightarrow> value_fits sp (val v)"
  shows "\<exists>pt. agree m pt val \<and> first_point m pt val \<and> inside pt (whole m)"
proof -
  have bt: "bt_wf m" using assms(1) by (simp add: specs_wf_def)
  define holds where "holds i k \<longleftrightarrow> k < length (atoms (snd (m ! i))) \<and>
      atom_holds (vs_strings (snd (m ! i))) (atoms (snd (m ! i)) ! k) (val (fst (m ! i)))" for i k
  define pt where "pt i = (LEAST k. holds i k)" for i
  have ex: "\<exists>k. holds i k" if "i < length m" for i
  proof -
    have "map_of m (fst (m ! i)) = Some (snd (m ! i))"
      using that variable_index_map_of[OF bt, of "fst (m ! i)"] variable_index_iff[OF bt] by auto
    then have "value_fits (snd (m ! i)) (val (fst (m ! i)))" "spec_wf (snd (m ! i))"
      using assms by (auto simp: specs_wf_def)
    from atoms_cover[OF this] show ?thesis by (auto simp: holds_def)
  qed
  have pt: "holds i (pt i)" if "i < length m" for i
    unfolding pt_def using ex[OF that] by (rule LeastI_ex)
  have least: "\<not> holds i k" if "k < pt i" for i k using that not_less_Least unfolding pt_def by blast
  have index: "i < length m \<and> fst (m ! i) = v \<and> snd (m ! i) = sp \<and> map_of m v = Some sp"
    if "variable_index m v = Some i" "m ! i = (v, sp)" for v sp i
    using that variable_index_iff[OF bt] variable_index_map_of[OF bt] by auto
  have "agree m pt val" unfolding agree_def using pt index assms(2) by (metis holds_def)
  moreover have "first_point m pt val" unfolding first_point_def
  proof (intro allI impI)
    fix v sp i k
    assume "variable_index m v = Some i" "m ! i = (v, sp)" "k < pt i"
    then show "\<not> atom_holds (vs_strings sp) (atoms sp ! k) (val v)"
      using index[of v i sp] pt[of i] least[of k i] by (auto simp: holds_def)
  qed
  moreover have "inside pt (whole m)" using pt by (auto simp: inside_whole holds_def)
  ultimately show ?thesis by blast
qed

section \<open>Completions\<close>

text \<open>
  What a shape asks of the value of one field: a known field carries its decoded value, which the
  provider accepts unless the broker resolves it; an unknown field has its declared kind and is
  present when it is required or guaranteed; any other field is absent.
\<close>

definition field_completed :: "evaluator \<Rightarrow> action_contract \<Rightarrow> resource_shape \<Rightarrow> string \<Rightarrow> rscalar option \<Rightarrow> bool" where
  "field_completed ev c shape f x \<longleftrightarrow>
     (\<forall>y. x = Some y \<longrightarrow> rscalar_ok y \<and> (\<forall>k. field_kind c f = Some k \<longrightarrow> rscalar_kind y = k)) \<and>
     (case map_of (shp_known shape) f of
        Some j \<Rightarrow> x \<noteq> None \<and> x = decode_known c f j \<and>
          (f \<in> set (shp_unknown shape) \<or>
           present_field_is_valid (ev_contracts ev) (shp_provider shape) (shp_action shape) f j)
      | None \<Rightarrow>
          if f \<in> set (shp_unknown shape)
          then (\<exists>d. field_decl c f = Some d \<and> fd_required d) \<or> f \<in> set (shp_present shape) \<longrightarrow> x \<noteq> None
          else x = None)"

lemma position_atom_iff:
  "k \<in> position_atom P xs \<longleftrightarrow> k < length xs \<and> P (xs ! k) \<and> (\<forall>j < k. \<not> P (xs ! j))"
proof -
  have "k \<in> position_atom P xs \<longleftrightarrow> find_index P 0 xs = Some k"
    by (auto simp: position_atom_def split: option.splits)
  then show ?thesis by (auto simp: find_index_Some)
qed

lemma sentence_of_cases:
  "(case x of RStr s \<Rightarrow> SString s | RInt n \<Rightarrow> SInt n | RBool b \<Rightarrow> SBool b) = sentence_of x"
  by (cases x) auto

lemma absent_atom: "atom_holds ss atom None \<longleftrightarrow> atom = AAbsent"
  by (cases atom) auto

lemma known_value_None:
  "field_ready c rules shape f sp \<Longrightarrow> known_value c shape f = None \<Longrightarrow> map_of (shp_known shape) f = None"
  by (auto simp: field_ready_def bt_has_def)

lemma field_sound:
  assumes "agree m pt val" "variable_index m v = Some i" "m ! i = (v, sp)" "i < length m"
    and "spec_wf sp" "field_ready c rules shape f sp"
    and "atom_valid ev m (universes m) shape pt (f, v)"
    and "atom_based m (universes m) pt (v, symbolic_base_of c shape f (known_value c shape f))"
  shows "field_completed ev c shape f (val v)"
proof -
  have holds: "pt i < length (atoms sp)" "atom_holds (vs_strings sp) (atoms sp ! pt i) (val v)" "value_fits sp (val v)"
    using assms(1-3) by (auto simp: agree_def)
  have uni: "universes m ! i = atoms sp" using assms(3,4) by simp
  have typed: "\<forall>y. val v = Some y \<longrightarrow> rscalar_ok y \<and> (\<forall>k. field_kind c f = Some k \<longrightarrow> rscalar_kind y = k)"
    using holds(3) assms(6) by (auto simp: value_fits_def field_ready_def)
  have based: "pt i \<in> base_atoms (atoms sp) (symbolic_base_of c shape f (known_value c shape f))"
    using assms(2,8) uni by (simp add: atom_based_def)
  show ?thesis
  proof (cases "known_value c shape f")
    case (Some x)
    then have j: "map_of (shp_known shape) f = Some (to_json x)" "decode_known c f (to_json x) = Some x"
      using known_value_Some[OF Some] by (auto simp: known_value_def)
    have "pt i \<in> position_atom (\<lambda>a. atom_contains_scalar a x) (atoms sp)"
      using based Some by (simp add: symbolic_base_of_def base_atoms_def)
    then have first: "atom_contains_scalar (atoms sp ! pt i) x" "\<forall>k < pt i. \<not> atom_contains_scalar (atoms sp ! k) x"
      by (simp_all add: position_atom_iff)
    have "vs_kind sp = Some (rscalar_kind x)" "scalar_cut sp (sentence_of x)"
      using assms(6) Some by (simp_all add: field_ready_def)
    note exact = first_known_atom[OF assms(5) this(1) _ holds(1) first, unfolded sentence_of_cases, OF this(2)]
    have "val v = Some x" using exact(2) holds(2) by simp
    moreover have "f \<in> set (shp_unknown shape) \<or>
        present_field_is_valid (ev_contracts ev) (shp_provider shape) (shp_action shape) f (to_json x)"
      using assms(2,7) uni exact(1) by (simp add: atom_valid_def)
    ultimately show ?thesis using typed j by (simp add: field_completed_def)
  next
    case None
    note unknown = known_value_None[OF assms(6) None]
    show ?thesis
    proof (cases "f \<in> set (shp_unknown shape)")
      case True
      then have "atoms sp ! pt i = AAbsent \<Longrightarrow> \<not> (\<exists>d. field_decl c f = Some d \<and> fd_required d) \<and> f \<notin> set (shp_present shape)"
        using based None by (auto simp: symbolic_base_of_def base_atoms_def split: option.splits)
      moreover have "val v = None \<Longrightarrow> atoms sp ! pt i = AAbsent" using holds(2) absent_atom by simp
      ultimately show ?thesis using typed unknown True by (auto simp: field_completed_def)
    next
      case False
      then have "atoms sp ! pt i = AAbsent"
        using based None by (simp add: symbolic_base_of_def base_atoms_def position_atom_iff)
      then show ?thesis using unknown False holds(2) by (simp add: field_completed_def)
    qed
  qed
qed

lemma field_complete:
  assumes "agree m pt val" "first_point m pt val" "variable_index m v = Some i" "m ! i = (v, sp)" "i < length m"
    and "spec_wf sp" "field_ready c rules shape f sp" "field_completed ev c shape f (val v)"
  shows "atom_valid ev m (universes m) shape pt (f, v) \<and>
    atom_based m (universes m) pt (v, symbolic_base_of c shape f (known_value c shape f))"
proof -
  have holds: "pt i < length (atoms sp)" "atom_holds (vs_strings sp) (atoms sp ! pt i) (val v)"
    using assms(1,3,4) by (auto simp: agree_def)
  have least: "\<forall>k < pt i. \<not> atom_holds (vs_strings sp) (atoms sp ! k) (val v)"
    using assms(2-4) by (auto simp: first_point_def)
  have uni: "universes m ! i = atoms sp" using assms(4,5) by simp
  let ?b = "symbolic_base_of c shape f (known_value c shape f)"
  have "pt i \<in> base_atoms (atoms sp) ?b \<and> (f \<in> set (shp_unknown shape) \<or>
     (case symbolic_atom_exact_json (atoms sp ! pt i) of None \<Rightarrow> True
      | Some j \<Rightarrow> present_field_is_valid (ev_contracts ev) (shp_provider shape) (shp_action shape) f j))"
  proof (cases "known_value c shape f")
    case (Some x)
    then have j: "map_of (shp_known shape) f = Some (to_json x)" "decode_known c f (to_json x) = Some x"
      using known_value_Some[OF Some] by (auto simp: known_value_def)
    then have x: "val v = Some x" using assms(8) by (simp add: field_completed_def)
    then have "atom_contains_scalar (atoms sp ! pt i) x" using holds(2) atom_holds_contains by auto
    then obtain k where k: "k \<le> pt i" "atom_contains_scalar (atoms sp ! k) x"
      "\<forall>l < k. \<not> atom_contains_scalar (atoms sp ! l) x"
      using exists_least_iff[of "\<lambda>k. atom_contains_scalar (atoms sp ! k) x"] not_less by metis
    have "vs_kind sp = Some (rscalar_kind x)" "scalar_cut sp (sentence_of x)"
      using assms(7) Some by (simp_all add: field_ready_def)
    note exact = first_known_atom[OF assms(6) this(1) _ _ k(2,3), unfolded sentence_of_cases, OF this(2)]
    have "k = pt i" using exact(2) k(1) holds(1) least x by (metis le_neq_implies_less le_less_trans)
    with exact k j holds(1) assms(8) Some show ?thesis
      by (auto simp: symbolic_base_of_def base_atoms_def position_atom_iff field_completed_def)
  next
    case None
    note unknown = known_value_None[OF assms(7) None]
    show ?thesis
    proof (cases "f \<in> set (shp_unknown shape)")
      case True
      then show ?thesis using None unknown assms(8) holds absent_atom
        by (auto simp: symbolic_base_of_def base_atoms_def field_completed_def split: option.splits)
    next
      case False
      then have "val v = None" using unknown assms(8) by (simp add: field_completed_def)
      then have "pt i = 0" using least absent_atom by (metis atoms_nonempty(2) not_gr_zero)
      then show ?thesis using None False
        by (simp add: symbolic_base_of_def base_atoms_def position_atom_iff)
    qed
  qed
  then show ?thesis using assms(3) uni by (auto simp: atom_valid_def atom_based_def)
qed

section \<open>The decision on points\<close>

definition field_indices :: "specs \<Rightarrow> (string \<times> string) list \<Rightarrow> (string \<times> nat) list" where
  "field_indices m fvs = map (\<lambda>(f, v). (f, the (variable_index m v))) fvs"

lemma those_map_Some: "\<forall>x \<in> set xs. g x = Some (h x) \<Longrightarrow> those (map g xs) = Some (map h xs)"
  by (induction xs) auto

lemma indexed_fields_Some:
  assumes "\<forall>(f, v) \<in> set fvs. indexed m n v"
  shows "indexed_fields m fvs = Some (field_indices m fvs)"
  unfolding indexed_fields_def field_indices_def using assms
  by (intro those_map_Some) (auto simp: indexed_def)

lemma field_indices_bound:
  "\<forall>(f, v) \<in> set fvs. indexed m n v \<Longrightarrow> \<forall>i \<in> snd ` set (field_indices m fvs). i < n"
  by (force simp: field_indices_def indexed_def)

lemma specs_ready_indexed:
  assumes "specs_wf m" "specs_ready c rules shape k m f"
  obtains i sp where "variable_index m (field_variable shape k f) = Some i" "i < length m"
    "m ! i = (field_variable shape k f, sp)" "field_ready c rules shape f sp" "spec_wf sp"
proof -
  have bt: "bt_wf m" using assms(1) by (simp add: specs_wf_def)
  from assms(2) obtain sp where sp: "map_of m (field_variable shape k f) = Some sp" "field_ready c rules shape f sp"
    by (auto simp: specs_ready_def)
  then obtain i where "variable_index m (field_variable shape k f) = Some i" "m ! i = (field_variable shape k f, sp)"
    using variable_index_map_of[OF bt] by blast
  moreover have "i < length m" using calculation variable_index_iff[OF bt] by blast
  moreover have "spec_wf sp" using assms(1) sp(1) by (simp add: specs_wf_def)
  ultimately show ?thesis using that sp(2) by blast
qed

lemma pending_indexed:
  assumes "specs_wf m" "pending_ok ev rules m k shape pn"
  shows "\<forall>(f, v) \<in> set (pn_field_variables pn). indexed m (length m) v"
    and "\<forall>(v, b) \<in> set (pn_bases pn). indexed m (length m) v"
proof -
  obtain c prs where ready: "\<forall>f \<in> set (relevant_fields c prs shape). specs_ready c prs shape k m f"
    and eqs: "pn_field_variables pn = map (\<lambda>f. (f, field_variable shape k f)) (relevant_fields c prs shape)"
    "pn_bases pn = map (\<lambda>f. (field_variable shape k f, symbolic_base_of c shape f (known_value c shape f)))
       (relevant_fields c prs shape)"
    using assms(2) by (auto simp: pending_ok_def)
  have "indexed m (length m) (field_variable shape k f)" if "f \<in> set (relevant_fields c prs shape)" for f
    using specs_ready_indexed[OF assms(1)] ready that by (metis indexed_def)
  then show "\<forall>(f, v) \<in> set (pn_field_variables pn). indexed m (length m) v"
    "\<forall>(v, b) \<in> set (pn_bases pn). indexed m (length m) v" by (auto simp: eqs)
qed

definition point_permits :: "specs \<Rightarrow> (nat \<Rightarrow> nat) \<Rightarrow> pending_shape \<Rightarrow> bool" where
  "point_permits m pt pn \<longleftrightarrow>
     permits (universes m) (pn_rules pn) (field_indices m (pn_field_variables pn)) pt"

lemma discoverable_on_points:
  assumes "shapes_loop ev rules 0 shapes [] = Some (m, pending)" "rules_in_range rules" "shapes \<noteq> []"
  shows "symbolic_shapes_are_discoverable ev rules shapes \<longleftrightarrow>
    (\<exists>pt. inside pt (whole m) \<and> (\<forall>i < length shapes.
       point_fits ev m (universes m) pt (pending ! i, shapes ! i) \<and> point_permits m pt (pending ! i)))"
proof -
  have m: "specs_wf m" "length pending = length shapes"
    "\<forall>i < length shapes. pending_ok ev rules m i (shapes ! i) (pending ! i)"
    using shapes_loop_spec[OF assms(1) _ assms(2)] by (auto simp: specs_wf_def)
  have vars: "(\<forall>(f, v) \<in> set (pn_field_variables pn). indexed m (length m) v) \<and>
      (\<forall>(v, b) \<in> set (pn_bases pn). indexed m (length m) v)" if "pn \<in> set pending" for pn
    using that m pending_indexed[OF m(1)] by (metis in_set_conv_nth)
  let ?ready = "map (\<lambda>pn. (pn_rules pn, field_indices m (pn_field_variables pn))) pending"
  have ready: "those (map (\<lambda>pn. map_option (Pair (pn_rules pn)) (indexed_fields m (pn_field_variables pn))) pending) = Some ?ready"
    using vars by (intro those_map_Some) (simp add: indexed_fields_Some[where n = "length m"])
  have bounds: "\<forall>(rs, fvs) \<in> set ?ready. \<forall>i \<in> snd ` set fvs. i < length m"
    using vars field_indices_bound by fastforce
  have "\<forall>(pn, shape) \<in> set (zip pending shapes). (\<forall>(f, v) \<in> set (pn_field_variables pn). indexed m (length m) v) \<and>
      (\<forall>(v, b) \<in> set (pn_bases pn). indexed m (length m) v)" using vars by (fastforce dest: set_zip_leftD)
  note base = base_loop_spec[OF box_whole this, of ev "universes m"]
  have fits: "list_all (point_fits ev m (universes m) pt) (zip pending shapes) \<longleftrightarrow>
      (\<forall>i < length shapes. point_fits ev m (universes m) pt (pending ! i, shapes ! i))" for pt
    using m(2) by (simp add: list_all_length)
  have goal: "symbolic_shapes_are_discoverable ev rules shapes \<longleftrightarrow>
      (case base_loop ev m (universes m) (zip pending shapes) (whole m) of None \<Rightarrow> False
       | Some base \<Rightarrow> combine_loop base (universes m) ?ready [base])"
    using assms(1,3) ready m(2)
    by (simp add: symbolic_shapes_are_discoverable_def Let_def whole_def del: map_map cong: option.case_cong)
  show ?thesis
  proof (cases "base_loop ev m (universes m) (zip pending shapes) (whole m)")
    case None
    with base fits show ?thesis by (auto simp: goal)
  next
    case (Some R)
    with base have R: "box (length m) R" "\<And>pt. inside pt R \<longleftrightarrow> inside pt (whole m) \<and>
        (\<forall>i < length shapes. point_fits ev m (universes m) pt (pending ! i, shapes ! i))" by (auto simp: fits)
    have "combine_loop R (universes m) ?ready [R] \<longleftrightarrow>
        (\<exists>pt. inside pt R \<and> (\<forall>pn \<in> set pending. point_permits m pt pn))"
      using combine_loop_spec[OF R(1) bounds, of "[R]" "universes m"] R(1) by (auto simp: point_permits_def)
    with Some R(2) m(2) show ?thesis by (simp add: goal all_set_conv_all_nth) blast
  qed
qed

section \<open>The decision on requests\<close>

text \<open>The resource a valuation gives a shape: its relevant fields, each with its variable's value.\<close>

definition shape_resource :: "(string \<Rightarrow> rscalar option) \<Rightarrow> resource_shape \<Rightarrow> nat \<Rightarrow> string list \<Rightarrow> canonical_resource" where
  "shape_resource val shape k fs =
     resource_from_map (List.map_filter (\<lambda>f. map_option (Pair f) (val (field_variable shape k f))) fs)"

lemma map_of_map_filter:
  "map_of (List.map_filter (\<lambda>f. map_option (Pair f) (g f)) fs) f = (if f \<in> set fs then g f else None)"
  by (induction fs) (auto simp: List.map_filter_simps split: option.splits)

lemma scalar_shape_resource:
  "scalar (shape_resource val shape k fs) f = (if f \<in> set fs then val (field_variable shape k f) else None)"
  by (simp add: shape_resource_def scalar_def resource_from_map_def map_of_map_filter)

lemma keys_map_filter: "fst ` set (List.map_filter (\<lambda>f. map_option (Pair f) (g f)) fs) \<subseteq> set fs"
  by (induction fs) (auto simp: List.map_filter_simps split: option.splits)

lemma bt_wf_map_filter:
  "sorted_wrt (<) fs \<Longrightarrow> bt_wf (List.map_filter (\<lambda>f. map_option (Pair f) (g f)) (fs :: string list))"
proof (induction fs)
  case (Cons f fs)
  then show ?case using keys_map_filter[of g fs] by (cases "g f") (auto simp: List.map_filter_simps)
qed (simp add: List.map_filter_simps)

text \<open>On a corpus whose rules all project, the evaluator reads only the projected rules.\<close>

lemma project_rule_may_cover: "project_rule ev r p a = Some pr \<Longrightarrow> selector_may_cover ev (r_selector r) p a"
  by (auto dest!: project_rule_covers simp: covers_def selector_may_cover_def split: selector.splits option.splits)

lemma project_all_filter:
  "project_all ev c p a rs = Some prs \<Longrightarrow>
   prs = List.map_filter (\<lambda>r. map_option pr_rule (project_rule ev r p a)) rs"
proof (induction rs arbitrary: prs)
  case (Cons r rs)
  then show ?case using project_rule_may_cover[of ev r p a]
    by (cases "project_rule ev r p a") (auto simp: List.map_filter_simps split: if_splits)
qed (simp add: List.map_filter_simps)

lemma project_all_resolves:
  "project_all ev c p a rs = Some prs \<Longrightarrow> r \<in> set rs \<Longrightarrow> selector_may_cover ev (r_selector r) p a \<Longrightarrow>
   \<exists>pr. project_rule ev r p a = Some pr \<and> conjuncts_resolve (r_conjuncts (pr_rule pr)) c"
proof (induction rs arbitrary: prs)
  case (Cons r' rs)
  then obtain prs' where "project_all ev c p a rs = Some prs'" by (auto split: if_splits option.splits)
  with Cons show ?case by (auto split: if_splits option.splits)
qed simp

lemma project_all_member:
  "project_all ev c p a rs = Some prs \<Longrightarrow>
   q \<in> set prs \<longleftrightarrow> (\<exists>r pr. r \<in> set rs \<and> project_rule ev r p a = Some pr \<and> q = pr_rule pr)"
  by (force dest!: project_all_filter simp: List.map_filter_def image_iff)

definition prs_permit :: "rule list \<Rightarrow> canonical_resource \<Rightarrow> bool" where
  "prs_permit prs res \<longleftrightarrow>
     (\<exists>r \<in> set prs. r_effect r = Allow \<and> conjuncts_hold (r_conjuncts r) res) \<and>
     \<not> (\<exists>r \<in> set prs. r_effect r = Deny \<and> conjuncts_hold (r_conjuncts r) res)"

lemma allowed_projected:
  assumes "projected_discovery_rules ev rules p a = Some (c, prs)"
  shows "allowed ev rules p a res \<longleftrightarrow> prs_permit prs res"
proof -
  have c: "resolve_contract ev p a = Some c" "project_all ev c p a (rs_rules rules) = Some prs"
    and ok: "ruleset_version_supported rules" "\<forall>r \<in> set (rs_rules rules). validate_rule_structure r"
    using assms by (auto simp: projected_discovery_rules_def list_ex_iff split: if_splits option.splits)
  have blocks: "rule_blocks ev c p a res r \<longleftrightarrow> r_effect r = Deny \<and>
      (\<exists>pr. project_rule ev r p a = Some pr \<and> conjuncts_hold (r_conjuncts (pr_rule pr)) res)"
    if "r \<in> set (rs_rules rules)" for r
  proof (cases "selector_may_cover ev (r_selector r) p a")
    case True
    then obtain pr where pr: "project_rule ev r p a = Some pr" "conjuncts_resolve (r_conjuncts (pr_rule pr)) c"
      using project_all_resolves[OF c(2) \<open>r \<in> set (rs_rules rules)\<close>] by blast
    moreover have "covers ev r p a" using pr(1) by (rule project_rule_covers)
    ultimately show ?thesis using ok(2) that
      by (auto simp: rule_blocks_def set_deny_unresolved_def covers_def split: selector.splits option.splits)
  next
    case False
    then have "\<not> covers ev r p a" "\<not> set_deny_unresolved ev r p"
      by (auto simp: covers_def set_deny_unresolved_def selector_may_cover_def split: selector.splits option.splits)
    then show ?thesis using ok(2) that project_rule_covers by (auto simp: rule_blocks_def)
  qed
  have admits: "rule_admits ev p a res r \<longleftrightarrow> r_effect r = Allow \<and>
      (\<exists>pr. project_rule ev r p a = Some pr \<and> conjuncts_hold (r_conjuncts (pr_rule pr)) res)"
    if "r \<in> set (rs_rules rules)" for r
    using ok(2) that by (auto simp: rule_matches_def split: option.splits)
  have "allowed ev rules p a res \<longleftrightarrow>
      (\<forall>r \<in> set (rs_rules rules). \<not> rule_blocks ev c p a res r) \<and> (\<exists>r \<in> set (rs_rules rules). rule_admits ev p a res r)"
    using c(1) ok(1) by (simp add: allowed_winner decision.allowed_iff)
  also have "\<dots> \<longleftrightarrow> prs_permit prs res"
  proof -
    have "(\<exists>q \<in> set prs. r_effect q = eff \<and> conjuncts_hold (r_conjuncts q) res) \<longleftrightarrow>
        (\<exists>r \<in> set (rs_rules rules). r_effect r = eff \<and>
           (\<exists>pr. project_rule ev r p a = Some pr \<and> conjuncts_hold (r_conjuncts (pr_rule pr)) res))" for eff
      using project_all_member[OF c(2)] project_rule_effect by fastforce
    with blocks admits show ?thesis by (auto simp: prs_permit_def)
  qed
  finally show ?thesis .
qed

lemma relevant_pred: "r \<in> set prs \<Longrightarrow> p \<in> set (r_conjuncts r) \<Longrightarrow> pred_field p \<in> set (relevant_fields c prs shape)"
  by (force simp: relevant_fields_def all_conjuncts_def)

lemma strict_relevant: "sorted_wrt (<) (relevant_fields c prs shape)"
  by (simp add: relevant_fields_def strict_sorted_iff)

lemma map_of_field_indices:
  "map_of (field_indices m (map (\<lambda>f. (f, g f)) fs)) f =
     (if f \<in> set fs then Some (the (variable_index m (g f))) else None)"
  by (induction fs) (auto simp: field_indices_def)

lemma point_permits_iff:
  assumes "specs_wf m" "agree m pt val"
    and "\<forall>f \<in> set (relevant_fields c prs shape). specs_ready c prs shape k m f"
    and "pn_rules pn = prs" "pn_field_variables pn = map (\<lambda>f. (f, field_variable shape k f)) (relevant_fields c prs shape)"
  shows "point_permits m pt pn \<longleftrightarrow> prs_permit prs (shape_resource val shape k (relevant_fields c prs shape))"
proof -
  let ?fvs = "field_indices m (pn_field_variables pn)"
  let ?res = "shape_resource val shape k (relevant_fields c prs shape)"
  have "atom_sat (universes m) ?fvs pt p \<longleftrightarrow>
      (case scalar ?res (pred_field p) of None \<Rightarrow> False | Some x \<Rightarrow> pred_matches p x)"
    if p: "r \<in> set prs" "p \<in> set (r_conjuncts r)" for r p
  proof -
    let ?f = "pred_field p"
    have rel: "?f \<in> set (relevant_fields c prs shape)" using p by (rule relevant_pred)
    then obtain i sp where i: "variable_index m (field_variable shape k ?f) = Some i" "i < length m"
      "m ! i = (field_variable shape k ?f, sp)" "field_ready c prs shape ?f sp" "spec_wf sp"
      using specs_ready_indexed[OF assms(1)] assms(3) by blast
    have mem: "p \<in> set (field_preds prs ?f)" using p by (auto simp: field_preds_def all_conjuncts_def)
    then have ready: "pred_cut sp p" "vs_kind sp \<noteq> None" using i(4) by (auto simp: field_ready_def)
    have holds: "pt i < length (atoms sp)" "atom_holds (vs_strings sp) (atoms sp ! pt i) (val (field_variable shape k ?f))"
      using assms(2) i(1,3) by (auto simp: agree_def)
    have "map_of ?fvs ?f = Some i" using rel i(1) by (simp add: assms(5) map_of_field_indices)
    then show ?thesis
      using pred_const_on_atom[OF nth_mem[OF holds(1)] i(5) ready(2) holds(2) ready(1)] i(2,3) rel
      by (simp add: atom_sat_def scalar_shape_resource)
  qed
  then have "rule_sat (universes m) ?fvs pt r \<longleftrightarrow> conjuncts_hold (r_conjuncts r) ?res" if "r \<in> set prs" for r
    using that by (auto simp: rule_sat_def conjuncts_hold_def list_all_iff)
  then show ?thesis by (auto simp: point_permits_def permits_def prs_permit_def assms(4))
qed

definition fields_completed :: "evaluator \<Rightarrow> rule_set \<Rightarrow> resource_shape \<Rightarrow> nat \<Rightarrow> (string \<Rightarrow> rscalar option) \<Rightarrow> bool" where
  "fields_completed ev rules shape k val \<longleftrightarrow>
     (\<forall>c prs. projected_discovery_rules ev rules (shp_provider shape) (shp_action shape) = Some (c, prs) \<longrightarrow>
        (\<forall>f \<in> set (relevant_fields c prs shape). field_completed ev c shape f (val (field_variable shape k f))))"

definition values_permit :: "evaluator \<Rightarrow> rule_set \<Rightarrow> resource_shape \<Rightarrow> nat \<Rightarrow> (string \<Rightarrow> rscalar option) \<Rightarrow> bool" where
  "values_permit ev rules shape k val \<longleftrightarrow>
     (\<forall>c prs. projected_discovery_rules ev rules (shp_provider shape) (shp_action shape) = Some (c, prs) \<longrightarrow>
        allowed ev rules (shp_provider shape) (shp_action shape)
          (shape_resource val shape k (relevant_fields c prs shape)))"

lemma pending_meaning:
  assumes "specs_wf m" "pending_ok ev rules m k shape pn" "agree m pt val"
  shows "point_permits m pt pn \<longleftrightarrow> values_permit ev rules shape k val"
    and "point_fits ev m (universes m) pt (pn, shape) \<Longrightarrow> fields_completed ev rules shape k val"
    and "first_point m pt val \<Longrightarrow> fields_completed ev rules shape k val \<Longrightarrow>
      point_fits ev m (universes m) pt (pn, shape)"
proof -
  obtain c prs where prs: "projected_discovery_rules ev rules (shp_provider shape) (shp_action shape) = Some (c, prs)"
    and pn: "pn_rules pn = prs"
      "pn_field_variables pn = map (\<lambda>f. (f, field_variable shape k f)) (relevant_fields c prs shape)"
      "pn_bases pn = map (\<lambda>f. (field_variable shape k f, symbolic_base_of c shape f (known_value c shape f)))
         (relevant_fields c prs shape)"
    and ready: "\<forall>f \<in> set (relevant_fields c prs shape). specs_ready c prs shape k m f"
    using assms(2) by (auto simp: pending_ok_def)
  show "point_permits m pt pn \<longleftrightarrow> values_permit ev rules shape k val"
    using point_permits_iff[OF assms(1,3) ready pn(1,2)] allowed_projected[OF prs] prs by (simp add: values_permit_def)
  have fits: "point_fits ev m (universes m) pt (pn, shape) \<longleftrightarrow> (\<forall>f \<in> set (relevant_fields c prs shape).
      atom_valid ev m (universes m) shape pt (f, field_variable shape k f) \<and>
      atom_based m (universes m) pt (field_variable shape k f, symbolic_base_of c shape f (known_value c shape f)))"
    by (auto simp: point_fits_def pn list_all_iff)
  have completed: "fields_completed ev rules shape k val \<longleftrightarrow>
      (\<forall>f \<in> set (relevant_fields c prs shape). field_completed ev c shape f (val (field_variable shape k f)))"
    using prs by (simp add: fields_completed_def)
  show "fields_completed ev rules shape k val" if "point_fits ev m (universes m) pt (pn, shape)"
    unfolding completed
  proof
    fix f
    assume f: "f \<in> set (relevant_fields c prs shape)"
    with ready obtain i sp where i: "variable_index m (field_variable shape k f) = Some i" "i < length m"
      "m ! i = (field_variable shape k f, sp)" "field_ready c prs shape f sp" "spec_wf sp"
      using specs_ready_indexed[OF assms(1)] by blast
    with that f show "field_completed ev c shape f (val (field_variable shape k f))"
      using field_sound[OF assms(3) i(1,3,2,5,4)] fits by blast
  qed
  show "point_fits ev m (universes m) pt (pn, shape)" if "first_point m pt val" "fields_completed ev rules shape k val"
    unfolding fits
  proof
    fix f
    assume f: "f \<in> set (relevant_fields c prs shape)"
    with ready obtain i sp where i: "variable_index m (field_variable shape k f) = Some i" "i < length m"
      "m ! i = (field_variable shape k f, sp)" "field_ready c prs shape f sp" "spec_wf sp"
      using specs_ready_indexed[OF assms(1)] by blast
    with that f show "atom_valid ev m (universes m) shape pt (f, field_variable shape k f) \<and>
      atom_based m (universes m) pt (field_variable shape k f, symbolic_base_of c shape f (known_value c shape f))"
      using field_complete[OF assms(3) that(1) i(1,3,2,5,4)] completed by blast
  qed
qed

lemma discoverable_has_values:
  assumes "symbolic_shapes_are_discoverable ev rules shapes" "rules_in_range rules"
  shows "\<exists>val. \<forall>i < length shapes.
    projected_discovery_rules ev rules (shp_provider (shapes ! i)) (shp_action (shapes ! i)) \<noteq> None \<and>
    fields_completed ev rules (shapes ! i) i val \<and> values_permit ev rules (shapes ! i) i val"
proof -
  have ne: "shapes \<noteq> []" using assms(1) by (auto simp: symbolic_shapes_are_discoverable_def)
  then obtain m pending where loop: "shapes_loop ev rules 0 shapes [] = Some (m, pending)"
    using assms(1) by (auto simp: symbolic_shapes_are_discoverable_def split: option.splits)
  have m: "specs_wf m" "\<forall>i < length shapes. pending_ok ev rules m i (shapes ! i) (pending ! i)"
    using shapes_loop_spec[OF loop _ assms(2)] by (auto simp: specs_wf_def)
  obtain pt where pt: "inside pt (whole m)" "\<forall>i < length shapes.
      point_fits ev m (universes m) pt (pending ! i, shapes ! i) \<and> point_permits m pt (pending ! i)"
    using discoverable_on_points[OF loop assms(2) ne] assms(1) by blast
  obtain val where val: "agree m pt val" using point_has_values[OF m(1) pt(1)] by blast
  show ?thesis
  proof (intro exI[of _ val] allI impI)
    fix i
    assume i: "i < length shapes"
    with m(2) have ok: "pending_ok ev rules m i (shapes ! i) (pending ! i)" by simp
    then have "projected_discovery_rules ev rules (shp_provider (shapes ! i)) (shp_action (shapes ! i)) \<noteq> None"
      by (auto simp: pending_ok_def)
    with pending_meaning[OF m(1) ok val] pt(2) i
    show "projected_discovery_rules ev rules (shp_provider (shapes ! i)) (shp_action (shapes ! i)) \<noteq> None \<and>
      fields_completed ev rules (shapes ! i) i val \<and> values_permit ev rules (shapes ! i) i val" by blast
  qed
qed

end
