(* ===== verification/Discovery_Exact.thy ===== *)
theory Discovery_Exact
  imports Discovery_Sound
begin

text \<open>
  The discovery decisions of \<^verbatim>\<open>SentenceEvaluator\<close> against the evaluator itself: a composition of
  shapes that is reported discoverable has completions, agreeing on shared values, that are all
  allowed; and on a closed contract a single shape, or an action, is reported exactly when some
  conforming request would be allowed.
\<close>

section \<open>From values back to points\<close>

lemma project_all_conjuncts:
  assumes "project_all ev c p a rs = Some prs" "q \<in> set (all_conjuncts prs)" "\<not> ac_open c"
  obtains d where "field_decl c (pred_field q) = Some d" "pred_resolves_for_decl q d"
proof -
  from assms(2) obtain r where r: "r \<in> set prs" "q \<in> set (r_conjuncts r)" by (auto simp: all_conjuncts_def)
  then obtain r' pr where pr: "r' \<in> set rs" "project_rule ev r' p a = Some pr" "r = pr_rule pr"
    using project_all_member[OF assms(1)] by blast
  then have "conjuncts_resolve (r_conjuncts r) c"
    using project_all_resolves[OF assms(1) pr(1) project_rule_may_cover[OF pr(2)]] by simp
  with r(2) assms(3) that show ?thesis
    by (auto simp: conjuncts_resolve_def list_all_iff split: option.splits)
qed

lemma pred_resolves_kind: "pred_resolves_for_decl q d \<Longrightarrow> predicate_kind q = Some (fd_ty d)"
proof -
  have one: "scalar_binds_decl s d \<longleftrightarrow> sentence_scalar_kind s = Some (fd_ty d)" for s by (cases s) auto
  assume "pred_resolves_for_decl q d"
  then show ?thesis
  proof (cases q)
    case (PIn f vs)
    with \<open>pred_resolves_for_decl q d\<close> obtain v ws where vs: "vs = v # ws"
      "\<forall>w \<in> set vs. sentence_scalar_kind w = Some (fd_ty d)" by (cases vs) (auto simp: one list_all_iff)
    then have "pred_own_kind (PIn f vs) = Some (fd_ty d)" by (simp add: opt_filter_def list_all_iff)
    then show ?thesis using PIn by (simp add: open_predicate_kind_def)
  qed (simp_all add: one)
qed

lemma field_decl_in_schema: "d \<in> set (ac_schema c) \<Longrightarrow> field_decl c (fd_name d) \<noteq> None"
  by (auto simp: field_decl_def find_None_iff)

lemma projected_parts:
  assumes "projected_discovery_rules ev rules p a = Some (c, prs)"
  shows "resolve_contract ev p a = Some c" "project_all ev c p a (rs_rules rules) = Some prs"
  using assms by (auto simp: projected_discovery_rules_def split: if_splits option.splits)

lemma closed_relevant:
  assumes "projected_discovery_rules ev rules p a = Some (c, prs)" "\<not> ac_open c" "shape_fits c prs shape"
    and "f \<in> set (relevant_fields c prs shape)"
  shows "\<exists>k. field_kind c f = Some k"
proof -
  have "field_decl c f \<noteq> None"
  proof -
    consider "f \<in> fst ` set (shp_known shape)" | "f \<in> set (shp_unknown shape)"
      | d where "d \<in> set (ac_schema c)" "f = fd_name d" | q where "q \<in> set (all_conjuncts prs)" "f = pred_field q"
      using assms(4) by (auto simp: relevant_fields_def)
    then show ?thesis
    proof cases
      case 4
      then show ?thesis using project_all_conjuncts[OF projected_parts(2)[OF assms(1)] _ assms(2)] by blast
    qed (use assms(2,3) field_decl_in_schema in \<open>auto simp: shape_fits_def list_all_iff declares_def\<close>)
  qed
  then show ?thesis by (auto simp: field_kind_def)
qed

lemma shape_resource_cong:
  "\<forall>f \<in> set fs. val (field_variable shape k f) = val' (field_variable shape k f) \<Longrightarrow>
   shape_resource val shape k fs = shape_resource val' shape k fs"
  unfolding shape_resource_def by (induction fs) (auto simp: List.map_filter_simps resource_from_map_def split: option.splits)

lemma values_discoverable:
  assumes "shapes_loop ev rules 0 shapes [] = Some (m, pending)" "rules_in_range rules" "shapes \<noteq> []"
    and "\<forall>i < length shapes. \<forall>c. resolve_contract ev (shp_provider (shapes ! i)) (shp_action (shapes ! i)) = Some c \<longrightarrow> \<not> ac_open c"
    and "\<forall>i < length shapes. fields_completed ev rules (shapes ! i) i val \<and> values_permit ev rules (shapes ! i) i val"
  shows "symbolic_shapes_are_discoverable ev rules shapes"
proof -
  have m: "specs_wf m" "\<forall>i < length shapes. pending_ok ev rules m i (shapes ! i) (pending ! i)"
    using shapes_loop_spec[OF assms(1) _ assms(2)] by (auto simp: specs_wf_def)
  define val' where "val' v = (case map_of m v of None \<Rightarrow> None
      | Some sp \<Rightarrow> if value_fits sp (val v) then val v else None)" for v
  have fits: "\<forall>v sp. map_of m v = Some sp \<longrightarrow> value_fits sp (val' v)"
    by (auto simp: val'_def value_fits_def)
  have same: "val' (field_variable (shapes ! i) i f) = val (field_variable (shapes ! i) i f)"
    if i: "i < length shapes"
      "projected_discovery_rules ev rules (shp_provider (shapes ! i)) (shp_action (shapes ! i)) = Some (c, prs)"
      "f \<in> set (relevant_fields c prs (shapes ! i))" for i c prs f
  proof -
    have closed: "\<not> ac_open c" using assms(4) i(1) projected_parts(1)[OF i(2)] by blast
    have ok: "shape_fits c prs (shapes ! i)" "specs_ready c prs (shapes ! i) i m f"
      using m(2) i by (auto simp: pending_ok_def)
    obtain k where k: "field_kind c f = Some k" using closed_relevant[OF i(2) closed ok(1) i(3)] by blast
    obtain sp where sp: "map_of m (field_variable (shapes ! i) i f) = Some sp" "field_ready c prs (shapes ! i) f sp"
      using ok(2) by (auto simp: specs_ready_def)
    have "field_completed ev c (shapes ! i) f (val (field_variable (shapes ! i) i f))"
      using assms(5) i by (auto simp: fields_completed_def)
    with k sp(2) have "value_fits sp (val (field_variable (shapes ! i) i f))"
      by (auto simp: value_fits_def field_completed_def field_ready_def split: option.splits)
    with sp(1) show ?thesis by (simp add: val'_def)
  qed
  have good: "fields_completed ev rules (shapes ! i) i val' \<and> values_permit ev rules (shapes ! i) i val'"
    if i: "i < length shapes" for i
  proof -
    obtain c prs where prs: "projected_discovery_rules ev rules (shp_provider (shapes ! i)) (shp_action (shapes ! i)) = Some (c, prs)"
      using m(2) i by (auto simp: pending_ok_def)
    have "shape_resource val' (shapes ! i) i (relevant_fields c prs (shapes ! i)) =
        shape_resource val (shapes ! i) i (relevant_fields c prs (shapes ! i))"
      using same[OF i prs] by (intro shape_resource_cong) simp
    then show ?thesis using assms(5) i prs same[OF i prs] by (simp add: fields_completed_def values_permit_def)
  qed
  obtain pt where pt: "agree m pt val'" "first_point m pt val'" "inside pt (whole m)"
    using values_have_point[OF m(1) fits] by blast
  have "\<forall>i < length shapes. point_fits ev m (universes m) pt (pending ! i, shapes ! i) \<and> point_permits m pt (pending ! i)"
    using good pending_meaning[OF m(1) _ pt(1)] pt(2) m(2) by blast
  with pt(3) show ?thesis using discoverable_on_points[OF assms(1-3)] by blast
qed

section \<open>A single shape on a closed contract always types\<close>

lemma constrain_predicates_total:
  "vs_kind sp = Some k \<Longrightarrow> \<forall>q \<in> set qs. predicate_kind q = Some k \<Longrightarrow> constrain_predicates qs sp = Some sp"
proof (induction qs)
  case (Cons q qs)
  have "constrain_kind k sp = Some sp" using Cons.prems(1) by (cases sp) (simp add: constrain_kind_def)
  with Cons show ?case by simp
qed simp

lemma field_step_total:
  assumes "field_kind c f = Some k" "bt_has (shp_known shape) f \<Longrightarrow> known_value c shape f \<noteq> None"
    and "\<forall>q \<in> set (field_preds prs f). predicate_kind q = Some k"
    and "map_of m (field_variable shape i f) = None"
  shows "\<exists>sp b. field_step c prs shape i f m = Some (bt_insert (field_variable shape i f) sp m, field_variable shape i f, b)"
proof -
  have kind: "symbolic_kind c f (known_value c shape f) (field_preds prs f) = Some k"
    using assms(1) by (simp add: symbolic_kind_def)
  have "constrain_kind k empty_spec = Some (empty_spec\<lparr>vs_kind := Some k\<rparr>)"
    by (simp add: constrain_kind_def empty_spec_def)
  then obtain sp where "extend_spec (Some k) (known_value c shape f) (field_preds prs f) empty_spec = Some sp"
    using constrain_predicates_total[OF _ assms(3), of "empty_spec\<lparr>vs_kind := Some k\<rparr>"]
    by (simp add: extend_spec_def)
  then show ?thesis using kind assms(2,4)
    by (auto simp: field_step_def Let_def known_value_def field_preds_def)
qed

lemma fields_loop_total:
  assumes "\<forall>f \<in> set fs. \<exists>k. field_kind c f = Some k \<and> (\<forall>q \<in> set (field_preds prs f). predicate_kind q = Some k)"
    and "\<forall>f \<in> set fs. bt_has (shp_known shape) f \<longrightarrow> known_value c shape f \<noteq> None"
    and "distinct (map (field_variable shape i) fs)" "bt_wf m"
    and "\<forall>f \<in> set fs. map_of m (field_variable shape i f) = None"
  shows "fields_loop c prs shape i fs m \<noteq> None"
  using assms
proof (induction fs arbitrary: m)
  case (Cons f fs)
  obtain k where k: "field_kind c f = Some k" "\<forall>q \<in> set (field_preds prs f). predicate_kind q = Some k"
    using Cons.prems(1) by auto
  obtain sp b where step: "field_step c prs shape i f m =
      Some (bt_insert (field_variable shape i f) sp m, field_variable shape i f, b)"
    using field_step_total[OF k(1) _ k(2)] Cons.prems(2,5) by (meson list.set_intros(1))
  have "\<forall>g \<in> set fs. map_of (bt_insert (field_variable shape i f) sp m) (field_variable shape i g) = None"
    using Cons.prems(3-5) by (auto simp: image_iff)
  then have "fields_loop c prs shape i fs (bt_insert (field_variable shape i f) sp m) \<noteq> None"
    using Cons.IH Cons.prems by simp
  then show ?case using step by auto
qed simp

lemma private_variables: "shp_field_variables shape = [] \<Longrightarrow> inj (field_variable shape i)"
  by (simp add: inj_def field_variable_def)

lemma single_shape_types:
  assumes "projected_discovery_rules ev rules (shp_provider shape) (shp_action shape) = Some (c, prs)"
    and "\<not> ac_open c" "shape_fits c prs shape" "shp_field_variables shape = []"
    and "\<forall>f \<in> fst ` set (shp_known shape). known_value c shape f \<noteq> None"
  shows "shapes_loop ev rules 0 [shape] [] \<noteq> None"
proof -
  have "\<exists>k. field_kind c f = Some k \<and> (\<forall>q \<in> set (field_preds prs f). predicate_kind q = Some k)"
    if "f \<in> set (relevant_fields c prs shape)" for f
  proof -
    from closed_relevant[OF assms(1-3) that] obtain k where k: "field_kind c f = Some k" by blast
    have "predicate_kind q = Some k" if "q \<in> set (field_preds prs f)" for q
    proof -
      have q: "q \<in> set (all_conjuncts prs)" "pred_field q = f" using that by (auto simp: field_preds_def)
      then show ?thesis
        using project_all_conjuncts[OF projected_parts(2)[OF assms(1)] q(1) assms(2)] pred_resolves_kind k
        by (metis field_kind_def option.map(2) option.inject)
    qed
    with k show ?thesis by blast
  qed
  moreover have "distinct (map (field_variable shape 0) (relevant_fields c prs shape))"
    using strict_relevant[of c prs shape] private_variables[OF assms(4), of 0]
    by (simp add: distinct_map strict_sorted_iff inj_on_subset[OF _ subset_UNIV])
  ultimately have "fields_loop c prs shape 0 (relevant_fields c prs shape) [] \<noteq> None"
    using fields_loop_total[of "relevant_fields c prs shape" c prs shape 0 "[]"] assms(5) by (simp add: bt_has_iff)
  then show ?thesis using assms(1,3) by auto
qed

section \<open>Resources and values\<close>

lemma completed_declared:
  "field_completed ev c shape f (Some y) \<Longrightarrow> bt_has (shp_known shape) f \<or> f \<in> set (shp_unknown shape)"
  by (auto simp: field_completed_def bt_has_def split: option.splits if_splits)

lemma relevant_given:
  "bt_has (shp_known shape) f \<or> f \<in> set (shp_unknown shape) \<Longrightarrow> f \<in> set (relevant_fields c prs shape)"
  by (auto simp: relevant_fields_def bt_has_iff)

lemma completed_elsewhere:
  "f \<notin> set (relevant_fields c prs shape) \<Longrightarrow> field_completed ev c shape f x \<longleftrightarrow> x = None"
  using relevant_given[of shape f c prs] by (cases "map_of (shp_known shape) f") (auto simp: field_completed_def bt_has_def)

lemma shape_resource_completed:
  assumes "projected_discovery_rules ev rules (shp_provider shape) (shp_action shape) = Some (c, prs)"
    and "fields_completed ev rules shape k val"
  shows "field_completed ev c shape f (scalar (shape_resource val shape k (relevant_fields c prs shape)) f)"
  using assms completed_elsewhere[of f c prs shape ev None]
  by (auto simp: scalar_shape_resource fields_completed_def)

lemma bt_wf_shape_resource: "bt_wf (cr_fields (shape_resource val shape k (relevant_fields c prs shape)))"
  using bt_wf_map_filter[OF strict_relevant] by (simp add: shape_resource_def resource_from_map_def)

lemma scalar_in_fields: "bt_wf (cr_fields res) \<Longrightarrow> (f, x) \<in> set (cr_fields res) \<longleftrightarrow> scalar res f = Some x"
  by (simp add: scalar_def bt_wf_def strict_sorted_iff map_of_eq_Some_iff)

lemma resource_ext: "bt_wf (cr_fields a) \<Longrightarrow> bt_wf (cr_fields b) \<Longrightarrow> scalar a = scalar b \<Longrightarrow> a = b"
  using bt_wf_ext[of "cr_fields a" "cr_fields b"] by (cases a, cases b) (auto simp: scalar_def fun_eq_iff)

text \<open>Every completing resource is the one its own values give.\<close>

lemma resource_of_values:
  assumes "bt_wf (cr_fields res)" "\<forall>f. field_completed ev c shape f (scalar res f)" "shp_field_variables shape = []"
  obtains val where "shape_resource val shape k (relevant_fields c prs shape) = res"
    "\<forall>f. val (field_variable shape k f) = scalar res f"
proof -
  define val where "val v = scalar res (inv (field_variable shape k) v)" for v
  have val: "val (field_variable shape k f) = scalar res f" for f
    using private_variables[OF assms(3), of k] by (simp add: val_def)
  have "scalar res f = None" if "f \<notin> set (relevant_fields c prs shape)" for f
    using assms(2) completed_elsewhere[OF that] by blast
  then have "scalar (shape_resource val shape k (relevant_fields c prs shape)) = scalar res"
    by (auto simp: fun_eq_iff scalar_shape_resource val)
  then show ?thesis using that val resource_ext[OF bt_wf_shape_resource assms(1)] by blast
qed

section \<open>What discovery promises\<close>

text \<open>
  A request completes a shape, with given values of the shared variables, when every field meets what
  the shape and the contract ask of it and every field the shape gives a variable carries its value.
\<close>

definition completion :: "evaluator \<Rightarrow> (string \<Rightarrow> rscalar option) \<Rightarrow> resource_shape \<Rightarrow> canonical_resource \<Rightarrow> bool" where
  "completion ev shared shape res \<longleftrightarrow>
     (\<exists>c. resolve_contract ev (shp_provider shape) (shp_action shape) = Some c \<and>
          (\<forall>f. field_completed ev c shape f (scalar res f))) \<and>
     (\<forall>f v. map_of (shp_field_variables shape) f = Some v \<longrightarrow>
          bt_has (shp_known shape) f \<or> f \<in> set (shp_unknown shape) \<longrightarrow> scalar res f = shared v)"

lemma completion_of_values:
  assumes "projected_discovery_rules ev rules (shp_provider shape) (shp_action shape) \<noteq> None"
    and "fields_completed ev rules shape k val" "values_permit ev rules shape k val"
  shows "\<exists>res. completion ev val shape res \<and> allowed ev rules (shp_provider shape) (shp_action shape) res"
proof -
  obtain c prs where prs: "projected_discovery_rules ev rules (shp_provider shape) (shp_action shape) = Some (c, prs)"
    using assms(1) by fastforce
  let ?res = "shape_resource val shape k (relevant_fields c prs shape)"
  have "scalar ?res f = val v" if "map_of (shp_field_variables shape) f = Some v"
    "bt_has (shp_known shape) f \<or> f \<in> set (shp_unknown shape)" for f v
    using that(1) relevant_given[OF that(2)] by (simp add: scalar_shape_resource field_variable_def)
  then have "completion ev val shape ?res"
    using projected_parts(1)[OF prs] shape_resource_completed[OF prs assms(2)] by (auto simp: completion_def)
  moreover have "allowed ev rules (shp_provider shape) (shp_action shape) ?res"
    using assms(3) prs by (simp add: values_permit_def)
  ultimately show ?thesis by blast
qed

text \<open>
  C21. A composition of shapes that discovery reports has completions that are allowed: there are
  requests, one for each shape, whose known fields carry the shape's values, whose unknown fields
  have their declared kinds and are present where the shape or the contract requires it, that agree
  on every variable the shapes share, and each of which the evaluator allows. Nothing is offered that
  no request could obtain. The integers of the corpus are \<^verbatim>\<open>i64\<close> values.
\<close>

theorem composition_discovery_sound:
  assumes "resource_shapes_are_discoverable ev rules shapes" "rules_in_range rules"
  shows "\<exists>shared requests. length requests = length shapes \<and>
    (\<forall>i < length shapes. completion ev shared (shapes ! i) (requests ! i) \<and>
       (\<exists>r. evaluate ev rules (shp_provider (shapes ! i)) (shp_action (shapes ! i)) (requests ! i) = DAllow r))"
proof -
  obtain val where "\<forall>i < length shapes.
      projected_discovery_rules ev rules (shp_provider (shapes ! i)) (shp_action (shapes ! i)) \<noteq> None \<and>
      fields_completed ev rules (shapes ! i) i val \<and> values_permit ev rules (shapes ! i) i val"
    using discoverable_has_values[of ev rules shapes] assms by (auto simp: resource_shapes_are_discoverable_def)
  then have "\<forall>i. \<exists>res. i < length shapes \<longrightarrow> completion ev val (shapes ! i) res \<and>
      allowed ev rules (shp_provider (shapes ! i)) (shp_action (shapes ! i)) res"
    using completion_of_values by meson
  from choice[OF this] obtain req where "\<forall>i < length shapes. completion ev val (shapes ! i) (req i) \<and>
      allowed ev rules (shp_provider (shapes ! i)) (shp_action (shapes ! i)) (req i)" by blast
  then show ?thesis
    by (intro exI[of _ val] exI[of _ "map req [0..<length shapes]"]) (simp add: allowed_def)
qed

lemma required_field:
  assumes "distinct (map fd_name (ac_schema c))" "d \<in> set (ac_schema c)"
  shows "field_decl c (fd_name d) = Some d"
proof -
  obtain d' where d': "field_decl c (fd_name d) = Some d'" using field_decl_in_schema[OF assms(2)] by blast
  then have "d' \<in> set (ac_schema c)" "fd_name d' = fd_name d" using field_decl_Some by blast+
  with assms have "d' = d" by (auto simp: distinct_map dest: inj_onD)
  with d' show ?thesis by simp
qed

lemma completed_typed:
  "field_completed ev c shape f (Some x) \<Longrightarrow> rscalar_ok x \<and> (\<forall>k. field_kind c f = Some k \<longrightarrow> rscalar_kind x = k)"
  by (simp add: field_completed_def)

lemma completed_conforms:
  assumes "bt_wf (cr_fields res)" "\<forall>f. field_completed ev c shape f (scalar res f)" "\<not> ac_open c"
    and "shape_fits c prs shape" "distinct (map fd_name (ac_schema c))"
  shows "conforms c res"
proof -
  have given: "field_decl c f \<noteq> None" if "bt_has (shp_known shape) f \<or> f \<in> set (shp_unknown shape)" for f
    using that assms(3,4) by (auto simp: shape_fits_def list_all_iff declares_def bt_has_iff)
  have "rscalar_ok x \<and> field_kind c f = Some (rscalar_kind x)" if "scalar res f = Some x" for f x
  proof -
    have x: "field_completed ev c shape f (Some x)" using assms(2) that by metis
    then obtain d where "field_decl c f = Some d" using given completed_declared by blast
    then show ?thesis using completed_typed[OF x] by (simp add: field_kind_def)
  qed
  moreover have "bt_has (cr_fields res) (fd_name d)" if "d \<in> set (ac_schema c)" "fd_required d" for d
  proof -
    have "bt_has (shp_known shape) (fd_name d) \<or> fd_name d \<in> set (shp_unknown shape)"
      using assms(4) that by (auto simp: shape_fits_def list_ex_iff)
    then have "scalar res (fd_name d) \<noteq> None"
      using assms(2)[rule_format, of "fd_name d"] required_field[OF assms(5) that(1)] that(2)
      by (auto simp: field_completed_def bt_has_def split: option.splits)
    then show ?thesis by (simp add: bt_has_def scalar_def)
  qed
  ultimately show ?thesis using assms(1,3) by (auto simp: conforms_def scalar_in_fields)
qed

lemma completion_fits:
  assumes "conforms c res" "\<forall>f. field_completed ev c shape f (scalar res f)" "\<not> ac_open c" "prs_permit prs res"
    and "\<forall>f \<in> set (shp_unknown shape). field_decl c f \<noteq> None" "set (shp_present shape) \<subseteq> set (shp_unknown shape)"
  shows "shape_fits c prs shape" "\<forall>f \<in> fst ` set (shp_known shape). known_value c shape f \<noteq> None"
proof -
  show known: "\<forall>f \<in> fst ` set (shp_known shape). known_value c shape f \<noteq> None"
  proof
    fix f
    assume "f \<in> fst ` set (shp_known shape)"
    then obtain j where "map_of (shp_known shape) f = Some j" by (metis map_of_eq_None_iff not_None_eq)
    then show "known_value c shape f \<noteq> None"
      using assms(2)[rule_format, of f] by (auto simp: field_completed_def known_value_def)
  qed
  then have declared: "field_decl c f \<noteq> None" if "f \<in> fst ` set (shp_known shape)" for f
    using that assms(3) by (auto simp: known_value_def decode_known_def bind_eq_Some_conv split: option.splits)
  have "bt_has (shp_known shape) (fd_name d) \<or> fd_name d \<in> set (shp_unknown shape)"
    if "d \<in> set (ac_schema c)" "fd_required d" for d
  proof -
    have "bt_has (cr_fields res) (fd_name d)" using assms(1,3) that by (auto simp: conforms_def)
    then obtain x where "scalar res (fd_name d) = Some x" by (auto simp: bt_has_def scalar_def)
    then show ?thesis using assms(2) completed_declared by metis
  qed
  moreover have "list_ex (\<lambda>r. r_effect r = Allow) prs" using assms(4) by (auto simp: prs_permit_def list_ex_iff)
  moreover have "list_all (\<lambda>(f, _). declares c f) (shp_known shape)"
    using declared by (force simp: list_all_iff declares_def)
  ultimately show "shape_fits c prs shape"
    using assms(5,6) by (auto simp: shape_fits_def list_ex_iff list_all_iff declares_def)
qed

definition single_shape :: "string \<Rightarrow> string \<Rightarrow> (string, json) btree \<Rightarrow> string list \<Rightarrow> string list \<Rightarrow> resource_shape" where
  "single_shape p a known unknown present =
     \<lparr>shp_provider = p, shp_action = a, shp_known = known, shp_unknown = unknown, shp_present = present,
      shp_field_variables = []\<rparr>"

lemma single_shape_iff:
  assumes "projected_discovery_rules ev rules p a = Some (c, prs)" "rules_in_range rules"
    and "\<not> ac_open c" "distinct (map fd_name (ac_schema c))"
    and "\<forall>f \<in> set unknown. field_decl c f \<noteq> None" "set present \<subseteq> set unknown"
  shows "resource_shape_is_discoverable ev rules p a known unknown present \<longleftrightarrow>
    (\<exists>res. conforms c res \<and>
           (\<forall>f. field_completed ev c (single_shape p a known unknown present) f (scalar res f)) \<and>
           (\<exists>r. evaluate ev rules p a res = DAllow r))"
proof -
  define shape where "shape = single_shape p a known unknown present"
  have shape: "shp_provider shape = p" "shp_action shape = a" "shp_field_variables shape = []"
    "shp_unknown shape = unknown" "shp_present shape = present" by (simp_all add: shape_def single_shape_def)
  have unfold: "resource_shape_is_discoverable ev rules p a known unknown present \<longleftrightarrow>
      symbolic_shapes_are_discoverable ev rules [shape]"
    by (simp add: resource_shape_is_discoverable_def resource_shapes_are_discoverable_def
        shape_def single_shape_def)
  have prs: "projected_discovery_rules ev rules (shp_provider shape) (shp_action shape) = Some (c, prs)"
    using assms(1) shape by simp
  show ?thesis unfolding unfold shape_def[symmetric]
  proof
    assume disc: "symbolic_shapes_are_discoverable ev rules [shape]"
    then obtain val where val: "fields_completed ev rules shape 0 val" "values_permit ev rules shape 0 val"
      using discoverable_has_values[OF disc assms(2)] by auto
    let ?res = "shape_resource val shape 0 (relevant_fields c prs shape)"
    have met: "\<forall>f. field_completed ev c shape f (scalar ?res f)" using shape_resource_completed[OF prs val(1)] by blast
    have fits: "shape_fits c prs shape"
      using disc prs by (auto simp: symbolic_shapes_are_discoverable_def split: option.splits if_splits)
    have "conforms c ?res" using completed_conforms[OF bt_wf_shape_resource met assms(3) fits assms(4)] .
    moreover have "\<exists>r. evaluate ev rules p a ?res = DAllow r"
      using val(2) prs shape by (simp add: values_permit_def allowed_def)
    ultimately show "\<exists>res. conforms c res \<and> (\<forall>f. field_completed ev c shape f (scalar res f)) \<and>
        (\<exists>r. evaluate ev rules p a res = DAllow r)" using met by blast
  next
    assume "\<exists>res. conforms c res \<and> (\<forall>f. field_completed ev c shape f (scalar res f)) \<and>
        (\<exists>r. evaluate ev rules p a res = DAllow r)"
    then obtain res where res: "conforms c res" "\<forall>f. field_completed ev c shape f (scalar res f)"
      "allowed ev rules p a res" by (auto simp: allowed_def)
    have bt: "bt_wf (cr_fields res)" using res(1) by (simp add: conforms_def)
    obtain val where val: "shape_resource val shape 0 (relevant_fields c prs shape) = res"
      "\<forall>f. val (field_variable shape 0 f) = scalar res f" using resource_of_values[OF bt res(2) shape(3)] .
    have permit: "prs_permit prs res" using allowed_projected[OF assms(1)] res(3) by simp
    note fits = completion_fits[OF res(1,2) assms(3) permit]
    obtain m pending where loop: "shapes_loop ev rules 0 [shape] [] = Some (m, pending)"
      using single_shape_types[OF prs assms(3) fits(1) shape(3) fits(2)] assms(5,6) shape by fastforce
    have "fields_completed ev rules shape 0 val" "values_permit ev rules shape 0 val"
      using prs val res(2,3) shape by (simp_all add: fields_completed_def values_permit_def)
    then show "symbolic_shapes_are_discoverable ev rules [shape]"
      using values_discoverable[OF loop assms(2), of val] projected_parts(1)[OF prs] assms(3) by simp
  qed
qed

text \<open>
  On a closed contract the answer for one shape is exact. Where every rule that may cover the
  action projects and resolves, the shape's unknown fields are declared and its guaranteed fields are
  among them, discovery reports the shape if and only if some request that conforms to the contract
  completes the shape and is allowed.
\<close>

theorem shape_discovery_exact:
  assumes "projected_discovery_rules ev rules p a = Some (c, prs)" "rules_in_range rules"
    and "\<not> ac_open c" "distinct (map fd_name (ac_schema c))"
    and "\<forall>f \<in> set unknown. field_decl c f \<noteq> None" "set present \<subseteq> set unknown"
  shows "resource_shape_is_discoverable ev rules p a known unknown present \<longleftrightarrow>
    (\<exists>res. conforms c res \<and>
           (\<forall>f. field_completed ev c (single_shape p a known unknown present) f (scalar res f)) \<and>
           (\<exists>r. evaluate ev rules p a res = DAllow r))"
  using single_shape_iff assms .


section \<open>Witnesses\<close>

definition hold_allow :: rule where
  "hold_allow = \<lparr>r_effect = Allow, r_selector = VerbSel ''pay'' ''hold'',
                 r_conjuncts = [PGte ''amount'' 50], r_aggregate = None\<rparr>"

definition paired_shapes :: "resource_shape list" where
  "paired_shapes =
     [\<lparr>shp_provider = ''pay'', shp_action = ''send'', shp_known = [(''to'', JString ''bob'')],
       shp_unknown = [''amount''], shp_present = [], shp_field_variables = [(''amount'', ''x'')]\<rparr>,
      \<lparr>shp_provider = ''pay'', shp_action = ''hold'', shp_known = [(''to'', JString ''eve'')],
       shp_unknown = [''amount''], shp_present = [], shp_field_variables = [(''amount'', ''x'')]\<rparr>]"

lemma sample_projected:
  "projected_discovery_rules sample_evaluator (sample_rules [sample_deny, sample_allow]) ''pay'' ''send''
     = Some (sample_contract ''send'', [sample_deny, sample_allow])"
  by code_simp

theorem composition_discovery_sound_witness:
  "\<exists>shared requests. length requests = 2 \<and>
     (\<forall>i < 2. completion sample_evaluator shared (paired_shapes ! i) (requests ! i))"
proof -
  have "resource_shapes_are_discoverable sample_evaluator (sample_rules [sample_deny, sample_allow, hold_allow]) paired_shapes"
    by code_simp
  moreover have "rules_in_range (sample_rules [sample_deny, sample_allow, hold_allow])" by code_simp
  moreover have "length paired_shapes = 2" by (simp add: paired_shapes_def)
  ultimately show ?thesis using composition_discovery_sound by fastforce
qed

theorem shape_discovery_exact_witness:
  "\<exists>res. conforms (sample_contract ''send'') res \<and>
     (\<exists>r. evaluate sample_evaluator (sample_rules [sample_deny, sample_allow]) ''pay'' ''send'' res = DAllow r)"
proof -
  have "resource_shape_is_discoverable sample_evaluator (sample_rules [sample_deny, sample_allow]) ''pay'' ''send''
      [(''to'', JString ''bob'')] [''amount''] []" by code_simp
  moreover have "rules_in_range (sample_rules [sample_deny, sample_allow])" by code_simp
  ultimately show ?thesis
    using shape_discovery_exact[OF sample_projected, of "[''amount'']" "[]" "[(''to'', JString ''bob'')]"]
    by (auto simp: sample_contract_def sample_field_def field_decl_def)
qed


end
