(* ===== verification/Budget_Ledger.thy ===== *)
theory Budget_Ledger
  imports Sentence_Corpus
begin

text \<open>
  The budget and rate meter, \<^verbatim>\<open>crates/cermet-core/src/budget.rs\<close>: calendar windows, the
  resolution digest, and the pure decision over the ledger's mints and releases. The ledger of one
  aggregate is a list of events in row order; its growth is the step relation \<open>ledger_step\<close>, whose
  mints are exactly the ones the decision admits.
\<close>

section \<open>Data\<close>

datatype aggregate_meter = MBudget | MRate

datatype frozen_debit = FValue int | FInvalid

record resolved_aggregate =
  ra_meter :: aggregate_meter
  ra_limit :: int
  ra_window :: window
  ra_aggregate_id :: string
  ra_resolution_digest :: string

datatype ledger_kind =
    LMint (mint_grant_id: string) (mint_debit: int) (mint_resolution: string) (mint_ts: int)
      (mint_expires: int)
  | LRelease (release_mint: string) (release_grant_id: string)

record ledger_event =
  le_event_id :: string
  le_rowid :: int
  le_kind :: ledger_kind

record window_proof =
  wp_window :: window
  wp_window_start :: int
  wp_window_end :: int
  wp_consumed_before :: int
  wp_debit :: int
  wp_limit :: int
  wp_projected :: int
  wp_live_mint_count :: nat
  wp_release_count :: nat
  wp_evidence_through_rowid :: int

datatype fault =
    DebitInvalid
  | RateDebitNotOne
  | Overflow
  | WindowOverflow
  | OrphanRelease
  | DuplicateRelease
  | ReleaseGrantMismatch
  | AmbiguousResolution
  | HistoricalMintInvalid

datatype aggregate_decision =
    AAllow window_proof
  | ADenyExceeded window_proof
  | ADenyInvalid fault

section \<open>Windows and digests\<close>

definition period :: "window \<Rightarrow> int" where
  "period w = (case w of Hour \<Rightarrow> 3600 | Day \<Rightarrow> 86400)"

text \<open>Euclidean division by a positive period is HOL's \<open>div\<close>.\<close>

definition window_bounds :: "window \<Rightarrow> int \<Rightarrow> (int \<times> int) option" where
  "window_bounds w now =
     Option.bind (checked ((now div period w) * period w)) (\<lambda>start.
     Option.bind (checked (start + period w)) (\<lambda>end_of.
     Some (start, end_of)))"

definition is_canonical_aggregate_id :: "string \<Rightarrow> bool" where
  "is_canonical_aggregate_id v \<longleftrightarrow>
     length (utf8 v) = 64 \<and>
     list_all (\<lambda>b. (48 \<le> b \<and> b \<le> 57) \<or> (97 \<le> b \<and> b \<le> 102)) (utf8 v)"

record member_semantics =
  ms_provider :: string
  ms_action :: string
  ms_eligible :: bool
  ms_field_decl :: "string option"
  ms_descriptor_hash :: "string option"
  ms_template_hash :: "string option"

definition le_part :: "string \<Rightarrow> nat list" where
  "le_part v = le_bytes 8 (length (utf8 v)) @ utf8 v"

definition fold_opt :: "string \<Rightarrow> string option \<Rightarrow> nat list" where
  "fold_opt tag v = utf8 tag @ [0] @ (case v of None \<Rightarrow> [0] | Some s \<Rightarrow> [1] @ le_part s)"

definition member_bytes :: "member_semantics \<Rightarrow> nat list" where
  "member_bytes m =
     le_part (ms_provider m) @ le_part (ms_action m) @ [if ms_eligible m then 1 else 0] @
     fold_opt ''decl'' (ms_field_decl m) @ fold_opt ''desc'' (ms_descriptor_hash m) @
     fold_opt ''tmpl'' (ms_template_hash m)"

definition resolution_preimage :: "string option \<Rightarrow> member_semantics list \<Rightarrow> nat list" where
  "resolution_preimage summed_field ordered_members =
     utf8 ''cermet-resolution-v1'' @ [0] @
     (case summed_field of
        Some field \<Rightarrow> utf8 ''field'' @ [0] @ le_part field
      | None \<Rightarrow> utf8 ''rate'' @ [0]) @
     le_bytes 8 (length ordered_members) @ concat (map member_bytes ordered_members)"

definition resolution_digest :: "sha_fun \<Rightarrow> string option \<Rightarrow> member_semantics list \<Rightarrow> string" where
  "resolution_digest sha summed_field ordered_members =
     hex (sha (resolution_preimage summed_field ordered_members))"

definition resolve_meter :: "aggregate \<Rightarrow> (aggregate_meter \<times> string option) option" where
  "resolve_meter a = (case ag_kind a of
      Budget (Some f) \<Rightarrow> Some (MBudget, Some f)
    | Budget None \<Rightarrow> None
    | Rate \<Rightarrow> Some (MRate, None))"

section \<open>The decision\<close>

text \<open>Each mint's grant by its event id; a later entry replaces an earlier one.\<close>

fun mint_grants :: "ledger_event list \<Rightarrow> (string \<rightharpoonup> string) \<Rightarrow> (string \<rightharpoonup> string)" where
  "mint_grants [] m = m"
| "mint_grants (ev # evs) m = (case le_kind ev of
      LMint g _ _ _ _ \<Rightarrow> mint_grants evs (m(le_event_id ev \<mapsto> g))
    | LRelease _ _ \<Rightarrow> mint_grants evs m)"

fun check_releases :: "(string \<rightharpoonup> string) \<Rightarrow> ledger_event list \<Rightarrow> string list \<Rightarrow> nat
    \<Rightarrow> fault + string list \<times> nat" where
  "check_releases grants [] tombstoned release_count = Ok (tombstoned, release_count)"
| "check_releases grants (ev # evs) tombstoned release_count = (case le_kind ev of
      LMint _ _ _ _ _ \<Rightarrow> check_releases grants evs tombstoned release_count
    | LRelease m g \<Rightarrow>
        (case grants m of
           None \<Rightarrow> Err OrphanRelease
         | Some mint_grant \<Rightarrow>
             if mint_grant \<noteq> g then Err ReleaseGrantMismatch
             else if m \<in> set tombstoned then Err DuplicateRelease
             else check_releases grants evs (m # tombstoned) (release_count + 1)))"

definition historical_debit_invalid :: "resolved_aggregate \<Rightarrow> int \<Rightarrow> bool" where
  "historical_debit_invalid agg d = (case ra_meter agg of
      MBudget \<Rightarrow> d < 1 \<or> d > ra_limit agg
    | MRate \<Rightarrow> d \<noteq> 1)"

fun sum_mints :: "resolved_aggregate \<Rightarrow> string list \<Rightarrow> int \<Rightarrow> int \<Rightarrow> ledger_event list \<Rightarrow> int \<Rightarrow> nat
    \<Rightarrow> fault + int \<times> nat" where
  "sum_mints agg tombstoned window_start window_end [] consumed_before live_mint_count =
     Ok (consumed_before, live_mint_count)"
| "sum_mints agg tombstoned window_start window_end (ev # evs) consumed_before live_mint_count =
     (case le_kind ev of
        LRelease _ _ \<Rightarrow> sum_mints agg tombstoned window_start window_end evs consumed_before live_mint_count
      | LMint g d digest ts expires \<Rightarrow>
          if ts < window_start \<or> ts \<ge> window_end
          then sum_mints agg tombstoned window_start window_end evs consumed_before live_mint_count
          else if digest \<noteq> ra_resolution_digest agg then Err AmbiguousResolution
          else if historical_debit_invalid agg d then Err HistoricalMintInvalid
          else if le_event_id ev \<in> set tombstoned
          then sum_mints agg tombstoned window_start window_end evs consumed_before live_mint_count
          else (case checked (consumed_before + d) of
              None \<Rightarrow> Err Overflow
            | Some v \<Rightarrow> sum_mints agg tombstoned window_start window_end evs v (live_mint_count + 1)))"

definition decide_with_debit :: "resolved_aggregate \<Rightarrow> int \<Rightarrow> ledger_event list \<Rightarrow> int \<Rightarrow> int
    \<Rightarrow> aggregate_decision" where
  "decide_with_debit agg debit evidence now_epoch evidence_through_rowid =
     (if ra_meter agg = MRate \<and> debit \<noteq> 1 then ADenyInvalid RateDebitNotOne
      else (case window_bounds (ra_window agg) now_epoch of
          None \<Rightarrow> ADenyInvalid WindowOverflow
        | Some (window_start, window_end) \<Rightarrow>
      (case check_releases (mint_grants evidence Map.empty) evidence [] 0 of
          Inl f \<Rightarrow> ADenyInvalid f
        | Inr (tombstoned, release_count) \<Rightarrow>
      (case sum_mints agg tombstoned window_start window_end evidence 0 0 of
          Inl f \<Rightarrow> ADenyInvalid f
        | Inr (consumed_before, live_mint_count) \<Rightarrow>
      (case checked (consumed_before + debit) of
          None \<Rightarrow> ADenyInvalid Overflow
        | Some projected \<Rightarrow>
            let proof_of = \<lparr>wp_window = ra_window agg, wp_window_start = window_start,
                  wp_window_end = window_end, wp_consumed_before = consumed_before,
                  wp_debit = debit, wp_limit = ra_limit agg, wp_projected = projected,
                  wp_live_mint_count = live_mint_count, wp_release_count = release_count,
                  wp_evidence_through_rowid = evidence_through_rowid\<rparr> in
            if projected \<le> ra_limit agg then AAllow proof_of else ADenyExceeded proof_of)))))"

definition decide_aggregate :: "resolved_aggregate \<Rightarrow> frozen_debit \<Rightarrow> ledger_event list \<Rightarrow> int \<Rightarrow> int
    \<Rightarrow> aggregate_decision" where
  "decide_aggregate agg debit evidence now_epoch evidence_through_rowid = (case debit of
      FInvalid \<Rightarrow> ADenyInvalid DebitInvalid
    | FValue d \<Rightarrow> if d \<le> 0 then ADenyInvalid DebitInvalid
                  else decide_with_debit agg d evidence now_epoch evidence_through_rowid)"

section \<open>What the ledger holds\<close>

definition is_mint :: "ledger_event \<Rightarrow> bool" where
  "is_mint ev = (case le_kind ev of LMint _ _ _ _ _ \<Rightarrow> True | LRelease _ _ \<Rightarrow> False)"

definition released :: "ledger_event list \<Rightarrow> string list" where
  "released evs = List.map_filter
     (\<lambda>ev. case le_kind ev of LRelease m _ \<Rightarrow> Some m | LMint _ _ _ _ _ \<Rightarrow> None) evs"

definition in_window :: "int \<Rightarrow> int \<Rightarrow> ledger_event \<Rightarrow> bool" where
  "in_window s e ev \<longleftrightarrow> is_mint ev \<and> s \<le> mint_ts (le_kind ev) \<and> mint_ts (le_kind ev) < e"

definition live_in :: "string list \<Rightarrow> int \<Rightarrow> int \<Rightarrow> ledger_event list \<Rightarrow> ledger_event list" where
  "live_in tombs s e evs = filter (\<lambda>ev. in_window s e ev \<and> le_event_id ev \<notin> set tombs) evs"

text \<open>The reference figure: the debits of the mints in the window that no release voids.\<close>

definition live_debits :: "int \<Rightarrow> int \<Rightarrow> ledger_event list \<Rightarrow> int" where
  "live_debits s e evs = sum_list (map (mint_debit \<circ> le_kind) (live_in (released evs) s e evs))"

lemma released_simps [simp]:
  "released [] = []"
  "released (ev # evs) = (case le_kind ev of LRelease m _ \<Rightarrow> m # released evs | _ \<Rightarrow> released evs)"
  "released (evs @ evs') = released evs @ released evs'"
  by (auto simp: released_def map_filter_simps List.map_filter_def split: ledger_kind.splits)

lemma released_mem: "m \<in> set (released evs) \<longleftrightarrow> (\<exists>ev \<in> set evs. \<exists>g. le_kind ev = LRelease m g)"
  by (induction evs) (auto split: ledger_kind.splits)

lemma in_window_simps [simp]:
  "le_kind ev = LMint g d r t x \<Longrightarrow> in_window s e ev \<longleftrightarrow> s \<le> t \<and> t < e"
  "le_kind ev = LRelease m g \<Longrightarrow> \<not> in_window s e ev"
  by (simp_all add: in_window_def is_mint_def)

lemma live_in_simps [simp]:
  "live_in tombs s e [] = []"
  "live_in tombs s e (ev # evs) =
     (if in_window s e ev \<and> le_event_id ev \<notin> set tombs then ev # live_in tombs s e evs
      else live_in tombs s e evs)"
  "live_in tombs s e (evs @ evs') = live_in tombs s e evs @ live_in tombs s e evs'"
  by (simp_all add: live_in_def)

lemma check_releases_Ok:
  "check_releases grants evs tombs n = Ok (tombs', n') \<Longrightarrow>
     set tombs' = set tombs \<union> set (released evs) \<and> n' = n + length (released evs)"
proof (induction evs arbitrary: tombs n)
  case (Cons ev evs)
  show ?case
  proof (cases "le_kind ev")
    case (LMint g d r t x)
    with Cons show ?thesis by simp
  next
    case (LRelease m g)
    with Cons.prems have "check_releases grants evs (m # tombs) (n + 1) = Ok (tombs', n')"
      by (auto split: option.splits if_splits)
    from Cons.IH[OF this] LRelease show ?thesis by auto
  qed
qed simp

definition mint_fits :: "resolved_aggregate \<Rightarrow> ledger_event \<Rightarrow> bool" where
  "mint_fits agg ev \<longleftrightarrow> mint_resolution (le_kind ev) = ra_resolution_digest agg \<and>
     \<not> historical_debit_invalid agg (mint_debit (le_kind ev))"

lemma sum_mints_Ok:
  "sum_mints agg tombs s e evs c n = Ok (c', n') \<Longrightarrow>
     c' = c + sum_list (map (mint_debit \<circ> le_kind) (live_in tombs s e evs)) \<and>
     n' = n + length (live_in tombs s e evs) \<and>
     (\<forall>ev \<in> set evs. in_window s e ev \<longrightarrow> mint_fits agg ev)"
proof (induction evs arbitrary: c n)
  case (Cons ev evs)
  show ?case
  proof (cases "le_kind ev")
    case (LRelease m g)
    with Cons show ?thesis by simp
  next
    case (LMint g d r t x)
    show ?thesis
    proof (cases "in_window s e ev")
      case False
      then have "t < s \<or> t \<ge> e" using LMint by auto
      then have "sum_mints agg tombs s e evs c n = Ok (c', n')" using Cons.prems LMint by simp
      from Cons.IH[OF this] False show ?thesis by simp
    next
      case True
      then have w: "\<not> (t < s \<or> t \<ge> e)" using LMint by auto
      then have fits: "mint_fits agg ev" using Cons.prems LMint by (auto simp: mint_fits_def split: if_splits)
      show ?thesis
      proof (cases "le_event_id ev \<in> set tombs")
        case dead: True
        then have "sum_mints agg tombs s e evs c n = Ok (c', n')"
          using Cons.prems LMint w by (auto split: if_splits)
        from Cons.IH[OF this] dead fits show ?thesis by simp
      next
        case False
        then have "sum_mints agg tombs s e evs (c + d) (n + 1) = Ok (c', n')"
          using Cons.prems LMint w by (auto split: if_splits option.splits)
        from Cons.IH[OF this] False True fits LMint show ?thesis by simp
      qed
    qed
  qed
qed simp

text \<open>A coherent decision: the proof is the true figure, whatever the evidence.\<close>

lemma decide_coherent:
  assumes "decide_aggregate agg debit evs now row \<in> {AAllow pf, ADenyExceeded pf}"
  shows "debit = FValue (wp_debit pf) \<and> 0 < wp_debit pf \<and>
         window_bounds (ra_window agg) now = Some (wp_window_start pf, wp_window_end pf) \<and>
         wp_consumed_before pf = live_debits (wp_window_start pf) (wp_window_end pf) evs \<and>
         wp_projected pf = wp_consumed_before pf + wp_debit pf \<and> in_i64 (wp_projected pf) \<and>
         wp_limit pf = ra_limit agg \<and> wp_release_count pf = length (released evs) \<and>
         (ra_meter agg = MRate \<longrightarrow> wp_debit pf = 1) \<and>
         (\<forall>ev \<in> set evs. in_window (wp_window_start pf) (wp_window_end pf) ev \<longrightarrow>
            mint_fits agg ev) \<and>
         (decide_aggregate agg debit evs now row = AAllow pf \<longleftrightarrow> wp_projected pf \<le> ra_limit agg)"
proof -
  from assms obtain d where d: "debit = FValue d" "0 < d"
    and dec: "decide_with_debit agg d evs now row = decide_aggregate agg debit evs now row"
    by (auto simp: decide_aggregate_def split: frozen_debit.splits if_splits)
  from assms obtain s e tombs rc c n where
    rate: "\<not> (ra_meter agg = MRate \<and> d \<noteq> 1)"
    and w: "window_bounds (ra_window agg) now = Some (s, e)"
    and rel: "check_releases (mint_grants evs Map.empty) evs [] 0 = Ok (tombs, rc)"
    and sm: "sum_mints agg tombs s e evs 0 0 = Ok (c, n)"
    and ck: "in_i64 (c + d)"
    unfolding dec[symmetric] by (auto simp: decide_with_debit_def split: if_splits option.splits sum.splits)
  have sets: "live_in tombs s e evs = live_in (released evs) s e evs"
    using check_releases_Ok[OF rel] by (simp add: live_in_def)
  have c: "c = live_debits s e evs"
    using sum_mints_Ok[OF sm] by (simp add: live_debits_def sets)
  have val: "decide_aggregate agg debit evs now row =
    (let pf = \<lparr>wp_window = ra_window agg, wp_window_start = s, wp_window_end = e,
       wp_consumed_before = c, wp_debit = d, wp_limit = ra_limit agg, wp_projected = c + d,
       wp_live_mint_count = n, wp_release_count = rc, wp_evidence_through_rowid = row\<rparr> in
     if c + d \<le> ra_limit agg then AAllow pf else ADenyExceeded pf)"
    unfolding dec[symmetric] decide_with_debit_def using rate w rel sm ck by (auto simp: checked_def Let_def)
  show ?thesis using assms d w c ck rate check_releases_Ok[OF rel] sum_mints_Ok[OF sm]
    unfolding val by (auto simp: Let_def split: if_splits)
qed

section \<open>How the ledger grows\<close>

text \<open>
  The mint seam is serialized, so the ledger of an aggregate grows one event at a time: a mint the
  decision admitted at some clock value, under an event id not used before, or the release of a mint
  that has none. A denial leaves it as it is.
\<close>

inductive ledger_step :: "resolved_aggregate \<Rightarrow> ledger_event list \<Rightarrow> ledger_event list \<Rightarrow> bool"
  for agg where
  mint: "decide_aggregate agg debit evs now row = AAllow pf \<Longrightarrow>
         \<forall>ev \<in> set evs. le_event_id ev \<noteq> i \<Longrightarrow>
         ledger_step agg evs (evs @ [\<lparr>le_event_id = i, le_rowid = r,
           le_kind = LMint g (wp_debit pf) (ra_resolution_digest agg) now expires\<rparr>])"
| release: "ev \<in> set evs \<Longrightarrow> le_kind ev = LMint g d dig ts x \<Longrightarrow> le_event_id ev \<notin> set (released evs) \<Longrightarrow>
         ledger_step agg evs (evs @ [\<lparr>le_event_id = i, le_rowid = r,
           le_kind = LRelease (le_event_id ev) g\<rparr>])"

definition cap :: "resolved_aggregate \<Rightarrow> int" where
  "cap agg = max 0 (ra_limit agg)"

definition mint_ids :: "ledger_event list \<Rightarrow> string list" where
  "mint_ids evs = map le_event_id (filter is_mint evs)"

text \<open>The invariant of a ledger.\<close>

definition ledger_ok :: "resolved_aggregate \<Rightarrow> ledger_event list \<Rightarrow> bool" where
  "ledger_ok agg evs \<longleftrightarrow>
     distinct (mint_ids evs) \<and> distinct (released evs) \<and>
     (\<forall>ev \<in> set evs. is_mint ev \<longrightarrow> mint_fits agg ev) \<and>
     (\<forall>ev \<in> set evs. \<forall>m g. le_kind ev = LRelease m g \<longrightarrow>
        (\<exists>mt \<in> set evs. le_event_id mt = m \<and> is_mint mt \<and> mint_grant_id (le_kind mt) = g)) \<and>
     (\<forall>now s e. window_bounds (ra_window agg) now = Some (s, e) \<longrightarrow> live_debits s e evs \<le> cap agg)"

lemma mint_fits_positive: "mint_fits agg ev \<Longrightarrow> 0 < mint_debit (le_kind ev)"
  by (auto simp: mint_fits_def historical_debit_invalid_def split: aggregate_meter.splits)

lemma period_pos [simp]: "0 < period w"
  by (simp add: period_def split: window.splits)

lemma window_bounds_Some:
  "window_bounds w now = Some (s, e) \<Longrightarrow> s = now div period w * period w \<and> e = s + period w"
  by (auto simp: window_bounds_def bind_eq_Some_conv)

lemma window_contains: "window_bounds w now = Some (s, e) \<Longrightarrow> s \<le> now \<and> now < e"
proof -
  assume "window_bounds w now = Some (s, e)"
  then have "s = now div period w * period w" "e = s + period w" using window_bounds_Some by auto
  then show ?thesis using pos_mod_bound[OF period_pos[of w], of now] pos_mod_sign[OF period_pos[of w], of now]
    by (simp add: minus_div_mult_eq_mod[symmetric])
qed

lemma window_unique:
  assumes "window_bounds w now = Some (s, e)" "s \<le> t" "t < e"
  shows "t div period w = now div period w"
proof -
  have "s = now div period w * period w" "e = s + period w" using window_bounds_Some[OF assms(1)] by auto
  then have "t = period w * (now div period w) + (t - s)" "0 \<le> t - s" "t - s < period w"
    using assms(2,3) by (auto simp: mult.commute)
  then show ?thesis by (rule int_div_pos_eq)
qed

lemma live_in_tombs: "x \<notin> le_event_id ` set evs \<Longrightarrow> live_in (x # tombs) s e evs = live_in tombs s e evs"
  by (induction evs) auto

lemma live_debits_mint:
  assumes "\<forall>ev \<in> set evs. le_event_id ev \<noteq> i" "i \<notin> set (released evs)"
  shows "live_debits s e (evs @ [\<lparr>le_event_id = i, le_rowid = r, le_kind = LMint g d dig t x\<rparr>]) =
         live_debits s e evs + (if s \<le> t \<and> t < e then d else 0)"
  using assms by (auto simp: live_debits_def in_window_def is_mint_def)

lemma sum_live_mono:
  assumes "\<forall>ev \<in> set evs. is_mint ev \<longrightarrow> 0 < mint_debit (le_kind ev)" "set tombs \<subseteq> set tombs'"
  shows "sum_list (map (mint_debit \<circ> le_kind) (live_in tombs' s e evs))
         \<le> sum_list (map (mint_debit \<circ> le_kind) (live_in tombs s e evs))"
  using assms by (induction evs) (auto simp: in_window_def)

lemma ledger_ok_positive: "ledger_ok agg evs \<Longrightarrow> \<forall>ev \<in> set evs. is_mint ev \<longrightarrow> 0 < mint_debit (le_kind ev)"
  using mint_fits_positive by (auto simp: ledger_ok_def)

lemma live_debits_nonneg:
  assumes "ledger_ok agg evs"
  shows "0 \<le> live_debits s e evs"
  unfolding live_debits_def using ledger_ok_positive[OF assms]
  by (intro sum_list_nonneg) (auto simp: live_in_def in_window_def)

lemma ledger_ok_mint:
  assumes ok: "ledger_ok agg evs" and dec: "decide_aggregate agg debit evs now row = AAllow pf"
    and fresh: "\<forall>ev \<in> set evs. le_event_id ev \<noteq> i"
  shows "ledger_ok agg (evs @ [\<lparr>le_event_id = i, le_rowid = r,
           le_kind = LMint g (wp_debit pf) (ra_resolution_digest agg) now x\<rparr>])"
proof -
  let ?ev = "\<lparr>le_event_id = i, le_rowid = r, le_kind = LMint g (wp_debit pf) (ra_resolution_digest agg) now x\<rparr>"
  from dec have coh: "0 < wp_debit pf" "ra_meter agg = MRate \<longrightarrow> wp_debit pf = 1"
    "window_bounds (ra_window agg) now = Some (wp_window_start pf, wp_window_end pf)"
    "live_debits (wp_window_start pf) (wp_window_end pf) evs + wp_debit pf \<le> ra_limit agg"
    using decide_coherent[of agg debit evs now row pf] by auto
  have notrel: "i \<notin> set (released evs)"
    using ok fresh unfolding ledger_ok_def released_mem by metis
  have nonneg: "0 \<le> live_debits (wp_window_start pf) (wp_window_end pf) evs"
    using ok by (rule live_debits_nonneg)
  have fits: "mint_fits agg ?ev" using coh nonneg
    by (auto simp: mint_fits_def historical_debit_invalid_def split: aggregate_meter.splits)
  have "live_debits s e (evs @ [?ev]) \<le> cap agg" if w: "window_bounds (ra_window agg) n = Some (s, e)" for n s e
  proof (cases "s \<le> now \<and> now < e")
    case True
    then have "now div period (ra_window agg) = n div period (ra_window agg)" using window_unique[OF w] by blast
    then have "s = wp_window_start pf" "e = wp_window_end pf"
      using window_bounds_Some[OF w] window_bounds_Some[OF coh(3)] by auto
    then show ?thesis using coh(4) True by (simp add: live_debits_mint[OF fresh notrel] cap_def)
  next
    case False
    then show ?thesis using ok w by (auto simp: live_debits_mint[OF fresh notrel] ledger_ok_def)
  qed
  moreover have "distinct (mint_ids (evs @ [?ev]))"
    using ok fresh by (auto simp: ledger_ok_def mint_ids_def is_mint_def)
  ultimately show ?thesis using ok fits by (auto simp: ledger_ok_def is_mint_def)
qed

lemma ledger_ok_release:
  assumes ok: "ledger_ok agg evs" and ev: "ev \<in> set evs" "le_kind ev = LMint g d dig ts x"
    and live: "le_event_id ev \<notin> set (released evs)"
  shows "ledger_ok agg (evs @ [\<lparr>le_event_id = i, le_rowid = r, le_kind = LRelease (le_event_id ev) g\<rparr>])"
proof -
  let ?ev = "\<lparr>le_event_id = i, le_rowid = r, le_kind = LRelease (le_event_id ev) g\<rparr>"
  note pos = ledger_ok_positive[OF ok]
  have "live_debits s e (evs @ [?ev]) \<le> live_debits s e evs" for s e
    using sum_live_mono[OF pos, of "released evs" "released evs @ [le_event_id ev]" s e]
    by (auto simp: live_debits_def)
  then have "\<forall>n s e. window_bounds (ra_window agg) n = Some (s, e) \<longrightarrow> live_debits s e (evs @ [?ev]) \<le> cap agg"
    using ok by (meson ledger_ok_def order.trans)
  moreover have "is_mint ev" "mint_grant_id (le_kind ev) = g" using ev(2) by (simp_all add: is_mint_def)
  ultimately show ?thesis using ok live ev(1)
    by (auto simp: ledger_ok_def mint_ids_def is_mint_def split: ledger_kind.splits)
qed

lemma ledger_ok_start: "ledger_ok agg []"
  by (simp add: ledger_ok_def mint_ids_def live_debits_def cap_def)

interpretation ledger: invariant_system "\<lambda>evs. evs = []" "ledger_step agg" "ledger_ok agg"
  for agg
  by unfold_locales
     (auto simp: ledger_ok_start elim!: ledger_step.cases intro: ledger_ok_mint ledger_ok_release)

section \<open>Reachable ledgers never fault\<close>

lemma mint_grants_other: "k \<notin> set (mint_ids evs) \<Longrightarrow> mint_grants evs m k = m k"
  by (induction evs arbitrary: m) (auto simp: mint_ids_def is_mint_def split: ledger_kind.splits)

lemma mint_grants_lookup:
  assumes "distinct (mint_ids evs)" "mt \<in> set evs" "is_mint mt"
  shows "mint_grants evs m (le_event_id mt) = Some (mint_grant_id (le_kind mt))"
  using assms
proof (induction evs arbitrary: m)
  case (Cons ev evs)
  show ?case
  proof (cases "mt = ev")
    case True
    with Cons.prems obtain g d r t x where k: "le_kind ev = LMint g d r t x"
      by (auto simp: is_mint_def split: ledger_kind.splits)
    with Cons.prems(1) have "le_event_id ev \<notin> set (mint_ids evs)"
      by (simp add: mint_ids_def is_mint_def)
    then show ?thesis using True k by (simp add: mint_grants_other)
  next
    case False
    with Cons show ?thesis by (auto simp: mint_ids_def split: ledger_kind.splits if_splits)
  qed
qed simp

lemma check_releases_total:
  assumes "\<forall>ev \<in> set evs. \<forall>m g. le_kind ev = LRelease m g \<longrightarrow> grants m = Some g"
    and "distinct (released evs)" "set tombs \<inter> set (released evs) = {}"
  shows "\<exists>r. check_releases grants evs tombs n = Ok r"
  using assms
proof (induction evs arbitrary: tombs n)
  case (Cons ev evs)
  then show ?case by (cases "le_kind ev") auto
qed simp

lemma sum_mints_total:
  assumes "\<forall>ev \<in> set evs. is_mint ev \<longrightarrow> mint_fits agg ev" "0 \<le> c"
    and "c + sum_list (map (mint_debit \<circ> le_kind) (live_in tombs s e evs)) \<le> i64_max"
  shows "\<exists>r. sum_mints agg tombs s e evs c n = Ok r"
  using assms
proof (induction evs arbitrary: c n)
  case (Cons ev evs)
  show ?case
  proof (cases "le_kind ev")
    case (LRelease m g)
    with Cons show ?thesis by simp
  next
    case (LMint g d r t x)
    then have fits: "mint_fits agg ev" using Cons.prems(1) by (simp add: is_mint_def)
    then have d: "0 < d" using mint_fits_positive LMint by fastforce
    have rest: "\<forall>ev \<in> set evs. is_mint ev \<longrightarrow> mint_fits agg ev" using Cons.prems(1) by simp
    have nn: "0 \<le> sum_list (map (mint_debit \<circ> le_kind) (live_in tombs s e evs))"
      using rest mint_fits_positive
      by (intro sum_list_nonneg) (fastforce simp: live_in_def in_window_def)
    show ?thesis
    proof (cases "in_window s e ev \<and> le_event_id ev \<notin> set tombs")
      case True
      then have "c + d + sum_list (map (mint_debit \<circ> le_kind) (live_in tombs s e evs)) \<le> i64_max"
        using Cons.prems(3) LMint by (simp add: comp_def)
      moreover from this have "in_i64 (c + d)" using Cons.prems(2) d nn by (simp add: in_i64_def i64_bounds)
      ultimately show ?thesis using Cons.IH[OF rest, of "c + d"] Cons.prems(2) d True LMint fits
        by (auto simp: mint_fits_def checked_def comp_def)
    next
      case False
      then show ?thesis using Cons.IH[OF rest, of c] Cons.prems(2,3) LMint fits
        by (auto simp: mint_fits_def)
    qed
  qed
qed simp

lemma decide_total:
  assumes ok: "ledger_ok agg evs" and lim: "ra_limit agg \<le> i64_max"
    and d: "0 < d" "ra_meter agg = MRate \<longrightarrow> d = 1"
    and w: "window_bounds (ra_window agg) now = Some (s, e)"
  shows "if in_i64 (live_debits s e evs + d)
         then \<exists>pf. decide_aggregate agg (FValue d) evs now row \<in> {AAllow pf, ADenyExceeded pf}
         else decide_aggregate agg (FValue d) evs now row = ADenyInvalid Overflow"
proof -
  have ok': "distinct (mint_ids evs)" "distinct (released evs)"
    "\<forall>ev \<in> set evs. is_mint ev \<longrightarrow> mint_fits agg ev" "live_debits s e evs \<le> cap agg"
    using ok w by (auto simp: ledger_ok_def)
  have "\<forall>ev \<in> set evs. \<forall>m g. le_kind ev = LRelease m g \<longrightarrow> mint_grants evs Map.empty m = Some g"
    using ok mint_grants_lookup[OF ok'(1)] unfolding ledger_ok_def by metis
  then obtain tombs rc where rel: "check_releases (mint_grants evs Map.empty) evs [] 0 = Ok (tombs, rc)"
    using check_releases_total[of evs "mint_grants evs Map.empty" "[]" 0] ok'(2) by auto
  have "live_in tombs s e evs = live_in (released evs) s e evs"
    using check_releases_Ok[OF rel] by (simp add: live_in_def)
  then have sum: "sum_list (map (mint_debit \<circ> le_kind) (live_in tombs s e evs)) = live_debits s e evs"
    by (simp add: live_debits_def)
  obtain c n where sm: "sum_mints agg tombs s e evs 0 0 = Ok (c, n)"
    using sum_mints_total[OF ok'(3), of 0 tombs s e 0] ok'(4) lim sum
    by (auto simp: cap_def i64_bounds max_def split: if_splits)
  have "c = live_debits s e evs" using sum_mints_Ok[OF sm] sum by simp
  then show ?thesis using d w rel sm
    by (auto simp: decide_aggregate_def decide_with_debit_def Let_def checked_def)
qed

section \<open>Encodings are injective\<close>

lemma le_bytes_length [simp]: "length (le_bytes w n) = w"
  by (induction w arbitrary: n) simp_all

lemma le_bytes_inj: "le_bytes w m = le_bytes w n \<Longrightarrow> m < 256 ^ w \<Longrightarrow> n < 256 ^ w \<Longrightarrow> m = n"
proof (induction w arbitrary: m n)
  case (Suc w)
  then have "m mod 256 = n mod 256" "m div 256 = n div 256"
    by (auto intro!: Suc.IH simp: less_mult_imp_div_less mult.commute)
  then show ?case by (metis div_mult_mod_eq)
qed simp

definition short :: "string \<Rightarrow> bool" where
  "short v \<longleftrightarrow> length (utf8 v) < 2 ^ 64"

lemma le_part_inj:
  assumes "le_part u @ x = le_part v @ y" "short u" "short v"
  shows "u = v \<and> x = y"
proof -
  have pow: "(256::nat) ^ 8 = 2 ^ 64" by simp
  from assms(1) have len: "le_bytes 8 (length (utf8 u)) = le_bytes 8 (length (utf8 v))"
    and rest: "utf8 u @ x = utf8 v @ y" by (simp_all add: le_part_def append_eq_append_conv)
  have "length (utf8 u) = length (utf8 v)"
    using le_bytes_inj[OF len] assms(2,3) unfolding short_def pow by blast
  with rest have "utf8 u = utf8 v" "x = y" by simp_all
  then show ?thesis using utf8_inj by blast
qed

definition short_opt :: "string option \<Rightarrow> bool" where
  "short_opt v \<longleftrightarrow> (case v of None \<Rightarrow> True | Some s \<Rightarrow> short s)"

lemma fold_opt_inj:
  assumes "fold_opt tag u @ x = fold_opt tag v @ y" "short_opt u" "short_opt v"
  shows "u = v \<and> x = y"
  using assms le_part_inj
  by (cases u; cases v) (auto simp: fold_opt_def short_opt_def)

definition short_member :: "member_semantics \<Rightarrow> bool" where
  "short_member m \<longleftrightarrow> short (ms_provider m) \<and> short (ms_action m) \<and> short_opt (ms_field_decl m) \<and>
     short_opt (ms_descriptor_hash m) \<and> short_opt (ms_template_hash m)"

lemma member_bytes_inj:
  assumes eq: "member_bytes m @ x = member_bytes m' @ y" and sh: "short_member m" "short_member m'"
  shows "m = m' \<and> x = y"
proof -
  from le_part_inj eq sh have 1: "ms_provider m = ms_provider m'"
    and r1: "le_part (ms_action m) @ [if ms_eligible m then 1 else 0] @ fold_opt ''decl'' (ms_field_decl m) @
      fold_opt ''desc'' (ms_descriptor_hash m) @ fold_opt ''tmpl'' (ms_template_hash m) @ x =
      le_part (ms_action m') @ [if ms_eligible m' then 1 else 0] @ fold_opt ''decl'' (ms_field_decl m') @
      fold_opt ''desc'' (ms_descriptor_hash m') @ fold_opt ''tmpl'' (ms_template_hash m') @ y"
    unfolding member_bytes_def short_member_def append_assoc by blast+
  from le_part_inj[OF r1] sh have 2: "ms_action m = ms_action m'"
    and r2: "(if ms_eligible m then 1 else 0::nat) = (if ms_eligible m' then 1 else 0)"
      "fold_opt ''decl'' (ms_field_decl m) @
      fold_opt ''desc'' (ms_descriptor_hash m) @ fold_opt ''tmpl'' (ms_template_hash m) @ x =
      fold_opt ''decl'' (ms_field_decl m') @
      fold_opt ''desc'' (ms_descriptor_hash m') @ fold_opt ''tmpl'' (ms_template_hash m') @ y"
    by (auto simp: short_member_def)
  from fold_opt_inj[OF r2(2)] sh have 3: "ms_field_decl m = ms_field_decl m'"
    and r3: "fold_opt ''desc'' (ms_descriptor_hash m) @ fold_opt ''tmpl'' (ms_template_hash m) @ x =
      fold_opt ''desc'' (ms_descriptor_hash m') @ fold_opt ''tmpl'' (ms_template_hash m') @ y"
    by (auto simp: short_member_def)
  from fold_opt_inj[OF r3] sh have 4: "ms_descriptor_hash m = ms_descriptor_hash m'"
    and r4: "fold_opt ''tmpl'' (ms_template_hash m) @ x = fold_opt ''tmpl'' (ms_template_hash m') @ y"
    by (auto simp: short_member_def)
  from fold_opt_inj[OF r4] sh have 5: "ms_template_hash m = ms_template_hash m'" "x = y"
    by (auto simp: short_member_def)
  with 1 2 3 4 r2(1) show ?thesis by (cases m; cases m') (auto split: if_splits)
qed

lemma members_inj:
  "concat (map member_bytes ms) = concat (map member_bytes ms') \<Longrightarrow> length ms = length ms' \<Longrightarrow>
     list_all short_member ms \<Longrightarrow> list_all short_member ms' \<Longrightarrow> ms = ms'"
proof (induction ms arbitrary: ms')
  case (Cons m ms)
  then obtain m' ns where ms': "ms' = m' # ns" by (cases ms') auto
  with Cons.prems member_bytes_inj[of m "concat (map member_bytes ms)" m' "concat (map member_bytes ns)"]
  show ?case using Cons.IH[of ns] by auto
qed simp

section \<open>Properties\<close>

text \<open>
  C4. The cap holds: in every ledger the mint seam can produce - mints at whatever clock values, in
  whatever order, interleaved with releases - the live debits of a calendar window never exceed the
  aggregate's limit.
\<close>

theorem budget_never_exceeded:
  assumes "(ledger_step agg)\<^sup>*\<^sup>* [] evs" "window_bounds (ra_window agg) now = Some (s, e)"
  shows "live_debits s e evs \<le> max 0 (ra_limit agg)"
  using ledger.inv_reachable[OF refl assms(1)] assms(2) by (auto simp: ledger_ok_def cap_def)

text \<open>
  C25. On a ledger the mint seam produced, the decision is exact: it never faults on its own evidence,
  and it admits a positive debit if and only if the live debits of the current window together with it
  stay within the limit; otherwise it refuses, as exceeded or, beyond the machine range, as overflow.
\<close>

theorem decision_exact_on_reachable:
  assumes "(ledger_step agg)\<^sup>*\<^sup>* [] evs" "ra_limit agg \<le> i64_max"
    and "0 < d" "ra_meter agg = MRate \<longrightarrow> d = 1"
    and "window_bounds (ra_window agg) now = Some (s, e)"
  shows "if live_debits s e evs + d \<le> ra_limit agg
         then \<exists>pf. decide_aggregate agg (FValue d) evs now row = AAllow pf
         else (\<exists>pf. decide_aggregate agg (FValue d) evs now row = ADenyExceeded pf) \<or>
              decide_aggregate agg (FValue d) evs now row = ADenyInvalid Overflow"
proof -
  have ok: "ledger_ok agg evs" using ledger.inv_reachable[OF refl assms(1)] .
  have nn: "0 \<le> live_debits s e evs"
    using ok by (rule live_debits_nonneg)
  have i64: "live_debits s e evs + d \<le> ra_limit agg \<Longrightarrow> in_i64 (live_debits s e evs + d)"
    using nn assms(2,3) by (simp add: in_i64_def i64_bounds)
  have exact: "decide_aggregate agg (FValue d) evs now row = AAllow pf \<longleftrightarrow>
      live_debits s e evs + d \<le> ra_limit agg"
    if "decide_aggregate agg (FValue d) evs now row \<in> {AAllow pf, ADenyExceeded pf}" for pf
    using decide_coherent[OF that] assms(5) by auto
  note total = decide_total[OF ok assms(2-5), of row]
  show ?thesis
  proof (cases "live_debits s e evs + d \<le> ra_limit agg")
    case True
    with total i64 obtain pf where
      "decide_aggregate agg (FValue d) evs now row \<in> {AAllow pf, ADenyExceeded pf}" by (auto split: if_splits)
    with exact True show ?thesis by auto
  next
    case False
    with total exact show ?thesis by (metis insertE singletonD)
  qed
qed

text \<open>
  A recorded proof is the truth about its evidence, whatever the evidence is: when the decision
  is coherent (allow or exceeded) the consumed figure is the sum of the live debits in the window of
  the decision's clock, every mint counted was made under the same resolution digest with a debit the
  aggregate could have authored, and allow means the projected total is within the limit.
\<close>

theorem window_proof_reproduces:
  assumes "decide_aggregate agg debit evs now row \<in> {AAllow pf, ADenyExceeded pf}"
  shows "debit = FValue (wp_debit pf) \<and> 0 < wp_debit pf \<and>
         window_bounds (ra_window agg) now = Some (wp_window_start pf, wp_window_end pf) \<and>
         wp_consumed_before pf = live_debits (wp_window_start pf) (wp_window_end pf) evs \<and>
         wp_projected pf = wp_consumed_before pf + wp_debit pf \<and> in_i64 (wp_projected pf) \<and>
         list_all (\<lambda>ev. in_window (wp_window_start pf) (wp_window_end pf) ev \<longrightarrow> mint_fits agg ev) evs \<and>
         (decide_aggregate agg debit evs now row = AAllow pf \<longleftrightarrow> wp_projected pf \<le> ra_limit agg)"
  using decide_coherent[OF assms] by (auto simp: list_all_iff)

text \<open>
  C40. Windows are a calendar: the bucket of a clock value contains it, has the window's length and
  starts at a multiple of it, and any clock value inside that bucket has the same bucket.
\<close>

theorem window_bounds_calendar:
  assumes "window_bounds w now = Some (s, e)"
  shows "s \<le> now \<and> now < e \<and> e = s + period w \<and> period w dvd s \<and>
         (\<forall>t. s \<le> t \<and> t < e \<longrightarrow> window_bounds w t = Some (s, e))"
proof -
  have b: "s = now div period w * period w" "e = s + period w" using window_bounds_Some[OF assms] by auto
  have "window_bounds w t = window_bounds w now" if "s \<le> t" "t < e" for t
    using window_unique[OF assms that] by (simp add: window_bounds_def)
  then show ?thesis using window_contains[OF assms] b assms by simp
qed

text \<open>
  The resolution digest's input is unambiguous: two resolutions that hash the same bytes sum the
  same field over the same members with the same declarations and identities, so a revision of a
  member's contract always changes what is hashed.
\<close>

theorem resolution_preimage_injective:
  assumes "resolution_preimage f ms = resolution_preimage f' ms'"
    and "short_opt f" "short_opt f'" "list_all short_member ms" "list_all short_member ms'"
    and "length ms < 2 ^ 64" "length ms' < 2 ^ 64"
  shows "f = f' \<and> ms = ms'"
proof -
  let ?tail = "\<lambda>ms. le_bytes 8 (length ms) @ concat (map member_bytes ms)"
  have chars: "utf8 ''field'' = [102, 105, 101, 108, 100]" "utf8 ''rate'' = [114, 97, 116, 101]"
    by (simp_all add: utf8_def utf8_char_def)
  have "f = f' \<and> ?tail ms = ?tail ms'"
  proof (cases f)
    case None
    with assms(1) show ?thesis by (cases f') (simp_all add: resolution_preimage_def chars)
  next
    case (Some u)
    with assms(1) obtain v where v: "f' = Some v"
      by (cases f') (simp_all add: resolution_preimage_def chars)
    with Some assms(1) have "le_part u @ ?tail ms = le_part v @ ?tail ms'"
      by (simp add: resolution_preimage_def)
    from le_part_inj[OF this] Some v assms(2,3) show ?thesis by (simp add: short_opt_def)
  qed
  moreover from this have "length ms = length ms'"
    using le_bytes_inj[of 8 "length ms" "length ms'"] assms(6,7) by simp
  ultimately show ?thesis using members_inj assms(4,5) by auto
qed

section \<open>A concrete ledger\<close>

definition sample_aggregate :: resolved_aggregate where
  "sample_aggregate = \<lparr>ra_meter = MBudget, ra_limit = 10, ra_window = Hour, ra_aggregate_id = ''a'',
                       ra_resolution_digest = ''d''\<rparr>"

definition sample_mint :: "string \<Rightarrow> int \<Rightarrow> int \<Rightarrow> ledger_event" where
  "sample_mint i d t = \<lparr>le_event_id = i, le_rowid = 1, le_kind = LMint ''g'' d ''d'' t 0\<rparr>"

definition sample_proof :: "int \<Rightarrow> int \<Rightarrow> nat \<Rightarrow> window_proof" where
  "sample_proof consumed d n = \<lparr>wp_window = Hour, wp_window_start = 0, wp_window_end = 3600,
     wp_consumed_before = consumed, wp_debit = d, wp_limit = 10, wp_projected = consumed + d,
     wp_live_mint_count = n, wp_release_count = 0, wp_evidence_through_rowid = 0\<rparr>"

lemma sample_first: "decide_aggregate sample_aggregate (FValue 6) [] 5 0 = AAllow (sample_proof 0 6 0)"
  by code_simp

lemma sample_second:
  "decide_aggregate sample_aggregate (FValue 5) [sample_mint ''e1'' 6 5] 9 0 = ADenyExceeded (sample_proof 6 5 1)"
  by code_simp

lemma sample_reachable: "(ledger_step sample_aggregate)\<^sup>*\<^sup>* [] [sample_mint ''e1'' 6 5]"
proof -
  have "ledger_step sample_aggregate [] ([] @ [sample_mint ''e1'' 6 5])"
    using ledger_step.mint[OF sample_first, of "''e1''" 1 "''g''" 0]
    by (simp add: sample_mint_def sample_proof_def sample_aggregate_def)
  then show ?thesis by simp
qed

lemma sample_bounds: "window_bounds Hour 5 = Some (0, 3600)"
  by code_simp

lemma sample_agg_window: "window_bounds (ra_window sample_aggregate) 5 = Some (0, 3600)"
  by code_simp

theorem budget_never_exceeded_witness:
  "live_debits 0 3600 [sample_mint ''e1'' 6 5] \<le> max 0 (ra_limit sample_aggregate)"
  using sample_reachable sample_agg_window by (rule budget_never_exceeded)

theorem decision_exact_on_reachable_witness:
  "\<exists>pf. decide_aggregate sample_aggregate (FValue 4) [sample_mint ''e1'' 6 5] 5 0 = AAllow pf"
proof -
  have "live_debits 0 3600 [sample_mint ''e1'' 6 5] + 4 \<le> ra_limit sample_aggregate" by code_simp
  then show ?thesis
    using decision_exact_on_reachable[OF sample_reachable _ _ _ sample_agg_window, of 4 0]
    by (simp add: sample_aggregate_def i64_bounds)
qed

theorem window_proof_reproduces_witness:
  "wp_consumed_before (sample_proof 6 5 1) = live_debits 0 3600 [sample_mint ''e1'' 6 5]"
proof -
  have "decide_aggregate sample_aggregate (FValue 5) [sample_mint ''e1'' 6 5] 9 0
      \<in> {AAllow (sample_proof 6 5 1), ADenyExceeded (sample_proof 6 5 1)}"
    by (simp add: sample_second)
  from window_proof_reproduces[OF this] show ?thesis by (simp add: sample_proof_def)
qed

theorem window_bounds_calendar_witness: "period Hour dvd 0 \<and> window_bounds Hour 3599 = Some (0, 3600)"
  using window_bounds_calendar[OF sample_bounds] by simp

definition sample_member :: member_semantics where
  "sample_member = \<lparr>ms_provider = ''pay'', ms_action = ''send'', ms_eligible = True,
     ms_field_decl = Some ''Int'', ms_descriptor_hash = None, ms_template_hash = None\<rparr>"

theorem resolution_preimage_injective_witness:
  "Some ''amount'' = Some ''amount'' \<and> [sample_member] = [sample_member]"
proof (rule resolution_preimage_injective)
  show "resolution_preimage (Some ''amount'') [sample_member] =
    resolution_preimage (Some ''amount'') [sample_member]" ..
  show "short_opt (Some ''amount'')" "short_opt (Some ''amount'')"
    by (simp_all add: short_opt_def short_def utf8_def utf8_char_def)
  show "list_all short_member [sample_member]" "list_all short_member [sample_member]"
    by (simp_all add: short_member_def sample_member_def short_opt_def short_def utf8_def utf8_char_def)
qed simp_all

end
