(* ===== verification/Budget_Gate.thy ===== *)
theory Budget_Gate
  imports Budget_Ledger
begin

text \<open>
  The mint gate and the ledger rows it reads and writes,
  \<^verbatim>\<open>crates/cermet-core/src/broker/budget.rs\<close> with the ledger queries of
  \<^verbatim>\<open>crates/cermet-core/src/audit.rs\<close> it calls. The log is the list of its rows in row order;
  each row carries the JSON value of its data, and the broker's actor thread is the only writer, so an
  operation is a function from the log to a result and the rows it appends.

  What the queries take from outside: whether the hash chain verifies (\<open>verified\<close>), and SQLite's
  \<^verbatim>\<open>LIKE\<close> match of a quoted key and value in the stored text (\<open>like\<close>).
\<close>

section \<open>The log\<close>

record audit_row =
  ar_rowid :: int
  ar_id :: string
  ar_session :: "string option"
  ar_type :: string
  ar_data :: json

datatype gate_fault =
    NoValidAggregateId string
  | MalformedAggregateId string
  | MalformedEvent string string
  | ChainNotIntact
  | DuplicateMintEvidence string
  | MalformedMintEvidence string
  | RetryBudget string
  | GrantUnreadable string

definition max_rowid :: "audit_row list \<Rightarrow> int" where
  "max_rowid log = foldl max 0 (map ar_rowid log)"

definition is_budget_row :: "audit_row \<Rightarrow> bool" where
  "is_budget_row r \<longleftrightarrow> ar_type r = ''budget_mint'' \<or> ar_type r = ''budget_release''"

fun check_ledger_rows :: "audit_row list \<Rightarrow> gate_fault + audit_row list" where
  "check_ledger_rows [] = Ok []"
| "check_ledger_rows (r # rs) = (case jstr (ar_data r) ''aggregate_id'' of
      None \<Rightarrow> Err (NoValidAggregateId (ar_id r))
    | Some i \<Rightarrow>
        if \<not> is_canonical_aggregate_id i then Err (MalformedAggregateId (ar_id r))
        else map_sum id ((#) r) (check_ledger_rows rs))"

definition budget_ledger_rows :: "audit_row list \<Rightarrow> int \<Rightarrow> gate_fault + audit_row list" where
  "budget_ledger_rows log up_to_rowid =
     check_ledger_rows (filter (\<lambda>r. is_budget_row r \<and> ar_rowid r \<le> up_to_rowid) log)"

definition budget_ledger_events :: "audit_row list \<Rightarrow> string \<Rightarrow> int \<Rightarrow> gate_fault + audit_row list" where
  "budget_ledger_events log aggregate up_to_rowid =
     map_sum id (filter (\<lambda>r. jstr (ar_data r) ''aggregate_id'' = Some aggregate))
       (budget_ledger_rows log up_to_rowid)"

definition verified_budget_ledger_rows ::
    "(audit_row list \<Rightarrow> bool) \<Rightarrow> audit_row list \<Rightarrow> int \<Rightarrow> gate_fault + audit_row list" where
  "verified_budget_ledger_rows verified log up_to_rowid =
     (if \<not> verified log then Err ChainNotIntact else budget_ledger_rows log up_to_rowid)"

section \<open>Loading the evidence\<close>

definition event_of_row :: "audit_row \<Rightarrow> gate_fault + ledger_event option" where
  "event_of_row r =
     (let malformed = MalformedEvent (ar_id r) (ar_type r); d = ar_data r;
          ev = (\<lambda>k. \<lparr>le_event_id = ar_id r, le_rowid = ar_rowid r, le_kind = k\<rparr>) in
      if ar_type r = ''budget_mint'' then
        res_bind (ok_or malformed (jstr d ''grant_id'')) (\<lambda>g.
        res_bind (ok_or malformed (ji64 d ''debit'')) (\<lambda>debit.
        res_bind (ok_or malformed (jstr d ''resolution_digest'')) (\<lambda>digest.
        res_bind (ok_or malformed (ji64 d ''decision_at_epoch'')) (\<lambda>ts.
        res_bind (ok_or malformed (ji64 d ''expires_at_epoch'')) (\<lambda>expires.
        Ok (Some (ev (LMint g debit digest ts expires))))))))
      else if ar_type r = ''budget_release'' then
        res_bind (ok_or malformed (jstr d ''mint_event_id'')) (\<lambda>m.
        res_bind (ok_or malformed (jstr d ''grant_id'')) (\<lambda>g.
        Ok (Some (ev (LRelease m g)))))
      else Ok None)"

fun events_of_rows :: "audit_row list \<Rightarrow> gate_fault + ledger_event list" where
  "events_of_rows [] = Ok []"
| "events_of_rows (r # rs) =
     res_bind (event_of_row r) (\<lambda>e.
     res_bind (events_of_rows rs) (\<lambda>es.
     Ok (case e of None \<Rightarrow> es | Some ev \<Rightarrow> ev # es)))"

definition load_evidence :: "audit_row list \<Rightarrow> string \<Rightarrow> gate_fault + ledger_event list \<times> int" where
  "load_evidence log aggregate =
     (let prefix_rowid = max_rowid log in
      res_bind (budget_ledger_events log aggregate prefix_rowid) (\<lambda>rows.
      res_bind (events_of_rows rows) (\<lambda>events.
      Ok (events, prefix_rowid))))"

section \<open>Freezing the debit\<close>

definition freeze_debit :: "aggregate_meter \<Rightarrow> string option \<Rightarrow> canonical_resource
    \<Rightarrow> action_contract option \<Rightarrow> frozen_debit" where
  "freeze_debit meter summed_field res contract = (case meter of
      MRate \<Rightarrow> FValue 1
    | MBudget \<Rightarrow>
        (case (summed_field, contract) of
           (Some field, Some c) \<Rightarrow>
             (case field_decl c field of
                None \<Rightarrow> FInvalid
              | Some d \<Rightarrow>
                  if \<not> budget_eligible d then FInvalid
                  else (case get_i64 res field of
                      Some v \<Rightarrow> if v > 0 then FValue v else FInvalid
                    | None \<Rightarrow> FInvalid))
         | _ \<Rightarrow> FInvalid))"

text \<open>The stores the broker reads a member's identity from; \<open>dbg_str\<close> is the debug form of a string.\<close>

record member_stores =
  st_descriptor_hash :: "string \<Rightarrow> string option"
  st_template_hash :: "string \<Rightarrow> string \<Rightarrow> string option"
  st_dbg_str :: "string \<Rightarrow> string"

definition debug_kind :: "scalar_kind \<Rightarrow> string" where
  "debug_kind k = (case k of KStr \<Rightarrow> ''Str'' | KInt \<Rightarrow> ''Int'' | KBool \<Rightarrow> ''Bool'')"

definition debug_class :: "field_class_t \<Rightarrow> string" where
  "debug_class c = (case c of
      Unclassified \<Rightarrow> ''Unclassified'' | Identity \<Rightarrow> ''Identity'' | SideEffect \<Rightarrow> ''SideEffect''
    | FreePayload \<Rightarrow> ''FreePayload'' | Secret \<Rightarrow> ''Secret'' | ReadFilter \<Rightarrow> ''ReadFilter'')"

definition debug_binding :: "(string \<Rightarrow> string) \<Rightarrow> allow_binding \<Rightarrow> string" where
  "debug_binding dbg b = (case b of
      Unbound \<Rightarrow> ''Unbound'' | ExactResourcePin \<Rightarrow> ''ExactResourcePin''
    | ExactOrPatternList l \<Rightarrow> ''ExactOrPatternList('' @ dbg l @ '')'' | Bounded \<Rightarrow> ''Bounded'')"

definition decl_fingerprint :: "(string \<Rightarrow> string) \<Rightarrow> field_decl_t \<Rightarrow> string" where
  "decl_fingerprint dbg d =
     debug_kind (fd_ty d) @ ''|'' @ (if fd_required d then ''true'' else ''false'') @ ''|'' @
     debug_class (fd_class d) @ ''|'' @ debug_binding dbg (fd_binding d)"

definition member_semantics_of :: "evaluator \<Rightarrow> member_stores \<Rightarrow> aggregate_meter \<Rightarrow> string option
    \<Rightarrow> string \<times> string \<Rightarrow> member_semantics" where
  "member_semantics_of ev st meter summed_field m = (case m of (provider, action) \<Rightarrow>
     (let contract = lookup_contract (ev_contracts ev) provider action;
          (eligible, decl) = (case meter of
              MRate \<Rightarrow> (True, None)
            | MBudget \<Rightarrow>
                (case (summed_field, contract) of
                   (Some field, Some c) \<Rightarrow>
                     (case field_decl c field of
                        Some d \<Rightarrow> (budget_eligible d, Some (decl_fingerprint (st_dbg_str st) d))
                      | None \<Rightarrow> (False, None))
                 | _ \<Rightarrow> (False, None))) in
      \<lparr>ms_provider = provider, ms_action = action, ms_eligible = eligible, ms_field_decl = decl,
       ms_descriptor_hash = st_descriptor_hash st provider,
       ms_template_hash = st_template_hash st provider action\<rparr>))"

section \<open>The gate\<close>

record admit_ticket =
  at_aggregate_id :: string
  at_resolution_digest :: string
  at_kind :: aggregate_meter
  at_debit_field :: "string option"
  at_limit :: int
  at_window :: window
  at_decision_at_epoch :: int
  at_proof :: window_proof

datatype gate_error_kind =
    TypedDecisionNotAllow
  | UnresolvedSummedField
  | UnresolvedSelectorMembers
  | EvidenceLoadFailed string
  | DecisionFault string fault

text \<open>The verdict, with what the receipt of a refusal says.\<close>

datatype budget_gate_t =
    NoAggregate
  | GateAdmit admit_ticket
  | GateExceeded admit_ticket
  | GateInvalid gate_error_kind

definition GRANT_TTL_SECS :: int where "GRANT_TTL_SECS = 600"

definition grant_expiry_epoch :: "admit_ticket \<Rightarrow> int" where
  "grant_expiry_epoch t = at_decision_at_epoch t + GRANT_TTL_SECS"

definition resolved_of :: "evaluator \<Rightarrow> rule_json_fun \<Rightarrow> member_stores \<Rightarrow> rule \<Rightarrow> aggregate
    \<Rightarrow> aggregate_meter \<Rightarrow> string option \<Rightarrow> (string \<times> string) list \<Rightarrow> resolved_aggregate" where
  "resolved_of ev rj st r agg meter summed_field members =
     \<lparr>ra_meter = meter, ra_limit = ag_limit agg, ra_window = ag_window agg,
      ra_aggregate_id = aggregate_id (ev_sha ev) rj r,
      ra_resolution_digest = resolution_digest (ev_sha ev) summed_field
        (map (member_semantics_of ev st meter summed_field) members)\<rparr>"

definition budget_gate :: "evaluator \<Rightarrow> rule_json_fun \<Rightarrow> member_stores \<Rightarrow> audit_row list \<Rightarrow> int
    \<Rightarrow> rule_set \<Rightarrow> string \<Rightarrow> string \<Rightarrow> canonical_resource \<Rightarrow> budget_gate_t" where
  "budget_gate ev rj st log now rules provider action res =
     (case evaluate ev rules provider action res of
        DDeny _ \<Rightarrow> GateInvalid TypedDecisionNotAllow
      | DAllow rule_idx \<Rightarrow>
          let r = rs_rules rules ! rule_idx in
          (case r_aggregate r of
             None \<Rightarrow> NoAggregate
           | Some agg \<Rightarrow>
          (case resolve_meter agg of
             None \<Rightarrow> GateInvalid UnresolvedSummedField
           | Some (meter, summed_field) \<Rightarrow>
          (case selector_members (ev_sha ev) (ev_sets ev) (r_selector r) of
             None \<Rightarrow> GateInvalid UnresolvedSelectorMembers
           | Some members \<Rightarrow>
               let resolved = resolved_of ev rj st r agg meter summed_field members;
                   debit = freeze_debit meter summed_field res
                             (lookup_contract (ev_contracts ev) provider action) in
               (case load_evidence log (ra_aggregate_id resolved) of
                  Inl _ \<Rightarrow> GateInvalid (EvidenceLoadFailed (ra_aggregate_id resolved))
                | Inr (evidence, prefix_rowid) \<Rightarrow>
                    (case decide_aggregate resolved debit evidence now prefix_rowid of
                       AAllow pf \<Rightarrow> GateAdmit
                         \<lparr>at_aggregate_id = ra_aggregate_id resolved,
                          at_resolution_digest = ra_resolution_digest resolved,
                          at_kind = meter, at_debit_field = summed_field,
                          at_limit = ag_limit agg, at_window = ag_window agg,
                          at_decision_at_epoch = now, at_proof = pf\<rparr>
                     | ADenyExceeded pf \<Rightarrow> GateExceeded
                         \<lparr>at_aggregate_id = ra_aggregate_id resolved,
                          at_resolution_digest = ra_resolution_digest resolved,
                          at_kind = meter, at_debit_field = summed_field,
                          at_limit = ag_limit agg, at_window = ag_window agg,
                          at_decision_at_epoch = now, at_proof = pf\<rparr>
                     | ADenyInvalid f \<Rightarrow> GateInvalid (DecisionFault (ra_aggregate_id resolved) f)))))))"

section \<open>The mint row\<close>

definition meter_str :: "aggregate_meter \<Rightarrow> string" where
  "meter_str m = (case m of MBudget \<Rightarrow> ''budget'' | MRate \<Rightarrow> ''rate'')"

definition window_str :: "window \<Rightarrow> string" where
  "window_str w = (case w of Hour \<Rightarrow> ''hour'' | Day \<Rightarrow> ''day'')"

definition mint_data :: "admit_ticket \<Rightarrow> string \<Rightarrow> string \<Rightarrow> json" where
  "mint_data t grant_id request_id =
     (let p = at_proof t in JObject
       [(''aggregate_id'', JString (at_aggregate_id t)),
        (''resolution_digest'', JString (at_resolution_digest t)),
        (''grant_id'', JString grant_id),
        (''request_id'', JString request_id),
        (''kind'', JString (meter_str (at_kind t))),
        (''debit_field'', case at_debit_field t of None \<Rightarrow> JNull | Some f \<Rightarrow> JString f),
        (''debit'', JInt (wp_debit p)),
        (''limit'', JInt (at_limit t)),
        (''window'', JString (window_str (at_window t))),
        (''decision_at_epoch'', JInt (at_decision_at_epoch t)),
        (''expires_at_epoch'', JInt (grant_expiry_epoch t)),
        (''evidence_through_rowid'', JInt (wp_evidence_through_rowid p)),
        (''window_start'', JInt (wp_window_start p)),
        (''window_end'', JInt (wp_window_end p)),
        (''consumed_before'', JInt (wp_consumed_before p)),
        (''live_mint_count'', JInt (int (wp_live_mint_count p))),
        (''release_count'', JInt (int (wp_release_count p))),
        (''projected'', JInt (wp_projected p))])"

text \<open>The appended row takes the next row id, as SQLite gives it.\<close>

definition record_budget_mint :: "audit_row list \<Rightarrow> string \<Rightarrow> string \<Rightarrow> admit_ticket \<Rightarrow> string \<Rightarrow> string
    \<Rightarrow> audit_row list" where
  "record_budget_mint log event_id session t grant_id request_id =
     log @ [\<lparr>ar_rowid = max_rowid log + 1, ar_id = event_id, ar_session = Some session, ar_type = ''budget_mint'',
             ar_data = mint_data t grant_id request_id\<rparr>]"

section \<open>Exact-schema parsing\<close>

definition exact_object :: "json \<Rightarrow> string list \<Rightarrow> string \<Rightarrow> gate_fault + (string \<times> json) list" where
  "exact_object v expected_keys event_type = (case v of
      JObject es \<Rightarrow>
        if set (map fst es) \<noteq> set expected_keys
        then Err (RetryBudget (event_type @ '' does not have the exact schema'')) else Ok es
    | _ \<Rightarrow> Err (RetryBudget (event_type @ '' data is not an object'')))"

definition object_str :: "(string \<times> json) list \<Rightarrow> string \<Rightarrow> gate_fault + string" where
  "object_str es field =
     ok_or (RetryBudget (''budget event has invalid '' @ field))
       (opt_filter (\<lambda>v. v \<noteq> []) (Option.bind (map_of es field) as_str))"

definition object_i64 :: "(string \<times> json) list \<Rightarrow> string \<Rightarrow> gate_fault + int" where
  "object_i64 es field =
     ok_or (RetryBudget (''budget event has invalid '' @ field)) (Option.bind (map_of es field) as_i64)"

definition object_u64 :: "(string \<times> json) list \<Rightarrow> string \<Rightarrow> gate_fault + nat" where
  "object_u64 es field =
     ok_or (RetryBudget (''budget event has invalid '' @ field)) (Option.bind (map_of es field) as_u64)"

record parsed_mint =
  pm_event_id :: string
  pm_rowid :: int
  pm_aggregate_id :: string
  pm_resolution_digest :: string
  pm_grant_id :: string
  pm_request_id :: string
  pm_meter :: aggregate_meter
  pm_debit_field :: "string option"
  pm_debit :: int
  pm_limit :: int
  pm_decision_at_epoch :: int
  pm_expires_at_epoch :: int
  pm_proof :: window_proof

definition MINT_KEYS :: "string list" where
  "MINT_KEYS = [''aggregate_id'', ''resolution_digest'', ''grant_id'', ''request_id'', ''kind'',
     ''debit_field'', ''debit'', ''limit'', ''window'', ''decision_at_epoch'', ''expires_at_epoch'',
     ''evidence_through_rowid'', ''window_start'', ''window_end'', ''consumed_before'',
     ''live_mint_count'', ''release_count'', ''projected'']"

definition guard :: "bool \<Rightarrow> string \<Rightarrow> gate_fault + unit" where
  "guard bad message = (if bad then Err (RetryBudget message) else Ok ())"

definition parse_budget_mint :: "audit_row \<Rightarrow> gate_fault + parsed_mint" where
  "parse_budget_mint row =
     res_bind (guard (ar_type row \<noteq> ''budget_mint'') ''expected a budget_mint'') (\<lambda>_.
     res_bind (exact_object (ar_data row) MINT_KEYS ''budget_mint'') (\<lambda>obj.
     res_bind (object_str obj ''aggregate_id'') (\<lambda>aggregate.
     res_bind (object_str obj ''resolution_digest'') (\<lambda>digest.
     res_bind (guard (\<not> is_canonical_aggregate_id aggregate \<or> \<not> is_canonical_aggregate_id digest)
                ''budget_mint has a malformed digest'') (\<lambda>_.
     res_bind (object_str obj ''kind'') (\<lambda>kind.
     res_bind (if kind = ''budget'' then Ok MBudget else if kind = ''rate'' then Ok MRate
               else Err (RetryBudget ''budget_mint has an invalid kind'')) (\<lambda>meter.
     res_bind (case map_of obj ''debit_field'' of
                 Some JNull \<Rightarrow> Ok None
               | Some (JString field) \<Rightarrow>
                   if field \<noteq> [] then Ok (Some field)
                   else Err (RetryBudget ''budget_mint has an invalid debit_field'')
               | _ \<Rightarrow> Err (RetryBudget ''budget_mint has an invalid debit_field'')) (\<lambda>debit_field.
     res_bind (object_i64 obj ''debit'') (\<lambda>debit.
     res_bind (object_i64 obj ''limit'') (\<lambda>limit.
     res_bind (guard (limit \<le> 0 \<or> debit \<le> 0 \<or>
                 (meter = MBudget \<and> (debit_field = None \<or> debit > limit)) \<or>
                 (meter = MRate \<and> (debit_field \<noteq> None \<or> debit \<noteq> 1)))
                ''budget_mint has an invalid debit schema'') (\<lambda>_.
     res_bind (object_str obj ''window'') (\<lambda>win.
     res_bind (if win = ''hour'' then Ok Hour else if win = ''day'' then Ok Day
               else Err (RetryBudget ''budget_mint has an invalid window'')) (\<lambda>window.
     res_bind (object_i64 obj ''decision_at_epoch'') (\<lambda>decision_at.
     res_bind (object_i64 obj ''expires_at_epoch'') (\<lambda>expires_at.
     res_bind (object_i64 obj ''evidence_through_rowid'') (\<lambda>through.
     res_bind (object_i64 obj ''consumed_before'') (\<lambda>consumed.
     res_bind (object_i64 obj ''projected'') (\<lambda>projected.
     res_bind (guard (through < 0 \<or> through \<ge> ar_rowid row \<or> consumed < 0 \<or>
                 checked (consumed + debit) \<noteq> Some projected \<or> projected > limit)
                ''budget_mint has invalid proof arithmetic'') (\<lambda>_.
     res_bind (ok_or (RetryBudget ''budget_mint window overflows'') (window_bounds window decision_at))
       (\<lambda>(expected_start, expected_end).
     res_bind (object_i64 obj ''window_start'') (\<lambda>window_start.
     res_bind (object_i64 obj ''window_end'') (\<lambda>window_end.
     res_bind (object_u64 obj ''live_mint_count'') (\<lambda>live.
     res_bind (object_u64 obj ''release_count'') (\<lambda>releases.
     res_bind (guard (window_start \<noteq> expected_start \<or> window_end \<noteq> expected_end)
                ''budget_mint has invalid window bounds'') (\<lambda>_.
     res_bind (object_str obj ''grant_id'') (\<lambda>grant.
     res_bind (object_str obj ''request_id'') (\<lambda>request.
     Ok \<lparr>pm_event_id = ar_id row, pm_rowid = ar_rowid row, pm_aggregate_id = aggregate,
         pm_resolution_digest = digest, pm_grant_id = grant, pm_request_id = request,
         pm_meter = meter, pm_debit_field = debit_field, pm_debit = debit, pm_limit = limit,
         pm_decision_at_epoch = decision_at, pm_expires_at_epoch = expires_at,
         pm_proof = \<lparr>wp_window = window, wp_window_start = window_start, wp_window_end = window_end,
           wp_consumed_before = consumed, wp_debit = debit, wp_limit = limit,
           wp_projected = projected, wp_live_mint_count = live, wp_release_count = releases,
           wp_evidence_through_rowid = through\<rparr>\<rparr>)))))))))))))))))))))))))))"

datatype release_cause =
    CauseDenied
  | CanceledUnclaimed
  | ExpiredUnclaimed
  | PreInvocationTerminalFailure
  | EvidenceStaleBeforeGrant
  | AuthorityCutoverUnclaimed

definition ALL_CAUSES :: "release_cause list" where
  "ALL_CAUSES = [CauseDenied, CanceledUnclaimed, ExpiredUnclaimed, PreInvocationTerminalFailure,
     EvidenceStaleBeforeGrant, AuthorityCutoverUnclaimed]"

definition cause_str :: "release_cause \<Rightarrow> string" where
  "cause_str c = (case c of
      CauseDenied \<Rightarrow> ''denied''
    | CanceledUnclaimed \<Rightarrow> ''canceled_unclaimed''
    | ExpiredUnclaimed \<Rightarrow> ''expired_unclaimed''
    | PreInvocationTerminalFailure \<Rightarrow> ''pre_invocation_terminal_failure''
    | EvidenceStaleBeforeGrant \<Rightarrow> ''evidence_stale_before_grant''
    | AuthorityCutoverUnclaimed \<Rightarrow> ''authority_cutover_unclaimed'')"

definition parse_cause :: "string \<Rightarrow> release_cause option" where
  "parse_cause v = find (\<lambda>c. cause_str c = v) ALL_CAUSES"

record parsed_release =
  pl_event_id :: string
  pl_rowid :: int
  pl_mint_event_id :: string
  pl_aggregate_id :: string
  pl_grant_id :: string

definition RELEASE_KEYS :: "string list" where
  "RELEASE_KEYS = [''mint_event_id'', ''aggregate_id'', ''grant_id'', ''cause'']"

definition parse_budget_release :: "audit_row \<Rightarrow> gate_fault + parsed_release" where
  "parse_budget_release row =
     res_bind (guard (ar_type row \<noteq> ''budget_release'') ''expected a budget_release'') (\<lambda>_.
     res_bind (exact_object (ar_data row) RELEASE_KEYS ''budget_release'') (\<lambda>obj.
     res_bind (object_str obj ''aggregate_id'') (\<lambda>aggregate.
     res_bind (guard (\<not> is_canonical_aggregate_id aggregate)
                ''budget_release has a malformed aggregate id'') (\<lambda>_.
     res_bind (object_str obj ''cause'') (\<lambda>cause.
     res_bind (guard (parse_cause cause = None) ''budget_release has an invalid cause'') (\<lambda>_.
     res_bind (object_str obj ''mint_event_id'') (\<lambda>m.
     res_bind (object_str obj ''grant_id'') (\<lambda>g.
     Ok \<lparr>pl_event_id = ar_id row, pl_rowid = ar_rowid row, pl_mint_event_id = m,
         pl_aggregate_id = aggregate, pl_grant_id = g\<rparr>))))))))"

record budget_population =
  bp_mints :: "parsed_mint list"
  bp_releases :: "parsed_release list"

fun parse_rows :: "audit_row list \<Rightarrow> gate_fault + budget_population" where
  "parse_rows [] = Ok \<lparr>bp_mints = [], bp_releases = []\<rparr>"
| "parse_rows (r # rs) =
     (if ar_type r = ''budget_mint'' then
        res_bind (parse_budget_mint r) (\<lambda>m.
        res_bind (parse_rows rs) (\<lambda>p. Ok (p\<lparr>bp_mints := m # bp_mints p\<rparr>)))
      else if ar_type r = ''budget_release'' then
        res_bind (parse_budget_release r) (\<lambda>l.
        res_bind (parse_rows rs) (\<lambda>p. Ok (p\<lparr>bp_releases := l # bp_releases p\<rparr>)))
      else Err (RetryBudget ''budget snapshot contains an unknown event''))"

fun check_release_links :: "parsed_mint list \<Rightarrow> string list \<Rightarrow> parsed_release list \<Rightarrow> gate_fault + unit" where
  "check_release_links mints seen [] = Ok ()"
| "check_release_links mints seen (l # ls) =
     (case find (\<lambda>m. pm_event_id m = pl_mint_event_id l) mints of
        None \<Rightarrow> Err (RetryBudget ''orphan budget release'')
      | Some m \<Rightarrow>
          if pl_aggregate_id l \<noteq> pm_aggregate_id m \<or> pl_grant_id l \<noteq> pm_grant_id m
          then Err (RetryBudget ''budget release linkage mismatch'')
          else if pl_mint_event_id l \<in> set seen then Err (RetryBudget ''duplicate budget release'')
          else check_release_links mints (pl_mint_event_id l # seen) ls)"

definition parse_retry_budget_population :: "audit_row list \<Rightarrow> gate_fault + budget_population" where
  "parse_retry_budget_population rows =
     res_bind (parse_rows rows) (\<lambda>p.
     res_bind (guard (\<not> distinct (map pm_event_id (bp_mints p)) \<or> \<not> distinct (map pm_grant_id (bp_mints p)))
                ''duplicate budget mint linkage'') (\<lambda>_.
     res_bind (check_release_links (bp_mints p) [] (bp_releases p)) (\<lambda>_.
     Ok p)))"

definition retry_ledger_evidence :: "budget_population \<Rightarrow> string \<Rightarrow> int \<Rightarrow> ledger_event list" where
  "retry_ledger_evidence p aggregate through_rowid =
     sort_key le_rowid
       (map (\<lambda>m. \<lparr>le_event_id = pm_event_id m, le_rowid = pm_rowid m,
                  le_kind = LMint (pm_grant_id m) (pm_debit m) (pm_resolution_digest m)
                              (pm_decision_at_epoch m) (pm_expires_at_epoch m)\<rparr>)
          (filter (\<lambda>m. pm_rowid m \<le> through_rowid \<and> pm_aggregate_id m = aggregate) (bp_mints p)) @
        map (\<lambda>l. \<lparr>le_event_id = pl_event_id l, le_rowid = pl_rowid l,
                  le_kind = LRelease (pl_mint_event_id l) (pl_grant_id l)\<rparr>)
          (filter (\<lambda>l. pl_rowid l \<le> through_rowid \<and> pl_aggregate_id l = aggregate) (bp_releases p)))"

section \<open>Releasing a debit\<close>

fun find_mint_ref :: "string \<Rightarrow> (string \<times> string) option \<Rightarrow> audit_row list
    \<Rightarrow> gate_fault + (string \<times> string) option" where
  "find_mint_ref g found [] = Ok found"
| "find_mint_ref g found (r # rs) =
     (if jstr (ar_data r) ''grant_id'' \<noteq> Some g then find_mint_ref g found rs
      else if found \<noteq> None then Err (DuplicateMintEvidence g)
      else (case jstr (ar_data r) ''aggregate_id'' of
          None \<Rightarrow> Err (MalformedMintEvidence g)
        | Some a \<Rightarrow> find_mint_ref g (Some (ar_id r, a)) rs))"

definition budget_mint_ref_for_grant ::
    "(audit_row list \<Rightarrow> bool) \<Rightarrow> audit_row list \<Rightarrow> string \<Rightarrow> gate_fault + (string \<times> string) option" where
  "budget_mint_ref_for_grant verified log g =
     (if \<not> verified log then Err ChainNotIntact
      else find_mint_ref g None (filter (\<lambda>r. ar_type r = ''budget_mint'') log))"

definition budget_release_exists ::
    "(string \<Rightarrow> string \<Rightarrow> json \<Rightarrow> bool) \<Rightarrow> audit_row list \<Rightarrow> string \<Rightarrow> bool" where
  "budget_release_exists like log mint =
     list_ex (\<lambda>r. ar_type r = ''budget_release'' \<and> like ''mint_event_id'' mint (ar_data r)) log"

definition release_data :: "string \<Rightarrow> string \<Rightarrow> string \<Rightarrow> release_cause \<Rightarrow> json" where
  "release_data mint aggregate g cause = JObject
     [(''mint_event_id'', JString mint), (''aggregate_id'', JString aggregate),
      (''grant_id'', JString g), (''cause'', JString (cause_str cause))]"

definition release_budget_for_grant :: "(audit_row list \<Rightarrow> bool) \<Rightarrow> (string \<Rightarrow> string \<Rightarrow> json \<Rightarrow> bool)
    \<Rightarrow> audit_row list \<Rightarrow> string \<Rightarrow> string \<Rightarrow> release_cause \<Rightarrow> gate_fault + audit_row list" where
  "release_budget_for_grant verified like log event_id g cause =
     res_bind (budget_mint_ref_for_grant verified log g) (\<lambda>found. case found of
        None \<Rightarrow> Ok log
      | Some (mint, aggregate) \<Rightarrow>
          if budget_release_exists like log mint then Ok log
          else Ok (log @ [\<lparr>ar_rowid = max_rowid log + 1, ar_id = event_id, ar_session = None, ar_type = ''budget_release'',
                           ar_data = release_data mint aggregate g cause\<rparr>]))"

text \<open>The expiry backstop.\<close>

datatype grant_status = Requested | Approved | Denied | Executing | Executed | Expired

record grant_row =
  gr_request_id :: string
  gr_status :: grant_status
  gr_expiry_epoch :: "int option"
  gr_lease_opened_at :: "int option"
  gr_lease_deadline :: "int option"

definition grant_terminated_before_invocation ::
    "(string \<Rightarrow> string \<Rightarrow> json \<Rightarrow> bool) \<Rightarrow> audit_row list \<Rightarrow> string \<Rightarrow> bool" where
  "grant_terminated_before_invocation like log g =
     list_ex (\<lambda>r. ar_type r = ''provider_action_failed'' \<and> like ''grant_id'' g (ar_data r) \<and>
        jstr (ar_data r) ''grant_id'' = Some g \<and>
        Option.bind (jget (ar_data r) ''mutation_invoked'') as_bool = Some False) log"

text \<open>
  \<open>grant\<close> is the read of the grant row: \<open>Ok None\<close> a definite absence, \<open>Ok (Some g)\<close> a row that
  passed its integrity check, \<open>Err\<close> any fault of the read or of the check.
\<close>

definition budget_grant_releasable :: "(string \<Rightarrow> string \<Rightarrow> json \<Rightarrow> bool) \<Rightarrow> audit_row list \<Rightarrow> string
    \<Rightarrow> gate_fault + grant_row option \<Rightarrow> int \<Rightarrow> int \<Rightarrow> gate_fault + bool" where
  "budget_grant_releasable like log grant_id grant mint_expires_at now =
     res_bind grant (\<lambda>row. case row of
        None \<Rightarrow> Ok True
      | Some g \<Rightarrow>
          let expiry_proven = (gr_expiry_epoch g = Some mint_expires_at \<and> now > mint_expires_at) in
          (case gr_status g of
             Requested \<Rightarrow> Ok expiry_proven
           | Approved \<Rightarrow> Ok expiry_proven
           | Expired \<Rightarrow>
               if gr_lease_opened_at g = None \<and> gr_lease_deadline g = None then Ok expiry_proven
               else Ok (grant_terminated_before_invocation like log grant_id)
           | _ \<Rightarrow> Ok (grant_terminated_before_invocation like log grant_id)))"

definition expired_unreleased_of :: "int \<Rightarrow> int \<Rightarrow> audit_row \<Rightarrow> (string \<times> string \<times> string \<times> int) option" where
  "expired_unreleased_of now ttl r =
     (case (ji64 (ar_data r) ''decision_at_epoch'', ji64 (ar_data r) ''expires_at_epoch'',
            jstr (ar_data r) ''aggregate_id'', jstr (ar_data r) ''grant_id'') of
        (Some decision, Some expires, Some aggregate, Some g) \<Rightarrow>
          if decision < 0 \<or> checked (decision + ttl) \<noteq> Some expires then None
          else if expires < now then Some (ar_id r, aggregate, g, expires) else None
      | _ \<Rightarrow> None)"

definition expired_unreleased_budget_mints :: "(string \<Rightarrow> string \<Rightarrow> json \<Rightarrow> bool) \<Rightarrow> audit_row list
    \<Rightarrow> int \<Rightarrow> int \<Rightarrow> (string \<times> string \<times> string \<times> int) list" where
  "expired_unreleased_budget_mints like log now ttl =
     List.map_filter (expired_unreleased_of now ttl)
       (filter (\<lambda>m. ar_type m = ''budget_mint'' \<and> \<not> budget_release_exists like log (ar_id m)) log)"

fun sweep_loop :: "(audit_row list \<Rightarrow> bool) \<Rightarrow> (string \<Rightarrow> string \<Rightarrow> json \<Rightarrow> bool)
    \<Rightarrow> (string \<Rightarrow> gate_fault + grant_row option) \<Rightarrow> (nat \<Rightarrow> string) \<Rightarrow> int \<Rightarrow> audit_row list \<Rightarrow> nat
    \<Rightarrow> (string \<times> string \<times> string \<times> int) list \<Rightarrow> audit_row list \<times> nat" where
  "sweep_loop verified like grants fresh now log released_n [] = (log, released_n)"
| "sweep_loop verified like grants fresh now log released_n ((mint, aggregate, g, expires) # rest) =
     (if budget_grant_releasable like log g (grants g) expires now = Ok True then
        (case release_budget_for_grant verified like log (fresh released_n) g ExpiredUnclaimed of
           Inl _ \<Rightarrow> sweep_loop verified like grants fresh now log released_n rest
         | Inr log' \<Rightarrow> sweep_loop verified like grants fresh now log' (released_n + 1) rest)
      else sweep_loop verified like grants fresh now log released_n rest)"

definition sweep_expired_budget_mints :: "(audit_row list \<Rightarrow> bool) \<Rightarrow> (string \<Rightarrow> string \<Rightarrow> json \<Rightarrow> bool)
    \<Rightarrow> (string \<Rightarrow> gate_fault + grant_row option) \<Rightarrow> (nat \<Rightarrow> string) \<Rightarrow> int \<Rightarrow> audit_row list
    \<Rightarrow> audit_row list \<times> nat" where
  "sweep_expired_budget_mints verified like grants fresh now log =
     sweep_loop verified like grants fresh now log 0
       (expired_unreleased_budget_mints like log now GRANT_TTL_SECS)"

section \<open>Retrying under the same reservation\<close>

record retry_lineage =
  rl_eligible_parent :: string
  rl_owner_id :: string
  rl_owner_grant :: grant_row
  rl_grant_ids :: "string list"
  rl_request_ids :: "string list"

record retry_aggregate =
  rg_resolved :: resolved_aggregate
  rg_debit_field :: "string option"
  rg_debit :: int
  rg_decision_at :: int

record retry_ticket =
  rt_parent_grant :: string
  rt_parent_mint :: "string option"

definition resolve_retry_aggregate :: "evaluator \<Rightarrow> rule_json_fun \<Rightarrow> member_stores \<Rightarrow> int
    \<Rightarrow> rule_set \<Rightarrow> string \<Rightarrow> string \<Rightarrow> canonical_resource \<Rightarrow> gate_fault + retry_aggregate option" where
  "resolve_retry_aggregate ev rj st now rules provider action res =
     (case evaluate ev rules provider action res of
        DDeny _ \<Rightarrow> Err (RetryBudget ''retry typed decision is not allow'')
      | DAllow rule_idx \<Rightarrow>
          let r = rs_rules rules ! rule_idx in
          (case r_aggregate r of
             None \<Rightarrow> Ok None
           | Some agg \<Rightarrow>
               res_bind (ok_or (RetryBudget ''retry aggregate is unresolved'') (resolve_meter agg))
                 (\<lambda>(meter, debit_field).
               res_bind (ok_or (RetryBudget ''retry selector members are unresolved'')
                           (selector_members (ev_sha ev) (ev_sets ev) (r_selector r))) (\<lambda>members.
               res_bind (case freeze_debit meter debit_field res
                               (lookup_contract (ev_contracts ev) provider action) of
                           FValue v \<Rightarrow> if v > 0 then Ok v else Err (RetryBudget ''retry debit is invalid'')
                         | FInvalid \<Rightarrow> Err (RetryBudget ''retry debit is invalid'')) (\<lambda>debit.
               res_bind (guard (meter = MRate \<and> debit \<noteq> 1) ''retry rate debit is invalid'') (\<lambda>_.
               Ok (Some \<lparr>rg_resolved = resolved_of ev rj st r agg meter debit_field members,
                         rg_debit_field = debit_field, rg_debit = debit, rg_decision_at = now\<rparr>)))))))"

definition mint_matches_authority :: "retry_aggregate \<Rightarrow> retry_lineage \<Rightarrow> parsed_mint \<Rightarrow> bool" where
  "mint_matches_authority cur lin m \<longleftrightarrow>
     pm_aggregate_id m = ra_aggregate_id (rg_resolved cur) \<and>
     pm_resolution_digest m = ra_resolution_digest (rg_resolved cur) \<and>
     pm_meter m = ra_meter (rg_resolved cur) \<and> pm_limit m = ra_limit (rg_resolved cur) \<and>
     wp_window (pm_proof m) = ra_window (rg_resolved cur) \<and>
     pm_debit_field m = rg_debit_field cur \<and> pm_debit m = rg_debit cur \<and>
     pm_grant_id m = rl_owner_id lin \<and> pm_request_id m = gr_request_id (rl_owner_grant lin) \<and>
     gr_expiry_epoch (rl_owner_grant lin) = Some (pm_expires_at_epoch m)"

definition retry_with_aggregate :: "retry_lineage \<Rightarrow> budget_population \<Rightarrow> int \<Rightarrow> parsed_mint list
    \<Rightarrow> retry_aggregate \<Rightarrow> gate_fault + retry_ticket" where
  "retry_with_aggregate lin pop prefix_rowid lineage_mints cur = (case lineage_mints of
      [m] \<Rightarrow>
        if \<not> mint_matches_authority cur lin m
        then Err (RetryBudget ''parent budget mint does not match current authority'')
        else if decide_aggregate (rg_resolved cur) (FValue (pm_debit m))
                  (retry_ledger_evidence pop (ra_aggregate_id (rg_resolved cur))
                     (wp_evidence_through_rowid (pm_proof m)))
                  (pm_decision_at_epoch m) (wp_evidence_through_rowid (pm_proof m))
                \<noteq> AAllow (pm_proof m)
        then Err (RetryBudget ''parent budget mint proof is not reproducible'')
        else let current_evidence =
                   retry_ledger_evidence pop (ra_aggregate_id (rg_resolved cur)) prefix_rowid in
        (case decide_aggregate (rg_resolved cur) (FValue (rg_debit cur)) current_evidence
                (rg_decision_at cur) prefix_rowid of
           ADenyInvalid _ \<Rightarrow> Err (RetryBudget ''current budget proof is invalid'')
         | _ \<Rightarrow>
             if length (filter (\<lambda>e. le_event_id e = pm_event_id m) current_evidence) \<noteq> 1
             then Err (RetryBudget ''parent budget mint is absent from the current proof'')
             else if list_ex (\<lambda>l. pl_mint_event_id l = pm_event_id m) (bp_releases pop)
             then Err (RetryBudget ''parent budget mint was released'')
             else Ok \<lparr>rt_parent_grant = rl_eligible_parent lin, rt_parent_mint = Some (pm_event_id m)\<rparr>)
    | _ \<Rightarrow> Err (RetryBudget ''effect lineage has duplicate or mismatched budget mints''))"

definition retry_budget_substitution :: "(audit_row list \<Rightarrow> bool) \<Rightarrow> evaluator \<Rightarrow> rule_json_fun
    \<Rightarrow> member_stores \<Rightarrow> audit_row list \<Rightarrow> int \<Rightarrow> retry_lineage \<Rightarrow> rule_set \<Rightarrow> string \<Rightarrow> string
    \<Rightarrow> canonical_resource \<Rightarrow> gate_fault + retry_ticket" where
  "retry_budget_substitution verified ev rj st log now lin rules provider action res =
     res_bind (resolve_retry_aggregate ev rj st now rules provider action res) (\<lambda>current.
     res_bind (verified_budget_ledger_rows verified log (max_rowid log)) (\<lambda>rows.
     res_bind (parse_retry_budget_population rows) (\<lambda>pop.
       let lineage_mints = filter (\<lambda>m. pm_grant_id m \<in> set (rl_grant_ids lin) \<or>
                                       pm_request_id m \<in> set (rl_request_ids lin)) (bp_mints pop) in
       (case current of
          None \<Rightarrow>
            if lineage_mints = []
            then Ok \<lparr>rt_parent_grant = rl_eligible_parent lin, rt_parent_mint = None\<rparr>
            else Err (RetryBudget ''budgeted parent no longer resolves as unbudgeted'')
        | Some cur \<Rightarrow> retry_with_aggregate lin pop (max_rowid log) lineage_mints cur))))"

section \<open>The gate writes rows its readers accept\<close>

lemma hex_canonical:
  assumes "length bytes = 32" "\<forall>b \<in> set bytes. b < 256"
  shows "is_canonical_aggregate_id (hex bytes)"
proof -
  have low: "\<forall>c \<in> set (hex bytes). is_lower_hexdigit c"
    using hex_all_lower[OF assms(2)] by (simp add: list_all_iff)
  then have "utf8 (hex bytes) = map code (hex bytes)"
    by (intro utf8_ascii) (auto simp: is_lower_hexdigit_def is_ascii_digit_def)
  then show ?thesis using low assms(1) length_hex[of bytes]
    by (auto simp: is_canonical_aggregate_id_def list_all_iff is_lower_hexdigit_def is_ascii_digit_def)
qed

text \<open>The values of a ticket have the widths of their types.\<close>

definition ticket_in_range :: "admit_ticket \<Rightarrow> bool" where
  "ticket_in_range t \<longleftrightarrow> in_i64 (at_limit t) \<and> in_i64 (at_decision_at_epoch t) \<and>
     in_i64 (grant_expiry_epoch t) \<and> in_i64 (wp_evidence_through_rowid (at_proof t)) \<and>
     wp_live_mint_count (at_proof t) < 2 ^ 64 \<and> wp_release_count (at_proof t) < 2 ^ 64"

lemma foldl_max: "m \<le> foldl max m (xs :: int list) \<and> (\<forall>x \<in> set xs. x \<le> foldl max m xs)"
  by (induction xs arbitrary: m) (auto, smt (verit), metis max.bounded_iff)

lemma max_rowid_bound: "r \<in> set log \<Longrightarrow> ar_rowid r \<le> max_rowid log" "0 \<le> max_rowid log"
  using foldl_max[of 0 "map ar_rowid log"] by (auto simp: max_rowid_def)

lemma max_rowid_append: "max_rowid (log @ [r]) = max (max_rowid log) (ar_rowid r)"
  by (simp add: max_rowid_def)

text \<open>What an admitting gate established.\<close>

lemma gate_admit:
  assumes "budget_gate ev rj st log now rules p a res = GateAdmit t"
  obtains i r agg meter fld members evidence row debit where
    "evaluate ev rules p a res = DAllow i" "r = rs_rules rules ! i" "r_aggregate r = Some agg"
    "resolve_meter agg = Some (meter, fld)"
    "selector_members (ev_sha ev) (ev_sets ev) (r_selector r) = Some members"
    "debit = freeze_debit meter fld res (lookup_contract (ev_contracts ev) p a)"
    "load_evidence log (aggregate_id (ev_sha ev) rj r) = Ok (evidence, row)"
    "decide_aggregate (resolved_of ev rj st r agg meter fld members) debit evidence now row = AAllow (at_proof t)"
    "at_aggregate_id t = aggregate_id (ev_sha ev) rj r"
    "at_resolution_digest t = ra_resolution_digest (resolved_of ev rj st r agg meter fld members)"
    "at_kind t = meter" "at_debit_field t = fld" "at_limit t = ag_limit agg"
    "at_window t = ag_window agg" "at_decision_at_epoch t = now"
  using assms
  by (auto simp: budget_gate_def Let_def resolved_of_def
      split: decision.splits option.splits sum.splits aggregate_decision.splits)


lemma winner_valid:
  assumes "evaluate ev rules p a res = DAllow i"
  shows "i < length (rs_rules rules) \<and> validate_rule_structure (rs_rules rules ! i)"
proof -
  obtain c where "loop_winner ev c p a res (rs_rules rules) = Some i"
    using assms by (auto simp: evaluate_DAllow_winner)
  then show ?thesis unfolding decision.run_spec by (auto simp: rule_matches_def)
qed

lemma valid_field_nonempty: "valid_field f \<Longrightarrow> f \<noteq> []"
  by (auto simp: valid_field_def valid_ident_def)

text \<open>The facts about a ticket that its row's reader checks.\<close>

definition ticket_sound :: "admit_ticket \<Rightarrow> bool" where
  "ticket_sound t \<longleftrightarrow>
     is_canonical_aggregate_id (at_aggregate_id t) \<and> is_canonical_aggregate_id (at_resolution_digest t) \<and>
     0 < at_limit t \<and> 0 < wp_debit (at_proof t) \<and>
     (case at_kind t of MBudget \<Rightarrow> \<exists>f. at_debit_field t = Some f \<and> f \<noteq> []
                      | MRate \<Rightarrow> at_debit_field t = None \<and> wp_debit (at_proof t) = 1) \<and>
     0 \<le> wp_consumed_before (at_proof t) \<and>
     wp_projected (at_proof t) = wp_consumed_before (at_proof t) + wp_debit (at_proof t) \<and>
     wp_projected (at_proof t) \<le> at_limit t \<and>
     wp_window (at_proof t) = at_window t \<and> wp_limit (at_proof t) = at_limit t \<and>
     0 \<le> wp_evidence_through_rowid (at_proof t) \<and>
     window_bounds (at_window t) (at_decision_at_epoch t) =
       Some (wp_window_start (at_proof t), wp_window_end (at_proof t))"

lemma decide_allow_shape:
  assumes "decide_aggregate agg debit evs now row = AAllow pf"
  shows "wp_window pf = ra_window agg \<and> wp_evidence_through_rowid pf = row"
  using assms by (auto simp: decide_aggregate_def decide_with_debit_def Let_def
      split: frozen_debit.splits if_splits option.splits sum.splits)

lemma coherent_nonneg:
  assumes "decide_aggregate agg debit evs now row = AAllow pf"
  shows "0 \<le> wp_consumed_before pf"
proof -
  have coh: "wp_consumed_before pf = live_debits (wp_window_start pf) (wp_window_end pf) evs"
    "\<forall>ev \<in> set evs. in_window (wp_window_start pf) (wp_window_end pf) ev \<longrightarrow> mint_fits agg ev"
    using decide_coherent[of agg debit evs now row pf] assms by auto
  then have "\<forall>ev \<in> set evs. in_window (wp_window_start pf) (wp_window_end pf) ev \<longrightarrow> 0 < mint_debit (le_kind ev)"
    using mint_fits_positive by blast
  then show ?thesis unfolding coh(1) live_debits_def
    by (intro sum_list_nonneg) (auto simp: live_in_def)
qed

lemma load_evidence_row: "load_evidence log g = Ok (evs, row) \<Longrightarrow> row = max_rowid log"
  by (auto simp: load_evidence_def Let_def res_bind_eq_Ok)

lemma gate_ticket_sound:
  assumes "budget_gate ev rj st log now rules p a res = GateAdmit t" "sha_ok (ev_sha ev)"
  shows "ticket_sound t"
proof -
  from assms(1) obtain i r agg meter fld members evidence row debit where
    g: "evaluate ev rules p a res = DAllow i" "r = rs_rules rules ! i" "r_aggregate r = Some agg"
    "resolve_meter agg = Some (meter, fld)"
    "load_evidence log (aggregate_id (ev_sha ev) rj r) = Ok (evidence, row)"
    and dec: "decide_aggregate (resolved_of ev rj st r agg meter fld members) debit evidence now row = AAllow (at_proof t)"
    and t: "at_aggregate_id t = aggregate_id (ev_sha ev) rj r"
    "at_resolution_digest t = ra_resolution_digest (resolved_of ev rj st r agg meter fld members)"
    "at_kind t = meter" "at_debit_field t = fld" "at_limit t = ag_limit agg"
    "at_window t = ag_window agg" "at_decision_at_epoch t = now"
    by (rule gate_admit)
  let ?ra = "resolved_of ev rj st r agg meter fld members"
  have ra: "ra_meter ?ra = meter" "ra_limit ?ra = ag_limit agg" "ra_window ?ra = ag_window agg"
    by (simp_all add: resolved_of_def)
  have dig: "is_canonical_aggregate_id (at_aggregate_id t)" "is_canonical_aggregate_id (at_resolution_digest t)"
    using assms(2) by (auto simp: t aggregate_id_def resolved_of_def resolution_digest_def Let_def sha_ok_def
        intro!: hex_canonical)
  have wf: "aggregate_is_well_formed r" using winner_valid[OF g(1)] g(2) by (simp add: validate_rule_structure_def)
  then have lim: "0 < ag_limit agg" using g(3) by (auto simp: aggregate_is_well_formed_def split: if_splits)
  have coh: "0 < wp_debit (at_proof t)" "ra_meter ?ra = MRate \<longrightarrow> wp_debit (at_proof t) = 1"
    "window_bounds (ra_window ?ra) now = Some (wp_window_start (at_proof t), wp_window_end (at_proof t))"
    "wp_projected (at_proof t) = wp_consumed_before (at_proof t) + wp_debit (at_proof t)"
    "wp_limit (at_proof t) = ra_limit ?ra" "wp_projected (at_proof t) \<le> ra_limit ?ra"
    using decide_coherent[of ?ra debit evidence now row "at_proof t"] dec by auto
  have kind: "case meter of MBudget \<Rightarrow> \<exists>f. fld = Some f \<and> f \<noteq> [] | MRate \<Rightarrow> fld = None"
    using g(3,4) wf valid_field_nonempty
    by (auto simp: resolve_meter_def aggregate_is_well_formed_def
        split: aggregate_kind.splits option.splits if_splits)
  have "0 \<le> wp_evidence_through_rowid (at_proof t)"
    using decide_allow_shape[OF dec] load_evidence_row[OF g(5)] max_rowid_bound(2) by simp
  then show ?thesis using dig lim coh kind coherent_nonneg[OF dec] decide_allow_shape[OF dec]
    by (auto simp: ticket_sound_def t ra split: aggregate_meter.splits)
qed

definition mint_of_ticket :: "audit_row \<Rightarrow> admit_ticket \<Rightarrow> string \<Rightarrow> string \<Rightarrow> parsed_mint" where
  "mint_of_ticket row t g q =
     \<lparr>pm_event_id = ar_id row, pm_rowid = ar_rowid row, pm_aggregate_id = at_aggregate_id t,
      pm_resolution_digest = at_resolution_digest t, pm_grant_id = g, pm_request_id = q,
      pm_meter = at_kind t, pm_debit_field = at_debit_field t, pm_debit = wp_debit (at_proof t),
      pm_limit = at_limit t, pm_decision_at_epoch = at_decision_at_epoch t,
      pm_expires_at_epoch = grant_expiry_epoch t, pm_proof = at_proof t\<rparr>"

lemma canonical_nonempty: "is_canonical_aggregate_id v \<Longrightarrow> v \<noteq> []"
  by (auto simp: is_canonical_aggregate_id_def utf8_def)

lemma window_bounds_i64: "window_bounds w now = Some (s, e) \<Longrightarrow> in_i64 s \<and> in_i64 e"
  by (auto simp: window_bounds_def bind_eq_Some_conv)

lemma mint_row_parses:
  assumes snd: "ticket_sound t" and rng: "ticket_in_range t" and ids: "g \<noteq> []" "q \<noteq> []"
    and row: "ar_type row = ''budget_mint''" "ar_data row = mint_data t g q"
      "wp_evidence_through_rowid (at_proof t) < ar_rowid row"
  shows "parse_budget_mint row = Ok (mint_of_ticket row t g q)"
proof -
  let ?p = "at_proof t"
  have dig: "is_canonical_aggregate_id (at_aggregate_id t)" "is_canonical_aggregate_id (at_resolution_digest t)"
    "at_aggregate_id t \<noteq> []" "at_resolution_digest t \<noteq> []"
    using snd canonical_nonempty by (auto simp: ticket_sound_def)
  have arith: "0 < at_limit t" "0 < wp_debit ?p" "0 \<le> wp_consumed_before ?p"
    "wp_projected ?p = wp_consumed_before ?p + wp_debit ?p" "wp_projected ?p \<le> at_limit t"
    "0 \<le> wp_evidence_through_rowid ?p"
    using snd by (auto simp: ticket_sound_def)
  have i64: "in_i64 (wp_debit ?p)" "in_i64 (at_limit t)" "in_i64 (wp_consumed_before ?p)"
    "in_i64 (wp_projected ?p)" "in_i64 (wp_window_start ?p)" "in_i64 (wp_window_end ?p)"
    "in_i64 (at_decision_at_epoch t)" "in_i64 (grant_expiry_epoch t)" "in_i64 (wp_evidence_through_rowid ?p)"
    using snd rng arith window_bounds_i64 by (auto simp: ticket_sound_def ticket_in_range_def in_i64_def i64_bounds)
  have w: "window_bounds (at_window t) (at_decision_at_epoch t) = Some (wp_window_start ?p, wp_window_end ?p)"
    "wp_window ?p = at_window t" "wp_limit ?p = at_limit t"
    using snd by (auto simp: ticket_sound_def)
  have cnt: "wp_live_mint_count ?p < 2 ^ 64" "wp_release_count ?p < 2 ^ 64"
    using rng by (auto simp: ticket_in_range_def)
  have kind: "(at_kind t = MBudget \<and> (\<exists>f. at_debit_field t = Some f \<and> f \<noteq> [])) \<or>
              (at_kind t = MRate \<and> at_debit_field t = None \<and> wp_debit ?p = 1)"
    using snd by (auto simp: ticket_sound_def split: aggregate_meter.splits)
  have pf: "?p = \<lparr>wp_window = at_window t, wp_window_start = wp_window_start ?p, wp_window_end = wp_window_end ?p,
      wp_consumed_before = wp_consumed_before ?p, wp_debit = wp_debit ?p, wp_limit = at_limit t,
      wp_projected = wp_projected ?p, wp_live_mint_count = wp_live_mint_count ?p,
      wp_release_count = wp_release_count ?p, wp_evidence_through_rowid = wp_evidence_through_rowid ?p\<rparr>"
    using w(2,3) by (cases ?p) simp
  define obj where "obj = (case mint_data t g q of JObject es \<Rightarrow> es | _ \<Rightarrow> [])"
  have data: "mint_data t g q = JObject obj" by (simp add: obj_def mint_data_def Let_def)
  have ex: "exact_object (mint_data t g q) MINT_KEYS ''budget_mint'' = Ok obj"
    by (simp add: exact_object_def data) (simp add: obj_def mint_data_def Let_def MINT_KEYS_def)
  have strs: "object_str obj ''aggregate_id'' = Ok (at_aggregate_id t)"
    "object_str obj ''resolution_digest'' = Ok (at_resolution_digest t)"
    "object_str obj ''kind'' = Ok (meter_str (at_kind t))"
    "object_str obj ''window'' = Ok (window_str (at_window t))"
    "object_str obj ''grant_id'' = Ok g" "object_str obj ''request_id'' = Ok q"
    using dig ids by (auto simp: object_str_def obj_def mint_data_def Let_def meter_str_def window_str_def
        split: aggregate_meter.splits window.splits)
  have ints: "object_i64 obj ''debit'' = Ok (wp_debit ?p)" "object_i64 obj ''limit'' = Ok (at_limit t)"
    "object_i64 obj ''decision_at_epoch'' = Ok (at_decision_at_epoch t)"
    "object_i64 obj ''expires_at_epoch'' = Ok (grant_expiry_epoch t)"
    "object_i64 obj ''evidence_through_rowid'' = Ok (wp_evidence_through_rowid ?p)"
    "object_i64 obj ''consumed_before'' = Ok (wp_consumed_before ?p)"
    "object_i64 obj ''projected'' = Ok (wp_projected ?p)"
    "object_i64 obj ''window_start'' = Ok (wp_window_start ?p)"
    "object_i64 obj ''window_end'' = Ok (wp_window_end ?p)"
    using i64 by (simp_all add: object_i64_def obj_def mint_data_def Let_def checked_def)
  have nats: "object_u64 obj ''live_mint_count'' = Ok (wp_live_mint_count ?p)"
    "object_u64 obj ''release_count'' = Ok (wp_release_count ?p)"
    using cnt by (simp_all add: object_u64_def obj_def mint_data_def Let_def)
  have fld: "map_of obj ''debit_field'' = Some (case at_debit_field t of None \<Rightarrow> JNull | Some f \<Rightarrow> JString f)"
    by (simp add: obj_def mint_data_def Let_def)
  have lim: "wp_debit ?p \<le> at_limit t" using arith by simp
  show ?thesis
    unfolding parse_budget_mint_def row ex strs ints nats fld mint_of_ticket_def
    using kind arith lim i64(4) w(1) dig row(3)
    by (subst pf) (auto simp: guard_def meter_str_def window_str_def checked_def ex strs ints nats fld
        split: window.splits)
qed


section \<open>The log refines the ledger\<close>

definition row_ok :: "audit_row \<Rightarrow> bool" where
  "row_ok r \<longleftrightarrow> (\<exists>i. jstr (ar_data r) ''aggregate_id'' = Some i \<and> is_canonical_aggregate_id i)"

definition rows_for :: "string \<Rightarrow> audit_row list \<Rightarrow> audit_row list" where
  "rows_for aggregate log =
     filter (\<lambda>r. is_budget_row r \<and> jstr (ar_data r) ''aggregate_id'' = Some aggregate) log"

lemma check_ledger_rows_Ok: "check_ledger_rows rs = Ok ys \<longleftrightarrow> ys = rs \<and> list_all row_ok rs"
proof (induction rs arbitrary: ys)
  case (Cons r rs)
  show ?case
  proof (cases "jstr (ar_data r) ''aggregate_id''")
    case None
    then show ?thesis by (simp add: row_ok_def)
  next
    case (Some i)
    then show ?thesis using Cons by (cases "check_ledger_rows rs") (auto simp: row_ok_def)
  qed
qed auto

lemma load_evidence_iff:
  "load_evidence log aggregate = Ok (evs, row) \<longleftrightarrow> row = max_rowid log \<and>
     (\<forall>r \<in> set log. is_budget_row r \<longrightarrow> row_ok r) \<and> events_of_rows (rows_for aggregate log) = Ok evs"
proof -
  have f: "filter (\<lambda>r. is_budget_row r \<and> ar_rowid r \<le> max_rowid log) log = filter is_budget_row log"
    using max_rowid_bound(1) by (auto intro: filter_cong)
  have "budget_ledger_events log aggregate (max_rowid log) = Ok rs \<longleftrightarrow>
      rs = rows_for aggregate log \<and> (\<forall>r \<in> set log. is_budget_row r \<longrightarrow> row_ok r)" for rs
  proof (cases "check_ledger_rows (filter is_budget_row log)")
    case (Inl e)
    then have "\<not> list_all row_ok (filter is_budget_row log)"
      using check_ledger_rows_Ok[of "filter is_budget_row log" "filter is_budget_row log"] by auto
    with Inl show ?thesis
      by (auto simp: budget_ledger_events_def budget_ledger_rows_def f list_all_iff)
  next
    case (Inr ys)
    then have "ys = filter is_budget_row log" "list_all row_ok (filter is_budget_row log)"
      using check_ledger_rows_Ok by blast+
    with Inr show ?thesis
      by (auto simp: budget_ledger_events_def budget_ledger_rows_def f list_all_iff rows_for_def conj_commute)
  qed
  then show ?thesis by (auto simp: load_evidence_def Let_def res_bind_eq_Ok)
qed

lemma events_of_rows_append:
  "events_of_rows rs = Ok es \<Longrightarrow> event_of_row r = Ok (Some e) \<Longrightarrow> events_of_rows (rs @ [r]) = Ok (es @ [e])"
  by (induction rs arbitrary: es) (auto simp: res_bind_eq_Ok split: option.splits)

lemma event_of_row_id: "event_of_row r = Ok (Some e) \<Longrightarrow> le_event_id e = ar_id r"
  by (auto simp: event_of_row_def Let_def res_bind_eq_Ok split: if_splits)

lemma events_of_rows_mem:
  "events_of_rows rs = Ok es \<Longrightarrow> e \<in> set es \<longleftrightarrow> (\<exists>r \<in> set rs. event_of_row r = Ok (Some e))"
  by (induction rs arbitrary: es) (auto simp: res_bind_eq_Ok split: option.splits)

lemma events_of_rows_row: "events_of_rows rs = Ok es \<Longrightarrow> r \<in> set rs \<Longrightarrow> \<exists>e. event_of_row r = Ok e"
  by (induction rs arbitrary: es) (auto simp: res_bind_eq_Ok)

text \<open>Appending one well-formed budget row appends one event, for its own aggregate only.\<close>

lemma load_evidence_append:
  assumes ev: "load_evidence log aggregate = Ok (evs, row)"
    and r: "is_budget_row r" "row_ok r" "ar_rowid r = max_rowid log + 1"
    and e: "jstr (ar_data r) ''aggregate_id'' = Some aggregate \<Longrightarrow> event_of_row r = Ok (Some e)"
  shows "load_evidence (log @ [r]) aggregate =
    Ok (if jstr (ar_data r) ''aggregate_id'' = Some aggregate then evs @ [e] else evs, max_rowid log + 1)"
proof -
  have "max_rowid (log @ [r]) = max_rowid log + 1" using r(3) by (simp add: max_rowid_append)
  moreover have "rows_for aggregate (log @ [r]) = rows_for aggregate log @
      (if jstr (ar_data r) ''aggregate_id'' = Some aggregate then [r] else [])"
    using r(1) by (simp add: rows_for_def)
  ultimately show ?thesis using ev r e events_of_rows_append
    unfolding load_evidence_iff by auto
qed

lemma mint_row_event:
  assumes "ticket_sound t" "ticket_in_range t" "ar_type r = ''budget_mint''" "ar_data r = mint_data t g q"
  shows "event_of_row r = Ok (Some \<lparr>le_event_id = ar_id r, le_rowid = ar_rowid r,
    le_kind = LMint g (wp_debit (at_proof t)) (at_resolution_digest t) (at_decision_at_epoch t)
      (grant_expiry_epoch t)\<rparr>)"
proof -
  have "in_i64 (wp_debit (at_proof t))"
    using assms(1,2) by (auto simp: ticket_sound_def ticket_in_range_def in_i64_def i64_bounds)
  then show ?thesis using assms
    by (simp add: event_of_row_def Let_def mint_data_def jstr_def ji64_def jget_def checked_def
        ticket_in_range_def)
qed

lemma mint_refines:
  assumes gate: "budget_gate ev rj st log now rules p a res = GateAdmit t"
    and sha: "sha_ok (ev_sha ev)" and rng: "ticket_in_range t" and fresh: "\<forall>r \<in> set log. ar_id r \<noteq> eid"
  shows "\<exists>ra evs evs'. ra_limit ra = at_limit t \<and> ra_window ra = at_window t \<and>
     ra_aggregate_id ra = at_aggregate_id t \<and> ra_resolution_digest ra = at_resolution_digest t \<and>
     load_evidence log (at_aggregate_id t) = Ok (evs, max_rowid log) \<and>
     load_evidence (record_budget_mint log eid sn t g q) (at_aggregate_id t) = Ok (evs', max_rowid log + 1) \<and>
     ledger_step ra evs evs'"
proof -
  from gate obtain i r agg meter fld members evs row debit where
    le: "load_evidence log (aggregate_id (ev_sha ev) rj r) = Ok (evs, row)"
    and dec: "decide_aggregate (resolved_of ev rj st r agg meter fld members) debit evs now row = AAllow (at_proof t)"
    and t: "at_aggregate_id t = aggregate_id (ev_sha ev) rj r"
    "at_resolution_digest t = ra_resolution_digest (resolved_of ev rj st r agg meter fld members)"
    "at_limit t = ag_limit agg" "at_window t = ag_window agg" "at_decision_at_epoch t = now"
    by (rule gate_admit)
  let ?ra = "resolved_of ev rj st r agg meter fld members"
  define new where "new = \<lparr>ar_rowid = max_rowid log + 1, ar_id = eid, ar_session = Some sn, ar_type = ''budget_mint'',
     ar_data = mint_data t g q\<rparr>"
  note snd = gate_ticket_sound[OF gate sha]
  have agg: "jstr (ar_data new) ''aggregate_id'' = Some (at_aggregate_id t)"
    by (simp add: new_def mint_data_def Let_def jstr_def jget_def)
  have "row_ok new" using agg snd by (auto simp: row_ok_def ticket_sound_def)
  moreover have "event_of_row new = Ok (Some \<lparr>le_event_id = eid, le_rowid = max_rowid log + 1,
      le_kind = LMint g (wp_debit (at_proof t)) (at_resolution_digest t) now (grant_expiry_epoch t)\<rparr>)"
    using mint_row_event[OF snd rng, of new g q] t(5) by (simp add: new_def)
  ultimately have "load_evidence (log @ [new]) (at_aggregate_id t) =
      Ok (evs @ [\<lparr>le_event_id = eid, le_rowid = max_rowid log + 1,
        le_kind = LMint g (wp_debit (at_proof t)) (ra_resolution_digest ?ra) now (grant_expiry_epoch t)\<rparr>],
      max_rowid log + 1)"
    using load_evidence_append[of log "at_aggregate_id t" evs row new] le agg t(1,2)
    by (simp add: is_budget_row_def new_def)
  moreover have "\<forall>e \<in> set evs. le_event_id e \<noteq> eid"
    using le fresh events_of_rows_mem event_of_row_id unfolding load_evidence_iff
    by (fastforce simp: rows_for_def)
  then have "ledger_step ?ra evs (evs @ [\<lparr>le_event_id = eid, le_rowid = max_rowid log + 1,
        le_kind = LMint g (wp_debit (at_proof t)) (ra_resolution_digest ?ra) now (grant_expiry_epoch t)\<rparr>])"
    by (rule ledger_step.mint[OF dec])
  moreover have "record_budget_mint log eid sn t g q = log @ [new]" by (simp add: record_budget_mint_def new_def)
  moreover have "row = max_rowid log" using load_evidence_row[OF le] .
  moreover have "ra_limit ?ra = at_limit t \<and> ra_window ?ra = at_window t \<and> ra_aggregate_id ?ra = at_aggregate_id t"
    by (simp add: resolved_of_def t)
  ultimately show ?thesis using le t(1,2) by metis
qed

lemma find_mint_ref_Some:
  "find_mint_ref g found rs = Ok (Some (m, a)) \<Longrightarrow> found = Some (m, a) \<or>
     (\<exists>r \<in> set rs. ar_id r = m \<and> jstr (ar_data r) ''grant_id'' = Some g \<and>
                   jstr (ar_data r) ''aggregate_id'' = Some a)"
  by (induction rs arbitrary: found) (auto split: if_splits option.splits)

text \<open>
  SQLite's text match finds exactly the releases that name the mint, for the rows of this log.
\<close>

definition like_exact :: "(string \<Rightarrow> string \<Rightarrow> json \<Rightarrow> bool) \<Rightarrow> audit_row list \<Rightarrow> bool" where
  "like_exact like log \<longleftrightarrow>
     (\<forall>r \<in> set log. \<forall>m. like ''mint_event_id'' m (ar_data r) \<longleftrightarrow> jstr (ar_data r) ''mint_event_id'' = Some m)"

lemma release_refines:
  assumes rel: "release_budget_for_grant verified like log eid g cause = Ok log'"
    and like: "like_exact like log" and ev: "load_evidence log aggregate = Ok (evs, row)"
  shows "\<exists>evs' row'. load_evidence log' aggregate = Ok (evs', row') \<and>
                    (evs' = evs \<or> ledger_step ra evs evs')"
proof (cases "log' = log")
  case True
  then show ?thesis using ev by blast
next
  case False
  from rel False obtain m a where ref: "budget_mint_ref_for_grant verified log g = Ok (Some (m, a))"
    and unrel: "\<not> budget_release_exists like log m"
    and log': "log' = log @ [\<lparr>ar_rowid = max_rowid log + 1, ar_id = eid, ar_session = None, ar_type = ''budget_release'',
                              ar_data = release_data m a g cause\<rparr>]"
    by (auto simp: release_budget_for_grant_def res_bind_eq_Ok split: option.splits if_splits)
  let ?new = "\<lparr>ar_rowid = max_rowid log + 1, ar_id = eid, ar_session = None, ar_type = ''budget_release'',
              ar_data = release_data m a g cause\<rparr>"
  let ?e = "\<lparr>le_event_id = eid, le_rowid = max_rowid log + 1, le_kind = LRelease m g\<rparr>"
  from ref obtain mr where mr: "mr \<in> set log" "ar_type mr = ''budget_mint''" "ar_id mr = m"
    "jstr (ar_data mr) ''grant_id'' = Some g" "jstr (ar_data mr) ''aggregate_id'' = Some a"
    by (auto simp: budget_mint_ref_for_grant_def split: if_splits dest!: find_mint_ref_Some)
  have canon: "is_canonical_aggregate_id a"
    using ev mr unfolding load_evidence_iff by (fastforce simp: is_budget_row_def row_ok_def)
  have agg: "jstr (ar_data ?new) ''aggregate_id'' = Some a"
    by (simp add: release_data_def jstr_def jget_def)
  have "event_of_row ?new = Ok (Some ?e)"
    by (simp add: event_of_row_def Let_def release_data_def jstr_def jget_def)
  then have load: "load_evidence log' aggregate =
      Ok (if a = aggregate then evs @ [?e] else evs, max_rowid log + 1)"
    using load_evidence_append[OF ev, of ?new ?e] agg canon log'
    by (auto simp: is_budget_row_def row_ok_def)
  have "ledger_step ra evs (evs @ [?e])" if "a = aggregate"
  proof -
    have rows: "events_of_rows (rows_for aggregate log) = Ok evs" using ev unfolding load_evidence_iff by blast
    have "mr \<in> set (rows_for aggregate log)" using mr that by (simp add: rows_for_def is_budget_row_def)
    moreover obtain e where "event_of_row mr = Ok e"
      using events_of_rows_row[OF rows \<open>mr \<in> set (rows_for aggregate log)\<close>] by blast
    ultimately obtain d dig ts x where
      "event_of_row mr = Ok (Some \<lparr>le_event_id = m, le_rowid = ar_rowid mr, le_kind = LMint g d dig ts x\<rparr>)"
      using mr by (auto simp: event_of_row_def Let_def res_bind_eq_Ok ok_or_eq_Ok)
    then have mem: "\<lparr>le_event_id = m, le_rowid = ar_rowid mr, le_kind = LMint g d dig ts x\<rparr> \<in> set evs"
      using events_of_rows_mem[OF rows] \<open>mr \<in> set (rows_for aggregate log)\<close> by blast
    have "m \<notin> set (released evs)"
    proof
      assume "m \<in> set (released evs)"
      then obtain e h where e: "e \<in> set evs" "le_kind e = LRelease m h" by (auto simp: released_mem)
      then obtain r where r: "r \<in> set (rows_for aggregate log)" "event_of_row r = Ok (Some e)"
        using events_of_rows_mem[OF rows] by blast
      then have "ar_type r = ''budget_release''" "jstr (ar_data r) ''mint_event_id'' = Some m"
        using e(2) by (auto simp: event_of_row_def Let_def res_bind_eq_Ok ok_or_eq_Ok split: if_splits)
      with r(1) like unrel show False
        by (auto simp: rows_for_def budget_release_exists_def list_ex_iff like_exact_def)
    qed
    then show ?thesis using ledger_step.release[OF mem, of g d dig ts x] by simp
  qed
  with load show ?thesis by (cases "a = aggregate") auto
qed


section \<open>Retries\<close>

lemma parse_rows_mint:
  "parse_rows rs = Ok p \<Longrightarrow> m \<in> set (bp_mints p) \<Longrightarrow> \<exists>r \<in> set rs. parse_budget_mint r = Ok m"
proof (induction rs arbitrary: p)
  case (Cons r rs)
  from Cons.prems(1) obtain q where q: "parse_rows rs = Ok q"
    and p: "(ar_type r = ''budget_mint'' \<and> (\<exists>m. parse_budget_mint r = Ok m \<and> p = q\<lparr>bp_mints := m # bp_mints q\<rparr>)) \<or>
            bp_mints p = bp_mints q"
    by (auto simp: res_bind_eq_Ok split: if_splits)
  then show ?case using Cons.IH[OF q] Cons.prems(2) by auto
qed simp

lemma parse_budget_mint_Ok:
  assumes "parse_budget_mint r = Ok m"
  shows "pm_rowid m = ar_rowid r \<and>
    window_bounds (wp_window (pm_proof m)) (pm_decision_at_epoch m) =
      Some (wp_window_start (pm_proof m), wp_window_end (pm_proof m))"
  using assms unfolding parse_budget_mint_def res_bind_eq_Ok
  by (clarsimp simp: res_bind_eq_Ok ok_or_eq_Ok guard_def split: if_splits)

lemma retry_evidence_mem:
  assumes "m \<in> set (bp_mints pop)" "pm_rowid m \<le> through" "pm_aggregate_id m = aggregate"
  shows "\<lparr>le_event_id = pm_event_id m, le_rowid = pm_rowid m,
           le_kind = LMint (pm_grant_id m) (pm_debit m) (pm_resolution_digest m)
                       (pm_decision_at_epoch m) (pm_expires_at_epoch m)\<rparr>
         \<in> set (retry_ledger_evidence pop aggregate through)"
  using assms by (auto simp: retry_ledger_evidence_def)

lemma retry_evidence_released:
  "x \<in> set (released (retry_ledger_evidence pop aggregate through)) \<Longrightarrow>
     \<exists>l \<in> set (bp_releases pop). pl_mint_event_id l = x"
  by (auto simp: released_mem retry_ledger_evidence_def)

lemma retry_holds:
  assumes sub: "retry_budget_substitution verified ev rj st log now lin rules p a res = Ok tk"
    and mint: "rt_parent_mint tk = Some mid"
  shows "\<exists>cur rows pop m. resolve_retry_aggregate ev rj st now rules p a res = Ok (Some cur) \<and>
     verified_budget_ledger_rows verified log (max_rowid log) = Ok rows \<and>
     parse_retry_budget_population rows = Ok pop \<and>
     m \<in> set (bp_mints pop) \<and> pm_event_id m = mid \<and> mint_matches_authority cur lin m \<and>
     decide_aggregate (rg_resolved cur) (FValue (pm_debit m))
       (retry_ledger_evidence pop (pm_aggregate_id m) (wp_evidence_through_rowid (pm_proof m)))
       (pm_decision_at_epoch m) (wp_evidence_through_rowid (pm_proof m)) = AAllow (pm_proof m) \<and>
     (let evs = retry_ledger_evidence pop (pm_aggregate_id m) (max_rowid log) in
      mid \<in> set (map le_event_id (live_in (released evs) (wp_window_start (pm_proof m))
                                   (wp_window_end (pm_proof m)) evs)))"
proof -
  let ?mine = "\<lambda>m. pm_grant_id m \<in> set (rl_grant_ids lin) \<or> pm_request_id m \<in> set (rl_request_ids lin)"
  from sub obtain current rows pop where
    cur0: "resolve_retry_aggregate ev rj st now rules p a res = Ok current"
    and rows: "verified_budget_ledger_rows verified log (max_rowid log) = Ok rows"
    and pop: "parse_retry_budget_population rows = Ok pop"
    and fin: "(case current of
          None \<Rightarrow> if filter ?mine (bp_mints pop) = []
            then Ok \<lparr>rt_parent_grant = rl_eligible_parent lin, rt_parent_mint = None\<rparr>
            else Err (RetryBudget ''budgeted parent no longer resolves as unbudgeted'')
        | Some cur \<Rightarrow> retry_with_aggregate lin pop (max_rowid log) (filter ?mine (bp_mints pop)) cur) = Ok tk"
    unfolding retry_budget_substitution_def res_bind_eq_Ok Let_def by blast
  obtain cur where "current = Some cur" using fin mint by (cases current) (auto split: if_splits)
  with cur0 fin have cur: "resolve_retry_aggregate ev rj st now rules p a res = Ok (Some cur)"
    and w0: "retry_with_aggregate lin pop (max_rowid log) (filter ?mine (bp_mints pop)) cur = Ok tk" by auto
  obtain m where lm: "filter ?mine (bp_mints pop) = [m]"
    using w0 by (cases "filter ?mine (bp_mints pop)"; cases "tl (filter ?mine (bp_mints pop))")
      (auto simp: retry_with_aggregate_def)
  have w: "retry_with_aggregate lin pop (max_rowid log) [m] cur = Ok tk" using w0 lm by simp
  have m: "m \<in> set (bp_mints pop)" using lm by (metis (no_types, lifting) filter_eq_Cons_iff in_set_conv_decomp)
  from w mint have auth: "mint_matches_authority cur lin m" and mid: "pm_event_id m = mid"
    and dec: "decide_aggregate (rg_resolved cur) (FValue (pm_debit m))
       (retry_ledger_evidence pop (ra_aggregate_id (rg_resolved cur)) (wp_evidence_through_rowid (pm_proof m)))
       (pm_decision_at_epoch m) (wp_evidence_through_rowid (pm_proof m)) = AAllow (pm_proof m)"
    and unrel: "\<not> list_ex (\<lambda>l. pl_mint_event_id l = pm_event_id m) (bp_releases pop)"
    by (auto simp: retry_with_aggregate_def Let_def split: if_splits aggregate_decision.splits)
  have agg: "pm_aggregate_id m = ra_aggregate_id (rg_resolved cur)"
    using auth by (simp add: mint_matches_authority_def)
  have "parse_rows rows = Ok pop"
    using pop by (auto simp: parse_retry_budget_population_def res_bind_eq_Ok)
  from parse_rows_mint[OF this m] obtain r where r: "r \<in> set rows" "parse_budget_mint r = Ok m" by blast
  have "r \<in> set log" using rows r(1) check_ledger_rows_Ok
    by (fastforce simp: verified_budget_ledger_rows_def budget_ledger_rows_def split: if_splits)
  then have le: "pm_rowid m \<le> max_rowid log"
    using max_rowid_bound(1) parse_budget_mint_Ok[OF r(2)] by simp
  let ?evs = "retry_ledger_evidence pop (pm_aggregate_id m) (max_rowid log)"
  have "pm_event_id m \<notin> set (released ?evs)"
    using retry_evidence_released unrel by (fastforce simp: list_ex_iff)
  moreover have "in_window (wp_window_start (pm_proof m)) (wp_window_end (pm_proof m))
      \<lparr>le_event_id = pm_event_id m, le_rowid = pm_rowid m,
       le_kind = LMint (pm_grant_id m) (pm_debit m) (pm_resolution_digest m)
                   (pm_decision_at_epoch m) (pm_expires_at_epoch m)\<rparr>"
    using parse_budget_mint_Ok[OF r(2)] window_contains by (simp add: in_window_def is_mint_def) blast
  ultimately have "mid \<in> set (map le_event_id (live_in (released ?evs) (wp_window_start (pm_proof m))
      (wp_window_end (pm_proof m)) ?evs))"
    using retry_evidence_mem[OF m le refl] mid by (force simp: live_in_def)
  then show ?thesis using cur rows pop m mid auth dec agg by (auto simp: Let_def)
qed

section \<open>Properties\<close>

text \<open>
  The row the gate writes is one its strict reader accepts: for every admitting verdict the
  exact-schema parser of the retry path reads the appended row back to the ticket, proof included.
  SHA-256 gives thirty-two bytes, and the ticket's integers have the width of their types.
\<close>

theorem mint_row_roundtrip:
  assumes "budget_gate ev rj st log now rules p a res = GateAdmit t"
    and "sha_ok (ev_sha ev)" "ticket_in_range t" "g \<noteq> []" "q \<noteq> []"
  shows "parse_budget_mint (last (record_budget_mint log eid sn t g q))
    = Ok (mint_of_ticket (last (record_budget_mint log eid sn t g q)) t g q)"
proof -
  from assms(1) obtain i r agg meter fld members evidence row debit where
    "load_evidence log (aggregate_id (ev_sha ev) rj r) = Ok (evidence, row)"
    "decide_aggregate (resolved_of ev rj st r agg meter fld members) debit evidence now row = AAllow (at_proof t)"
    by (rule gate_admit)
  then have "wp_evidence_through_rowid (at_proof t) = max_rowid log"
    using decide_allow_shape load_evidence_row by blast
  then show ?thesis using gate_ticket_sound[OF assms(1,2)] assms(3-5)
    by (intro mint_row_parses) (simp_all add: record_budget_mint_def)
qed

text \<open>
  C7. The broker's log refines the abstract ledger: an admitting verdict followed by the append of its
  row is exactly one mint step of the ledger of that aggregate, as the next evidence load reads it.
\<close>

theorem gate_mint_refines_ledger:
  assumes "budget_gate ev rj st log now rules p a res = GateAdmit t"
    and "sha_ok (ev_sha ev)" "ticket_in_range t" "\<forall>r \<in> set log. ar_id r \<noteq> eid"
  shows "\<exists>ra evs evs'. ra_limit ra = at_limit t \<and> ra_window ra = at_window t \<and>
     ra_aggregate_id ra = at_aggregate_id t \<and> ra_resolution_digest ra = at_resolution_digest t \<and>
     load_evidence log (at_aggregate_id t) = Ok (evs, max_rowid log) \<and>
     load_evidence (record_budget_mint log eid sn t g q) (at_aggregate_id t) = Ok (evs', max_rowid log + 1) \<and>
     ledger_step ra evs evs'"
  using assms by (rule mint_refines)


text \<open>
  C27. A retry that reuses a reservation reuses a live one: the ticket names a mint of the verified
  ledger that matches the current authority, whose recorded proof replays over its own prefix, and
  whose debit is still counted in its window.
\<close>

theorem retry_reuses_live_reservation:
  assumes "retry_budget_substitution verified ev rj st log now lin rules p a res = Ok tk"
    and "rt_parent_mint tk = Some mid"
  shows "\<exists>cur rows pop m. resolve_retry_aggregate ev rj st now rules p a res = Ok (Some cur) \<and>
     verified_budget_ledger_rows verified log (max_rowid log) = Ok rows \<and>
     parse_retry_budget_population rows = Ok pop \<and>
     m \<in> set (bp_mints pop) \<and> pm_event_id m = mid \<and> mint_matches_authority cur lin m \<and>
     decide_aggregate (rg_resolved cur) (FValue (pm_debit m))
       (retry_ledger_evidence pop (pm_aggregate_id m) (wp_evidence_through_rowid (pm_proof m)))
       (pm_decision_at_epoch m) (wp_evidence_through_rowid (pm_proof m)) = AAllow (pm_proof m) \<and>
     (let evs = retry_ledger_evidence pop (pm_aggregate_id m) (max_rowid log) in
      mid \<in> set (map le_event_id (live_in (released evs) (wp_window_start (pm_proof m))
                                   (wp_window_end (pm_proof m)) evs)))"
  using assms by (rule retry_holds)


section \<open>A concrete log\<close>

definition flat_sha :: sha_fun where
  "flat_sha bytes = replicate 32 0"

definition zero_id :: string where
  "zero_id = replicate 64 (CHR ''0'')"

definition plain_stores :: member_stores where
  "plain_stores = \<lparr>st_descriptor_hash = (\<lambda>_. None), st_template_hash = (\<lambda>_ _. None),
                   st_dbg_str = (\<lambda>s. s)\<rparr>"

definition json_like :: "string \<Rightarrow> string \<Rightarrow> json \<Rightarrow> bool" where
  "json_like k v d \<longleftrightarrow> jstr d k = Some v"

definition meter_evaluator :: evaluator where
  "meter_evaluator = money_evaluator\<lparr>ev_sha := flat_sha\<rparr>"

definition first_proof :: window_proof where
  "first_proof = \<lparr>wp_window = Day, wp_window_start = 0, wp_window_end = 86400,
     wp_consumed_before = 0, wp_debit = 40, wp_limit = 1000, wp_projected = 40,
     wp_live_mint_count = 0, wp_release_count = 0, wp_evidence_through_rowid = 0\<rparr>"

definition first_ticket :: admit_ticket where
  "first_ticket = \<lparr>at_aggregate_id = zero_id, at_resolution_digest = zero_id, at_kind = MBudget,
     at_debit_field = Some ''amount'', at_limit = 1000, at_window = Day, at_decision_at_epoch = 5,
     at_proof = first_proof\<rparr>"

definition first_log :: "audit_row list" where
  "first_log = record_budget_mint [] ''e1'' ''s1'' first_ticket ''g1'' ''q1''"

definition metered :: resolved_aggregate where
  "metered = \<lparr>ra_meter = MBudget, ra_limit = 1000, ra_window = Day, ra_aggregate_id = zero_id,
              ra_resolution_digest = zero_id\<rparr>"

lemma hex_zero: "hex (flat_sha x) = zero_id"
  by (simp add: flat_sha_def) code_simp

lemma meter_ids: "aggregate_id flat_sha rj r = zero_id" "resolution_digest flat_sha f ms = zero_id"
  by (simp_all add: aggregate_id_def resolution_digest_def Let_def hex_zero)

lemma meter_resolved:
  "resolved_of meter_evaluator rj st money_rule
     \<lparr>ag_kind = Budget (Some ''amount''), ag_limit = 1000, ag_window = Day\<rparr> MBudget (Some ''amount'') ms = metered"
  by (simp add: resolved_of_def meter_ids meter_evaluator_def metered_def)

lemma meter_allowed:
  "evaluate meter_evaluator (sample_rules [money_rule]) ''pay'' ''send'' money_resource = DAllow 0"
  by code_simp

lemma meter_parts:
  "selector_members flat_sha (ev_sets meter_evaluator) (VerbSel ''pay'' ''send'') = Some [(''pay'', ''send'')]"
  "freeze_debit MBudget (Some ''amount'') money_resource
     (lookup_contract (ev_contracts meter_evaluator) ''pay'' ''send'') = FValue 40"
  "resolve_meter \<lparr>ag_kind = Budget (Some ''amount''), ag_limit = 1000, ag_window = Day\<rparr>
     = Some (MBudget, Some ''amount'')"
  by code_simp+

lemma first_decision: "decide_aggregate metered (FValue 40) [] 5 0 = AAllow first_proof"
  by code_simp

lemma first_gate:
  "budget_gate meter_evaluator rj st [] 5 (sample_rules [money_rule]) ''pay'' ''send'' money_resource
     = GateAdmit first_ticket"
proof -
  have r: "rs_rules (sample_rules [money_rule]) ! 0 = money_rule" by (simp add: sample_rules_def)
  have rule: "r_aggregate money_rule =
      Some \<lparr>ag_kind = Budget (Some ''amount''), ag_limit = 1000, ag_window = Day\<rparr>"
    "r_selector money_rule = VerbSel ''pay'' ''send''" by (simp_all add: money_rule_def)
  have sha: "ev_sha meter_evaluator = flat_sha" by (simp add: meter_evaluator_def)
  have ev: "load_evidence [] zero_id = Ok ([], 0)"
    by (simp add: load_evidence_iff max_rowid_def rows_for_def)
  have ids: "ra_aggregate_id metered = zero_id" "ra_resolution_digest metered = zero_id"
    by (simp_all add: metered_def)
  show ?thesis
    by (simp add: budget_gate_def meter_allowed r rule Let_def meter_parts sha meter_resolved ids ev
        first_decision) (simp add: first_ticket_def)
qed

lemma first_in_range: "ticket_in_range first_ticket"
  by (simp add: ticket_in_range_def first_ticket_def first_proof_def grant_expiry_epoch_def
      GRANT_TTL_SECS_def in_i64_numeral)

lemma meter_sha: "sha_ok (ev_sha meter_evaluator)"
  by (simp add: sha_ok_def meter_evaluator_def flat_sha_def)

theorem mint_row_roundtrip_witness:
  "parse_budget_mint (last first_log) = Ok (mint_of_ticket (last first_log) first_ticket ''g1'' ''q1'')"
  unfolding first_log_def
  by (rule mint_row_roundtrip[OF first_gate meter_sha first_in_range]) simp_all

theorem gate_mint_refines_ledger_witness:
  "\<exists>ra evs evs'. load_evidence first_log zero_id = Ok (evs', 1) \<and> ledger_step ra evs evs'"
  using gate_mint_refines_ledger[OF first_gate meter_sha first_in_range, of "''e1''" "''s1''" "''g1''" "''q1''"]
  by (auto simp: first_log_def first_ticket_def max_rowid_def)

definition first_event :: ledger_event where
  "first_event = \<lparr>le_event_id = ''e1'', le_rowid = 1, le_kind = LMint ''g1'' 40 zero_id 5 605\<rparr>"

lemma first_evidence: "load_evidence first_log zero_id = Ok ([first_event], 1)"
  by code_simp


definition first_mint :: parsed_mint where
  "first_mint = mint_of_ticket (last first_log) first_ticket ''g1'' ''q1''"

definition first_lineage :: retry_lineage where
  "first_lineage = \<lparr>rl_eligible_parent = ''g1'', rl_owner_id = ''g1'',
     rl_owner_grant = \<lparr>gr_request_id = ''q1'', gr_status = Executed, gr_expiry_epoch = Some 605,
                       gr_lease_opened_at = None, gr_lease_deadline = None\<rparr>,
     rl_grant_ids = [''g1''], rl_request_ids = [''q1'']\<rparr>"

definition first_retry :: retry_aggregate where
  "first_retry = \<lparr>rg_resolved = metered, rg_debit_field = Some ''amount'', rg_debit = 40,
                  rg_decision_at = 9\<rparr>"

lemma first_retry_resolved:
  "resolve_retry_aggregate meter_evaluator rj st 9 (sample_rules [money_rule]) ''pay'' ''send'' money_resource
     = Ok (Some first_retry)"
proof -
  have r: "rs_rules (sample_rules [money_rule]) ! 0 = money_rule" by (simp add: sample_rules_def)
  have rule: "r_aggregate money_rule =
      Some \<lparr>ag_kind = Budget (Some ''amount''), ag_limit = 1000, ag_window = Day\<rparr>"
    "r_selector money_rule = VerbSel ''pay'' ''send''" by (simp_all add: money_rule_def)
  have sha: "ev_sha meter_evaluator = flat_sha" by (simp add: meter_evaluator_def)
  show ?thesis
    by (simp add: resolve_retry_aggregate_def meter_allowed r rule Let_def meter_parts sha meter_resolved
        guard_def first_retry_def)
qed

lemma first_substitution:
  "retry_budget_substitution (\<lambda>_. True) meter_evaluator rj st first_log 9 first_lineage
     (sample_rules [money_rule]) ''pay'' ''send'' money_resource
     = Ok \<lparr>rt_parent_grant = ''g1'', rt_parent_mint = Some ''e1''\<rparr>"
proof -
  have rows: "verified_budget_ledger_rows (\<lambda>_. True) first_log (max_rowid first_log) = Ok first_log"
    by code_simp
  have pop: "parse_retry_budget_population first_log = Ok \<lparr>bp_mints = [first_mint], bp_releases = []\<rparr>"
    by code_simp
  have mine: "filter (\<lambda>m. pm_grant_id m \<in> set (rl_grant_ids first_lineage) \<or>
      pm_request_id m \<in> set (rl_request_ids first_lineage)) [first_mint] = [first_mint]"
    by code_simp
  have "retry_with_aggregate first_lineage \<lparr>bp_mints = [first_mint], bp_releases = []\<rparr>
      (max_rowid first_log) [first_mint] first_retry
      = Ok \<lparr>rt_parent_grant = ''g1'', rt_parent_mint = Some ''e1''\<rparr>"
    by code_simp
  then show ?thesis
    by (simp only: retry_budget_substitution_def first_retry_resolved rows pop res_bind_simps Let_def
        option.case budget_population.simps mine)
qed

theorem retry_reuses_live_reservation_witness:
  "\<exists>(pop :: budget_population) m. m \<in> set (bp_mints pop) \<and> pm_event_id m = ''e1'' \<and> mint_matches_authority first_retry first_lineage m"
proof -
  have "rt_parent_mint \<lparr>rt_parent_grant = ''g1'', rt_parent_mint = Some ''e1''\<rparr> = Some ''e1''" by simp
  from retry_reuses_live_reservation[OF first_substitution[of sample_rule_json plain_stores] this]
  obtain cur m and pop :: budget_population where
    cur: "resolve_retry_aggregate meter_evaluator sample_rule_json plain_stores 9 (sample_rules [money_rule])
            ''pay'' ''send'' money_resource = Ok (Some cur)"
    and m: "m \<in> set (bp_mints pop)" "pm_event_id m = ''e1''" "mint_matches_authority cur first_lineage m"
    by blast
  have "cur = first_retry" using cur unfolding first_retry_resolved by simp
  with m show ?thesis by blast
qed


end
