(* ===== verification/Cermet_Redaction.thy ===== *)
theory Cermet_Redaction
  imports Cermet_Contract "HOL-Library.Sublist"
begin

text \<open>
  Redaction of exact secrets, \<^verbatim>\<open>crates/cermet-core/src/redaction.rs\<close>: over a JSON value before it
  is stored, and over the raw bytes of a response body. The standard library's \<^verbatim>\<open>str::replace\<close> is
  \<open>replace_all\<close>, leftmost and without overlap; the byte routine searches and splices by index and is
  proved equal to it. The last section shows what is gone after redaction.
\<close>

section \<open>Values\<close>

definition redacted_marker :: string where
  "redacted_marker = ''[SECRET_REDACTED]''"

fun replace_all :: "'a list \<Rightarrow> 'a list \<Rightarrow> 'a list \<Rightarrow> 'a list" where
  "replace_all pat rep [] = []"
| "replace_all pat rep (c # cs) =
     (if pat \<noteq> [] \<and> prefix pat (c # cs) then rep @ replace_all pat rep (drop (length pat) (c # cs))
      else c # replace_all pat rep cs)"

definition redact_str :: "string \<Rightarrow> string list \<Rightarrow> string" where
  "redact_str input secrets =
     fold (\<lambda>s out. if s \<noteq> [] then replace_all s redacted_marker out else out) secrets input"

fun redact_value_refs :: "json \<Rightarrow> string list \<Rightarrow> json" where
  "redact_value_refs (JString s) secrets = JString (redact_str s secrets)"
| "redact_value_refs (JArray items) secrets = JArray (map (\<lambda>v. redact_value_refs v secrets) items)"
| "redact_value_refs (JObject es) secrets =
     JObject (fold (\<lambda>(key, child) m. bt_insert (redact_str key secrets) child m)
       (map (\<lambda>(key, child). (key, redact_value_refs child secrets)) es) [])"
| "redact_value_refs v secrets = v"

definition redact_value :: "json \<Rightarrow> string list \<Rightarrow> json" where
  "redact_value v secrets = redact_value_refs v secrets"

definition redacted :: "json \<Rightarrow> string list \<Rightarrow> json" where
  "redacted v secrets = redact_value v secrets"

definition redacted_refs :: "json \<Rightarrow> string list \<Rightarrow> json" where
  "redacted_refs v secrets = redact_value_refs v secrets"

section \<open>Bytes\<close>

definition marker_bytes :: "nat list" where
  "marker_bytes = utf8 redacted_marker"

definition find_bytes :: "nat list \<Rightarrow> nat list \<Rightarrow> nat \<Rightarrow> nat option" where
  "find_bytes haystack needle from =
     (if needle = [] \<or> length needle > length haystack then None
      else find (\<lambda>i. take (length needle) (drop i haystack) = needle)
             [from..<Suc (length haystack - length needle)])"

lemma find_range_Some:
  "find P [a..<b] = Some k \<longleftrightarrow> a \<le> k \<and> k < b \<and> P k \<and> (\<forall>j. a \<le> j \<and> j < k \<longrightarrow> \<not> P j)"
proof
  assume "find P [a..<b] = Some k"
  then obtain i where i: "i < b - a" "k = a + i" "P k" "\<forall>j < i. \<not> P (a + j)"
    by (auto simp: find_Some_iff)
  then have "\<not> P j" if "a \<le> j" "j < k" for j
    using that i(4)[rule_format, of "j - a"] by simp
  with i show "a \<le> k \<and> k < b \<and> P k \<and> (\<forall>j. a \<le> j \<and> j < k \<longrightarrow> \<not> P j)" by auto
next
  assume "a \<le> k \<and> k < b \<and> P k \<and> (\<forall>j. a \<le> j \<and> j < k \<longrightarrow> \<not> P j)"
  then show "find P [a..<b] = Some k" unfolding find_Some_iff by (intro exI[of _ "k - a"]) auto
qed

lemma find_bytes_Some:
  "find_bytes haystack needle from = Some at \<longleftrightarrow> needle \<noteq> [] \<and> from \<le> at \<and> prefix needle (drop at haystack) \<and>
     (\<forall>j. from \<le> j \<and> j < at \<longrightarrow> \<not> prefix needle (drop j haystack))"
proof -
  have pre: "take (length needle) (drop i haystack) = needle \<longleftrightarrow> prefix needle (drop i haystack)" for i
    by (metis append_eq_conv_conj append_take_drop_id prefix_def)
  have len: "needle \<noteq> [] \<Longrightarrow> prefix needle (drop i haystack) \<Longrightarrow> length needle \<le> length haystack \<and> i < Suc (length haystack - length needle)" for i
    by (auto dest!: prefix_length_le simp: length_greater_0_conv[symmetric] simp del: length_greater_0_conv)
  show ?thesis using len[of at] by (auto simp: find_bytes_def pre find_range_Some simp del: upt_Suc)
qed

function splice_loop :: "nat list \<Rightarrow> nat list \<Rightarrow> nat \<Rightarrow> nat \<Rightarrow> nat list \<Rightarrow> nat list" where
  "splice_loop haystack needle cursor at out =
     (let out' = out @ take (at - cursor) (drop cursor haystack) @ marker_bytes;
          cursor' = at + length needle in
      case find_bytes haystack needle cursor' of
        Some nxt \<Rightarrow> splice_loop haystack needle cursor' nxt out'
      | None \<Rightarrow> out' @ drop cursor' haystack)"
  by pat_completeness auto
termination
proof (relation "measure (\<lambda>(haystack, needle, cursor, at, out). length haystack - at)", simp)
  fix haystack needle :: "nat list" and cursor at nxt out out' cursor'
  assume "cursor' = at + length needle" "find_bytes haystack needle cursor' = Some nxt"
  then have "needle \<noteq> []" "at + length needle \<le> nxt" "prefix needle (drop nxt haystack)"
    by (simp_all add: find_bytes_Some)
  moreover from this have "0 < length needle" "length needle \<le> length haystack - nxt"
    using prefix_length_le by fastforce+
  ultimately show "((haystack, needle, cursor', nxt, out'), haystack, needle, cursor, at, out)
      \<in> measure (\<lambda>(haystack, needle, cursor, at, out). length haystack - at)" by (simp, linarith)
qed

declare splice_loop.simps [simp del]

definition replace_bytes :: "nat list \<Rightarrow> nat list \<Rightarrow> nat list option" where
  "replace_bytes haystack needle =
     map_option (\<lambda>at. splice_loop haystack needle 0 at []) (find_bytes haystack needle 0)"

definition json_escaped :: "json_lib \<Rightarrow> string \<Rightarrow> string" where
  "json_escaped J s = (let quoted = json_print J (JString s) in butlast (tl quoted))"

definition needles_of :: "json_lib \<Rightarrow> string \<Rightarrow> nat list list" where
  "needles_of J s = (let escaped = json_escaped J s in
     (if escaped \<noteq> s then [utf8 escaped] else []) @ [utf8 s])"

definition splice_needle :: "nat list \<Rightarrow> nat list \<Rightarrow> nat list option \<Rightarrow> nat list option" where
  "splice_needle bytes needle result =
     (case replace_bytes (case result of None \<Rightarrow> bytes | Some b \<Rightarrow> b) needle of
        Some nxt \<Rightarrow> Some nxt
      | None \<Rightarrow> result)"

definition redact_body_bytes_refs :: "json_lib \<Rightarrow> nat list \<Rightarrow> string list \<Rightarrow> nat list" where
  "redact_body_bytes_refs J bytes secrets =
     (case fold (\<lambda>s result. if s = [] then result else fold (splice_needle bytes) (needles_of J s) result)
             secrets None of
        None \<Rightarrow> bytes
      | Some b \<Rightarrow> b)"

definition redact_body_bytes :: "json_lib \<Rightarrow> nat list \<Rightarrow> string list \<Rightarrow> nat list" where
  "redact_body_bytes J bytes secrets = redact_body_bytes_refs J bytes secrets"

section \<open>The byte routine is replacement\<close>

lemma replace_all_id: "\<not> sublist pat cs \<Longrightarrow> replace_all pat rep cs = cs"
  by (induction pat rep cs rule: replace_all.induct) (auto simp: sublist_Cons_right)

lemma replace_first:
  assumes "pat \<noteq> []" "prefix pat (drop k cs)" "\<forall>j < k. \<not> prefix pat (drop j cs)"
  shows "replace_all pat rep cs = take k cs @ rep @ replace_all pat rep (drop (k + length pat) cs)"
  using assms(2,3)
proof (induction cs arbitrary: k)
  case (Cons c cs)
  show ?case
  proof (cases k)
    case 0
    with Cons.prems assms(1) show ?thesis by (cases pat) auto
  next
    case (Suc i)
    have "\<forall>j < i. \<not> prefix pat (drop j cs)" using Cons.prems(2) Suc by (metis Suc_less_eq drop_Suc_Cons)
    moreover have "\<not> prefix pat (c # cs)" using Cons.prems(2) Suc by (metis drop0 zero_less_Suc)
    ultimately show ?thesis using Cons.IH[of i] Cons.prems(1) Suc by simp
  qed
qed (use assms(1) in simp)

lemma find_bytes_None:
  "needle \<noteq> [] \<Longrightarrow> find_bytes haystack needle from = None \<Longrightarrow> \<not> sublist needle (drop from haystack)"
proof
  assume n: "needle \<noteq> []" "find_bytes haystack needle from = None" and "sublist needle (drop from haystack)"
  then obtain xs ys where "drop from haystack = xs @ needle @ ys" by (auto simp: sublist_def)
  then have "drop (length xs) (drop from haystack) = needle @ ys" by simp
  then have "drop (length xs + from) haystack = needle @ ys" by (simp only: drop_drop)
  then have ex: "prefix needle (drop (length xs + from) haystack)" by simp
  let ?P = "\<lambda>k. from \<le> k \<and> prefix needle (drop k haystack)"
  define at where "at = (LEAST k. ?P k)"
  have "?P (length xs + from)" using ex by simp
  then have "?P at" unfolding at_def by (rule LeastI)
  moreover have "\<forall>j. from \<le> j \<and> j < at \<longrightarrow> \<not> prefix needle (drop j haystack)"
    using not_less_Least unfolding at_def by blast
  ultimately have "find_bytes haystack needle from = Some at" using n(1) by (simp add: find_bytes_Some)
  with n(2) show False by simp
qed

lemma splice_loop_spec:
  assumes "find_bytes haystack needle cursor = Some at"
  shows "splice_loop haystack needle cursor at out = out @ replace_all needle marker_bytes (drop cursor haystack)"
  using assms
proof (induction haystack needle cursor at out rule: splice_loop.induct)
  case (1 haystack needle cursor at out)
  let ?out = "out @ take (at - cursor) (drop cursor haystack) @ marker_bytes" and ?next = "at + length needle"
  have at: "needle \<noteq> []" "cursor \<le> at" "prefix needle (drop at haystack)"
    "\<forall>j. cursor \<le> j \<and> j < at \<longrightarrow> \<not> prefix needle (drop j haystack)"
    using "1.prems" by (simp_all add: find_bytes_Some)
  have "replace_all needle marker_bytes (drop cursor haystack) = take (at - cursor) (drop cursor haystack) @
      marker_bytes @ replace_all needle marker_bytes (drop (at - cursor + length needle) (drop cursor haystack))"
    using at by (intro replace_first) (simp_all add: add.commute)
  then have first: "replace_all needle marker_bytes (drop cursor haystack) = take (at - cursor) (drop cursor haystack) @
      marker_bytes @ replace_all needle marker_bytes (drop ?next haystack)" using at(2) by simp
  show ?case
  proof (cases "find_bytes haystack needle ?next")
    case None
    then have "replace_all needle marker_bytes (drop ?next haystack) = drop ?next haystack"
      using find_bytes_None[OF at(1)] replace_all_id by blast
    with None first show ?thesis by (subst splice_loop.simps) (simp add: Let_def)
  next
    case (Some nxt)
    then show ?thesis using "1.IH"[OF refl refl Some Some] first by (subst splice_loop.simps) (simp add: Let_def)
  qed
qed

lemma replacement_exact:
  "needle \<noteq> [] \<Longrightarrow> replace_bytes haystack needle =
     (if sublist needle haystack then Some (replace_all needle marker_bytes haystack) else None)"
proof (cases "find_bytes haystack needle 0")
  case None
  assume "needle \<noteq> []"
  with find_bytes_None[OF this None] None show ?thesis by (simp add: replace_bytes_def)
next
  case (Some at)
  then have "prefix needle (drop at haystack)" by (simp add: find_bytes_Some)
  then obtain ys where "haystack = take at haystack @ needle @ ys" by (metis append_take_drop_id prefixE)
  then have "sublist needle haystack" unfolding sublist_def by blast
  with Some splice_loop_spec[OF Some, of "[]"] show ?thesis by (simp add: replace_bytes_def)
qed

text \<open>
  C35. The byte-level replacement, which searches and copies by index, terminates on every input and
  is the leftmost, non-overlapping replacement of every occurrence; it reports that there was none
  exactly when the needle does not occur, so a body without the needle is never copied or altered.
\<close>

theorem replace_bytes_exact:
  "replace_bytes haystack needle =
     (if needle \<noteq> [] \<and> sublist needle haystack then Some (replace_all needle marker_bytes haystack) else None)"
  using replacement_exact[of needle haystack] by (cases "needle = []") (simp_all add: replace_bytes_def find_bytes_def)

section \<open>What is gone\<close>

text \<open>
  A secret is clear of a marker \<open>lb # mid @ [rb]\<close> when it contains neither bracket and is no part of
  the text between them: then an occurrence in a replaced text cannot straddle or lie in a marker.
\<close>

definition clear_of :: "'a \<Rightarrow> 'a list \<Rightarrow> 'a \<Rightarrow> 'a list \<Rightarrow> bool" where
  "clear_of lb mid rb s \<longleftrightarrow> s \<noteq> [] \<and> lb \<notin> set s \<and> rb \<notin> set s \<and> \<not> sublist s mid"

lemma sublist_across: "x \<notin> set s \<Longrightarrow> sublist s (a @ x # b) \<Longrightarrow> sublist s a \<or> sublist s b"
proof (induction a)
  case Nil
  then show ?case by (cases s) (auto simp: sublist_Cons_right)
next
  case (Cons c a)
  have "prefix s (c # a)" if p: "prefix s (c # a @ x # b)"
  proof (rule ccontr)
    assume "\<not> prefix s (c # a)"
    with p obtain t where "s = (c # a) @ t" "prefix t (x # b)" "t \<noteq> []"
      using prefix_append[of s "c # a" "x # b"] by fastforce
    with Cons.prems(1) show False by (auto simp: prefix_Cons)
  qed
  with Cons show ?case by (auto simp: sublist_Cons_right)
qed

lemma sublist_marker:
  assumes "clear_of lb mid rb s" "sublist s ((lb # mid @ [rb]) @ out)"
  shows "sublist s out"
proof -
  have "sublist s ([] @ lb # (mid @ rb # out))" using assms(2) by simp
  then have "sublist s (mid @ rb # out)"
    using sublist_across[of lb s "[]"] assms(1) by (auto simp: clear_of_def)
  then show ?thesis using sublist_across[of rb s mid out] assms(1) by (auto simp: clear_of_def)
qed

lemma prefix_replaced:
  "lb \<notin> set t \<Longrightarrow> prefix t (replace_all pat (lb # mid) cs) \<Longrightarrow> prefix t cs"
proof (induction pat "lb # mid" cs arbitrary: t rule: replace_all.induct)
  case (2 pat c cs)
  then show ?case by (cases t) (auto split: if_splits)
qed simp

lemma replaced_only_removes:
  assumes "clear_of lb mid rb s" "sublist s (replace_all pat (lb # mid @ [rb]) cs)"
  shows "sublist s cs"
  using assms(2)
proof (induction pat "lb # mid @ [rb]" cs rule: replace_all.induct)
  case (2 pat c cs)
  show ?case
  proof (cases "pat \<noteq> [] \<and> prefix pat (c # cs)")
    case True
    then have "sublist s ((lb # mid @ [rb]) @ replace_all pat (lb # mid @ [rb]) (drop (length pat) (c # cs)))"
      using "2.prems" by simp
    then have "sublist s (drop (length pat) (c # cs))" using "2.hyps"(1)[OF True] sublist_marker[OF assms(1)] by blast
    then show ?thesis using sublist_drop sublist_order.order.trans by blast
  next
    case False
    then have "replace_all pat (lb # mid @ [rb]) (c # cs) = c # replace_all pat (lb # mid @ [rb]) cs" by auto
    with "2.prems" consider "prefix s (replace_all pat (lb # mid @ [rb]) (c # cs))" | "sublist s (replace_all pat (lb # mid @ [rb]) cs)"
      by (auto simp: sublist_Cons_right)
    then show ?thesis
      using prefix_replaced[of lb s pat "mid @ [rb]" "c # cs"] assms(1) "2.hyps"(2)[OF False]
      by cases (auto simp: clear_of_def sublist_Cons_right)
  qed
qed simp

lemma replaced_is_gone:
  assumes "clear_of lb mid rb s"
  shows "\<not> sublist s (replace_all s (lb # mid @ [rb]) cs)"
proof (induction "length cs" arbitrary: cs rule: less_induct)
  case less
  show ?case
  proof (cases cs)
    case Nil
    then show ?thesis using assms by (simp add: clear_of_def)
  next
    case (Cons c cs')
    show ?thesis
    proof (cases "prefix s cs")
      case True
      have "s \<noteq> []" using assms by (simp add: clear_of_def)
      then have "length (drop (length s) cs) < length cs" using Cons by (cases s) auto
      then have "\<not> sublist s (replace_all s (lb # mid @ [rb]) (drop (length s) cs))" using less by blast
      then show ?thesis using True \<open>s \<noteq> []\<close> Cons sublist_marker[OF assms] by auto
    next
      case False
      then have step: "replace_all s (lb # mid @ [rb]) cs = c # replace_all s (lb # mid @ [rb]) cs'" using Cons by simp
      have "\<not> sublist s (replace_all s (lb # mid @ [rb]) cs')" using less Cons by simp
      moreover have "\<not> prefix s (replace_all s (lb # mid @ [rb]) cs)"
        using False prefix_replaced[of lb s s "mid @ [rb]" cs] assms by (auto simp: clear_of_def)
      ultimately show ?thesis unfolding step by (simp add: sublist_Cons_right)
    qed
  qed
qed

fun mentions :: "string \<Rightarrow> json \<Rightarrow> bool" where
  "mentions s (JString t) = sublist s t"
| "mentions s (JArray items) = list_ex (\<lambda>v. mentions s v) items"
| "mentions s (JObject es) = list_ex (\<lambda>(k, v). sublist s k \<or> mentions s v) es"
| "mentions s v = False"

definition redactable :: "string \<Rightarrow> bool" where
  "redactable s = clear_of CHR ''['' ''SECRET_REDACTED'' CHR '']'' s"

lemma marker_shape: "redacted_marker = CHR ''['' # ''SECRET_REDACTED'' @ [CHR '']'']"
  by (simp add: redacted_marker_def)

lemma redact_str_clean:
  assumes "redactable s"
  shows "sublist s (redact_str input secrets) \<Longrightarrow> s \<notin> set secrets \<and> sublist s input"
  unfolding redact_str_def
proof (induction secrets arbitrary: input)
  case (Cons p secrets)
  note clear = assms[unfolded redactable_def]
  let ?out = "if p \<noteq> [] then replace_all p redacted_marker input else input"
  have "s \<notin> set secrets \<and> sublist s ?out" by (rule Cons.IH) (use Cons.prems in \<open>simp only: fold_simps o_apply\<close>)
  then have "s \<notin> set secrets" "sublist s ?out" by blast+
  moreover have "sublist s input" using calculation(2) replaced_only_removes[OF clear, of p input]
    by (auto simp: marker_shape split: if_splits)
  moreover have "s \<noteq> p" using calculation(2) replaced_is_gone[OF clear, of input] clear
    by (auto simp: marker_shape clear_of_def split: if_splits)
  ultimately show ?case by simp
qed simp

lemma fold_insert_member:
  "(q, x) \<in> set (fold (\<lambda>(k, v) m. bt_insert (g k) v m) es m) \<Longrightarrow>
   (q, x) \<in> set m \<or> (\<exists>k. (k, x) \<in> set es \<and> q = g k)"
proof (induction es arbitrary: m)
  case (Cons e es)
  obtain k v where e: "e = (k, v)" by (cases e)
  from Cons.IH[of "bt_insert (g k) v m"] Cons.prems
  have "(q, x) \<in> set (bt_insert (g k) v m) \<or> (\<exists>k. (k, x) \<in> set es \<and> q = g k)" by (simp add: e)
  then show ?case using bt_insert_values[of "(q, x)" "g k" v m] by (auto simp: e)
qed simp

text \<open>
  C34. Redaction removes secrets. For every secret of the list that contains neither bracket of the
  marker and is no part of the words between them, no text of the redacted value - no string at any
  depth, and no key of any object - contains it.
\<close>

theorem redacted_value_clean:
  "s \<in> set secrets \<Longrightarrow> redactable s \<Longrightarrow> \<not> mentions s (redacted v secrets)"
  unfolding redacted_def redact_value_def
proof (induction v secrets rule: redact_value_refs.induct)
  case (3 es secrets)
  let ?es = "map (\<lambda>(key, child). (key, redact_value_refs child secrets)) es"
  show ?case
  proof
    assume "mentions s (redact_value_refs (JObject es) secrets)"
    then obtain k v where "(k, v) \<in> set (fold (\<lambda>(key, child) m. bt_insert (redact_str key secrets) child m) ?es [])"
      "sublist s k \<or> mentions s v" by (auto simp: list_ex_iff)
    moreover from this(1) obtain key where "(key, v) \<in> set ?es" "k = redact_str key secrets"
      using fold_insert_member[of k v "\<lambda>key. redact_str key secrets" ?es "[]"] by (metis empty_iff list.set(1))
    ultimately obtain key child where "(key, child) \<in> set es" "k = redact_str key secrets"
      "v = redact_value_refs child secrets" "sublist s k \<or> mentions s v" by auto
    with "3.IH" "3.prems" \<open>sublist s k \<or> mentions s v\<close> show False
      using redact_str_clean[OF "3.prems"(2)] by blast
  qed
qed (auto simp: list_ex_iff dest: redact_str_clean)

section \<open>Bodies\<close>

lemma replace_all_empty: "replace_all [] rep cs = cs"
  by (induction cs) auto

lemma splice_needle_replaces:
  "(case splice_needle bytes needle result of None \<Rightarrow> bytes | Some b \<Rightarrow> b) =
     replace_all needle marker_bytes (case result of None \<Rightarrow> bytes | Some b \<Rightarrow> b)"
proof -
  define cur where "cur = (case result of None \<Rightarrow> bytes | Some b \<Rightarrow> b)"
  have "replace_bytes cur needle = (if needle \<noteq> [] \<and> sublist needle cur then Some (replace_all needle marker_bytes cur) else None)"
    using replacement_exact[of needle cur] by (cases "needle = []") (simp_all add: replace_bytes_def find_bytes_def)
  then show ?thesis using replace_all_id[of needle cur marker_bytes] replace_all_empty[of marker_bytes cur]
    by (auto simp: splice_needle_def cur_def[symmetric])
qed

lemma splice_needles_replace:
  "(case fold (splice_needle bytes) needles result of None \<Rightarrow> bytes | Some b \<Rightarrow> b) =
     fold (\<lambda>n. replace_all n marker_bytes) needles (case result of None \<Rightarrow> bytes | Some b \<Rightarrow> b)"
  by (induction needles arbitrary: result) (simp_all add: splice_needle_replaces)

definition body_needles :: "json_lib \<Rightarrow> string list \<Rightarrow> nat list list" where
  "body_needles J secrets = concat (map (needles_of J) (filter (\<lambda>s. s \<noteq> []) secrets))"

lemma redact_body_replaces:
  "redact_body_bytes J bytes secrets = fold (\<lambda>n. replace_all n marker_bytes) (body_needles J secrets) bytes"
proof -
  have "(case fold (\<lambda>s result. if s = [] then result else fold (splice_needle bytes) (needles_of J s) result) secrets result of
      None \<Rightarrow> bytes | Some b \<Rightarrow> b) =
    fold (\<lambda>n. replace_all n marker_bytes) (body_needles J secrets) (case result of None \<Rightarrow> bytes | Some b \<Rightarrow> b)" for result
    by (induction secrets arbitrary: result) (simp_all add: body_needles_def splice_needles_replace)
  from this[of None] show ?thesis by (simp add: redact_body_bytes_def redact_body_bytes_refs_def)
qed

lemma fold_replaced_clean:
  assumes "clear_of lb mid rb s"
  shows "sublist s (fold (\<lambda>n. replace_all n (lb # mid @ [rb])) needles cs) \<Longrightarrow> s \<notin> set needles \<and> sublist s cs"
proof (induction needles arbitrary: cs)
  case (Cons n needles)
  let ?out = "replace_all n (lb # mid @ [rb]) cs"
  have "s \<notin> set needles \<and> sublist s ?out" by (rule Cons.IH) (use Cons.prems in simp)
  then show ?case using replaced_only_removes[OF assms, of n cs] replaced_is_gone[OF assms, of cs] by auto
qed simp

lemma utf8_low: "b \<in> set (utf8 s) \<Longrightarrow> b < 128 \<Longrightarrow> \<exists>c \<in> set s. b = code c"
  by (auto simp: utf8_def utf8_char_def split: if_splits)

lemma utf8_high: "c \<in> set s \<Longrightarrow> 128 \<le> code c \<Longrightarrow> \<exists>b \<in> set (utf8 s). 128 \<le> b"
  by (induction s) (auto simp: utf8_def utf8_char_def)

lemma utf8_sublist_ascii:
  assumes "\<forall>c \<in> set t. code c < 128" "sublist (utf8 s) (utf8 t)"
  shows "sublist s t"
proof -
  obtain xs ys where split: "map code t = xs @ utf8 s @ ys"
    using assms(2) by (auto simp: sublist_def utf8_ascii[OF assms(1)])
  then have "set (utf8 s) \<subseteq> code ` set t" by (metis Un_upper1 Un_upper2 le_sup_iff set_append set_map)
  then have "\<forall>c \<in> set s. code c < 128" using assms(1) utf8_high[of _ s] by fastforce
  then have "map code t = xs @ map code s @ ys" using split utf8_ascii by simp
  then obtain a r where r: "t = a @ r" "map code r = map code s @ ys" by (metis map_eq_append_conv)
  from r(2) obtain b d where "r = b @ d" "map code s = map code b" by (auto simp: map_eq_append_conv)
  with r(1) have "t = a @ b @ d" "map code b = map code s" by simp_all
  moreover from this(2) have "b = s" by (simp add: inj_map_eq_map inj_def)
  ultimately show ?thesis by (auto simp: sublist_def)
qed

lemma redactable_bytes: "redactable s \<Longrightarrow> clear_of 91 (utf8 ''SECRET_REDACTED'') 93 (utf8 s)"
proof -
  assume s: "redactable s"
  have bracket: "code d \<notin> set (utf8 s)" if "d \<notin> set s" "code d < 128" for d
    using utf8_low[of "code d" s] that by auto
  have "91 \<notin> set (utf8 s)" "93 \<notin> set (utf8 s)"
    using s bracket[of "CHR ''[''"] bracket[of "CHR '']''"] by (simp_all add: redactable_def clear_of_def)
  moreover have "\<not> sublist (utf8 s) (utf8 ''SECRET_REDACTED'')"
    using s utf8_sublist_ascii[of "''SECRET_REDACTED''" s] by (auto simp: redactable_def clear_of_def)
  moreover have "utf8 s \<noteq> []" using s by (cases s) (auto simp: redactable_def clear_of_def utf8_def utf8_char_def)
  ultimately show ?thesis by (simp add: clear_of_def)
qed

lemma marker_bytes_shape: "marker_bytes = 91 # utf8 ''SECRET_REDACTED'' @ [93]"
  by (simp add: marker_bytes_def redacted_marker_def utf8_def utf8_char_def)

lemma secret_is_needle: "s \<in> set secrets \<Longrightarrow> s \<noteq> [] \<Longrightarrow> {utf8 s, utf8 (json_escaped J s)} \<subseteq> set (body_needles J secrets)"
  by (auto simp: body_needles_def needles_of_def Let_def)

text \<open>
  A redacted body contains no secret of the list, neither as its own bytes nor as the bytes of its
  JSON-escaped spelling, for secrets and spellings that are clear of the marker.
\<close>

theorem body_redaction_clean:
  assumes "s \<in> set secrets" "t \<in> {s, json_escaped J s}" "s \<noteq> []" "redactable t"
  shows "\<not> sublist (utf8 t) (redact_body_bytes J bytes secrets)"
proof -
  have "utf8 t \<in> set (body_needles J secrets)" using secret_is_needle[OF assms(1,3)] assms(2) by auto
  with fold_replaced_clean[OF redactable_bytes[OF assms(4)]] show ?thesis
    unfolding redact_body_replaces marker_bytes_shape by blast
qed

lemma body_untouched: "\<forall>n \<in> set (body_needles J secrets). \<not> sublist n bytes \<Longrightarrow> redact_body_bytes J bytes secrets = bytes"
proof -
  have "fold (\<lambda>n. replace_all n marker_bytes) needles bytes = bytes" if "\<forall>n \<in> set needles. \<not> sublist n bytes" for needles
    using that by (induction needles) (simp_all add: replace_all_id)
  then show "\<forall>n \<in> set (body_needles J secrets). \<not> sublist n bytes \<Longrightarrow> ?thesis" by (simp add: redact_body_replaces)
qed

text \<open>A secret that meets the marker may survive: here the marker itself completes it.\<close>

lemma marker_completes_secret: "sublist ''x['' (redact_str ''xx[['' [''x[''])"
  by code_simp

section \<open>Witnesses\<close>

definition plain_json :: json_lib where
  "plain_json = \<lparr>json_parse = (\<lambda>t. None), json_print = (\<lambda>v. case v of JString s \<Rightarrow> [dquote] @ s @ [dquote] | _ \<Rightarrow> [])\<rparr>"

theorem redacted_value_clean_witness:
  "\<not> mentions ''tok'' (redacted (JObject [(''a tok'', JArray [JString ''tok tok''])]) [''tok''])"
  by (rule redacted_value_clean) code_simp+

theorem body_redaction_clean_witness:
  "\<not> sublist (utf8 ''tok'') (redact_body_bytes plain_json (utf8 ''a tok b tok'') [''tok''])"
proof (rule body_redaction_clean[of "''tok''" _ "''tok''"])
  show "redactable ''tok''" by code_simp
qed simp_all

end
