(* ===== verification/Audit_Log.thy ===== *)
theory Audit_Log
  imports Cermet_Redaction
begin

text \<open>
  The append-only audit log, \<^verbatim>\<open>crates/cermet-core/src/audit.rs\<close>: rows chained by a keyed hash, the
  append, the verification, and the readers that trust a row only from a chain that verifies from its
  first row to its last. The table is the list of its rows in \<^verbatim>\<open>rowid\<close> order. HMAC-SHA256, the JSON
  text of a value and the clock are parameters; an append may be made durable, and a loss of power
  may drop rows that are not.

  Every reader in the source repeats one loop - parse, compare both hashes, fold - and is here that
  loop, \<open>chain_scan\<close>, at its own fold and its own answer to a fault.
\<close>

section \<open>Rows\<close>

record stored_event =
  se_rowid :: int
  se_id :: string
  se_session :: "string option"
  se_ts :: string
  se_type :: string
  se_severity :: string
  se_summary :: string
  se_data_json :: string
  se_prev_hash :: "string option"
  se_event_hash :: string

record audit_lib =
  au_json :: json_lib
  au_hmac :: "nat list \<Rightarrow> nat list \<Rightarrow> nat list"

record audit_log =
  al_rows :: "stored_event list"
  al_key :: "nat list"
  al_durable :: nat

record new_event =
  ne_session :: "string option"
  ne_type :: string
  ne_severity :: string
  ne_summary :: string
  ne_data :: json
  ne_secrets :: "string list"

section \<open>Canonical form and hash\<close>

fun canonical_json :: "json_lib \<Rightarrow> json \<Rightarrow> string" where
  "canonical_json J (JObject es) =
     ''{'' @ join '','' (map (\<lambda>(k, part). json_print J (JString k) @ '':'' @ part)
        (sort_key fst (map (\<lambda>(k, v). (k, canonical_json J v)) es))) @ ''}''"
| "canonical_json J (JArray items) = ''['' @ join '','' (map (\<lambda>v. canonical_json J v) items) @ '']''"
| "canonical_json J v = json_print J v"

definition event_value :: "string option \<Rightarrow> string \<Rightarrow> string \<Rightarrow> string \<Rightarrow> string \<Rightarrow> json \<Rightarrow> json" where
  "event_value session ts ty sev summary data =
     JObject [(''data'', data),
              (''session_id'', case session of None \<Rightarrow> JNull | Some s \<Rightarrow> JString s),
              (''severity'', JString sev), (''summary'', JString summary), (''ts'', JString ts),
              (''type'', JString ty)]"

definition canonical_event :: "json_lib \<Rightarrow> string option \<Rightarrow> string \<Rightarrow> string \<Rightarrow> string \<Rightarrow> string \<Rightarrow> json \<Rightarrow> string" where
  "canonical_event J session ts ty sev summary data =
     canonical_json J (event_value session ts ty sev summary data)"

definition chain_hash :: "audit_lib \<Rightarrow> nat list \<Rightarrow> string \<Rightarrow> string \<Rightarrow> string" where
  "chain_hash lib key prev canonical = hex (au_hmac lib key (utf8 prev @ utf8 canonical))"

section \<open>Appending\<close>

definition redacted_for_record :: "json \<Rightarrow> string list \<Rightarrow> json" where
  "redacted_for_record v secrets = redacted v secrets"

definition redact_summary :: "string \<Rightarrow> string list \<Rightarrow> string" where
  "redact_summary summary secrets =
     (case redacted (JString summary) secrets of JString s \<Rightarrow> s | _ \<Rightarrow> summary)"

definition latest_hash :: "stored_event list \<Rightarrow> string option" where
  "latest_hash rows = (if rows = [] then None else Some (se_event_hash (last rows)))"

definition next_rowid :: "stored_event list \<Rightarrow> int" where
  "next_rowid rows = foldl max 0 (map se_rowid rows) + 1"

text \<open>The identifier is drawn by the caller of the random source; its column is unique.\<close>

datatype audit_error = DuplicateEventId | MalformedData | ChainBroken | DuplicateTerminal string
  | DuplicateAbandonment string | WrongLeaseIdentity string | NoSuchEvent

definition record_with_ts :: "audit_lib \<Rightarrow> audit_log \<Rightarrow> string \<Rightarrow> string \<Rightarrow> new_event \<Rightarrow> audit_error + audit_log" where
  "record_with_ts lib log eid ts ev =
     (let data = redacted_for_record (ne_data ev) (ne_secrets ev);
          summary = redact_summary (ne_summary ev) (ne_secrets ev);
          prev = latest_hash (al_rows log);
          canonical = canonical_event (au_json lib) (ne_session ev) ts (ne_type ev) (ne_severity ev) summary data;
          hash = chain_hash lib (al_key log) (case prev of None \<Rightarrow> [] | Some h \<Rightarrow> h) canonical in
      if list_ex (\<lambda>r. se_id r = eid) (al_rows log) then Err DuplicateEventId
      else Ok (log\<lparr>al_rows := al_rows log @
             [\<lparr>se_rowid = next_rowid (al_rows log), se_id = eid, se_session = ne_session ev, se_ts = ts,
               se_type = ne_type ev, se_severity = ne_severity ev, se_summary = summary,
               se_data_json = json_print (au_json lib) data, se_prev_hash = prev,
               se_event_hash = hash\<rparr>]\<rparr>))"

text \<open>
  The callers differ in the clock the rendered time comes from: sampled now, or the epoch of a
  decision. The rendered time is an argument.
\<close>

definition record_event :: "audit_lib \<Rightarrow> audit_log \<Rightarrow> string \<Rightarrow> string \<Rightarrow> new_event \<Rightarrow> audit_error + audit_log" where
  "record_event lib log eid now ev = record_with_ts lib log eid now ev"

definition record_at :: "audit_lib \<Rightarrow> audit_log \<Rightarrow> string \<Rightarrow> string \<Rightarrow> new_event \<Rightarrow> audit_error + audit_log" where
  "record_at lib log eid epoch_ts ev = record_with_ts lib log eid epoch_ts ev"

text \<open>A durable append returns with every row so far on disk, its own included.\<close>

definition record_at_durable :: "audit_lib \<Rightarrow> audit_log \<Rightarrow> string \<Rightarrow> string \<Rightarrow> new_event \<Rightarrow> audit_error + audit_log" where
  "record_at_durable lib log eid ts ev =
     map_sum (\<lambda>e. e) (\<lambda>log'. log'\<lparr>al_durable := length (al_rows log')\<rparr>) (record_with_ts lib log eid ts ev)"

definition record_durable :: "audit_lib \<Rightarrow> audit_log \<Rightarrow> string \<Rightarrow> string \<Rightarrow> new_event \<Rightarrow> audit_error + audit_log" where
  "record_durable lib log eid now ev = record_at_durable lib log eid now ev"

definition record_durable_with_hash ::
    "audit_lib \<Rightarrow> audit_log \<Rightarrow> string \<Rightarrow> string \<Rightarrow> new_event \<Rightarrow> audit_error + audit_log \<times> string \<times> string" where
  "record_durable_with_hash lib log eid ts ev =
     res_bind (record_durable lib log eid ts ev) (\<lambda>log'.
       case find (\<lambda>r. se_id r = eid) (al_rows log') of
         None \<Rightarrow> Err NoSuchEvent
       | Some r \<Rightarrow> Ok (log', eid, se_event_hash r))"

section \<open>Verification\<close>

record integrity_report =
  ir_event_count :: nat
  ir_verified :: bool
  ir_event_types :: "(string, nat) btree"

definition row_canonical :: "json_lib \<Rightarrow> stored_event \<Rightarrow> json \<Rightarrow> string" where
  "row_canonical J r data = canonical_event J (se_session r) (se_ts r) (se_type r) (se_severity r) (se_summary r) data"

definition link_holds :: "audit_lib \<Rightarrow> nat list \<Rightarrow> string \<Rightarrow> stored_event \<Rightarrow> json \<Rightarrow> bool" where
  "link_holds lib key prev r data \<longleftrightarrow>
     (case se_prev_hash r of None \<Rightarrow> [] | Some h \<Rightarrow> h) = prev \<and>
     se_event_hash r = chain_hash lib key prev (row_canonical (au_json lib) r data)"

fun verify_loop :: "audit_lib \<Rightarrow> nat list \<Rightarrow> string \<Rightarrow> bool \<Rightarrow> nat \<Rightarrow> (string, nat) btree \<Rightarrow> stored_event list
    \<Rightarrow> audit_error + integrity_report" where
  "verify_loop lib key prev verified count types [] =
     Ok \<lparr>ir_event_count = count, ir_verified = verified, ir_event_types = types\<rparr>"
| "verify_loop lib key prev verified count types (r # rs) =
     (case json_parse (au_json lib) (se_data_json r) of
        None \<Rightarrow> Err MalformedData
      | Some data \<Rightarrow>
          verify_loop lib key (se_event_hash r) (verified \<and> link_holds lib key prev r data) (Suc count)
            (bt_insert (se_type r) (Suc (case map_of types (se_type r) of None \<Rightarrow> 0 | Some n \<Rightarrow> n)) types) rs)"

definition verify :: "audit_lib \<Rightarrow> audit_log \<Rightarrow> audit_error + integrity_report" where
  "verify lib log = verify_loop lib (al_key log) [] True 0 [] (al_rows log)"

section \<open>Readers of a verified chain\<close>

fun chain_scan :: "audit_lib \<Rightarrow> nat list \<Rightarrow> (stored_event \<Rightarrow> json \<Rightarrow> 'a \<Rightarrow> 'a) \<Rightarrow> string \<Rightarrow> 'a \<Rightarrow> stored_event list
    \<Rightarrow> audit_error + 'a" where
  "chain_scan lib key step prev acc [] = Ok acc"
| "chain_scan lib key step prev acc (r # rs) = (case json_parse (au_json lib) (se_data_json r) of
      None \<Rightarrow> Err MalformedData
    | Some data \<Rightarrow>
        if \<not> link_holds lib key prev r data then Err ChainBroken
        else chain_scan lib key step (se_event_hash r) (step r data acc) rs)"

definition scan_log :: "audit_lib \<Rightarrow> audit_log \<Rightarrow> (stored_event \<Rightarrow> json \<Rightarrow> 'a \<Rightarrow> 'a) \<Rightarrow> 'a \<Rightarrow> audit_error + 'a" where
  "scan_log lib log step acc = chain_scan lib (al_key log) step [] acc (al_rows log)"

definition is_terminal :: "stored_event \<Rightarrow> bool" where
  "is_terminal r \<longleftrightarrow> se_type r = ''provider_action_succeeded'' \<or> se_type r = ''provider_action_failed''"

record terminal_outcome_t =
  to_ok :: bool
  to_artifact :: "string option"
  to_result :: "json option"

definition terminal_step :: "string \<Rightarrow> stored_event \<Rightarrow> json \<Rightarrow> terminal_outcome_t option \<Rightarrow> terminal_outcome_t option" where
  "terminal_step grant_id r data found =
     (if is_terminal r \<and> jstr data ''grant_id'' = Some grant_id
      then Some \<lparr>to_ok = (se_type r = ''provider_action_succeeded''), to_artifact = jstr data ''artifact'',
                 to_result = jget data ''result''\<rparr>
      else found)"

definition terminal_outcome :: "audit_lib \<Rightarrow> audit_log \<Rightarrow> string \<Rightarrow> terminal_outcome_t option" where
  "terminal_outcome lib log grant_id =
     (case scan_log lib log (terminal_step grant_id) None of Inl _ \<Rightarrow> None | Inr found \<Rightarrow> found)"

definition receipt_step :: "string \<Rightarrow> stored_event \<Rightarrow> json \<Rightarrow> json option \<Rightarrow> json option" where
  "receipt_step grant_id r data found =
     (if is_terminal r \<and> jstr data ''grant_id'' = Some grant_id then Some data else found)"

definition terminal_receipt :: "audit_lib \<Rightarrow> audit_log \<Rightarrow> string \<Rightarrow> json option" where
  "terminal_receipt lib log grant_id =
     (case scan_log lib log (receipt_step grant_id) None of Inl _ \<Rightarrow> None | Inr found \<Rightarrow> found)"

definition outcomes_step :: "stored_event \<Rightarrow> json \<Rightarrow> (string \<rightharpoonup> bool) \<Rightarrow> (string \<rightharpoonup> bool)" where
  "outcomes_step r data out =
     (if is_terminal r
      then (case jstr data ''grant_id'' of None \<Rightarrow> out
            | Some g \<Rightarrow> out(g \<mapsto> (se_type r = ''provider_action_succeeded'')))
      else out)"

definition verified_terminal_outcomes :: "audit_lib \<Rightarrow> audit_log \<Rightarrow> (string \<rightharpoonup> bool) option" where
  "verified_terminal_outcomes lib log =
     (case scan_log lib log outcomes_step (\<lambda>_. None) of Inl _ \<Rightarrow> None | Inr out \<Rightarrow> Some out)"

record verified_snapshot_t =
  vs_verified :: bool
  vs_outcomes :: "string \<rightharpoonup> bool"

definition unverified :: verified_snapshot_t where
  "unverified = \<lparr>vs_verified = False, vs_outcomes = (\<lambda>_. None)\<rparr>"

definition verified_snapshot :: "audit_lib \<Rightarrow> audit_log \<Rightarrow> verified_snapshot_t" where
  "verified_snapshot lib log =
     (case scan_log lib log outcomes_step (\<lambda>_. None) of
        Inl _ \<Rightarrow> unverified
      | Inr out \<Rightarrow> \<lparr>vs_verified = True, vs_outcomes = out\<rparr>)"

definition verified_grant_events :: "audit_lib \<Rightarrow> audit_log \<Rightarrow> string \<Rightarrow> string list
    \<Rightarrow> audit_error + (string \<times> json) list" where
  "verified_grant_events lib log grant_id event_types =
     scan_log lib log (\<lambda>r data found.
       if se_type r \<in> set event_types \<and> jstr data ''grant_id'' = Some grant_id
       then found @ [(se_type r, data)] else found) []"

definition verified_terminal_event :: "audit_lib \<Rightarrow> audit_log \<Rightarrow> string \<Rightarrow> audit_error + json option" where
  "verified_terminal_event lib log grant_id =
     res_bind (verified_grant_events lib log grant_id
                 [''provider_action_succeeded'', ''provider_action_failed'']) (\<lambda>events.
       if length events > 1 then Err (DuplicateTerminal grant_id)
       else Ok (if events = [] then None else Some (snd (last events))))"

definition provider_action_event_exists :: "audit_lib \<Rightarrow> audit_log \<Rightarrow> string \<Rightarrow> audit_error + bool" where
  "provider_action_event_exists lib log grant_id =
     res_bind (verified_terminal_event lib log grant_id) (\<lambda>e. Ok (e \<noteq> None))"

definition effect_rows :: "stored_event \<Rightarrow> bool" where
  "effect_rows r \<longleftrightarrow> se_type r = ''capability_effect_starting'' \<or> is_terminal r"

definition verified_execution_events :: "audit_lib \<Rightarrow> audit_log \<Rightarrow> string \<Rightarrow> string
    \<Rightarrow> audit_error + (string \<times> json) list" where
  "verified_execution_events lib log grant_id request_id =
     scan_log lib log (\<lambda>r data events.
       if effect_rows r \<and> (jstr data ''grant_id'' = Some grant_id \<or> jstr data ''request_id'' = Some request_id)
       then events @ [(se_type r, data)] else events) []"

record money_retry_event =
  mr_rowid :: int
  mr_session :: "string option"
  mr_type :: string
  mr_data :: json

definition verified_money_retry_events :: "audit_lib \<Rightarrow> audit_log \<Rightarrow> string \<Rightarrow> string \<Rightarrow> string
    \<Rightarrow> audit_error + money_retry_event list" where
  "verified_money_retry_events lib log grant_id request_id effect_id =
     scan_log lib log (\<lambda>r data events.
       if effect_rows r \<and> (jstr data ''grant_id'' = Some grant_id \<or> jstr data ''request_id'' = Some request_id \<or>
                            jstr data ''effect_id'' = Some effect_id)
       then events @ [\<lparr>mr_rowid = se_rowid r, mr_session = se_session r, mr_type = se_type r, mr_data = data\<rparr>]
       else events) []"

definition relay_event_types :: "string list" where
  "relay_event_types = [''relay_session_opened'', ''relay_request_forwarded'', ''relay_request_refused'',
     ''relay_request_failed'', ''relay_outcome_mismatch'', ''relay_session_closed'']"

record relay_audit_event =
  ra_at :: string
  ra_type :: string
  ra_data :: json

definition verified_relay_events :: "audit_lib \<Rightarrow> audit_log \<Rightarrow> string option \<Rightarrow> audit_error + relay_audit_event list" where
  "verified_relay_events lib log grant_id =
     scan_log lib log (\<lambda>r data found.
       if se_type r \<notin> set relay_event_types \<or> (grant_id \<noteq> None \<and> jstr data ''grant_id'' \<noteq> grant_id) then found
       else found @ [\<lparr>ra_at = se_ts r, ra_type = se_type r, ra_data = data\<rparr>]) []"

definition lease_abandoned_event_exists :: "audit_lib \<Rightarrow> audit_log \<Rightarrow> string \<Rightarrow> string \<Rightarrow> string \<Rightarrow> int option
    \<Rightarrow> int option \<Rightarrow> audit_error + bool" where
  "lease_abandoned_event_exists lib log grant_id request_id grant_digest lease_opened_at lease_deadline =
     res_bind (verified_grant_events lib log grant_id [''lease_abandoned'']) (\<lambda>events.
       if length events > 1 then Err (DuplicateAbandonment grant_id)
       else (case events of
           [] \<Rightarrow> Ok False
         | (_, data) # _ \<Rightarrow>
             if jstr data ''request_id'' = Some request_id \<and> jstr data ''grant_digest'' = Some grant_digest \<and>
                ji64 data ''lease_opened_at'' = lease_opened_at \<and> ji64 data ''lease_deadline'' = lease_deadline \<and>
                jstr data ''outcome'' = Some ''unreported''
             then Ok True
             else Err (WrongLeaseIdentity grant_id)))"

section \<open>The chain\<close>

definition row_data :: "json_lib \<Rightarrow> stored_event \<Rightarrow> json option" where
  "row_data J r = json_parse J (se_data_json r)"

fun chain_intact :: "audit_lib \<Rightarrow> nat list \<Rightarrow> string \<Rightarrow> stored_event list \<Rightarrow> bool" where
  "chain_intact lib key prev [] = True"
| "chain_intact lib key prev (r # rs) = (case row_data (au_json lib) r of
      None \<Rightarrow> False
    | Some data \<Rightarrow> link_holds lib key prev r data \<and> chain_intact lib key (se_event_hash r) rs)"

definition intact :: "audit_lib \<Rightarrow> audit_log \<Rightarrow> bool" where
  "intact lib log = chain_intact lib (al_key log) [] (al_rows log)"

definition head_hash :: "string \<Rightarrow> stored_event list \<Rightarrow> string" where
  "head_hash prev rows = (if rows = [] then prev else se_event_hash (last rows))"

lemma head_hash_simps [simp]:
  "head_hash prev [] = prev" "head_hash prev (r # rs) = head_hash (se_event_hash r) rs"
  "head_hash prev (rs @ [r]) = se_event_hash r"
  by (simp_all add: head_hash_def)

lemma latest_is_head: "(case latest_hash rows of None \<Rightarrow> [] | Some h \<Rightarrow> h) = head_hash [] rows"
  by (simp add: latest_hash_def head_hash_def)

lemma intact_append:
  "chain_intact lib key prev (rows @ rows') \<longleftrightarrow>
     chain_intact lib key prev rows \<and> chain_intact lib key (head_hash prev rows) rows'"
  by (induction rows arbitrary: prev) (auto split: option.splits)

lemma intact_take: "chain_intact lib key prev rows \<Longrightarrow> chain_intact lib key prev (take n rows)"
  by (metis append_take_drop_id intact_append)

text \<open>A scan of an intact chain is a fold over its rows; any other scan is a fault.\<close>

definition fold_rows :: "json_lib \<Rightarrow> (stored_event \<Rightarrow> json \<Rightarrow> 'a \<Rightarrow> 'a) \<Rightarrow> stored_event list \<Rightarrow> 'a \<Rightarrow> 'a" where
  "fold_rows J step rows acc = fold (\<lambda>r. step r (the (row_data J r))) rows acc"

lemma chain_scan_intact:
  "chain_intact lib key prev rows \<Longrightarrow> chain_scan lib key step prev acc rows = Ok (fold_rows (au_json lib) step rows acc)"
  by (induction rows arbitrary: prev acc) (auto simp: fold_rows_def row_data_def split: option.splits)

lemma chain_scan_broken:
  "\<not> chain_intact lib key prev rows \<Longrightarrow>
   chain_scan lib key step prev acc rows \<in> {Err MalformedData, Err ChainBroken}"
  by (induction rows arbitrary: prev acc) (auto simp: row_data_def split: option.splits)

lemma scan_intact: "intact lib log \<Longrightarrow> scan_log lib log step acc = Ok (fold_rows (au_json lib) step (al_rows log) acc)"
  by (simp add: scan_log_def intact_def chain_scan_intact)

lemma scan_broken: "\<not> intact lib log \<Longrightarrow> \<exists>e. scan_log lib log step acc = Err e \<and> e \<in> {MalformedData, ChainBroken}"
  using chain_scan_broken[of lib "al_key log" "[]" "al_rows log" step acc] by (auto simp: scan_log_def intact_def)

lemma verify_loop_iff:
  "verify_loop lib key prev verified count types rows = Ok rep \<Longrightarrow>
     ir_verified rep \<longleftrightarrow> verified \<and> chain_intact lib key prev rows"
proof (induction rows arbitrary: prev verified count types)
  case (Cons r rows)
  then obtain data where "row_data (au_json lib) r = Some data" by (auto simp: row_data_def split: option.splits)
  with Cons show ?case by (auto simp: row_data_def)
qed auto

lemma verify_loop_Ok:
  "\<forall>r \<in> set rows. row_data (au_json lib) r \<noteq> None \<Longrightarrow>
   \<exists>rep. verify_loop lib key prev verified count types rows = Ok rep \<and> ir_event_count rep = count + length rows"
proof (induction rows arbitrary: prev verified count types)
  case (Cons r rows)
  then obtain data where "row_data (au_json lib) r = Some data" by auto
  moreover have "\<exists>rep. verify_loop lib key p v (Suc count) ts rows = Ok rep \<and> ir_event_count rep = Suc count + length rows" for p v ts
    using Cons.IH[of p v "Suc count" ts] Cons.prems by simp
  ultimately show ?case by (simp add: row_data_def)
qed simp

lemma intact_parses: "chain_intact lib key prev rows \<Longrightarrow> r \<in> set rows \<Longrightarrow> row_data (au_json lib) r \<noteq> None"
  by (induction rows arbitrary: prev) (auto split: option.splits)

section \<open>Reachable logs\<close>

text \<open>
  The steps of a log: an append, a durable append, and a loss of power, which keeps at least the
  durable rows. The data of an event is a value whose JSON text reads back.
\<close>

definition reads_back :: "json_lib \<Rightarrow> json \<Rightarrow> bool" where
  "reads_back J v \<longleftrightarrow> json_parse J (json_print J v) = Some v"

inductive log_step :: "audit_lib \<Rightarrow> audit_log \<Rightarrow> audit_log \<Rightarrow> bool" for lib where
  log_append: "record_with_ts lib log eid ts ev = Ok log' \<Longrightarrow>
     reads_back (au_json lib) (redacted_for_record (ne_data ev) (ne_secrets ev)) \<Longrightarrow> log_step lib log log'"
| log_durable: "record_at_durable lib log eid ts ev = Ok log' \<Longrightarrow>
     reads_back (au_json lib) (redacted_for_record (ne_data ev) (ne_secrets ev)) \<Longrightarrow> log_step lib log log'"
| log_power_loss: "al_durable log \<le> n \<Longrightarrow> n \<le> length (al_rows log) \<Longrightarrow>
     log_step lib log (log\<lparr>al_rows := take n (al_rows log), al_durable := n\<rparr>)"

definition log_ok :: "audit_lib \<Rightarrow> audit_log \<Rightarrow> bool" where
  "log_ok lib log \<longleftrightarrow> intact lib log \<and> al_durable log \<le> length (al_rows log)"

definition empty_log :: "nat list \<Rightarrow> audit_log" where
  "empty_log key = \<lparr>al_rows = [], al_key = key, al_durable = 0\<rparr>"

lemma record_appends:
  assumes "record_with_ts lib log eid ts ev = Ok log'"
  obtains r where "log' = log\<lparr>al_rows := al_rows log @ [r]\<rparr>" "se_id r = eid"
    "reads_back (au_json lib) (redacted_for_record (ne_data ev) (ne_secrets ev)) \<Longrightarrow>
       intact lib log \<Longrightarrow> intact lib log'"
proof -
  from assms obtain r where r: "log' = log\<lparr>al_rows := al_rows log @ [r]\<rparr>" "se_id r = eid"
    "se_prev_hash r = latest_hash (al_rows log)"
    "se_data_json r = json_print (au_json lib) (redacted_for_record (ne_data ev) (ne_secrets ev))"
    "se_event_hash r = chain_hash lib (al_key log) (head_hash [] (al_rows log))
       (row_canonical (au_json lib) r (redacted_for_record (ne_data ev) (ne_secrets ev)))"
    by (auto simp: record_with_ts_def Let_def row_canonical_def latest_is_head split: if_splits)
  moreover have "intact lib log'" if "reads_back (au_json lib) (redacted_for_record (ne_data ev) (ne_secrets ev))" "intact lib log"
    using that r by (simp add: intact_def intact_append row_data_def reads_back_def link_holds_def latest_is_head)
  ultimately show ?thesis using that by blast
qed

lemma record_keeps_ok:
  assumes "record_with_ts lib log eid ts ev = Ok log'" "log_ok lib log"
    and "reads_back (au_json lib) (redacted_for_record (ne_data ev) (ne_secrets ev))"
  shows "log_ok lib log'" "intact lib log'"
proof -
  obtain r where r: "log' = log\<lparr>al_rows := al_rows log @ [r]\<rparr>" "intact lib log \<Longrightarrow> intact lib log'"
    by (rule record_appends[OF assms(1)]) (use assms(3) in blast)
  with assms(2) show "intact lib log'" by (simp add: log_ok_def)
  with r(1) assms(2) show "log_ok lib log'" by (simp add: log_ok_def)
qed

lemma record_durable_parts:
  assumes "record_at_durable lib log eid ts ev = Ok log'"
  obtains log1 where "record_with_ts lib log eid ts ev = Ok log1" "log' = log1\<lparr>al_durable := length (al_rows log1)\<rparr>"
  using assms by (cases "record_with_ts lib log eid ts ev") (auto simp: record_at_durable_def)

interpretation chain: invariant_system "\<lambda>log. \<exists>key. log = empty_log key" "log_step lib" "log_ok lib"
  for lib
proof
  fix s
  assume "\<exists>key. s = empty_log key"
  then show "log_ok lib s" by (auto simp: log_ok_def intact_def empty_log_def)
next
  fix s t
  assume "log_ok lib s" "log_step lib s t"
  from this(2,1) show "log_ok lib t"
  proof (induction rule: log_step.induct)
    case (log_append log eid ts ev log')
    then show ?case using record_keeps_ok(1) by blast
  next
    case (log_durable log eid ts ev log')
    obtain log1 where "record_with_ts lib log eid ts ev = Ok log1" "log' = log1\<lparr>al_durable := length (al_rows log1)\<rparr>"
      using record_durable_parts[OF log_durable(1)] .
    then show ?case using record_keeps_ok(2)[of lib log eid ts ev log1] log_durable(2,3)
      by (simp add: log_ok_def intact_def)
  next
    case (log_power_loss log n)
    then show ?case using intact_take by (simp add: log_ok_def intact_def)
  qed
qed

lemma reachable_intact: "(log_step lib)\<^sup>*\<^sup>* (empty_log key) log \<Longrightarrow> intact lib log"
  using chain.inv_reachable[of "empty_log key" lib log] by (auto simp: log_ok_def)

text \<open>
  C14. Every log that is reached from an empty one by appends, durable appends and losses of power
  verifies, and the report counts all its rows: writing never breaks the chain, and a prefix that
  survives a loss of power is itself a chain.
\<close>

theorem recorded_log_verifies:
  assumes "(log_step lib)\<^sup>*\<^sup>* (empty_log key) log"
  shows "\<exists>report. verify lib log = Ok report \<and> ir_verified report \<and> ir_event_count report = length (al_rows log)"
proof -
  have ok: "intact lib log" using assms by (rule reachable_intact)
  then have "\<forall>r \<in> set (al_rows log). row_data (au_json lib) r \<noteq> None" using intact_parses by (auto simp: intact_def)
  from verify_loop_Ok[OF this, of "al_key log" "[]" True 0 "[]"] obtain report where
    "verify lib log = Ok report" "ir_event_count report = length (al_rows log)" by (auto simp: verify_def)
  moreover from this(1) have "ir_verified report" using verify_loop_iff ok by (fastforce simp: verify_def intact_def)
  ultimately show ?thesis by blast
qed

section \<open>Durability\<close>

lemma step_keeps_durable:
  assumes "log_step lib log log'" "al_durable log \<le> length (al_rows log)" "prefix rows (take (al_durable log) (al_rows log))"
  shows "prefix rows (take (al_durable log') (al_rows log')) \<and> al_durable log' \<le> length (al_rows log')"
  using assms
proof (induction rule: log_step.induct)
  case (log_append log eid ts ev log')
  from record_appends[OF log_append(1)] obtain r where "log' = log\<lparr>al_rows := al_rows log @ [r]\<rparr>" by blast
  with log_append(3,4) show ?case by simp
next
  case (log_durable log eid ts ev log')
  obtain log1 where log1: "record_with_ts lib log eid ts ev = Ok log1" "log' = log1\<lparr>al_durable := length (al_rows log1)\<rparr>"
    using record_durable_parts[OF log_durable(1)] .
  from record_appends[OF log1(1)] obtain r where "log1 = log\<lparr>al_rows := al_rows log @ [r]\<rparr>" by blast
  with log1(2) log_durable(3,4) show ?case
    using prefix_order.trans[OF log_durable(4) take_is_prefix] by (simp add: prefix_prefix)
next
  case (log_power_loss log n)
  then have "prefix (take (al_durable log) (al_rows log)) (take n (al_rows log))"
    by (metis min.absorb1 take_is_prefix take_take)
  with log_power_loss show ?case using prefix_order.trans by auto
qed

lemma durable_prefix:
  assumes "record_at_durable lib log eid ts ev = Ok log'" "(log_step lib)\<^sup>*\<^sup>* log' later"
  shows "prefix (al_rows log') (al_rows later)"
proof -
  obtain log1 where log1: "record_with_ts lib log eid ts ev = Ok log1" "log' = log1\<lparr>al_durable := length (al_rows log1)\<rparr>"
    using record_durable_parts[OF assms(1)] .
  from assms(2) have "prefix (al_rows log') (take (al_durable later) (al_rows later)) \<and> al_durable later \<le> length (al_rows later)"
  proof (induction rule: rtranclp_induct)
    case base
    then show ?case using log1(2) by simp
  next
    case (step mid nxt)
    then show ?case using step_keeps_durable by blast
  qed
  then show ?thesis using take_is_prefix prefix_order.trans by blast
qed


section \<open>What the chain covers\<close>

text \<open>
  The content of a row that its hash covers; the inputs the keyed hash is applied to along a chain.
\<close>

definition covered :: "json_lib \<Rightarrow> stored_event \<Rightarrow> json" where
  "covered J r = event_value (se_session r) (se_ts r) (se_type r) (se_severity r) (se_summary r) (the (row_data J r))"

fun chain_inputs :: "json_lib \<Rightarrow> string \<Rightarrow> stored_event list \<Rightarrow> nat list list" where
  "chain_inputs J prev [] = []"
| "chain_inputs J prev (r # rs) =
     (utf8 prev @ utf8 (canonical_json J (covered J r))) # chain_inputs J (se_event_hash r) rs"

lemma chain_inputs_snoc:
  "chain_inputs J prev (rs @ [r]) = chain_inputs J prev rs @ [utf8 (head_hash prev rs) @ utf8 (canonical_json J (covered J r))]"
  by (induction rs arbitrary: prev) auto

lemma intact_last:
  assumes "chain_intact lib key prev (rs @ [r])"
  shows "chain_intact lib key prev rs"
    and "se_event_hash r = hex (au_hmac lib key (utf8 (head_hash prev rs) @ utf8 (canonical_json (au_json lib) (covered (au_json lib) r))))"
    and "(case se_prev_hash r of None \<Rightarrow> [] | Some h \<Rightarrow> h) = head_hash prev rs"
  using assms by (auto simp: intact_append link_holds_def chain_hash_def row_canonical_def canonical_event_def
      covered_def split: option.splits)

lemma intact_head:
  assumes "chain_intact lib key [] rows" "\<forall>x. length (au_hmac lib key x) = 32"
  shows "length (head_hash [] rows) = (if rows = [] then 0 else 64)"
proof (cases rows rule: rev_cases)
  case (snoc rs r)
  then show ?thesis using intact_last(2)[of lib key "[]" rs r] assms by (simp add: length_hex)
qed simp

lemma event_value_inject: "event_value s t y v u d = event_value s' t' y' v' u' d' \<Longrightarrow>
    s = s' \<and> t = t' \<and> y = y' \<and> v = v' \<and> u = u' \<and> d = d'"
  by (auto simp: event_value_def split: option.splits)

lemma canonical_covered: "\<exists>rest. canonical_json J (covered J r) = CHR ''{'' # rest"
  by (simp add: covered_def event_value_def)

lemma head_not_brace:
  assumes "chain_intact lib key [] (rs @ [r])" "\<forall>x. \<forall>b \<in> set (au_hmac lib key x). b < 256"
  shows "CHR ''{'' \<notin> set (se_event_hash r)"
proof -
  have "list_all is_lower_hexdigit (se_event_hash r)"
    using intact_last(2)[OF assms(1)] hex_all_lower assms(2) by metis
  then show ?thesis by (auto simp: list_all_iff is_lower_hexdigit_def is_ascii_digit_def)
qed

lemma chains_with_one_head:
  assumes "chain_intact lib key [] A" "chain_intact lib key [] B" "head_hash [] A = head_hash [] B"
    and bytes: "\<forall>x. length (au_hmac lib key x) = 32 \<and> (\<forall>b \<in> set (au_hmac lib key x). b < 256)"
    and "\<forall>x \<in> set (chain_inputs (au_json lib) [] A). \<forall>y \<in> set (chain_inputs (au_json lib) [] B).
           au_hmac lib key x = au_hmac lib key y \<longrightarrow> x = y"
    and "\<forall>r \<in> set A \<union> set B. json_parse (au_json lib) (canonical_json (au_json lib) (covered (au_json lib) r))
           = Some (covered (au_json lib) r)"
  shows "map (covered (au_json lib)) A = map (covered (au_json lib)) B \<and> map se_event_hash A = map se_event_hash B"
  using assms(1-3,5,6)
proof (induction A arbitrary: B rule: rev_induct)
  case Nil
  then show ?case using intact_head[of lib key B] bytes by (auto split: if_splits)
next
  case (snoc a as)
  let ?J = "au_json lib"
  have "B \<noteq> []" using snoc.prems(1,3) intact_head[of lib key "as @ [a]"] bytes by auto
  then obtain b bs where B: "B = bs @ [b]" by (metis rev_exhaust)
  note la = intact_last[OF snoc.prems(1)] and lb = intact_last[OF snoc.prems(2)[unfolded B]]
  let ?pa = "head_hash [] as" and ?pb = "head_hash [] bs"
  let ?ca = "canonical_json ?J (covered ?J a)" and ?cb = "canonical_json ?J (covered ?J b)"
  have "hex (au_hmac lib key (utf8 ?pa @ utf8 ?ca)) = hex (au_hmac lib key (utf8 ?pb @ utf8 ?cb))"
    using snoc.prems(3) la(2) lb(2) by (simp add: B)
  then have "au_hmac lib key (utf8 ?pa @ utf8 ?ca) = au_hmac lib key (utf8 ?pb @ utf8 ?cb)"
    using hex_inj bytes by blast
  then have "utf8 ?pa @ utf8 ?ca = utf8 ?pb @ utf8 ?cb"
    using snoc.prems(4) by (simp add: B chain_inputs_snoc)
  then have same: "?pa @ ?ca = ?pb @ ?cb" using utf8_inj by (metis utf8_append)
  have len: "length ?pa = (if as = [] then 0 else 64)" "length ?pb = (if bs = [] then 0 else 64)"
    using intact_head[OF la(1)] intact_head[OF lb(1)] bytes by auto
  have brace: "hd (xs @ c) \<noteq> CHR ''{''" if "xs = head_hash [] rs" "rs \<noteq> []" "chain_intact lib key [] rs" for xs rs c
  proof -
    from that(2) obtain r rs' where rs: "rs = rs' @ [r]" by (metis rev_exhaust)
    then have "length xs = 64" "CHR ''{'' \<notin> set xs"
      using that intact_head[OF that(3)] head_not_brace[of lib key rs' r] bytes by auto
    then show ?thesis by (cases xs) auto
  qed
  have ca: "hd ?ca = CHR ''{''" and cb: "hd ?cb = CHR ''{''"
    using canonical_covered[of ?J a] canonical_covered[of ?J b] by auto
  have "as = [] \<longleftrightarrow> bs = []"
  proof
    assume "as = []"
    then have "hd (?pb @ ?cb) = CHR ''{''" using same ca by simp
    then show "bs = []" using brace[OF refl _ lb(1), of ?cb] by blast
  next
    assume "bs = []"
    then have "hd (?pa @ ?ca) = CHR ''{''" using same cb by simp
    then show "as = []" using brace[OF refl _ la(1), of ?ca] by blast
  qed
  then have split: "?pa = ?pb" "?ca = ?cb" using same len by auto
  have "covered ?J a = covered ?J b" using snoc.prems(5) split(2) by (metis B Un_iff in_set_conv_decomp option.inject)
  moreover have "map (covered ?J) as = map (covered ?J) bs \<and> map se_event_hash as = map se_event_hash bs"
    using snoc.IH[OF la(1) lb(1) split(1)] snoc.prems(4,5) by (simp add: B chain_inputs_snoc)
  ultimately show ?case using snoc.prems(3) by (simp add: B)
qed

text \<open>
  C16. The hash of the last row identifies the whole history: two logs under one key that both verify
  and end in the same hash have the same number of rows, with the same session, time, type, severity,
  summary and data in each. So no row can be altered, inserted, dropped before the end or moved while
  the head stays the same, unless two of the hashed texts collide. The event identifier and the row
  number are not covered. HMAC-SHA256 gives 32 bytes, and the canonical text of a row's content reads
  back as that content.
\<close>

theorem chain_identifies_history:
  assumes "intact lib log" "intact lib log'" "al_key log = al_key log'" "al_rows log \<noteq> []"
    and "latest_hash (al_rows log) = latest_hash (al_rows log')"
    and "\<forall>x. length (au_hmac lib (al_key log) x) = 32 \<and> (\<forall>b \<in> set (au_hmac lib (al_key log) x). b < 256)"
    and "\<forall>x \<in> set (chain_inputs (au_json lib) [] (al_rows log)).
         \<forall>y \<in> set (chain_inputs (au_json lib) [] (al_rows log')).
           au_hmac lib (al_key log) x = au_hmac lib (al_key log) y \<longrightarrow> x = y"
    and "\<forall>r \<in> set (al_rows log) \<union> set (al_rows log').
           json_parse (au_json lib) (canonical_json (au_json lib) (covered (au_json lib) r)) = Some (covered (au_json lib) r)"
  shows "map (covered (au_json lib)) (al_rows log) = map (covered (au_json lib)) (al_rows log') \<and>
         map se_event_hash (al_rows log) = map se_event_hash (al_rows log')"
proof -
  have "head_hash [] (al_rows log) = head_hash [] (al_rows log')"
    using assms(5) latest_is_head by metis
  then show ?thesis using chains_with_one_head assms by (simp add: intact_def)
qed

section \<open>What the readers return\<close>

definition names_grant :: "json_lib \<Rightarrow> string \<Rightarrow> stored_event \<Rightarrow> bool" where
  "names_grant J g r \<longleftrightarrow> is_terminal r \<and> Option.bind (row_data J r) (\<lambda>d. jstr d ''grant_id'') = Some g"

text \<open>The last terminal row of a grant, in a log that verifies; none in one that does not.\<close>

definition last_terminal :: "audit_lib \<Rightarrow> audit_log \<Rightarrow> string \<Rightarrow> stored_event option" where
  "last_terminal lib log g = (if intact lib log then find (names_grant (au_json lib) g) (rev (al_rows log)) else None)"

lemma find_snoc: "find P (xs @ [x]) = (case find P xs of Some y \<Rightarrow> Some y | None \<Rightarrow> if P x then Some x else None)"
  by (induction xs) auto

lemma fold_last:
  assumes "\<forall>r \<in> set rows. row_data J r \<noteq> None"
    and "\<And>r d acc. row_data J r = Some d \<Longrightarrow> view (step r d acc) = (if names_grant J g r then Some (h r d) else view acc)"
  shows "view (fold_rows J step rows acc) =
    (case find (names_grant J g) (rev rows) of Some r \<Rightarrow> Some (h r (the (row_data J r))) | None \<Rightarrow> view acc)"
  using assms(1)
proof (induction rows arbitrary: acc)
  case (Cons r rows)
  then obtain d where d: "row_data J r = Some d" by auto
  have "view (fold_rows J step (r # rows) acc) = view (fold_rows J step rows (step r d acc))"
    by (simp add: fold_rows_def d)
  also have "\<dots> = (case find (names_grant J g) (rev rows) of Some r \<Rightarrow> Some (h r (the (row_data J r)))
      | None \<Rightarrow> view (step r d acc))" using Cons by simp
  finally show ?case using assms(2)[OF d] d by (simp add: find_snoc split: option.splits)
qed (simp add: fold_rows_def)

lemma names_grant_parsed: "row_data J r = Some d \<Longrightarrow> names_grant J g r \<longleftrightarrow> is_terminal r \<and> jstr d ''grant_id'' = Some g"
  by (simp add: names_grant_def)

lemma intact_all_parse: "intact lib log \<Longrightarrow> \<forall>r \<in> set (al_rows log). row_data (au_json lib) r \<noteq> None"
  using intact_parses by (auto simp: intact_def)

lemma terminal_readers:
  assumes "intact lib log"
  shows "terminal_outcome lib log g = map_option (\<lambda>r. let d = the (row_data (au_json lib) r) in
      \<lparr>to_ok = (se_type r = ''provider_action_succeeded''), to_artifact = jstr d ''artifact'', to_result = jget d ''result''\<rparr>)
      (last_terminal lib log g)"
    and "terminal_receipt lib log g = Option.bind (last_terminal lib log g) (row_data (au_json lib))"
    and "fold_rows (au_json lib) outcomes_step (al_rows log) (\<lambda>_. None) g =
      map_option (\<lambda>r. se_type r = ''provider_action_succeeded'') (last_terminal lib log g)"
proof -
  note parse = intact_all_parse[OF assms] and scan = scan_intact[OF assms]
  have found: "find (names_grant J g) rows = Some r \<Longrightarrow> r \<in> set rows" for J rows r
    by (auto simp: find_Some_iff)
  show "terminal_outcome lib log g = map_option (\<lambda>r. let d = the (row_data (au_json lib) r) in
      \<lparr>to_ok = (se_type r = ''provider_action_succeeded''), to_artifact = jstr d ''artifact'', to_result = jget d ''result''\<rparr>)
      (last_terminal lib log g)"
    using fold_last[OF parse, where view = "\<lambda>x. x" and step = "terminal_step g" and g = g and acc = None]
    by (simp add: terminal_outcome_def scan terminal_step_def names_grant_parsed last_terminal_def assms Let_def
        split: option.splits)
  show "fold_rows (au_json lib) outcomes_step (al_rows log) (\<lambda>_. None) g =
      map_option (\<lambda>r. se_type r = ''provider_action_succeeded'') (last_terminal lib log g)"
    using fold_last[OF parse, where view = "\<lambda>out. out g" and step = outcomes_step and g = g and acc = "\<lambda>_. None"
        and h = "\<lambda>r d. se_type r = ''provider_action_succeeded''"]
    by (simp add: outcomes_step_def names_grant_parsed last_terminal_def assms split: option.splits)
  have "terminal_receipt lib log g = (case last_terminal lib log g of None \<Rightarrow> None | Some r \<Rightarrow> Some (the (row_data (au_json lib) r)))"
    using fold_last[OF parse, where view = "\<lambda>x. x" and step = "receipt_step g" and g = g and acc = None and h = "\<lambda>r d. d"]
    by (simp add: terminal_receipt_def scan receipt_step_def names_grant_parsed last_terminal_def assms
        split: option.splits)
  then show "terminal_receipt lib log g = Option.bind (last_terminal lib log g) (row_data (au_json lib))"
    using parse found[of "au_json lib" "rev (al_rows log)"] by (auto simp: last_terminal_def split: option.splits)
qed

text \<open>
  C22. Four readers, one truth. In a log that verifies, the outcome, the receipt, the map of outcomes and
  the snapshot of a report all speak of the last terminal row of the grant, and the outcome is ok
  exactly when that row is a success; in a log with any fault anywhere, before or after that row, none
  of them reports anything and the snapshot is marked unverified.
\<close>

theorem terminal_readers_agree:
  "(terminal_outcome lib log g \<noteq> None \<longleftrightarrow> last_terminal lib log g \<noteq> None) \<and>
   map_option to_ok (terminal_outcome lib log g) =
     map_option (\<lambda>r. se_type r = ''provider_action_succeeded'') (last_terminal lib log g) \<and>
   terminal_receipt lib log g = Option.bind (last_terminal lib log g) (row_data (au_json lib)) \<and>
   vs_outcomes (verified_snapshot lib log) g = map_option to_ok (terminal_outcome lib log g) \<and>
   vs_verified (verified_snapshot lib log) = intact lib log \<and>
   verified_snapshot lib log = (case verified_terminal_outcomes lib log of
      None \<Rightarrow> unverified | Some out \<Rightarrow> \<lparr>vs_verified = True, vs_outcomes = out\<rparr>)"
proof -
  have all: "(terminal_outcome lib log g \<noteq> None \<longleftrightarrow> last_terminal lib log g \<noteq> None) \<and>
    map_option to_ok (terminal_outcome lib log g) =
      map_option (\<lambda>r. se_type r = ''provider_action_succeeded'') (last_terminal lib log g) \<and>
    terminal_receipt lib log g = Option.bind (last_terminal lib log g) (row_data (au_json lib)) \<and>
    vs_outcomes (verified_snapshot lib log) g = map_option to_ok (terminal_outcome lib log g) \<and>
    vs_verified (verified_snapshot lib log) = intact lib log"
  proof (cases "intact lib log")
    case True
    note r = terminal_readers[OF True, of g]
    have "vs_outcomes (verified_snapshot lib log) g = map_option (\<lambda>r. se_type r = ''provider_action_succeeded'') (last_terminal lib log g)"
      using r(3) by (simp add: verified_snapshot_def scan_intact[OF True])
    then show ?thesis using r(1,2) True
      by (simp add: option.map_comp o_def Let_def verified_snapshot_def scan_intact[OF True])
  next
    case False
    then have "last_terminal lib log g = None" by (simp add: last_terminal_def)
    moreover have "terminal_outcome lib log g = None" "terminal_receipt lib log g = None" "verified_snapshot lib log = unverified"
      using scan_broken[OF False, of "terminal_step g" None] scan_broken[OF False, of "receipt_step g" None]
        scan_broken[OF False, of outcomes_step "\<lambda>_. None"]
      by (auto simp: terminal_outcome_def terminal_receipt_def verified_snapshot_def)
    ultimately show ?thesis using False by (simp add: unverified_def)
  qed
  moreover have "verified_snapshot lib log = (case verified_terminal_outcomes lib log of
      None \<Rightarrow> unverified | Some out \<Rightarrow> \<lparr>vs_verified = True, vs_outcomes = out\<rparr>)"
    by (simp add: verified_snapshot_def verified_terminal_outcomes_def split: sum.splits)
  ultimately show ?thesis by blast
qed

lemma snapshot_complete:
  "vs_verified (verified_snapshot lib log) \<and> g \<in> dom (vs_outcomes (verified_snapshot lib log)) \<longleftrightarrow>
     intact lib log \<and> list_ex (names_grant (au_json lib) g) (al_rows log)"
proof (cases "intact lib log")
  case True
  then have "vs_outcomes (verified_snapshot lib log) g =
      map_option (\<lambda>r. se_type r = ''provider_action_succeeded'') (find (names_grant (au_json lib) g) (rev (al_rows log)))"
    using terminal_readers(3)[OF True, of g] by (simp add: verified_snapshot_def scan_intact last_terminal_def)
  then show ?thesis using True
    by (auto simp: verified_snapshot_def scan_intact domIff find_None_iff list_ex_iff)
next
  case False
  then show ?thesis using scan_broken[OF False, of outcomes_step "\<lambda>_. None"]
    by (auto simp: verified_snapshot_def unverified_def)
qed

lemma fold_collect:
  "fold_rows J (\<lambda>r d acc. if P r d then acc @ [f r d] else acc) rows acc =
     acc @ map (\<lambda>r. f r (the (row_data J r))) (filter (\<lambda>r. P r (the (row_data J r))) rows)"
  by (induction rows arbitrary: acc) (simp_all add: fold_rows_def)

text \<open>The answer of a reader that lists evidence: the rows that qualify, or the fault of the chain.\<close>

definition lists_evidence :: "audit_lib \<Rightarrow> audit_log \<Rightarrow> (stored_event \<Rightarrow> json \<Rightarrow> bool) \<Rightarrow> (stored_event \<Rightarrow> json \<Rightarrow> 'a)
    \<Rightarrow> audit_error + 'a list \<Rightarrow> bool" where
  "lists_evidence lib log P f answer \<longleftrightarrow>
     (if intact lib log
      then answer = Ok (map (\<lambda>r. f r (the (row_data (au_json lib) r)))
                          (filter (\<lambda>r. P r (the (row_data (au_json lib) r))) (al_rows log)))
      else answer \<in> {Err MalformedData, Err ChainBroken})"

lemma scan_lists_evidence:
  "lists_evidence lib log P f (scan_log lib log (\<lambda>r d acc. if P r d then acc @ [f r d] else acc) [])"
  using scan_broken[of lib log "\<lambda>r d acc. if P r d then acc @ [f r d] else acc" "[]"]
  by (auto simp: lists_evidence_def scan_intact fold_collect)

lemma scan_not_ok: "\<not> intact lib log \<Longrightarrow> \<not> is_ok (scan_log lib log step acc)"
  by (drule scan_broken[of lib log step acc]) auto

lemma bind_not_ok: "\<not> is_ok r \<Longrightarrow> \<not> is_ok (res_bind r f)"
  by (cases r) (simp_all add: is_ok_def res_bind_def)

lemma single_readers_fail_closed:
  assumes "\<not> intact lib log"
  shows "\<not> is_ok (verified_terminal_event lib log g)" "\<not> is_ok (provider_action_event_exists lib log g)"
    "\<not> is_ok (lease_abandoned_event_exists lib log g q dg lo ld)"
  unfolding verified_terminal_event_def provider_action_event_exists_def lease_abandoned_event_exists_def
    verified_grant_events_def
  by (intro bind_not_ok scan_not_ok assms)+

text \<open>
  C23. A reader that an integrity decision rests on never turns a broken chain into absence. Over a log
  that verifies, the events of a grant, the execution events, the events a money retry must account
  for and the relay events are exactly the rows that qualify, in order; over any other log each of
  them is an error.
\<close>

theorem evidence_readers_exact:
  "lists_evidence lib log (\<lambda>r d. se_type r \<in> set tys \<and> jstr d ''grant_id'' = Some g) (\<lambda>r d. (se_type r, d))
     (verified_grant_events lib log g tys) \<and>
   lists_evidence lib log (\<lambda>r d. effect_rows r \<and> (jstr d ''grant_id'' = Some g \<or> jstr d ''request_id'' = Some q))
     (\<lambda>r d. (se_type r, d)) (verified_execution_events lib log g q) \<and>
   lists_evidence lib log (\<lambda>r d. effect_rows r \<and> (jstr d ''grant_id'' = Some g \<or> jstr d ''request_id'' = Some q \<or>
       jstr d ''effect_id'' = Some e))
     (\<lambda>r d. \<lparr>mr_rowid = se_rowid r, mr_session = se_session r, mr_type = se_type r, mr_data = d\<rparr>)
     (verified_money_retry_events lib log g q e) \<and>
   lists_evidence lib log (\<lambda>r d. se_type r \<in> set relay_event_types \<and> (og = None \<or> jstr d ''grant_id'' = og))
     (\<lambda>r d. \<lparr>ra_at = se_ts r, ra_type = se_type r, ra_data = d\<rparr>) (verified_relay_events lib log og)"
proof -
  have relay: "verified_relay_events lib log og = scan_log lib log (\<lambda>r d acc.
      if se_type r \<in> set relay_event_types \<and> (og = None \<or> jstr d ''grant_id'' = og)
      then acc @ [\<lparr>ra_at = se_ts r, ra_type = se_type r, ra_data = d\<rparr>] else acc) []"
    unfolding verified_relay_events_def by (rule arg_cong[where f = "\<lambda>st. scan_log lib log st []"]) (auto simp: fun_eq_iff)
  show ?thesis unfolding relay verified_grant_events_def verified_execution_events_def verified_money_retry_events_def
    by (intro conjI scan_lists_evidence)
qed

section \<open>Witnesses\<close>

definition note_print :: "json \<Rightarrow> string" where
  "note_print v = (case v of JString s \<Rightarrow> [dquote] @ s @ [dquote] | JNull \<Rightarrow> ''null'' | JObject [] \<Rightarrow> ''{}'' | _ \<Rightarrow> ''0'')"

definition note_value :: json where
  "note_value = event_value None ''noon'' ''note'' ''info'' ''hello'' (JObject [])"

definition note_json :: json_lib where
  "note_json = \<lparr>json_parse = (\<lambda>t. if t = ''{}'' then Some (JObject [])
       else if t = canonical_json \<lparr>json_parse = (\<lambda>t. None), json_print = note_print\<rparr> note_value then Some note_value else None),
     json_print = note_print\<rparr>"

definition note_lib :: audit_lib where
  "note_lib = \<lparr>au_json = note_json, au_hmac = (\<lambda>key x. replicate 32 (length x mod 256))\<rparr>"

definition note_event :: new_event where
  "note_event = \<lparr>ne_session = None, ne_type = ''note'', ne_severity = ''info'', ne_summary = ''hello'',
                 ne_data = JObject [], ne_secrets = []\<rparr>"

definition note_row :: "string \<Rightarrow> stored_event" where
  "note_row eid = \<lparr>se_rowid = 1, se_id = eid, se_session = None, se_ts = ''noon'', se_type = ''note'',
     se_severity = ''info'', se_summary = ''hello'', se_data_json = ''{}'', se_prev_hash = None,
     se_event_hash = chain_hash note_lib [7] [] (canonical_json note_json note_value)\<rparr>"

definition note_log :: "string \<Rightarrow> audit_log" where
  "note_log eid = \<lparr>al_rows = [note_row eid], al_key = [7], al_durable = 1\<rparr>"

lemma note_recorded: "record_at_durable note_lib (empty_log [7]) eid ''noon'' note_event = Ok (note_log eid)"
  by (simp add: record_at_durable_def record_with_ts_def empty_log_def note_log_def note_row_def note_event_def
      note_value_def Let_def latest_hash_def next_rowid_def redacted_for_record_def redact_summary_def redacted_def
      redact_value_def redact_str_def canonical_event_def note_lib_def note_json_def note_print_def)

lemma note_step: "log_step note_lib (empty_log [7]) (note_log eid)"
  using note_recorded by (rule log_durable) code_simp

lemma note_intact: "intact note_lib (note_log eid)"
  using reachable_intact[of note_lib "[7]" "note_log eid"] note_step by blast

theorem recorded_log_verifies_witness:
  "\<exists>report. verify note_lib (note_log ''evt_1'') = Ok report \<and> ir_verified report \<and> ir_event_count report = 1"
  using recorded_log_verifies[of note_lib "[7]" "note_log ''evt_1''"] note_step by (auto simp: note_log_def)


theorem chain_identifies_history_witness:
  "map (covered note_json) (al_rows (note_log ''evt_1'')) = map (covered note_json) (al_rows (note_log ''evt_2'')) \<and>
   map se_event_hash (al_rows (note_log ''evt_1'')) = map se_event_hash (al_rows (note_log ''evt_2''))"
proof -
  have J: "au_json note_lib = note_json" by (simp add: note_lib_def)
  have cov: "covered note_json (note_row eid) = note_value" for eid
    by (simp add: covered_def row_data_def note_row_def note_json_def note_value_def)
  have parse: "json_parse note_json (canonical_json note_json note_value) = Some note_value" by code_simp
  have hash: "se_event_hash (note_row eid) = se_event_hash (note_row eid')" for eid eid'
    by (simp add: note_row_def)
  have hmac: "\<forall>x. length (au_hmac note_lib [7] x) = 32 \<and> (\<forall>b \<in> set (au_hmac note_lib [7] x). b < 256)"
    by (simp add: note_lib_def)
  show ?thesis
    using chain_identifies_history[OF note_intact[of "''evt_1''"] note_intact[of "''evt_2''"], unfolded J]
      hmac parse hash[of "''evt_1''" "''evt_2''"] by (simp add: note_log_def latest_hash_def cov)
qed

end
