(* ===== verification/Ledger_Storage.thy ===== *)
theory Ledger_Storage
  imports Budget_Gate Audit_Log
begin

text \<open>
  The ledger of the budget gate as it is stored: \<open>Budget_Gate\<close> reads rows with their JSON value,
  \<open>Audit_Log\<close> keeps rows with their text, chained and possibly lost before they are durable. The gate's
  view of a stored log is \<open>ledger_view\<close>; \<open>store_budget_mint\<close> is the whole append of
  \<^verbatim>\<open>record_budget_mint\<close> (\<^verbatim>\<open>crates/cermet-core/src/broker/budget.rs\<close>), with the redaction, the hash and
  the sync of \<^verbatim>\<open>record_at_durable\<close>.
\<close>

section \<open>The view and the append\<close>

text \<open>
  A row whose text does not parse has no aggregate identifier in the view either, so a budget row of
  that kind is a hard error of the reader, as in the source.
\<close>

definition view_row :: "json_lib \<Rightarrow> stored_event \<Rightarrow> audit_row" where
  "view_row J r = \<lparr>ar_rowid = se_rowid r, ar_id = se_id r, ar_session = se_session r, ar_type = se_type r,
     ar_data = (case row_data J r of None \<Rightarrow> JNull | Some d \<Rightarrow> d)\<rparr>"

definition ledger_view :: "json_lib \<Rightarrow> audit_log \<Rightarrow> audit_row list" where
  "ledger_view J log = map (view_row J) (al_rows log)"

definition mint_summary :: "admit_ticket \<Rightarrow> string" where
  "mint_summary t = (let p = at_proof t in
     meter_str (at_kind t) @ '' debit '' @ int_str (wp_debit p) @ '' admitted ('' @ int_str (wp_projected p) @
     ''/'' @ int_str (at_limit t) @ '' in '' @ window_str (at_window t) @ '' window)'')"

definition mint_event :: "string \<Rightarrow> string \<Rightarrow> string \<Rightarrow> admit_ticket \<Rightarrow> string list \<Rightarrow> new_event" where
  "mint_event session grant_id request_id t secrets =
     \<lparr>ne_session = Some session, ne_type = ''budget_mint'', ne_severity = ''info'',
      ne_summary = mint_summary t, ne_data = mint_data t grant_id request_id, ne_secrets = secrets\<rparr>"

definition store_budget_mint :: "audit_lib \<Rightarrow> audit_log \<Rightarrow> (int \<Rightarrow> string) \<Rightarrow> string \<Rightarrow> string \<Rightarrow> string \<Rightarrow> string
    \<Rightarrow> admit_ticket \<Rightarrow> string list \<Rightarrow> audit_error + audit_log" where
  "store_budget_mint lib log rfc3339 event_id session grant_id request_id t secrets =
     record_at_durable lib log event_id (rfc3339 (at_decision_at_epoch t))
       (mint_event session grant_id request_id t secrets)"

section \<open>What redaction leaves alone\<close>

lemma redact_str_untouched: "\<forall>s \<in> set secrets. s \<noteq> [] \<longrightarrow> \<not> sublist s t \<Longrightarrow> redact_str t secrets = t"
  unfolding redact_str_def by (induction secrets) (auto simp: replace_all_id)

lemma fold_insert_map_of:
  "bt_wf m \<Longrightarrow> distinct (map fst es) \<Longrightarrow> map_of (fold (\<lambda>(k, v) m. bt_insert k v m) es m) = map_of m ++ map_of es"
proof (induction es arbitrary: m)
  case (Cons e es)
  then have "map_of es (fst e) = None" by (simp add: map_of_eq_None_iff)
  with Cons show ?case by (cases e) (auto simp: fun_eq_iff map_add_def split: option.splits)
qed simp

text \<open>An object of plain fields that mentions no secret keeps each of its fields.\<close>

fun flat :: "json \<Rightarrow> bool" where
  "flat (JArray items) = False"
| "flat (JObject es) = False"
| "flat v = True"

lemma redact_flat: "flat v \<Longrightarrow> \<forall>s \<in> set secrets. s \<noteq> [] \<longrightarrow> \<not> mentions s v \<Longrightarrow> redact_value_refs v secrets = v"
  by (cases v) (auto simp: redact_str_untouched)

lemma redacted_fields:
  assumes "distinct (map fst es)" "\<forall>(k, v) \<in> set es. flat v"
    and "\<forall>s \<in> set secrets. s \<noteq> [] \<longrightarrow> \<not> mentions s (JObject es)"
  shows "jget (redacted_for_record (JObject es) secrets) k = map_of es k"
proof -
  have same: "map (\<lambda>(key, child). (key, redact_value_refs child secrets)) es = es"
    using assms(2,3) by (intro map_idI) (fastforce simp: list_ex_iff intro: redact_flat)
  have keys: "redact_str key secrets = key" if "(key, child) \<in> set es" for key child
    using assms(3) that by (intro redact_str_untouched) (auto simp: list_ex_iff)
  have "fold (\<lambda>(key, child) m. bt_insert (redact_str key secrets) child m) es [] = fold (\<lambda>(k, v) m. bt_insert k v m) es []"
    using keys by (intro fold_cong) auto
  then show ?thesis
    using same fold_insert_map_of[of "[]" es] assms(1)
    by (simp add: redacted_for_record_def redacted_def redact_value_def jget_def bt_wf_def)
qed

section \<open>The stored mint\<close>

lemma row_events_cong:
  assumes "ar_rowid r = ar_rowid r'" "ar_id r = ar_id r'" "ar_type r = ar_type r'" "\<And>k. jget (ar_data r) k = jget (ar_data r') k"
  shows "event_of_row r = event_of_row r'" "row_ok r = row_ok r'" "is_budget_row r = is_budget_row r'"
    "jstr (ar_data r) k = jstr (ar_data r') k"
  using assms by (simp_all add: event_of_row_def row_ok_def is_budget_row_def jstr_def ji64_def Let_def)

lemma load_evidence_cong:
  assumes "ar_rowid r = ar_rowid r'" "ar_id r = ar_id r'" "ar_type r = ar_type r'" "\<And>k. jget (ar_data r) k = jget (ar_data r') k"
  shows "load_evidence (log @ [r]) agg = Ok e \<longleftrightarrow> load_evidence (log @ [r']) agg = Ok e"
proof -
  note same = row_events_cong[OF assms]
  have step: "events_of_rows (rs @ [r]) = events_of_rows (rs @ [r'])" for rs
    by (induction rs) (simp_all add: same(1))
  have "events_of_rows (rows_for agg (log @ [r])) = events_of_rows (rows_for agg (log @ [r']))"
    using step[of "rows_for agg log"] by (simp add: rows_for_def same)
  then show ?thesis
    by (cases e) (simp add: load_evidence_iff max_rowid_append assms(1) same)
qed

definition mint_safe :: "audit_lib \<Rightarrow> string list \<Rightarrow> json \<Rightarrow> bool" where
  "mint_safe lib secrets d \<longleftrightarrow> (\<forall>s \<in> set secrets. s \<noteq> [] \<longrightarrow> \<not> mentions s d) \<and>
     reads_back (au_json lib) (redacted_for_record d secrets)"

lemma mint_fields:
  assumes "\<forall>s \<in> set secrets. s \<noteq> [] \<longrightarrow> \<not> mentions s (mint_data t g q)"
  shows "jget (redacted_for_record (mint_data t g q) secrets) k = jget (mint_data t g q) k"
  using assms redacted_fields[of "case mint_data t g q of JObject es \<Rightarrow> es" secrets k]
  by (simp add: mint_data_def Let_def jget_def split: option.splits)

lemma store_appends:
  assumes "store_budget_mint lib log rfc eid session g q t secrets = Ok log'" "mint_safe lib secrets (mint_data t g q)"
  obtains r where "al_rows log' = al_rows log @ [r]" "se_rowid r = next_rowid (al_rows log)" "se_id r = eid"
    "se_type r = ''budget_mint''" "row_data (au_json lib) r = Some (redacted_for_record (mint_data t g q) secrets)"
    "\<forall>x \<in> set (al_rows log). se_id x \<noteq> eid"
  using assms
  by (auto simp: store_budget_mint_def record_at_durable_def record_with_ts_def Let_def mint_event_def mint_safe_def
      row_data_def reads_back_def list_ex_iff split: if_splits)

lemma next_rowid_view: "next_rowid (al_rows log) = max_rowid (ledger_view J log) + 1"
  by (simp add: next_rowid_def max_rowid_def ledger_view_def view_row_def comp_def)

lemma store_is_mint:
  assumes "store_budget_mint lib log rfc eid session g q t secrets = Ok log'" "mint_safe lib secrets (mint_data t g q)"
  shows "load_evidence (ledger_view (au_json lib) log') agg = Ok e \<longleftrightarrow>
         load_evidence (record_budget_mint (ledger_view (au_json lib) log) eid session t g q) agg = Ok e"
proof -
  let ?J = "au_json lib"
  obtain r where r: "al_rows log' = al_rows log @ [r]" "se_rowid r = next_rowid (al_rows log)" "se_id r = eid"
    "se_type r = ''budget_mint''" "row_data ?J r = Some (redacted_for_record (mint_data t g q) secrets)"
    by (rule store_appends[OF assms])
  then have "ledger_view ?J log' = ledger_view ?J log @ [view_row ?J r]" by (simp add: ledger_view_def)
  moreover have "jget (ar_data (view_row ?J r)) k = jget (mint_data t g q) k" for k
    using mint_fields assms(2) r(5) by (simp add: view_row_def mint_safe_def)
  ultimately show ?thesis
    using r(2-4) by (simp add: record_budget_mint_def)
      (rule load_evidence_cong; simp add: view_row_def next_rowid_view[of log ?J])
qed

lemma view_ids: "r \<in> set (ledger_view J log) \<Longrightarrow> \<exists>x \<in> set (al_rows log). se_id x = ar_id r"
  by (auto simp: ledger_view_def view_row_def)

lemma stored_mint_kept:
  assumes "store_budget_mint lib log rfc eid session g q t secrets = Ok log'" "mint_safe lib secrets (mint_data t g q)"
    and "ticket_sound t" "ticket_in_range t" "(log_step lib)\<^sup>*\<^sup>* log' later"
    and "load_evidence (ledger_view (au_json lib) later) (at_aggregate_id t) = Ok (evs, n)"
  shows "\<exists>e \<in> set evs. le_event_id e = eid \<and> le_kind e = LMint g (wp_debit (at_proof t)) (at_resolution_digest t)
    (at_decision_at_epoch t) (grant_expiry_epoch t)"
proof -
  let ?J = "au_json lib"
  obtain r where r: "al_rows log' = al_rows log @ [r]" "se_id r = eid" "se_type r = ''budget_mint''"
    "row_data ?J r = Some (redacted_for_record (mint_data t g q) secrets)"
    by (rule store_appends[OF assms(1,2)])
  let ?v = "view_row ?J r"
  have budget: "is_budget_row ?v" using r(3) by (simp add: is_budget_row_def view_row_def)
  have "r \<in> set (al_rows later)"
    using durable_prefix[OF assms(1)[unfolded store_budget_mint_def] assms(5)] r(1) set_mono_prefix by fastforce
  moreover have fields: "jget (ar_data ?v) k = jget (mint_data t g q) k" for k
    using mint_fields assms(2) r(4) by (simp add: view_row_def mint_safe_def)
  then have "jstr (ar_data ?v) ''aggregate_id'' = Some (at_aggregate_id t)"
    by (simp add: jstr_def) (simp add: mint_data_def Let_def jget_def)
  ultimately have "?v \<in> set (rows_for (at_aggregate_id t) (ledger_view ?J later))"
    using budget by (simp add: rows_for_def ledger_view_def)
  moreover define e where "e = \<lparr>le_event_id = eid, le_rowid = se_rowid r,
      le_kind = LMint g (wp_debit (at_proof t)) (at_resolution_digest t) (at_decision_at_epoch t) (grant_expiry_epoch t)\<rparr>"
  moreover have "event_of_row ?v = Ok (Some e)"
    using row_events_cong(1)[of ?v "?v\<lparr>ar_data := mint_data t g q\<rparr>"] fields
      mint_row_event[OF assms(3,4), of "?v\<lparr>ar_data := mint_data t g q\<rparr>" g q] r(2,3)
    by (simp add: view_row_def e_def)
  moreover have "events_of_rows (rows_for (at_aggregate_id t) (ledger_view ?J later)) = Ok evs"
    using assms(6) by (simp add: load_evidence_iff)
  ultimately have "e \<in> set evs" using events_of_rows_mem by blast
  then show ?thesis by (rule bexI[rotated]) (simp add: e_def)
qed

end
