(* ===== verification/Quiesce_Barrier.thy ===== *)
theory Quiesce_Barrier
  imports Cermet_Sets Audit_Log
begin

text \<open>
  The maintenance barrier, \<^verbatim>\<open>crates/cermet-core/src/broker/quiesce.rs\<close>, and its durable record,
  \<^verbatim>\<open>crates/cermet-daemon/src/quiesce_store.rs\<close>. While a barrier holds no new claim is admitted;
  it ends by its token or by its time limit, and a restart reinstates it.

  The store trait is the record \<open>quiesce_store_t\<close> of functions on a store state. What the barrier
  needs of it - a write that succeeded survives a crash, and so does a removal that was synced - is
  the locale \<open>durable_store\<close>, and the barrier's lemmas are proved there once. The file store is its
  interpretation: a directory entry with the contents a crash may leave, and the answers the kernel
  will give to the next calls (\<open>dk_script\<close>), so that every failure of a call is a state to start from.

  The JSON text of the record is written and read by the \<^verbatim>\<open>serde_json\<close> package (\<open>record_codec\<close>), the
  random token is an argument, and the clock is the argument \<open>now\<close>, one value for each operation.
\<close>

section \<open>The record and its store\<close>

record persisted_barrier =
  pb_token_hash :: "nat list"
  pb_expires_at :: int

datatype store_error =
    OpenTemp | RenameFailed | SyncFailed | UnlinkFailed | NotRegular | WritableByOthers | TooLarge
  | Unreadable | MalformedRecord | UnsupportedRecordVersion nat | HashNotHex

record 'd quiesce_store_t =
  qs_write :: "persisted_barrier \<Rightarrow> 'd \<Rightarrow> 'd \<times> (store_error + unit)"
  qs_load :: "'d \<Rightarrow> store_error + persisted_barrier option"
  qs_unlink :: "'d \<Rightarrow> 'd \<times> (store_error + unit)"
  qs_fsync_parent :: "'d \<Rightarrow> 'd \<times> (store_error + unit)"

section \<open>The barrier in the broker\<close>

definition MIN_BARRIER_TTL_SECS :: int where "MIN_BARRIER_TTL_SECS = 5"
definition MAX_BARRIER_TTL_SECS :: int where "MAX_BARRIER_TTL_SECS = 30 * 60"

record 'd quiesce_state =
  qb_barrier :: "persisted_barrier option"
  qb_poisoned :: bool
  qb_store :: "'d option"
  qb_instance_id :: string

datatype quiesce_error =
    Poisoned
  | TemporaryQuiesce
  | AlreadyActive
  | NoActiveBarrier
  | BarrierExpired
  | TokenMismatch
  | ReleaseFailedAtUnlink store_error
  | ReleaseUnlinkDoubleFault store_error store_error
  | ReleaseFailedAtSync store_error
  | ReleaseSyncDoubleFault store_error store_error
  | StoreFault store_error
  | RowsUnreadable

definition sha256_token :: "sha_fun \<Rightarrow> string \<Rightarrow> nat list" where
  "sha256_token sha token = sha (utf8 token)"

definition mint_token :: "nat list \<Rightarrow> string" where
  "mint_token random_bytes = hex random_bytes"

definition quiesce_poison_check :: "'d quiesce_state \<Rightarrow> quiesce_error + unit" where
  "quiesce_poison_check st = (if qb_poisoned st then Err Poisoned else Ok ())"

text \<open>The ordered release: unlink, sync the directory, clear the barrier; a fault reforges the record.\<close>

definition release_barrier_durably :: "'d quiesce_store_t \<Rightarrow> 'd quiesce_state
    \<Rightarrow> 'd quiesce_state \<times> (quiesce_error + unit)" where
  "release_barrier_durably S st = (case qb_barrier st of
      None \<Rightarrow> (st, Ok ())
    | Some r \<Rightarrow>
        (case qb_store st of
           None \<Rightarrow> (st\<lparr>qb_barrier := None\<rparr>, Ok ())
         | Some d \<Rightarrow>
             (case qs_unlink S d of
                (d1, Inl unlink_err) \<Rightarrow>
                  (case qs_write S r d1 of
                     (d2, Inl write_err) \<Rightarrow>
                       (st\<lparr>qb_store := Some d2, qb_poisoned := True\<rparr>,
                        Err (ReleaseUnlinkDoubleFault unlink_err write_err))
                   | (d2, Inr _) \<Rightarrow> (st\<lparr>qb_store := Some d2\<rparr>, Err (ReleaseFailedAtUnlink unlink_err)))
              | (d1, Inr _) \<Rightarrow>
                  (case qs_fsync_parent S d1 of
                     (d2, Inl fsync_err) \<Rightarrow>
                       (case qs_write S r d2 of
                          (d3, Inl write_err) \<Rightarrow>
                            (st\<lparr>qb_store := Some d3, qb_poisoned := True\<rparr>,
                             Err (ReleaseSyncDoubleFault fsync_err write_err))
                        | (d3, Inr _) \<Rightarrow> (st\<lparr>qb_store := Some d3\<rparr>, Err (ReleaseFailedAtSync fsync_err)))
                   | (d2, Inr _) \<Rightarrow> (st\<lparr>qb_store := Some d2, qb_barrier := None\<rparr>, Ok ())))))"

definition enforce_quiesce_barrier :: "'d quiesce_store_t \<Rightarrow> int \<Rightarrow> 'd quiesce_state
    \<Rightarrow> 'd quiesce_state \<times> (quiesce_error + unit)" where
  "enforce_quiesce_barrier S now st = (case quiesce_poison_check st of
      Inl e \<Rightarrow> (st, Err e)
    | Inr _ \<Rightarrow>
        (case qb_barrier st of
           None \<Rightarrow> (st, Ok ())
         | Some r \<Rightarrow> if now > pb_expires_at r then release_barrier_durably S st
                     else (st, Err TemporaryQuiesce)))"

record mcp_repoint_begin =
  mb_token :: string
  mb_instance_id :: string
  mb_expires_at :: int

text \<open>The part of \<^verbatim>\<open>begin_mcp_repoint\<close> after a stale barrier is out of the way.\<close>

definition install_barrier :: "sha_fun \<Rightarrow> 'd quiesce_store_t \<Rightarrow> int \<Rightarrow> nat list \<Rightarrow> int \<Rightarrow> 'd quiesce_state
    \<Rightarrow> 'd quiesce_state \<times> (quiesce_error + mcp_repoint_begin)" where
  "install_barrier sha S now random_bytes ttl_secs st =
     (let ttl = max MIN_BARRIER_TTL_SECS (min MAX_BARRIER_TTL_SECS ttl_secs);
          token = mint_token random_bytes;
          r = \<lparr>pb_token_hash = sha256_token sha token, pb_expires_at = now + ttl\<rparr>;
          ack = \<lparr>mb_token = token, mb_instance_id = qb_instance_id st, mb_expires_at = pb_expires_at r\<rparr> in
      (case qb_store st of
         None \<Rightarrow> (st\<lparr>qb_barrier := Some r\<rparr>, Ok ack)
       | Some d \<Rightarrow>
           (case qs_write S r d of
              (d', Inl e) \<Rightarrow> (st\<lparr>qb_store := Some d'\<rparr>, Err (StoreFault e))
            | (d', Inr _) \<Rightarrow> (st\<lparr>qb_store := Some d', qb_barrier := Some r\<rparr>, Ok ack))))"

definition begin_mcp_repoint :: "sha_fun \<Rightarrow> 'd quiesce_store_t \<Rightarrow> int \<Rightarrow> nat list \<Rightarrow> int \<Rightarrow> 'd quiesce_state
    \<Rightarrow> 'd quiesce_state \<times> (quiesce_error + mcp_repoint_begin)" where
  "begin_mcp_repoint sha S now random_bytes ttl_secs st = (case quiesce_poison_check st of
      Inl e \<Rightarrow> (st, Err e)
    | Inr _ \<Rightarrow>
        (case map_option (\<lambda>r. now \<le> pb_expires_at r) (qb_barrier st) of
           Some True \<Rightarrow> (st, Err AlreadyActive)
         | Some False \<Rightarrow>
             (case release_barrier_durably S st of
                (st', Inl e) \<Rightarrow> (st', Err e)
              | (st', Inr _) \<Rightarrow> install_barrier sha S now random_bytes ttl_secs st')
         | None \<Rightarrow> install_barrier sha S now random_bytes ttl_secs st))"

definition validate_barrier_token :: "sha_fun \<Rightarrow> int \<Rightarrow> string \<Rightarrow> 'd quiesce_state \<Rightarrow> quiesce_error + unit" where
  "validate_barrier_token sha now token st = (case qb_barrier st of
      None \<Rightarrow> Err NoActiveBarrier
    | Some r \<Rightarrow>
        if now > pb_expires_at r then Err BarrierExpired
        else if sha256_token sha token \<noteq> pb_token_hash r then Err TokenMismatch
        else Ok ())"

definition end_mcp_repoint :: "sha_fun \<Rightarrow> 'd quiesce_store_t \<Rightarrow> int \<Rightarrow> string \<Rightarrow> 'd quiesce_state
    \<Rightarrow> 'd quiesce_state \<times> (quiesce_error + unit)" where
  "end_mcp_repoint sha S now token st = (case quiesce_poison_check st of
      Inl e \<Rightarrow> (st, Err e)
    | Inr _ \<Rightarrow>
        (case validate_barrier_token sha now token st of
           Inl e \<Rightarrow> (st, Err e)
         | Inr _ \<Rightarrow> release_barrier_durably S st))"

definition release_expired_barrier :: "'d quiesce_store_t \<Rightarrow> int \<Rightarrow> 'd quiesce_state
    \<Rightarrow> 'd quiesce_state \<times> (quiesce_error + bool)" where
  "release_expired_barrier S now st =
     (case map_option (\<lambda>r. now > pb_expires_at r) (qb_barrier st) of
        Some True \<Rightarrow>
          (case release_barrier_durably S st of
             (st', Inl e) \<Rightarrow> (st', Err e)
           | (st', Inr _) \<Rightarrow> (st', Ok True))
      | _ \<Rightarrow> (st, Ok False))"

text \<open>Boot: the broker starts with no barrier and not poisoned, then adopts the durable record.\<close>

definition fresh_state :: "string \<Rightarrow> 'd option \<Rightarrow> 'd quiesce_state" where
  "fresh_state instance_id store =
     \<lparr>qb_barrier = None, qb_poisoned = False, qb_store = store, qb_instance_id = instance_id\<rparr>"

definition reinstate_barrier_on_boot :: "'d quiesce_store_t \<Rightarrow> 'd quiesce_state
    \<Rightarrow> quiesce_error + 'd quiesce_state" where
  "reinstate_barrier_on_boot S st = (case qb_store st of
      None \<Rightarrow> Ok st
    | Some d \<Rightarrow>
        (case qs_load S d of
           Inl e \<Rightarrow> Err (StoreFault e)
         | Inr None \<Rightarrow> Ok st
         | Inr (Some r) \<Rightarrow> Ok (st\<lparr>qb_barrier := Some r\<rparr>)))"

section \<open>Custody classification\<close>

record quiesce_grant_row =
  qr_id :: string
  qr_integrity_ok :: bool
  qr_status :: string
  qr_lease_opened_at :: "int option"
  qr_lease_deadline :: "int option"

datatype grant_note = GrantNote string string

datatype quiesce_status =
    Quiescent
  | Active "grant_note list"
  | OrphanAmbiguous "grant_note list"
  | Integrity string "grant_note list"

datatype quiesce_verdict = VIntegrity string | VActive string | VOrphan string | VClear

definition verified_complete :: "verified_snapshot_t \<Rightarrow> string \<Rightarrow> bool" where
  "verified_complete audit i \<longleftrightarrow> vs_verified audit \<and> i \<in> dom (vs_outcomes audit)"

definition row_verdict :: "int \<Rightarrow> verified_snapshot_t \<Rightarrow> quiesce_grant_row \<Rightarrow> quiesce_verdict" where
  "row_verdict now audit r =
     (if \<not> qr_integrity_ok r then VIntegrity ''grant HMAC integrity failure''
      else if qr_status r = ''executing'' then
        (case (qr_lease_opened_at r, qr_lease_deadline r) of
           (Some _, Some deadline) \<Rightarrow>
             if now \<le> deadline then VActive ''executing lease within its signed deadline''
             else VOrphan ''executing lease reached/passed its signed deadline with no verified report''
         | _ \<Rightarrow> VIntegrity ''executing grant is missing complete signed lease stamps'')
      else if qr_status r = ''executed'' then
        (if \<not> vs_verified audit
         then VIntegrity ''audit chain unverified; cannot prove terminal completion''
         else if vs_outcomes audit (qr_id r) \<noteq> None then VClear
         else VOrphan ''executed grant lacks verified terminal completion (transport-ambiguous)'')
      else if qr_lease_opened_at r \<noteq> None \<and> \<not> verified_complete audit (qr_id r)
        then VOrphan ''swept/terminal lease carries execution stamps but no verified report-based completion''
      else VClear)"

fun classify_loop :: "int \<Rightarrow> verified_snapshot_t \<Rightarrow> quiesce_grant_row list
    \<Rightarrow> grant_note list \<times> grant_note list \<times> grant_note list
    \<Rightarrow> grant_note list \<times> grant_note list \<times> grant_note list" where
  "classify_loop now audit [] acc = acc"
| "classify_loop now audit (r # rs) (integrity, active, orphan) =
     classify_loop now audit rs (case row_verdict now audit r of
        VIntegrity why \<Rightarrow> (integrity @ [GrantNote (qr_id r) why], active, orphan)
      | VActive why \<Rightarrow> (integrity, active @ [GrantNote (qr_id r) why], orphan)
      | VOrphan why \<Rightarrow> (integrity, active, orphan @ [GrantNote (qr_id r) why])
      | VClear \<Rightarrow> (integrity, active, orphan))"

definition classify_quiesce :: "int \<Rightarrow> quiesce_grant_row list \<Rightarrow> verified_snapshot_t \<Rightarrow> quiesce_status" where
  "classify_quiesce now rows audit = (case classify_loop now audit rows ([], [], []) of
      (integrity, active, orphan) \<Rightarrow>
        if integrity \<noteq> [] then Integrity ''one or more grants failed integrity verification'' integrity
        else if active \<noteq> [] then Active active
        else if orphan \<noteq> [] then OrphanAmbiguous orphan
        else Quiescent)"

text \<open>
  \<open>rows\<close> is the read of every grant through its integrity check, \<open>snapshot\<close> the verified view of
  the audit log; a log that cannot be read counts as unverified.
\<close>

definition mcp_repoint_status :: "sha_fun \<Rightarrow> int \<Rightarrow> quiesce_grant_row list option \<Rightarrow> verified_snapshot_t option
    \<Rightarrow> string \<Rightarrow> 'd quiesce_state \<Rightarrow> quiesce_error + string \<times> quiesce_status" where
  "mcp_repoint_status sha now rows audit token st =
     res_bind (quiesce_poison_check st) (\<lambda>_.
     res_bind (validate_barrier_token sha now token st) (\<lambda>_.
     res_bind (ok_or RowsUnreadable rows) (\<lambda>rs.
     Ok (qb_instance_id st,
         classify_quiesce now rs (case audit of None \<Rightarrow> unverified | Some a \<Rightarrow> a)))))"

section \<open>The record on disk\<close>

record on_disk =
  od_v :: nat
  od_token_hash :: string
  od_expires_at :: int

record record_codec =
  rc_write :: "on_disk \<Rightarrow> string"
  rc_read :: "string \<Rightarrow> on_disk option"

definition MAX_RECORD_BYTES :: nat where "MAX_RECORD_BYTES = 4 * 1024"

record disk_file =
  fl_regular :: bool
  fl_mode :: nat
  fl_text :: string

text \<open>
  The directory entry of the record: what a reader sees now, the contents a loss of power may leave
  (every change since the directory was last synced), and the answers to the next system calls.
\<close>

datatype sys_answer = Done | Fails | FailsAfterEffect

record quiesce_disk =
  dk_current :: "disk_file option"
  dk_survivors :: "disk_file option list"
  dk_script :: "sys_answer list"

definition take_answer :: "quiesce_disk \<Rightarrow> sys_answer \<times> quiesce_disk" where
  "take_answer d = (case dk_script d of [] \<Rightarrow> (Done, d) | a # rest \<Rightarrow> (a, d\<lparr>dk_script := rest\<rparr>))"

definition set_entry :: "disk_file option \<Rightarrow> quiesce_disk \<Rightarrow> quiesce_disk" where
  "set_entry x d = d\<lparr>dk_current := x, dk_survivors := x # dk_survivors d\<rparr>"

definition hash_to_hex :: "nat list \<Rightarrow> string" where
  "hash_to_hex h = hex h"

definition hex_val :: "char \<Rightarrow> nat" where
  "hex_val c = (if is_ascii_digit c then code c - 48 else code c - 87)"

fun from_hex_pairs :: "string \<Rightarrow> nat list" where
  "from_hex_pairs (a # b # rest) = (16 * hex_val a + hex_val b) # from_hex_pairs rest"
| "from_hex_pairs _ = []"

definition hex_to_hash :: "string \<Rightarrow> store_error + nat list" where
  "hex_to_hash s = (if length s \<noteq> 64 \<or> \<not> list_all is_lower_hexdigit s then Err HashNotHex
                    else Ok (from_hex_pairs s))"

definition file_fsync_parent :: "quiesce_disk \<Rightarrow> quiesce_disk \<times> (store_error + unit)" where
  "file_fsync_parent d = (case take_answer d of
      (Done, d') \<Rightarrow> (d'\<lparr>dk_survivors := [dk_current d']\<rparr>, Ok ())
    | (_, d') \<Rightarrow> (d', Err SyncFailed))"

definition file_unlink :: "quiesce_disk \<Rightarrow> quiesce_disk \<times> (store_error + unit)" where
  "file_unlink d = (case take_answer d of
      (Done, d') \<Rightarrow> (set_entry None d', Ok ())
    | (Fails, d') \<Rightarrow> (d', Err UnlinkFailed)
    | (FailsAfterEffect, d') \<Rightarrow> (set_entry None d', Err UnlinkFailed))"

definition record_file :: "record_codec \<Rightarrow> persisted_barrier \<Rightarrow> disk_file" where
  "record_file rc r = \<lparr>fl_regular = True, fl_mode = 6 * 8 * 8,
     fl_text = rc_write rc \<lparr>od_v = 1, od_token_hash = hash_to_hex (pb_token_hash r),
                             od_expires_at = pb_expires_at r\<rparr>\<rparr>"

definition file_write :: "record_codec \<Rightarrow> persisted_barrier \<Rightarrow> quiesce_disk
    \<Rightarrow> quiesce_disk \<times> (store_error + unit)" where
  "file_write rc r d = (case take_answer d of
      (Done, d1) \<Rightarrow>
        (case take_answer d1 of
           (Done, d2) \<Rightarrow> file_fsync_parent (set_entry (Some (record_file rc r)) d2)
         | (Fails, d2) \<Rightarrow> (d2, Err RenameFailed)
         | (FailsAfterEffect, d2) \<Rightarrow> (set_entry (Some (record_file rc r)) d2, Err RenameFailed))
    | (_, d1) \<Rightarrow> (d1, Err OpenTemp))"

definition read_record :: "record_codec \<Rightarrow> disk_file \<Rightarrow> store_error + persisted_barrier" where
  "read_record rc f =
     (if \<not> fl_regular f then Err NotRegular
      else if bit (fl_mode f) 1 \<or> bit (fl_mode f) 4 then Err WritableByOthers
      else if length (utf8 (fl_text f)) > MAX_RECORD_BYTES then Err TooLarge
      else (case rc_read rc (fl_text f) of
          None \<Rightarrow> Err MalformedRecord
        | Some od \<Rightarrow>
            if od_v od \<noteq> 1 then Err (UnsupportedRecordVersion (od_v od))
            else map_sum id (\<lambda>h. \<lparr>pb_token_hash = h, pb_expires_at = od_expires_at od\<rparr>)
                   (hex_to_hash (od_token_hash od))))"

definition file_load :: "record_codec \<Rightarrow> quiesce_disk \<Rightarrow> store_error + persisted_barrier option" where
  "file_load rc d = (case take_answer d of
      (Done, _) \<Rightarrow>
        (case dk_current d of
           None \<Rightarrow> Ok None
         | Some f \<Rightarrow> map_sum id Some (read_record rc f))
    | _ \<Rightarrow> Err Unreadable)"

definition file_quiesce_store :: "record_codec \<Rightarrow> quiesce_disk quiesce_store_t" where
  "file_quiesce_store rc = \<lparr>qs_write = file_write rc, qs_load = file_load rc,
     qs_unlink = file_unlink, qs_fsync_parent = file_fsync_parent\<rparr>"

section \<open>What the barrier needs of its store\<close>

text \<open>A record's hash is thirty-two bytes and its expiry an \<^verbatim>\<open>i64\<close>, as its types say.\<close>

definition barrier_ok :: "persisted_barrier \<Rightarrow> bool" where
  "barrier_ok r \<longleftrightarrow> length (pb_token_hash r) = 32 \<and> (\<forall>b \<in> set (pb_token_hash r). b < 256) \<and>
     in_i64 (pb_expires_at r)"

text \<open>
  Whatever restarts follow, of the process or of the machine, a load that answers answers \<open>x\<close>.
\<close>

definition settled :: "'d quiesce_store_t \<Rightarrow> ('d \<Rightarrow> 'd \<Rightarrow> bool) \<Rightarrow> 'd \<Rightarrow> persisted_barrier option \<Rightarrow> bool" where
  "settled S restart d x \<longleftrightarrow> (\<forall>d' y. restart\<^sup>*\<^sup>* d d' \<longrightarrow> qs_load S d' = Ok y \<longrightarrow> y = x)"

lemma settled_restart: "settled S restart d x \<Longrightarrow> restart d d' \<Longrightarrow> settled S restart d' x"
  unfolding settled_def by (meson converse_rtranclp_into_rtranclp)

lemma settled_load: "settled S restart d x \<Longrightarrow> qs_load S d = Ok y \<Longrightarrow> y = x"
  unfolding settled_def by blast

text \<open>
  The operations of the broker between two ends of a barrier, each at its clock value. A boot reads
  the store as a restart left it; a boot that cannot read it does not serve.
\<close>

datatype barrier_op = OpBegin "nat list" int | OpEnd string | OpClaim | OpHousekeep | OpBoot

inductive barrier_step :: "sha_fun \<Rightarrow> 'd quiesce_store_t \<Rightarrow> ('d \<Rightarrow> 'd \<Rightarrow> bool) \<Rightarrow> int \<times> barrier_op
    \<Rightarrow> 'd quiesce_state \<Rightarrow> 'd quiesce_state \<Rightarrow> bool" for sha S restart where
  step_begin: "begin_mcp_repoint sha S now bytes ttl st = (st', res) \<Longrightarrow>
     barrier_step sha S restart (now, OpBegin bytes ttl) st st'"
| step_end: "end_mcp_repoint sha S now token st = (st', res) \<Longrightarrow>
     barrier_step sha S restart (now, OpEnd token) st st'"
| step_claim: "enforce_quiesce_barrier S now st = (st', res) \<Longrightarrow>
     barrier_step sha S restart (now, OpClaim) st st'"
| step_housekeep: "release_expired_barrier S now st = (st', res) \<Longrightarrow>
     barrier_step sha S restart (now, OpHousekeep) st st'"
| step_boot: "qb_store st = Some d \<Longrightarrow> restart d d' \<Longrightarrow>
     reinstate_barrier_on_boot S (fresh_state inst (Some d')) = Ok st' \<Longrightarrow>
     barrier_step sha S restart (now, OpBoot) st st'"

inductive barrier_run :: "sha_fun \<Rightarrow> 'd quiesce_store_t \<Rightarrow> ('d \<Rightarrow> 'd \<Rightarrow> bool) \<Rightarrow> (int \<times> barrier_op) list
    \<Rightarrow> 'd quiesce_state \<Rightarrow> 'd quiesce_state \<Rightarrow> bool" for sha S restart where
  run_nil: "barrier_run sha S restart [] st st"
| run_cons: "barrier_step sha S restart e st st' \<Longrightarrow> barrier_run sha S restart es st' st'' \<Longrightarrow>
     barrier_run sha S restart (e # es) st st''"

inductive_cases barrier_run_cases:
  "barrier_run sha S restart [] st st'" "barrier_run sha S restart (e # es) st st'"

lemmas release_defs = release_barrier_durably_def
lemmas barrier_op_defs = enforce_quiesce_barrier_def begin_mcp_repoint_def end_mcp_repoint_def
  release_expired_barrier_def validate_barrier_token_def quiesce_poison_check_def

text \<open>An event that leaves a barrier alone: before its expiry, and not its own token.\<close>

fun spares :: "sha_fun \<Rightarrow> persisted_barrier \<Rightarrow> int \<times> barrier_op \<Rightarrow> bool" where
  "spares sha r (now, OpEnd token) \<longleftrightarrow>
     now \<le> pb_expires_at r \<and> sha256_token sha token \<noteq> pb_token_hash r"
| "spares sha r (now, _) \<longleftrightarrow> now \<le> pb_expires_at r"

lemma all_spare:
  assumes "list_all (\<lambda>(t, op). t \<le> e \<and>
    (case op of OpEnd tok \<Rightarrow> sha256_token sha tok \<noteq> h | _ \<Rightarrow> True)) es"
  shows "list_all (spares sha \<lparr>pb_token_hash = h, pb_expires_at = e\<rparr>) es"
proof -
  have "spares sha \<lparr>pb_token_hash = h, pb_expires_at = e\<rparr> (t, op) \<longleftrightarrow> t \<le> e \<and>
      (case op of OpEnd tok \<Rightarrow> sha256_token sha tok \<noteq> h | _ \<Rightarrow> True)" for t op
    by (cases op) auto
  with assms show ?thesis by (auto elim!: list.pred_mono_strong)
qed

text \<open>A barrier that is held in memory and would be adopted again by every boot that serves.\<close>

definition upholds :: "'d quiesce_store_t \<Rightarrow> ('d \<Rightarrow> 'd \<Rightarrow> bool) \<Rightarrow> persisted_barrier \<Rightarrow> 'd quiesce_state \<Rightarrow> bool" where
  "upholds S restart r st \<longleftrightarrow> qb_barrier st = Some r \<and> \<not> qb_poisoned st \<and>
     (\<exists>d. qb_store st = Some d \<and> settled S restart d (Some r))"

lemma boot_adopts:
  assumes "settled S restart d x" "reinstate_barrier_on_boot S (fresh_state inst (Some d)) = Ok st"
  shows "st = (fresh_state inst (Some d))\<lparr>qb_barrier := x\<rparr>"
proof -
  obtain y where y: "qs_load S d = Ok y"
    using assms(2) by (cases "qs_load S d") (simp_all add: reinstate_barrier_on_boot_def fresh_state_def)
  then have "y = x" using settled_load[OF assms(1)] by simp
  with y assms(2) show ?thesis
    by (cases x) (auto simp: reinstate_barrier_on_boot_def fresh_state_def)
qed

locale durable_store =
  fixes S :: "'d quiesce_store_t"
    and restart :: "'d \<Rightarrow> 'd \<Rightarrow> bool"
    and healthy :: "'d \<Rightarrow> bool"
  assumes write_settles: "barrier_ok r \<Longrightarrow> qs_write S r d = (d', Ok ()) \<Longrightarrow> settled S restart d' (Some r)"
    and removal_settles: "qs_unlink S d = (d1, Ok ()) \<Longrightarrow> qs_fsync_parent S d1 = (d2, Ok ()) \<Longrightarrow>
      settled S restart d2 None"
    and healthy_removal: "healthy d \<Longrightarrow>
      \<exists>d1 d2. qs_unlink S d = (d1, Ok ()) \<and> qs_fsync_parent S d1 = (d2, Ok ())"
begin

lemma upholds_step:
  assumes "upholds S restart r st" "spares sha r e" "barrier_step sha S restart e st st'"
  shows "upholds S restart r st'"
  using assms(3)
proof cases
  case (step_boot d d' inst now)
  from assms(1) step_boot(2) have "settled S restart d (Some r)" by (simp add: upholds_def)
  then have *: "settled S restart d' (Some r)" using step_boot(3) by (rule settled_restart)
  from boot_adopts[OF this step_boot(4)] * show ?thesis by (simp add: upholds_def fresh_state_def)
qed (use assms(1,2) in \<open>auto simp: upholds_def barrier_op_defs split: if_splits\<close>)

lemma upholds_run:
  "barrier_run sha S restart es st st' \<Longrightarrow> upholds S restart r st \<Longrightarrow> list_all (spares sha r) es
    \<Longrightarrow> upholds S restart r st'"
  by (induction rule: barrier_run.induct) (auto intro: upholds_step)

lemma upholds_refuses:
  "upholds S restart r st \<Longrightarrow> now \<le> pb_expires_at r \<Longrightarrow> enforce_quiesce_barrier S now st = (st, Err TemporaryQuiesce)"
  by (simp add: upholds_def enforce_quiesce_barrier_def quiesce_poison_check_def)

lemma release_Ok:
  assumes "release_barrier_durably S st = (st', Ok ())" "qb_barrier st = Some r"
  shows "qb_barrier st' = None \<and> qb_poisoned st' = qb_poisoned st \<and>
    (\<forall>d. qb_store st' = Some d \<longrightarrow> settled S restart d None)"
proof (cases "qb_store st")
  case None
  with assms show ?thesis by (auto simp: release_barrier_durably_def)
next
  case (Some d)
  obtain d1 a where u: "qs_unlink S d = (d1, a)" by fastforce
  with assms Some obtain d2 b where a: "a = Ok ()" and f: "qs_fsync_parent S d1 = (d2, b)"
    by (cases a; cases "qs_fsync_parent S d1")
       (auto simp: release_barrier_durably_def split: prod.splits sum.splits)
  with assms Some u have b: "b = Ok ()"
    by (cases b) (auto simp: release_barrier_durably_def split: prod.splits sum.splits)
  from removal_settles[OF u[unfolded a] f[unfolded b]] assms Some u a f b show ?thesis
    by (auto simp: release_barrier_durably_def)
qed

lemma release_Err:
  assumes "release_barrier_durably S st = (st', Err e)" "qb_barrier st = Some r" "barrier_ok r"
  shows "qb_barrier st' = Some r \<and>
    (\<exists>d. qb_store st' = Some d \<and> (qb_poisoned st' \<or> settled S restart d (Some r)))"
proof -
  obtain d where d: "qb_store st = Some d"
    using assms by (cases "qb_store st") (auto simp: release_barrier_durably_def)
  obtain d1 a where u: "qs_unlink S d = (d1, a)" by fastforce
  obtain d2 b where f: "qs_fsync_parent S d1 = (d2, b)" by fastforce
  let ?d = "case a of Inl _ \<Rightarrow> d1 | Inr _ \<Rightarrow> d2"
  obtain d3 c where w: "qs_write S r ?d = (d3, c)" by fastforce
  note run = assms(1) [unfolded release_barrier_durably_def assms(2) d]
  show ?thesis
  proof (cases c)
    case (Inl x)
    with run u f w assms(2) show ?thesis by (cases a; cases b) auto
  next
    case (Inr x)
    then have "settled S restart d3 (Some r)" using write_settles[OF assms(3)] w by simp
    with run u f w Inr assms(2) show ?thesis by (cases a; cases b) auto
  qed
qed

lemma release_healthy:
  assumes "qb_store st = Some d" "healthy d"
  shows "\<exists>st'. release_barrier_durably S st = (st', Ok ())"
proof -
  obtain d1 d2 where "qs_unlink S d = (d1, Ok ())" "qs_fsync_parent S d1 = (d2, Ok ())"
    using healthy_removal[OF assms(2)] by blast
  with assms(1) show ?thesis
    by (cases "qb_barrier st") (auto simp: release_barrier_durably_def)
qed

lemma install_upholds:
  assumes "install_barrier sha S now bytes ttl st = (st', Ok ack)" "qb_store st = Some d"
    and "\<not> qb_poisoned st" "sha_ok sha" "in_i64 now" "in_i64 (now + MAX_BARRIER_TTL_SECS)"
  shows "upholds S restart \<lparr>pb_token_hash = sha256_token sha (mb_token ack),
      pb_expires_at = mb_expires_at ack\<rparr> st' \<and>
    now + MIN_BARRIER_TTL_SECS \<le> mb_expires_at ack \<and> mb_expires_at ack \<le> now + MAX_BARRIER_TTL_SECS"
proof -
  define r where "r = \<lparr>pb_token_hash = sha256_token sha (mint_token bytes),
      pb_expires_at = now + max MIN_BARRIER_TTL_SECS (min MAX_BARRIER_TTL_SECS ttl)\<rparr>"
  have "barrier_ok r"
    using assms(4-6) by (auto simp: r_def barrier_ok_def sha256_token_def sha_ok_def in_i64_def
        MIN_BARRIER_TTL_SECS_def MAX_BARRIER_TTL_SECS_def)
  moreover obtain d' a where w: "qs_write S r d = (d', a)" by fastforce
  with assms(1,2) have a: "a = Ok ()"
    by (cases a) (auto simp: install_barrier_def r_def Let_def)
  ultimately have "settled S restart d' (Some r)" using write_settles w by blast
  moreover have "st' = st\<lparr>qb_store := Some d', qb_barrier := Some r\<rparr>" "mb_token ack = mint_token bytes"
    "mb_expires_at ack = pb_expires_at r"
    using assms(1,2) w a by (auto simp: install_barrier_def r_def Let_def)
  ultimately show ?thesis using assms(3)
    by (auto simp: upholds_def r_def MIN_BARRIER_TTL_SECS_def MAX_BARRIER_TTL_SECS_def)
qed

lemma begin_upholds:
  assumes "begin_mcp_repoint sha S now bytes ttl st = (st', Ok ack)" "qb_store st \<noteq> None"
    and "sha_ok sha" "in_i64 now" "in_i64 (now + MAX_BARRIER_TTL_SECS)"
  shows "upholds S restart \<lparr>pb_token_hash = sha256_token sha (mb_token ack),
      pb_expires_at = mb_expires_at ack\<rparr> st' \<and>
    now + MIN_BARRIER_TTL_SECS \<le> mb_expires_at ack \<and> mb_expires_at ack \<le> now + MAX_BARRIER_TTL_SECS"
proof -
  have clear: "\<not> qb_poisoned st"
    using assms(1) by (auto simp: begin_mcp_repoint_def quiesce_poison_check_def)
  show ?thesis
  proof (cases "qb_barrier st")
    case None
    with assms(1) clear have "install_barrier sha S now bytes ttl st = (st', Ok ack)"
      by (simp add: begin_mcp_repoint_def quiesce_poison_check_def)
    then show ?thesis using install_upholds assms(2-) clear by blast
  next
    case (Some r)
    with assms(1) clear obtain st1 where rel: "release_barrier_durably S st = (st1, Ok ())"
      and inst: "install_barrier sha S now bytes ttl st1 = (st', Ok ack)"
      by (auto simp: begin_mcp_repoint_def quiesce_poison_check_def split: if_splits bool.splits prod.splits sum.splits)
    from release_Ok[OF rel Some] clear have "\<not> qb_poisoned st1" by simp
    moreover obtain d where "qb_store st1 = Some d"
      using rel assms(2) Some by (auto simp: release_barrier_durably_def split: prod.splits sum.splits)
    ultimately show ?thesis using install_upholds[OF inst] assms(3-) by blast
  qed
qed

lemma claim_admitted:
  assumes "enforce_quiesce_barrier S now st = (st', Ok ())"
  shows "qb_barrier st' = None \<and> \<not> qb_poisoned st' \<and>
    (qb_barrier st = None \<or> (\<exists>r. qb_barrier st = Some r \<and> pb_expires_at r < now \<and>
       (\<forall>d. qb_store st' = Some d \<longrightarrow> settled S restart d None)))"
proof (cases "qb_barrier st")
  case None
  with assms show ?thesis by (auto simp: enforce_quiesce_barrier_def quiesce_poison_check_def split: if_splits)
next
  case (Some r)
  with assms have "\<not> qb_poisoned st" "pb_expires_at r < now" "release_barrier_durably S st = (st', Ok ())"
    by (auto simp: enforce_quiesce_barrier_def quiesce_poison_check_def split: if_splits)
  with release_Ok[OF _ Some] Some show ?thesis by auto
qed

lemma lapsed_claim_admitted:
  assumes "upholds S restart r st" "pb_expires_at r < now" "qb_store st = Some d" "healthy d"
  shows "\<exists>st'. enforce_quiesce_barrier S now st = (st', Ok ())"
  using release_healthy[OF assms(3,4)] assms(1,2)
  by (auto simp: upholds_def enforce_quiesce_barrier_def quiesce_poison_check_def)

end

section \<open>The file store keeps the laws\<close>

text \<open>What is relied on of the JSON package: a record it wrote reads back, and is small.\<close>

definition codec_ok :: "record_codec \<Rightarrow> bool" where
  "codec_ok rc \<longleftrightarrow> (\<forall>h e. length h = 64 \<longrightarrow> list_all is_lower_hexdigit h \<longrightarrow> in_i64 e \<longrightarrow>
     (let od = \<lparr>od_v = 1, od_token_hash = h, od_expires_at = e\<rparr> in
      rc_read rc (rc_write rc od) = Some od \<and> length (utf8 (rc_write rc od)) \<le> MAX_RECORD_BYTES))"

text \<open>A restart of the process keeps the entry; a loss of power leaves one of the survivors.\<close>

inductive disk_restart :: "quiesce_disk \<Rightarrow> quiesce_disk \<Rightarrow> bool" where
  process_restart: "disk_restart d (d\<lparr>dk_script := script\<rparr>)"
| power_loss: "x \<in> set (dk_survivors d) \<Longrightarrow>
     disk_restart d \<lparr>dk_current = x, dk_survivors = [x], dk_script = script\<rparr>"

definition disk_healthy :: "quiesce_disk \<Rightarrow> bool" where
  "disk_healthy d \<longleftrightarrow> list_all (\<lambda>a. a = Done) (dk_script d)"

definition holds_only :: "disk_file option \<Rightarrow> quiesce_disk \<Rightarrow> bool" where
  "holds_only x d \<longleftrightarrow> dk_current d = x \<and> set (dk_survivors d) \<subseteq> {x}"

lemma holds_only_restarts: "disk_restart\<^sup>*\<^sup>* d d' \<Longrightarrow> holds_only x d \<Longrightarrow> holds_only x d'"
  by (induction rule: rtranclp_induct) (auto simp: holds_only_def elim!: disk_restart.cases)

lemma hex_val_digit: "n < 16 \<Longrightarrow> hex_val (hex_digit n) = n"
  by (auto simp: hex_val_def hex_digit_def is_ascii_digit_def)

lemma from_hex_pairs_hex: "\<forall>b \<in> set h. b < 256 \<Longrightarrow> from_hex_pairs (hex h) = h"
  by (induction h) (auto simp: hex_def hex_val_digit)

lemma hex_to_hash_roundtrip:
  "length h = 32 \<Longrightarrow> \<forall>b \<in> set h. b < 256 \<Longrightarrow> hex_to_hash (hash_to_hex h) = Ok h"
  using hex_all_lower[of h] by (simp add: hex_to_hash_def hash_to_hex_def length_hex from_hex_pairs_hex)

lemma read_record_file: "codec_ok rc \<Longrightarrow> barrier_ok r \<Longrightarrow> read_record rc (record_file rc r) = Ok r"
proof -
  assume ok: "codec_ok rc" "barrier_ok r"
  let ?od = "\<lparr>od_v = 1, od_token_hash = hash_to_hex (pb_token_hash r), od_expires_at = pb_expires_at r\<rparr>"
  have "length (hash_to_hex (pb_token_hash r)) = 64" "list_all is_lower_hexdigit (hash_to_hex (pb_token_hash r))"
    using ok(2) hex_all_lower[of "pb_token_hash r"] by (simp_all add: hash_to_hex_def length_hex barrier_ok_def)
  with ok have "rc_read rc (rc_write rc ?od) = Some ?od" "length (utf8 (rc_write rc ?od)) \<le> MAX_RECORD_BYTES"
    unfolding codec_ok_def Let_def barrier_ok_def by blast+
  moreover have "hex_to_hash (hash_to_hex (pb_token_hash r)) = Ok (pb_token_hash r)"
    using ok(2) by (simp add: barrier_ok_def hex_to_hash_roundtrip)
  moreover have "\<not> bit (384::nat) 1" "\<not> bit (384::nat) 4" by (simp_all add: bit_iff_odd)
  ultimately show ?thesis by (simp add: read_record_def record_file_def)
qed

lemma file_load_only:
  "holds_only x d \<Longrightarrow> file_load rc d = Ok y \<Longrightarrow>
     (case x of None \<Rightarrow> y = None | Some f \<Rightarrow> map_sum id Some (read_record rc f) = Ok y)"
  by (auto simp: holds_only_def file_load_def split: prod.splits sys_answer.splits option.splits)

lemma file_write_Ok: "file_write rc r d = (d', Ok ()) \<Longrightarrow> holds_only (Some (record_file rc r)) d'"
  by (auto simp: file_write_def file_fsync_parent_def set_entry_def take_answer_def holds_only_def
      split: sys_answer.splits list.splits)

lemma file_removal_Ok:
  "file_unlink d = (d1, Ok ()) \<Longrightarrow> file_fsync_parent d1 = (d2, Ok ()) \<Longrightarrow> holds_only None d2"
  by (auto simp: file_unlink_def file_fsync_parent_def set_entry_def take_answer_def holds_only_def
      split: sys_answer.splits list.splits)

lemma holds_only_settled:
  assumes "holds_only x d" "\<And>d' y. holds_only x d' \<Longrightarrow> file_load rc d' = Ok y \<Longrightarrow> y = z"
  shows "settled (file_quiesce_store rc) disk_restart d z"
  using assms holds_only_restarts unfolding settled_def file_quiesce_store_def by fastforce

locale readable_record =
  fixes rc :: record_codec
  assumes reads_back: "codec_ok rc"
begin

lemma write_settles_file:
  assumes "barrier_ok r" "file_write rc r d = (d', Ok ())"
  shows "settled (file_quiesce_store rc) disk_restart d' (Some r)"
  using file_write_Ok[OF assms(2)]
  by (rule holds_only_settled) (auto dest!: file_load_only simp: read_record_file[OF reads_back assms(1)])

lemma removal_settles_file:
  assumes "file_unlink d = (d1, Ok ())" "file_fsync_parent d1 = (d2, Ok ())"
  shows "settled (file_quiesce_store rc) disk_restart d2 None"
  using file_removal_Ok[OF assms] by (rule holds_only_settled) (auto dest!: file_load_only)

lemma healthy_removal_file:
  "disk_healthy d \<Longrightarrow> \<exists>d1 d2. file_unlink d = (d1, Ok ()) \<and> file_fsync_parent d1 = (d2, Ok ())"
  by (cases "dk_script d"; cases "tl (dk_script d)")
     (auto simp: disk_healthy_def file_unlink_def file_fsync_parent_def take_answer_def set_entry_def)

end

sublocale readable_record \<subseteq> on_file: durable_store "file_quiesce_store rc" disk_restart disk_healthy
  using write_settles_file removal_settles_file healthy_removal_file
  by unfold_locales (simp_all add: file_quiesce_store_def)

context readable_record
begin

lemmas file_begin_upholds = on_file.begin_upholds
lemmas file_upholds_run = on_file.upholds_run
lemmas file_upholds_refuses = on_file.upholds_refuses
lemmas file_release_Err = on_file.release_Err
lemmas file_claim_admitted = on_file.claim_admitted
lemmas file_lapsed_claim_admitted = on_file.lapsed_claim_admitted

end

section \<open>Classification\<close>

text \<open>A row after which nothing may still be running.\<close>

definition row_at_rest :: "verified_snapshot_t \<Rightarrow> quiesce_grant_row \<Rightarrow> bool" where
  "row_at_rest audit r \<longleftrightarrow> qr_integrity_ok r \<and> qr_status r \<noteq> ''executing'' \<and>
     (qr_status r = ''executed'' \<or> qr_lease_opened_at r \<noteq> None \<longrightarrow> verified_complete audit (qr_id r))"

lemma row_verdict_clear: "row_verdict now audit r = VClear \<longleftrightarrow> row_at_rest audit r"
  by (cases "qr_lease_opened_at r"; cases "qr_lease_deadline r")
     (auto simp: row_verdict_def row_at_rest_def verified_complete_def domIff)

definition notes_of :: "(quiesce_verdict \<Rightarrow> string option) \<Rightarrow> int \<Rightarrow> verified_snapshot_t \<Rightarrow> quiesce_grant_row list
    \<Rightarrow> grant_note list" where
  "notes_of sel now audit rows =
     List.map_filter (\<lambda>r. map_option (GrantNote (qr_id r)) (sel (row_verdict now audit r))) rows"

definition why_integrity :: "quiesce_verdict \<Rightarrow> string option" where
  "why_integrity v = (case v of VIntegrity w \<Rightarrow> Some w | _ \<Rightarrow> None)"
definition why_active :: "quiesce_verdict \<Rightarrow> string option" where
  "why_active v = (case v of VActive w \<Rightarrow> Some w | _ \<Rightarrow> None)"
definition why_orphan :: "quiesce_verdict \<Rightarrow> string option" where
  "why_orphan v = (case v of VOrphan w \<Rightarrow> Some w | _ \<Rightarrow> None)"

lemmas why_defs = why_integrity_def why_active_def why_orphan_def

lemma classify_loop_notes:
  "classify_loop now audit rows (i, a, q) = (i @ notes_of why_integrity now audit rows,
     a @ notes_of why_active now audit rows, q @ notes_of why_orphan now audit rows)"
proof (induction rows arbitrary: i a q)
  case Nil
  then show ?case by (simp add: notes_of_def List.map_filter_simps)
next
  case (Cons r rows)
  then show ?case
    by (cases "row_verdict now audit r") (simp_all add: notes_of_def List.map_filter_simps why_defs)
qed

lemma notes_of_empty: "notes_of sel now audit rows = [] \<longleftrightarrow> (\<forall>r \<in> set rows. sel (row_verdict now audit r) = None)"
  by (induction rows) (auto simp: notes_of_def List.map_filter_simps split: option.splits)

lemma all_clear_iff:
  "(\<forall>r \<in> set rows. row_at_rest audit r) \<longleftrightarrow> notes_of why_integrity now audit rows = [] \<and>
     notes_of why_active now audit rows = [] \<and> notes_of why_orphan now audit rows = []"
proof -
  have "v = VClear \<longleftrightarrow> why_integrity v = None \<and> why_active v = None \<and> why_orphan v = None" for v
    by (cases v) (simp_all add: why_defs)
  then show ?thesis unfolding notes_of_empty row_verdict_clear[symmetric, of audit _ now] by blast
qed

lemma quiescent_rows: "classify_quiesce now rows audit = Quiescent \<longleftrightarrow> (\<forall>r \<in> set rows. row_at_rest audit r)"
  by (simp add: classify_quiesce_def classify_loop_notes all_clear_iff[where now = now])

section \<open>Properties\<close>

text \<open>
  C29. An acknowledged barrier holds until its token ends it or its time runs out. Between the
  acknowledgement and the expiry it carries, whatever claims, further begins, housekeeping, ends with
  another token and restarts of the process or of the machine come, every claim is refused. The
  expiry is between the two configured bounds.
\<close>

theorem barrier_blocks_claims:
  assumes "codec_ok rc" "sha_ok sha" "in_i64 now" "in_i64 (now + MAX_BARRIER_TTL_SECS)"
    and "qb_store st = Some d"
    and "begin_mcp_repoint sha (file_quiesce_store rc) now bytes ttl st = (st1, Ok ack)"
    and "barrier_run sha (file_quiesce_store rc) disk_restart es st1 st2"
    and "list_all (\<lambda>(t, op). t \<le> mb_expires_at ack \<and>
           (case op of OpEnd tok \<Rightarrow> sha256_token sha tok \<noteq> sha256_token sha (mb_token ack) | _ \<Rightarrow> True)) es"
    and "later \<le> mb_expires_at ack"
  shows "enforce_quiesce_barrier (file_quiesce_store rc) later st2 = (st2, Err TemporaryQuiesce) \<and>
    now + MIN_BARRIER_TTL_SECS \<le> mb_expires_at ack \<and> mb_expires_at ack \<le> now + MAX_BARRIER_TTL_SECS"
proof -
  note store = readable_record.intro[OF assms(1)]
  let ?r = "\<lparr>pb_token_hash = sha256_token sha (mb_token ack), pb_expires_at = mb_expires_at ack\<rparr>"
  have begun: "upholds (file_quiesce_store rc) disk_restart ?r st1"
    "now + MIN_BARRIER_TTL_SECS \<le> mb_expires_at ack" "mb_expires_at ack \<le> now + MAX_BARRIER_TTL_SECS"
    using readable_record.file_begin_upholds[OF store assms(6) _ assms(2-4)] assms(5) by simp_all
  have "list_all (spares sha ?r) es" using assms(8) by (rule all_spare)
  then have "upholds (file_quiesce_store rc) disk_restart ?r st2"
    using readable_record.file_upholds_run[OF store assms(7) begun(1)] by blast
  with begun assms(9) show ?thesis using readable_record.file_upholds_refuses[OF store] by simp
qed

text \<open>
  A claim passes the gate only with no barrier in force: there was none, or its time had run out
  and its record was removed so that no later restart brings it back. A poisoned broker passes none.
\<close>

theorem admitted_claim_means_no_barrier:
  assumes "codec_ok rc" "enforce_quiesce_barrier (file_quiesce_store rc) now st = (st', Ok ())"
  shows "qb_barrier st' = None \<and> \<not> qb_poisoned st' \<and>
    (qb_barrier st = None \<or> (\<exists>r. qb_barrier st = Some r \<and> pb_expires_at r < now \<and>
       (\<forall>d. qb_store st' = Some d \<longrightarrow> settled (file_quiesce_store rc) disk_restart d None)))"
  using readable_record.file_claim_admitted[OF readable_record.intro[OF assms(1)] assms(2)] .

text \<open>
  C30. A release that fails fails closed. The barrier stays in memory, and either its record is durable
  again, so that every restart reinstates it, or the broker is poisoned and refuses every claim,
  begin and end until it is restarted.
\<close>

theorem failed_release_stays_closed:
  assumes "codec_ok rc" "barrier_ok r" "qb_barrier st = Some r"
    and "release_barrier_durably (file_quiesce_store rc) st = (st', Err e)"
  shows "qb_barrier st' = Some r \<and> (\<exists>d. qb_store st' = Some d \<and>
    (settled (file_quiesce_store rc) disk_restart d (Some r) \<or>
     (\<forall>now bytes ttl tok. enforce_quiesce_barrier (file_quiesce_store rc) now st' = (st', Err Poisoned) \<and>
        begin_mcp_repoint sha (file_quiesce_store rc) now bytes ttl st' = (st', Err Poisoned) \<and>
        end_mcp_repoint sha (file_quiesce_store rc) now tok st' = (st', Err Poisoned))))"
  using readable_record.file_release_Err[OF readable_record.intro[OF assms(1)] assms(4,3,2)]
  by (auto simp: barrier_op_defs)


text \<open>
  The classification reports quiescence exactly when every grant reads with its integrity, none is
  executing, and each one whose execution began - it was executed, or a lease was opened for it - has a
  completion in a verified audit log.
\<close>

theorem quiescent_iff:
  "classify_quiesce now rows audit = Quiescent \<longleftrightarrow>
     list_all (\<lambda>r. qr_integrity_ok r \<and> qr_status r \<noteq> ''executing'' \<and>
       (if qr_status r = ''executed'' \<or> qr_lease_opened_at r \<noteq> None
        then vs_verified audit \<and> qr_id r \<in> dom (vs_outcomes audit) else True)) rows"
  by (auto simp: quiescent_rows row_at_rest_def verified_complete_def list_all_iff)

section \<open>A concrete store\<close>

text \<open>The compact JSON text of the record, with a reader of that layout.\<close>

definition json_key :: "string \<Rightarrow> string" where
  "json_key k = dquote # k @ [dquote, CHR '':'']"

definition record_text :: "on_disk \<Rightarrow> string" where
  "record_text od = ''{'' @ json_key ''v'' @ nat_str (od_v od) @ '','' @ json_key ''token_hash'' @
     [dquote] @ od_token_hash od @ [dquote] @ '','' @ json_key ''expires_at'' @
     int_str (od_expires_at od) @ ''}''"

definition read_record_text :: "string \<Rightarrow> on_disk option" where
  "read_record_text s =
     Option.bind (strip_prefix (''{'' @ json_key ''v'' @ nat_str 1 @ '','' @ json_key ''token_hash'' @ [dquote]) s) (\<lambda>rest.
     Option.bind (strip_prefix ([dquote] @ '','' @ json_key ''expires_at'') (drop 64 rest)) (\<lambda>tail.
     map_option (\<lambda>e. \<lparr>od_v = 1, od_token_hash = take 64 rest, od_expires_at = e\<rparr>)
       (parse_i64 (butlast tail))))"

definition json_record_codec :: record_codec where
  "json_record_codec = \<lparr>rc_write = record_text, rc_read = read_record_text\<rparr>"

lemma nat_str_length: "n < 10 ^ Suc k \<Longrightarrow> length (nat_str n) \<le> Suc k"
proof (induction k arbitrary: n)
  case 0
  then show ?case by (simp add: nat_str.simps)
next
  case (Suc k)
  then have "length (nat_str (n div 10)) \<le> Suc k" by (intro Suc.IH) (simp add: div_less_iff_less_mult)
  then show ?case by (subst nat_str.simps) simp
qed

lemma int_str_length: "in_i64 e \<Longrightarrow> length (int_str e) \<le> 21"
proof -
  assume e: "in_i64 e"
  have "length (nat_str n) \<le> 20" if "n \<le> 9223372036854775808" for n
    using nat_str_length[of n 19] that by simp
  moreover from e have "nat e \<le> 9223372036854775808" "nat (- e) \<le> 9223372036854775808"
    by (auto simp: in_i64_numeral nat_le_iff)
  ultimately have "length (nat_str (nat e)) \<le> 20" "length (nat_str (nat (- e))) \<le> 20" by blast+
  then show ?thesis by (simp add: int_str_def)
qed

lemma utf8_length: "length (utf8 s) \<le> 2 * length s"
  by (induction s) (auto simp: utf8_def utf8_char_def)

lemma json_record_codec_ok: "codec_ok json_record_codec"
proof -
  have "read_record_text (record_text od) = Some od" "length (utf8 (record_text od)) \<le> MAX_RECORD_BYTES"
    if "od = \<lparr>od_v = 1, od_token_hash = h, od_expires_at = e\<rparr>" "length h = 64" "in_i64 e" for od h e
  proof -
    let ?p = "''{'' @ json_key ''v'' @ nat_str 1 @ '','' @ json_key ''token_hash'' @ [dquote]"
    let ?q = "[dquote] @ '','' @ json_key ''expires_at''"
    have s: "record_text od = ?p @ h @ ?q @ int_str e @ ''}''" using that(1) by (simp add: record_text_def)
    have q: "strip_prefix ?q (drop 64 (h @ ?q @ int_str e @ ''}'')) = Some (int_str e @ ''}'')"
      using that(2) by (simp del: strip_prefix.simps append.simps append_assoc add: append_assoc[symmetric] strip_prefix_Some)
    show "read_record_text (record_text od) = Some od"
      unfolding s read_record_text_def strip_prefix_append Option.bind.bind_lunit q
      using that by (simp add: butlast_append parse_i64_int_str)
    have "length (record_text od) \<le> 200"
      using int_str_length[OF that(3)] nat_str_length[of 1 0] that(1,2)
      by (simp add: record_text_def json_key_def)
    then show "length (utf8 (record_text od)) \<le> MAX_RECORD_BYTES"
      using utf8_length[of "record_text od"] by (simp add: MAX_RECORD_BYTES_def)
  qed
  then show ?thesis by (simp add: codec_ok_def json_record_codec_def Let_def)
qed

interpretation json_record: readable_record json_record_codec
  by unfold_locales (rule json_record_codec_ok)

definition tail_sha :: sha_fun where
  "tail_sha bytes = replicate 31 0 @ [sum_list bytes mod 256]"

definition sample_barrier :: persisted_barrier where
  "sample_barrier = \<lparr>pb_token_hash = sha256_token tail_sha (mint_token [1]), pb_expires_at = 1060\<rparr>"

definition sample_ack :: mcp_repoint_begin where
  "sample_ack = \<lparr>mb_token = mint_token [1], mb_instance_id = ''daemon'', mb_expires_at = 1060\<rparr>"

definition empty_disk :: quiesce_disk where
  "empty_disk = \<lparr>dk_current = None, dk_survivors = [None], dk_script = []\<rparr>"

definition barrier_disk :: "sys_answer list \<Rightarrow> quiesce_disk" where
  "barrier_disk script =
     (let f = Some (record_file json_record_codec sample_barrier) in
      \<lparr>dk_current = f, dk_survivors = [f], dk_script = script\<rparr>)"

definition barred :: "sys_answer list \<Rightarrow> quiesce_disk quiesce_state" where
  "barred script = (fresh_state ''daemon'' (Some (barrier_disk script)))\<lparr>qb_barrier := Some sample_barrier\<rparr>"

lemmas sample_defs = sample_barrier_def sample_ack_def barred_def fresh_state_def

lemma tail_sha_ok: "sha_ok tail_sha"
  by (auto simp: sha_ok_def tail_sha_def)

lemma sample_barrier_ok: "barrier_ok sample_barrier"
  using tail_sha_ok by (auto simp: barrier_ok_def sample_barrier_def sha256_token_def sha_ok_def in_i64_numeral)

lemma sample_begin:
  "begin_mcp_repoint tail_sha (file_quiesce_store json_record_codec) 1000 [1] 60
     (fresh_state ''daemon'' (Some empty_disk)) = (barred [], Ok sample_ack)"
  by (simp add: begin_mcp_repoint_def quiesce_poison_check_def install_barrier_def sample_defs Let_def
      MIN_BARRIER_TTL_SECS_def MAX_BARRIER_TTL_SECS_def file_quiesce_store_def file_write_def
      take_answer_def empty_disk_def set_entry_def file_fsync_parent_def barrier_disk_def)

lemma sample_run:
  "barrier_run tail_sha (file_quiesce_store json_record_codec) disk_restart
     [(1010, OpClaim), (1020, OpBoot)] (barred []) (barred [])"
proof -
  have claim: "barrier_step tail_sha (file_quiesce_store json_record_codec) disk_restart (1010, OpClaim)
      (barred []) (barred [])"
    by (rule step_claim[where res = "Err TemporaryQuiesce"])
       (simp add: enforce_quiesce_barrier_def quiesce_poison_check_def sample_defs)
  have "disk_restart (barrier_disk []) (barrier_disk [])"
    using power_loss[of "Some (record_file json_record_codec sample_barrier)" "barrier_disk []" "[]"]
    by (simp add: barrier_disk_def Let_def)
  moreover have "reinstate_barrier_on_boot (file_quiesce_store json_record_codec)
      (fresh_state ''daemon'' (Some (barrier_disk []))) = Ok (barred [])"
    by (simp add: reinstate_barrier_on_boot_def fresh_state_def barred_def file_quiesce_store_def file_load_def
        take_answer_def barrier_disk_def Let_def read_record_file[OF json_record_codec_ok sample_barrier_ok])
  ultimately have "barrier_step tail_sha (file_quiesce_store json_record_codec) disk_restart
      (1020, OpBoot) (barred []) (barred [])"
    by (intro step_boot) (simp_all add: barred_def fresh_state_def)
  from claim this show ?thesis by (rule run_cons[OF _ run_cons[OF _ run_nil]])
qed

theorem barrier_blocks_claims_witness:
  "enforce_quiesce_barrier (file_quiesce_store json_record_codec) 1060 (barred [])
     = (barred [], Err TemporaryQuiesce)"
proof -
  have "enforce_quiesce_barrier (file_quiesce_store json_record_codec) 1060 (barred [])
     = (barred [], Err TemporaryQuiesce) \<and>
     1000 + MIN_BARRIER_TTL_SECS \<le> mb_expires_at sample_ack \<and>
     mb_expires_at sample_ack \<le> 1000 + MAX_BARRIER_TTL_SECS"
    by (rule barrier_blocks_claims[OF json_record_codec_ok tail_sha_ok _ _ _ sample_begin sample_run])
       (simp_all add: in_i64_numeral MAX_BARRIER_TTL_SECS_def sample_ack_def fresh_state_def)
  then show ?thesis by simp
qed


theorem admitted_claim_means_no_barrier_witness:
  "\<exists>st'. enforce_quiesce_barrier (file_quiesce_store json_record_codec) 5000 (barred []) = (st', Ok ()) \<and>
     qb_barrier st' = None"
proof -
  obtain st' where st': "enforce_quiesce_barrier (file_quiesce_store json_record_codec) 5000 (barred []) = (st', Ok ())"
    by (auto simp: enforce_quiesce_barrier_def quiesce_poison_check_def barred_def fresh_state_def
        sample_barrier_def release_barrier_durably_def file_quiesce_store_def file_unlink_def
        file_fsync_parent_def take_answer_def barrier_disk_def set_entry_def Let_def)
  from admitted_claim_means_no_barrier[OF json_record_codec_ok this] st' show ?thesis by blast
qed

theorem failed_release_stays_closed_witness:
  "qb_barrier (fst (release_barrier_durably (file_quiesce_store json_record_codec) (barred [Done, Fails])))
     = Some sample_barrier"
proof -
  let ?run = "release_barrier_durably (file_quiesce_store json_record_codec) (barred [Done, Fails])"
  have "?run = (fst ?run, Err (ReleaseFailedAtSync SyncFailed))"
    by (simp add: release_barrier_durably_def barred_def fresh_state_def file_quiesce_store_def file_unlink_def
        file_fsync_parent_def file_write_def take_answer_def barrier_disk_def set_entry_def Let_def)
  from failed_release_stays_closed[OF json_record_codec_ok sample_barrier_ok _ this]
  show ?thesis by (simp add: barred_def)
qed

theorem quiescent_iff_witness:
  "classify_quiesce 10 [\<lparr>qr_id = ''g1'', qr_integrity_ok = True, qr_status = ''executed'',
       qr_lease_opened_at = Some 5, qr_lease_deadline = Some 8\<rparr>]
     \<lparr>vs_verified = True, vs_outcomes = [''g1'' \<mapsto> True]\<rparr> = Quiescent"
  unfolding quiescent_iff by simp

end
