(* ===== verification/Grant_Record.thy ===== *)
theory Grant_Record
  imports Ledger_Storage
begin

text \<open>
  The stored grant and what authenticates it, from \<^verbatim>\<open>crates/cermet-core/src/broker/helpers.rs\<close>
  (digest, status vocabulary, comparison), \<^verbatim>\<open>lifecycle.rs\<close> (recomputation and integrity check) and
  \<^verbatim>\<open>crates/cermet-core/src/money.rs\<close> (the private metadata of an effect). A grant row is signed by a
  keyed hash over every column a later decision reads, the status and the lease stamps included.

  HMAC-SHA256 is the argument \<open>hmac\<close>; the reader and writer that the \<^verbatim>\<open>serde\<close> package derives for the
  metadata are the two fields of \<open>money_codec\<close>.
\<close>

unbundle bit_operations_syntax

section \<open>Effect metadata\<close>

datatype money_metadata =
    NoMoney nat
  | Mutation nat string string string int
  | Retry nat string string string string int

definition MONEY_METADATA_VERSION :: nat where "MONEY_METADATA_VERSION = 1"

record money_codec =
  mc_to_value :: "money_metadata \<Rightarrow> json"
  mc_from_value :: "json \<Rightarrow> money_metadata option"

definition money_none :: money_metadata where
  "money_none = NoMoney MONEY_METADATA_VERSION"

text \<open>The random bytes are arguments.\<close>

definition money_fresh :: "nat list \<Rightarrow> nat list \<Rightarrow> string \<Rightarrow> int \<Rightarrow> money_metadata" where
  "money_fresh key effect fingerprint deadline =
     Mutation MONEY_METADATA_VERSION (''effect_'' @ hex effect) (''cermet_'' @ hex key) fingerprint deadline"

fun effect_id :: "money_metadata \<Rightarrow> string option" where
  "effect_id (NoMoney _) = None"
| "effect_id (Mutation _ e _ _ _) = Some e"
| "effect_id (Retry _ e _ _ _ _) = Some e"

fun idempotency_key :: "money_metadata \<Rightarrow> string option" where
  "idempotency_key (NoMoney _) = None"
| "idempotency_key (Mutation _ _ k _ _) = Some k"
| "idempotency_key (Retry _ _ k _ _ _) = Some k"

fun precondition_fingerprint :: "money_metadata \<Rightarrow> string option" where
  "precondition_fingerprint (NoMoney _) = None"
| "precondition_fingerprint (Mutation _ _ _ f _) = Some f"
| "precondition_fingerprint (Retry _ _ _ _ f _) = Some f"

fun retry_deadline_epoch :: "money_metadata \<Rightarrow> int option" where
  "retry_deadline_epoch (NoMoney _) = None"
| "retry_deadline_epoch (Mutation _ _ _ _ d) = Some d"
| "retry_deadline_epoch (Retry _ _ _ _ _ d) = Some d"

fun parent_grant_id :: "money_metadata \<Rightarrow> string option" where
  "parent_grant_id (Retry _ _ _ p _ _) = Some p"
| "parent_grant_id _ = None"

fun is_money :: "money_metadata \<Rightarrow> bool" where
  "is_money (NoMoney _) = False"
| "is_money _ = True"

fun is_retry :: "money_metadata \<Rightarrow> bool" where
  "is_retry (Retry _ _ _ _ _ _) = True"
| "is_retry _ = False"

definition money_retry :: "money_metadata \<Rightarrow> string \<Rightarrow> money_metadata option" where
  "money_retry m parent =
     Option.bind (effect_id m) (\<lambda>e.
     Option.bind (idempotency_key m) (\<lambda>k.
     Option.bind (precondition_fingerprint m) (\<lambda>f.
     Option.bind (retry_deadline_epoch m) (\<lambda>d.
       Some (Retry MONEY_METADATA_VERSION e k parent f d)))))"

definition is_ascii_hexdigit :: "char \<Rightarrow> bool" where
  "is_ascii_hexdigit c \<longleftrightarrow> is_lower_hexdigit c \<or> (65 \<le> code c \<and> code c \<le> 70)"

definition tagged_hex :: "string \<Rightarrow> nat \<Rightarrow> string \<Rightarrow> bool" where
  "tagged_hex tag n v = (case strip_prefix tag v of
      None \<Rightarrow> False
    | Some h \<Rightarrow> length (utf8 h) = n \<and> list_all is_ascii_hexdigit h)"

definition valid_effect_id :: "string \<Rightarrow> bool" where
  "valid_effect_id v = tagged_hex ''effect_'' 32 v"

definition valid_idempotency_key :: "string \<Rightarrow> bool" where
  "valid_idempotency_key v = tagged_hex ''cermet_'' 64 v"

definition valid_fingerprint :: "string \<Rightarrow> bool" where
  "valid_fingerprint v = tagged_hex ''sha256:'' 64 v"

datatype money_error =
    MoneyNotJson | MoneyNotCanonical | MoneyBadShape | MoneyBadVersion | MoneyMalformedField | MoneyBadParent

fun money_version :: "money_metadata \<Rightarrow> nat" where
  "money_version (NoMoney v) = v"
| "money_version (Mutation v _ _ _ _) = v"
| "money_version (Retry v _ _ _ _ _) = v"

fun private_fields_ok :: "money_metadata \<Rightarrow> bool" where
  "private_fields_ok (NoMoney _) = True"
| "private_fields_ok (Mutation _ e k f d) \<longleftrightarrow> valid_effect_id e \<and> valid_idempotency_key k \<and> valid_fingerprint f \<and> 0 \<le> d"
| "private_fields_ok (Retry _ e k p f d) \<longleftrightarrow> valid_effect_id e \<and> valid_idempotency_key k \<and> valid_fingerprint f \<and> 0 \<le> d"

definition money_to_canonical_json :: "json_lib \<Rightarrow> money_codec \<Rightarrow> money_metadata \<Rightarrow> string" where
  "money_to_canonical_json J mc m = canonical_json J (mc_to_value mc m)"

definition money_from_canonical_json :: "json_lib \<Rightarrow> money_codec \<Rightarrow> string \<Rightarrow> money_error + money_metadata" where
  "money_from_canonical_json J mc text =
     res_bind (ok_or MoneyNotJson (json_parse J text)) (\<lambda>value.
     if canonical_json J value \<noteq> text then Err MoneyNotCanonical
     else res_bind (ok_or MoneyBadShape (mc_from_value mc value)) (\<lambda>m.
     if money_version m \<noteq> MONEY_METADATA_VERSION then Err MoneyBadVersion
     else if \<not> private_fields_ok m then Err MoneyMalformedField
     else (case parent_grant_id m of
         Some p \<Rightarrow> if p = [] \<or> length (utf8 p) > 128 then Err MoneyBadParent else Ok m
       | None \<Rightarrow> Ok m)))"

section \<open>The row and its digest\<close>

record stored_grant =
  sg_request_id :: string
  sg_session :: string
  sg_provider :: string
  sg_action :: string
  sg_resource_json :: string
  sg_evidence_json :: string
  sg_money_json :: string
  sg_status :: grant_status
  sg_decision :: string
  sg_policy_fingerprint :: string
  sg_digest :: string
  sg_expiry :: "int option"
  sg_principal :: "string option"
  sg_template_hash :: "string option"
  sg_descriptor_hash :: string
  sg_approved_by_kind :: "string option"
  sg_approver :: "string option"
  sg_approved_at :: "string option"
  sg_lease_opened_at :: "int option"
  sg_lease_deadline :: "int option"

definition status_str :: "grant_status \<Rightarrow> string" where
  "status_str s = (case s of
      Requested \<Rightarrow> ''requested'' | Approved \<Rightarrow> ''approved'' | Denied \<Rightarrow> ''denied''
    | Executing \<Rightarrow> ''executing'' | Executed \<Rightarrow> ''executed'' | Expired \<Rightarrow> ''expired'')"

definition parse_status :: "string \<Rightarrow> grant_status option" where
  "parse_status s =
     (if s = ''requested'' then Some Requested else if s = ''approved'' then Some Approved
      else if s = ''denied'' then Some Denied else if s = ''executing'' then Some Executing
      else if s = ''executed'' then Some Executed else if s = ''expired'' then Some Expired else None)"

text \<open>\<^verbatim>\<open>to_le_bytes\<close> of an \<^verbatim>\<open>i64\<close>.\<close>

definition i64_le :: "int \<Rightarrow> nat list" where
  "i64_le n = le_bytes 8 (nat (n mod 2 ^ 64))"

definition when_some :: "string \<Rightarrow> string option \<Rightarrow> nat list" where
  "when_some tag v = (case v of None \<Rightarrow> [] | Some s \<Rightarrow> utf8 tag @ le_part s)"

definition expiry_part :: "int option \<Rightarrow> nat list" where
  "expiry_part v = (case v of None \<Rightarrow> [] | Some n \<Rightarrow> utf8 ''exp'' @ i64_le n)"

definition stamp_part :: "string \<Rightarrow> int option \<Rightarrow> nat list" where
  "stamp_part tag v = utf8 tag @ (case v of None \<Rightarrow> [0] | Some n \<Rightarrow> 1 # i64_le n)"

definition grant_preimage :: "string \<Rightarrow> stored_grant \<Rightarrow> string \<Rightarrow> int option \<Rightarrow> int option \<Rightarrow> nat list" where
  "grant_preimage gid g status opened deadline =
     utf8 ''cermet-grant-v8'' @ [0] @
     concat (map le_part [gid, sg_request_id g, sg_provider g, sg_action g, sg_resource_json g, sg_evidence_json g,
       sg_money_json g, sg_decision g, sg_policy_fingerprint g, status, sg_session g]) @
     utf8 ''dsc'' @ le_part (sg_descriptor_hash g) @ expiry_part (sg_expiry g) @
     when_some ''prin'' (sg_principal g) @ when_some ''tpl'' (sg_template_hash g) @
     when_some ''abk'' (sg_approved_by_kind g) @ when_some ''apr'' (sg_approver g) @ when_some ''aat'' (sg_approved_at g) @
     stamp_part ''lopn'' opened @ stamp_part ''ldl'' deadline"

record grant_keys =
  gk_hmac :: "nat list \<Rightarrow> nat list \<Rightarrow> nat list"
  gk_key :: "nat list"

definition grant_digest :: "grant_keys \<Rightarrow> string \<Rightarrow> stored_grant \<Rightarrow> string \<Rightarrow> int option \<Rightarrow> int option \<Rightarrow> string" where
  "grant_digest k gid g status opened deadline = hex (gk_hmac k (gk_key k) (grant_preimage gid g status opened deadline))"

definition redigest :: "grant_keys \<Rightarrow> string \<Rightarrow> stored_grant \<Rightarrow> string \<Rightarrow> string" where
  "redigest k gid g status = grant_digest k gid g status (sg_lease_opened_at g) (sg_lease_deadline g)"

definition redigest_leased :: "grant_keys \<Rightarrow> string \<Rightarrow> stored_grant \<Rightarrow> string \<Rightarrow> int \<Rightarrow> int \<Rightarrow> string" where
  "redigest_leased k gid g status opened deadline = grant_digest k gid g status (Some opened) (Some deadline)"

definition constant_time_eq :: "nat list \<Rightarrow> nat list \<Rightarrow> bool" where
  "constant_time_eq a b =
     (if length a \<noteq> length b then False else fold (\<lambda>(x, y) diff. diff OR (x XOR y)) (zip a b) 0 = 0)"

section \<open>The integrity check\<close>

text \<open>
  What the broker reads of the loaded template of an action: its content hash, whether it declares
  money, the fingerprint of its preconditions when the implementation is available, and its
  execution discipline.
\<close>

record template_facts =
  tf_content_hash :: string
  tf_is_money :: bool
  tf_precondition_fingerprint :: "string option"
  tf_mints_key :: bool
  tf_proves_effect :: bool
  tf_has_preconditions :: bool
  tf_request_evidence_id :: "string option"
  tf_relay :: bool

datatype integrity_error =
    TamperedStore string
  | MoneyUnreadable money_error
  | MoneyMismatch string
  | PreconditionUnavailable
  | PreconditionChanged string

definition assert_grant_integrity :: "grant_keys \<Rightarrow> json_lib \<Rightarrow> money_codec
    \<Rightarrow> (string \<Rightarrow> string \<Rightarrow> template_facts option) \<Rightarrow> string \<Rightarrow> stored_grant \<Rightarrow> integrity_error + unit" where
  "assert_grant_integrity k J mc templates gid g =
     (if \<not> constant_time_eq (utf8 (sg_digest g)) (utf8 (redigest k gid g (status_str (sg_status g))))
      then Err (TamperedStore gid)
      else (case money_from_canonical_json J mc (sg_money_json g) of
          Inl e \<Rightarrow> Err (MoneyUnreadable e)
        | Inr money \<Rightarrow>
            let loaded = templates (sg_provider g) (sg_action g);
                action_is_money = (case loaded of None \<Rightarrow> False | Some l \<Rightarrow> tf_is_money l) in
            if action_is_money \<noteq> is_money money then Err (MoneyMismatch gid)
            else (case opt_filter tf_is_money loaded of
                None \<Rightarrow> Ok ()
              | Some l \<Rightarrow>
                  (case tf_precondition_fingerprint l of
                     None \<Rightarrow> Err PreconditionUnavailable
                   | Some live \<Rightarrow>
                       if precondition_fingerprint money \<noteq> Some live then Err (PreconditionChanged gid) else Ok ()))))"

text \<open>The part of a row that the budget operations read.\<close>

definition grant_row_of :: "stored_grant \<Rightarrow> grant_row" where
  "grant_row_of g = \<lparr>gr_request_id = sg_request_id g, gr_status = sg_status g, gr_expiry_epoch = sg_expiry g,
     gr_lease_opened_at = sg_lease_opened_at g, gr_lease_deadline = sg_lease_deadline g\<rparr>"

section \<open>The digest covers the row\<close>

lemma xor_zero_iff: "(x XOR y = (0 :: nat)) \<longleftrightarrow> x = y"
  by (metis xor.assoc xor.right_neutral xor_self_eq xor.left_neutral)

lemma or_zero_iff: "((x :: nat) OR y = 0) \<longleftrightarrow> x = 0 \<and> y = 0"
  by (auto simp: bit_eq_iff bit_or_iff)

lemma constant_time_eq_iff: "constant_time_eq a b \<longleftrightarrow> a = b"
proof -
  have diff: "fold (\<lambda>(x, y) diff. diff OR (x XOR y)) zs d = 0 \<longleftrightarrow> d = (0 :: nat) \<and> (\<forall>(x, y) \<in> set zs. x = y)" for zs d
  proof (induction zs arbitrary: d)
    case (Cons z zs)
    then show ?case by (cases z) (simp add: or_zero_iff xor_zero_iff conj_assoc)
  qed simp
  have "length a = length b \<Longrightarrow> (\<forall>(x, y) \<in> set (zip a b). x = y) \<longleftrightarrow> a = b"
    by (induction a b rule: list_induct2) auto
  then show ?thesis by (auto simp: constant_time_eq_def diff)
qed

lemma i64_le_inj: "i64_le m = i64_le n \<Longrightarrow> in_i64 m \<Longrightarrow> in_i64 n \<Longrightarrow> m = n"
proof -
  assume eq: "i64_le m = i64_le n" and m: "in_i64 m" and n: "in_i64 n"
  have "nat (m mod 2 ^ 64) = nat (n mod 2 ^ 64)"
    using eq unfolding i64_le_def by (rule le_bytes_inj) (simp_all add: nat_less_iff)
  then have "m mod 2 ^ 64 = n mod 2 ^ 64" by simp
  then obtain j where j: "m - n = 2 ^ 64 * j" by (metis mod_eq_dvd_iff dvdE)
  with m n have "- 1 < j" "j < 1" by (simp_all add: in_i64_numeral)
  with j show "m = n" by simp
qed

lemma i64_le_length [simp]: "length (i64_le n) = 8"
  by (simp add: i64_le_def)

definition opt_in_i64 :: "int option \<Rightarrow> bool" where
  "opt_in_i64 v \<longleftrightarrow> (case v of None \<Rightarrow> True | Some n \<Rightarrow> in_i64 n)"

lemma when_some_inj:
  assumes "when_some tag u @ x = when_some tag v @ y" "short_opt u" "short_opt v"
    and "\<not> prefix (utf8 tag) x" "\<not> prefix (utf8 tag) y"
  shows "u = v \<and> x = y"
proof (cases u; cases v)
  fix s t
  assume "u = Some s" "v = Some t"
  with assms show ?thesis using le_part_inj[of s x t y] by (simp add: when_some_def short_opt_def)
qed (use assms in \<open>auto simp: when_some_def prefix_def\<close>)

lemma expiry_part_inj:
  assumes "expiry_part u @ x = expiry_part v @ y" "opt_in_i64 u" "opt_in_i64 v"
    and "\<not> prefix (utf8 ''exp'') x" "\<not> prefix (utf8 ''exp'') y"
  shows "u = v \<and> x = y"
proof (cases u; cases v)
  fix m n
  assume "u = Some m" "v = Some n"
  with assms show ?thesis using i64_le_inj[of m n] by (simp add: expiry_part_def opt_in_i64_def)
qed (use assms in \<open>auto simp: expiry_part_def prefix_def\<close>)

lemma stamp_part_inj:
  assumes "stamp_part tag u @ x = stamp_part tag v @ y" "opt_in_i64 u" "opt_in_i64 v"
  shows "u = v \<and> x = y"
  using assms i64_le_inj by (cases u; cases v) (auto simp: stamp_part_def opt_in_i64_def)

lemma tag_starts:
  "utf8 ''exp'' = [101, 120, 112]" "utf8 ''prin'' = [112, 114, 105, 110]" "utf8 ''tpl'' = [116, 112, 108]"
  "utf8 ''abk'' = [97, 98, 107]" "utf8 ''apr'' = [97, 112, 114]" "utf8 ''aat'' = [97, 97, 116]"
  "utf8 ''lopn'' = [108, 111, 112, 110]"
  by (simp_all add: utf8_def utf8_char_def)

lemma parts_inj:
  "length us = length vs \<Longrightarrow> concat (map le_part us) @ x = concat (map le_part vs) @ y \<Longrightarrow>
   list_all short us \<Longrightarrow> list_all short vs \<Longrightarrow> us = vs \<and> x = y"
proof (induction us vs rule: list_induct2)
  case (Cons u us v vs)
  then show ?case using le_part_inj[of u "concat (map le_part us) @ x" v "concat (map le_part vs) @ y"] by simp
qed simp

text \<open>Every column has a length and every stamp a range that its encoding can hold.\<close>

definition columns_fit :: "string \<Rightarrow> stored_grant \<Rightarrow> bool" where
  "columns_fit gid g \<longleftrightarrow>
     list_all short [gid, sg_request_id g, sg_provider g, sg_action g, sg_resource_json g, sg_evidence_json g,
       sg_money_json g, sg_decision g, sg_policy_fingerprint g, sg_session g, sg_descriptor_hash g] \<and>
     list_all short_opt [sg_principal g, sg_template_hash g, sg_approved_by_kind g, sg_approver g, sg_approved_at g] \<and>
     list_all opt_in_i64 [sg_expiry g, sg_lease_opened_at g, sg_lease_deadline g]"

lemma short_status: "short (status_str s)"
  by (cases s) (simp_all add: status_str_def short_def utf8_def utf8_char_def)

lemma status_str_inj: "status_str s = status_str s' \<Longrightarrow> s = s'"
  by (cases s; cases s') (simp_all add: status_str_def)

lemma no_tag_ahead:
  "\<not> prefix (utf8 ''aat'') (stamp_part ''lopn'' o1 @ d)"
  "\<not> prefix (utf8 ''apr'') (when_some ''aat'' c @ stamp_part ''lopn'' o1 @ d)"
  "\<not> prefix (utf8 ''abk'') (when_some ''apr'' b @ when_some ''aat'' c @ stamp_part ''lopn'' o1 @ d)"
  "\<not> prefix (utf8 ''tpl'') (when_some ''abk'' a @ when_some ''apr'' b @ when_some ''aat'' c @ stamp_part ''lopn'' o1 @ d)"
  "\<not> prefix (utf8 ''prin'') (when_some ''tpl'' t @ when_some ''abk'' a @ when_some ''apr'' b @ when_some ''aat'' c @ stamp_part ''lopn'' o1 @ d)"
  "\<not> prefix (utf8 ''exp'') (when_some ''prin'' p @ when_some ''tpl'' t @ when_some ''abk'' a @ when_some ''apr'' b @ when_some ''aat'' c @ stamp_part ''lopn'' o1 @ d)"
  unfolding when_some_def stamp_part_def tag_starts by (simp_all split: option.splits)

lemma preimage_inj:
  assumes eq: "grant_preimage gid g (status_str (sg_status g)) (sg_lease_opened_at g) (sg_lease_deadline g) =
      grant_preimage gid' h (status_str (sg_status h)) (sg_lease_opened_at h) (sg_lease_deadline h)"
    and fit: "columns_fit gid g" "columns_fit gid' h"
  shows "gid = gid' \<and> g\<lparr>sg_digest := []\<rparr> = h\<lparr>sg_digest := []\<rparr>"
proof -
  let ?cols = "\<lambda>gid g. [gid, sg_request_id g, sg_provider g, sg_action g, sg_resource_json g, sg_evidence_json g,
    sg_money_json g, sg_decision g, sg_policy_fingerprint g, status_str (sg_status g), sg_session g]"
  let ?t6 = "\<lambda>g. stamp_part ''lopn'' (sg_lease_opened_at g) @ stamp_part ''ldl'' (sg_lease_deadline g)"
  let ?t5 = "\<lambda>g. when_some ''aat'' (sg_approved_at g) @ ?t6 g"
  let ?t4 = "\<lambda>g. when_some ''apr'' (sg_approver g) @ ?t5 g"
  let ?t3 = "\<lambda>g. when_some ''abk'' (sg_approved_by_kind g) @ ?t4 g"
  let ?t2 = "\<lambda>g. when_some ''tpl'' (sg_template_hash g) @ ?t3 g"
  let ?t1 = "\<lambda>g. when_some ''prin'' (sg_principal g) @ ?t2 g"
  let ?t0 = "\<lambda>g. expiry_part (sg_expiry g) @ ?t1 g"
  note sh = fit[unfolded columns_fit_def]
  from eq have "concat (map le_part (?cols gid g)) @ utf8 ''dsc'' @ le_part (sg_descriptor_hash g) @ ?t0 g =
      concat (map le_part (?cols gid' h)) @ utf8 ''dsc'' @ le_part (sg_descriptor_hash h) @ ?t0 h"
    unfolding grant_preimage_def by (simp only: append_assoc same_append_eq)
  from parts_inj[OF _ this] have c: "?cols gid g = ?cols gid' h" "le_part (sg_descriptor_hash g) @ ?t0 g = le_part (sg_descriptor_hash h) @ ?t0 h"
    using sh short_status by auto
  from le_part_inj[OF c(2)] have d: "sg_descriptor_hash g = sg_descriptor_hash h" "?t0 g = ?t0 h" using sh by auto
  from expiry_part_inj[OF d(2)] have e: "sg_expiry g = sg_expiry h" "?t1 g = ?t1 h" using sh no_tag_ahead by auto
  from when_some_inj[OF e(2)] have p: "sg_principal g = sg_principal h" "?t2 g = ?t2 h" using sh no_tag_ahead by auto
  from when_some_inj[OF p(2)] have t: "sg_template_hash g = sg_template_hash h" "?t3 g = ?t3 h" using sh no_tag_ahead by auto
  from when_some_inj[OF t(2)] have k: "sg_approved_by_kind g = sg_approved_by_kind h" "?t4 g = ?t4 h" using sh no_tag_ahead by auto
  from when_some_inj[OF k(2)] have r: "sg_approver g = sg_approver h" "?t5 g = ?t5 h" using sh no_tag_ahead by auto
  from when_some_inj[OF r(2)] have a: "sg_approved_at g = sg_approved_at h" "?t6 g = ?t6 h" using sh no_tag_ahead by auto
  from stamp_part_inj[OF a(2)] have s: "sg_lease_opened_at g = sg_lease_opened_at h"
    "stamp_part ''ldl'' (sg_lease_deadline g) @ [] = stamp_part ''ldl'' (sg_lease_deadline h) @ []" using sh by auto
  from stamp_part_inj[OF s(2)] have l: "sg_lease_deadline g = sg_lease_deadline h" using sh by auto
  have "sg_status g = sg_status h" using c(1) by (intro status_str_inj) simp
  with c(1) d(1) e(1) p(1) t(1) k(1) r(1) a(1) s(1) l show ?thesis by simp
qed

text \<open>
  C10. The digest identifies the row. Two rows that both pass the integrity check under one key and
  carry the same digest are the same row under the same identifier, in every column: status, expiry,
  principal, authority digest, template and descriptor hash, approval and both lease stamps. So an edit
  of any signed column of a stored grant, a removed stamp included, or a digest copied to another row
  is refused, unless the keyed hash collides on the two inputs.
\<close>

theorem grant_digest_binds_row:
  assumes "assert_grant_integrity k J mc templates gid g = Ok ()" "assert_grant_integrity k J' mc' templates' gid' h = Ok ()"
    and "sg_digest g = sg_digest h" "columns_fit gid g" "columns_fit gid' h"
    and "\<forall>x. \<forall>b \<in> set (gk_hmac k (gk_key k) x). b < 256"
    and "\<forall>x y. {x, y} \<subseteq> {grant_preimage gid g (status_str (sg_status g)) (sg_lease_opened_at g) (sg_lease_deadline g),
           grant_preimage gid' h (status_str (sg_status h)) (sg_lease_opened_at h) (sg_lease_deadline h)} \<longrightarrow>
         gk_hmac k (gk_key k) x = gk_hmac k (gk_key k) y \<longrightarrow> x = y"
  shows "gid = gid' \<and> g = h"
proof -
  have "sg_digest g = redigest k gid g (status_str (sg_status g))" "sg_digest h = redigest k gid' h (status_str (sg_status h))"
    using assms(1,2) utf8_inj by (auto simp: assert_grant_integrity_def constant_time_eq_iff split: if_splits)
  with assms(3) have "hex (gk_hmac k (gk_key k) (grant_preimage gid g (status_str (sg_status g)) (sg_lease_opened_at g) (sg_lease_deadline g))) =
      hex (gk_hmac k (gk_key k) (grant_preimage gid' h (status_str (sg_status h)) (sg_lease_opened_at h) (sg_lease_deadline h)))"
    by (simp add: redigest_def grant_digest_def)
  then have "gk_hmac k (gk_key k) (grant_preimage gid g (status_str (sg_status g)) (sg_lease_opened_at g) (sg_lease_deadline g)) =
      gk_hmac k (gk_key k) (grant_preimage gid' h (status_str (sg_status h)) (sg_lease_opened_at h) (sg_lease_deadline h))"
    using hex_inj assms(6) by blast
  then have "gid = gid' \<and> g\<lparr>sg_digest := []\<rparr> = h\<lparr>sg_digest := []\<rparr>" using preimage_inj assms(4,5,7) by blast
  with assms(3) show ?thesis by (cases g; cases h) simp
qed

text \<open>A row that a transition re-signs passes the digest half of the check again.\<close>

lemma resigned:
  "redigest k gid (g\<lparr>sg_status := s, sg_digest := d\<rparr>) st = redigest k gid g st"
  "redigest k gid (g\<lparr>sg_status := s, sg_digest := d, sg_lease_opened_at := Some o1, sg_lease_deadline := Some o2\<rparr>) st =
     redigest_leased k gid g st o1 o2"
  by (simp_all add: redigest_def redigest_leased_def grant_digest_def grant_preimage_def)

lemma parse_status_str [simp]: "parse_status (status_str s) = Some s"
  by (cases s) (simp_all add: parse_status_def status_str_def)

text \<open>The metadata of an effect survives storage, and a retry keeps its effect and its key.\<close>

lemma money_round_trip:
  assumes "mc_from_value mc (mc_to_value mc m) = Some m" "json_parse J (money_to_canonical_json J mc m) = Some (mc_to_value mc m)"
    and "money_version m = MONEY_METADATA_VERSION" "private_fields_ok m"
    and "\<forall>p. parent_grant_id m = Some p \<longrightarrow> p \<noteq> [] \<and> length (utf8 p) \<le> 128"
  shows "money_from_canonical_json J mc (money_to_canonical_json J mc m) = Ok m"
  using assms by (auto simp: money_from_canonical_json_def money_to_canonical_json_def split: option.splits)

lemma retry_keeps_the_effect:
  "money_retry m parent = Some r \<Longrightarrow> effect_id r = effect_id m \<and> idempotency_key r = idempotency_key m \<and>
     precondition_fingerprint r = precondition_fingerprint m \<and> retry_deadline_epoch r = retry_deadline_epoch m \<and>
     parent_grant_id r = Some parent"
  by (cases m) (auto simp: money_retry_def)

section \<open>Witness\<close>

definition plain_keys :: grant_keys where
  "plain_keys = \<lparr>gk_hmac = (\<lambda>key x. map (\<lambda>b. b mod 256) x), gk_key = []\<rparr>"

definition plain_money :: money_codec where
  "plain_money = \<lparr>mc_to_value = (\<lambda>m. JNull), mc_from_value = (\<lambda>v. Some money_none)\<rparr>"

definition null_json :: json_lib where
  "null_json = \<lparr>json_parse = (\<lambda>t. Some JNull), json_print = (\<lambda>v. ''null'')\<rparr>"

definition unsigned_grant :: stored_grant where
  "unsigned_grant = \<lparr>sg_request_id = ''req_1'', sg_session = ''s1'', sg_provider = ''pay'', sg_action = ''send'',
     sg_resource_json = ''{}'', sg_evidence_json = ''{}'', sg_money_json = ''null'', sg_status = Approved,
     sg_decision = ''allow'', sg_policy_fingerprint = ''d1'', sg_digest = [], sg_expiry = Some 605, sg_principal = None,
     sg_template_hash = None, sg_descriptor_hash = ''h'', sg_approved_by_kind = Some ''sentence'', sg_approver = None,
     sg_approved_at = Some ''noon'', sg_lease_opened_at = None, sg_lease_deadline = None\<rparr>"

definition sample_grant :: stored_grant where
  "sample_grant = unsigned_grant\<lparr>sg_digest := redigest plain_keys ''g1'' unsigned_grant ''approved''\<rparr>"

lemma utf8_bytes: "b \<in> set (utf8 s) \<Longrightarrow> b < 256"
proof -
  have "b < 256" if "b \<in> set (utf8_char c)" for c
  proof -
    have "code c < 256" using of_char_mod_256[of c, where ?'a = nat] by (metis mod_less_divisor zero_less_numeral)
    then have "code c div 64 < 4" by (rule less_mult_imp_div_less[of _ 4 64, simplified])
    with that show ?thesis by (auto simp: utf8_char_def split: if_splits)
  qed
  then show "b \<in> set (utf8 s) \<Longrightarrow> b < 256" by (auto simp: utf8_def)
qed

lemma le_bytes_bytes: "b \<in> set (le_bytes w n) \<Longrightarrow> b < 256"
  by (induction w arbitrary: n) auto

lemma preimage_bytes: "b \<in> set (grant_preimage gid g st o1 o2) \<Longrightarrow> b < 256"
  unfolding grant_preimage_def le_part_def when_some_def expiry_part_def stamp_part_def i64_le_def
  using utf8_bytes le_bytes_bytes by (auto split: option.splits)

lemma sample_integrity: "assert_grant_integrity plain_keys null_json plain_money (\<lambda>_ _. None) ''g1'' sample_grant = Ok ()"
proof -
  have "sg_digest sample_grant = redigest plain_keys ''g1'' sample_grant (status_str (sg_status sample_grant))"
    by (simp add: sample_grant_def unsigned_grant_def status_str_def redigest_def grant_digest_def grant_preimage_def)
  moreover have "money_from_canonical_json null_json plain_money (sg_money_json sample_grant) = Ok money_none"
    by (simp add: money_from_canonical_json_def null_json_def plain_money_def sample_grant_def unsigned_grant_def
        money_none_def)
  ultimately show ?thesis by (simp add: assert_grant_integrity_def constant_time_eq_iff money_none_def)
qed

lemma sample_fits: "columns_fit ''g1'' sample_grant" "columns_fit ''g1'' (sample_grant\<lparr>sg_expiry := Some 700\<rparr>)"
  by (simp_all add: columns_fit_def sample_grant_def unsigned_grant_def short_def short_opt_def opt_in_i64_def in_i64_numeral
      utf8_def utf8_char_def)

theorem grant_digest_binds_row_witness:
  "\<not> is_ok (assert_grant_integrity plain_keys null_json plain_money (\<lambda>_ _. None) ''g1'' (sample_grant\<lparr>sg_expiry := Some 700\<rparr>))"
proof
  assume "is_ok (assert_grant_integrity plain_keys null_json plain_money (\<lambda>_ _. None) ''g1'' (sample_grant\<lparr>sg_expiry := Some 700\<rparr>))"
  then have ok: "assert_grant_integrity plain_keys null_json plain_money (\<lambda>_ _. None) ''g1'' (sample_grant\<lparr>sg_expiry := Some 700\<rparr>) = Ok ()"
    unfolding is_ok_iff by auto
  have "gk_hmac plain_keys (gk_key plain_keys) (grant_preimage gid g st o1 o2) = grant_preimage gid g st o1 o2" for gid g st o1 o2
    unfolding plain_keys_def grant_keys.simps by (rule map_idI) (use preimage_bytes in force)
  then have free: "\<forall>x y. {x, y} \<subseteq> {grant_preimage gid g st o1 o2, grant_preimage gid' h st' o3 o4} \<longrightarrow>
      gk_hmac plain_keys (gk_key plain_keys) x = gk_hmac plain_keys (gk_key plain_keys) y \<longrightarrow> x = y"
    for gid g st o1 o2 gid' h st' o3 o4 by auto
  have bytes: "\<forall>x. \<forall>b \<in> set (gk_hmac plain_keys (gk_key plain_keys) x). b < 256" by (simp add: plain_keys_def)
  have "sample_grant = sample_grant\<lparr>sg_expiry := Some 700\<rparr>"
    using grant_digest_binds_row[OF sample_integrity ok _ sample_fits bytes free] by simp
  then have "sg_expiry sample_grant = Some 700" by (metis stored_grant.select_convs(12) stored_grant.surjective stored_grant.update_convs(12))
  then show False by (simp add: sample_grant_def unsigned_grant_def)
qed

end
