(* ===== verification/Money_Lineage.thy ===== *)
theory Money_Lineage
  imports Grant_Record
begin

text \<open>
  Reading the outcome of a tracked effect back from the log, \<^verbatim>\<open>crates/cermet-core/src/broker/mint.rs\<close>: the
  exact schemas of the two evidence rows, the ancestry of a retried grant through its signed links, and
  the outcome of one grant and of the whole effect. Every reader fails closed: a row that claims the
  effect and does not fit is an error, not an absence.

  The evidence envelope of a grant comes from \<^verbatim>\<open>evidence.rs\<close>; its derived reader is a parameter, as for
  the money metadata. SQLite's \<^verbatim>\<open>LIKE\<close> on a column is a parameter, the pattern first.
\<close>

section \<open>The environment of a reader\<close>

record envelope_field =
  ef_source :: string
  ef_value :: json

record envelope_source =
  ens_id :: string
  ens_kind :: string

record resolved_evidence =
  re_version :: nat
  re_credential_generation :: string
  re_fields :: "(string, envelope_field) btree"
  re_mint_deadline_epoch :: int
  re_oldest_observed_at_epoch :: int
  re_profile :: string
  re_profile_fingerprint :: string
  re_receipt_event_hash :: string
  re_receipt_id :: string
  re_resolution_digest :: string
  re_sources :: "envelope_source list"

datatype evidence_envelope = NoEvidence nat | ProviderResolved resolved_evidence

definition EVIDENCE_ENVELOPE_VERSION :: nat where "EVIDENCE_ENVELOPE_VERSION = 1"

record lineage_env =
  ee_keys :: grant_keys
  ee_json :: json_lib
  ee_money :: money_codec
  ee_templates :: "string \<Rightarrow> string \<Rightarrow> template_facts option"
  ee_descriptors :: "string \<Rightarrow> string option"
  ee_evidence_of :: "json \<Rightarrow> evidence_envelope option"
  ee_verified :: "audit_row list \<Rightarrow> bool"
  ee_like_text :: "string \<Rightarrow> string \<Rightarrow> bool"

datatype lineage_error =
    LineageUnavailable
  | LineageIntegrity string
  | LineageGrant integrity_error
  | LineageLog gate_fault
  | LineageNoGrant string

definition evidence_from_canonical_json :: "('z lineage_env_scheme) \<Rightarrow> string \<Rightarrow> lineage_error + evidence_envelope" where
  "evidence_from_canonical_json env text =
     res_bind (ok_or (LineageIntegrity ''evidence envelope is not valid JSON'') (json_parse (ee_json env) text)) (\<lambda>value.
     if canonical_json (ee_json env) value \<noteq> text then Err (LineageIntegrity ''evidence envelope is not canonical JSON'')
     else res_bind (ok_or (LineageIntegrity ''evidence envelope has an invalid shape'') (ee_evidence_of env value)) (\<lambda>envelope.
     if (case envelope of NoEvidence v \<Rightarrow> v | ProviderResolved p \<Rightarrow> re_version p) = EVIDENCE_ENVELOPE_VERSION then Ok envelope
     else Err (LineageIntegrity ''evidence envelope has an unsupported version'')))"

definition check_grant :: "('z lineage_env_scheme) \<Rightarrow> string \<Rightarrow> stored_grant \<Rightarrow> lineage_error + unit" where
  "check_grant env gid g = map_sum LineageGrant (\<lambda>u. u)
     (assert_grant_integrity (ee_keys env) (ee_json env) (ee_money env) (ee_templates env) gid g)"

definition money_of :: "('z lineage_env_scheme) \<Rightarrow> stored_grant \<Rightarrow> lineage_error + money_metadata" where
  "money_of env g = map_sum (LineageGrant \<circ> MoneyUnreadable) (\<lambda>m. m)
     (money_from_canonical_json (ee_json env) (ee_money env) (sg_money_json g))"

section \<open>One link of a lineage\<close>

record retry_node =
  rn_id :: string
  rn_grant :: stored_grant
  rn_money :: money_metadata

datatype retry_state = RetryAmbiguous | RetryPreEffect | RetryFinal

definition same_evidence :: "evidence_envelope \<Rightarrow> evidence_envelope \<Rightarrow> bool" where
  "same_evidence child parent = (case (child, parent) of
      (NoEvidence _, NoEvidence _) \<Rightarrow> True
    | (ProviderResolved c, ProviderResolved p) \<Rightarrow>
        re_profile c = re_profile p \<and> re_profile_fingerprint c = re_profile_fingerprint p
    | _ \<Rightarrow> False)"

definition validate_retry_transition :: "('z lineage_env_scheme) \<Rightarrow> retry_node \<Rightarrow> retry_node \<Rightarrow> lineage_error + unit" where
  "validate_retry_transition env child parent =
     res_bind (evidence_from_canonical_json env (sg_evidence_json (rn_grant child))) (\<lambda>ce.
     res_bind (evidence_from_canonical_json env (sg_evidence_json (rn_grant parent))) (\<lambda>pe.
     if parent_grant_id (rn_money child) \<noteq> Some (rn_id parent) \<or>
        effect_id (rn_money child) \<noteq> effect_id (rn_money parent) \<or>
        idempotency_key (rn_money child) \<noteq> idempotency_key (rn_money parent) \<or>
        precondition_fingerprint (rn_money child) \<noteq> precondition_fingerprint (rn_money parent) \<or>
        retry_deadline_epoch (rn_money child) \<noteq> retry_deadline_epoch (rn_money parent) \<or>
        sg_principal (rn_grant child) \<noteq> sg_principal (rn_grant parent) \<or>
        sg_provider (rn_grant child) \<noteq> sg_provider (rn_grant parent) \<or>
        sg_action (rn_grant child) \<noteq> sg_action (rn_grant parent) \<or>
        sg_resource_json (rn_grant child) \<noteq> sg_resource_json (rn_grant parent) \<or>
        sg_template_hash (rn_grant child) \<noteq> sg_template_hash (rn_grant parent) \<or>
        sg_descriptor_hash (rn_grant child) \<noteq> sg_descriptor_hash (rn_grant parent) \<or>
        \<not> same_evidence ce pe
     then Err LineageUnavailable else Ok ()))"

section \<open>The two evidence rows\<close>

definition exact_retry_event_object :: "json \<Rightarrow> string list \<Rightarrow> string list \<Rightarrow> lineage_error + (string \<times> json) list" where
  "exact_retry_event_object event required optional = (case event of
      JObject es \<Rightarrow>
        if \<not> set required \<subseteq> set (map fst es) \<or> \<not> set (map fst es) \<subseteq> set required \<union> set optional
        then Err (LineageIntegrity ''money retry event has a malformed schema'') else Ok es
    | _ \<Rightarrow> Err (LineageIntegrity ''money retry event is not an object''))"

definition retry_event_str :: "(string \<times> json) list \<Rightarrow> string \<Rightarrow> lineage_error + string" where
  "retry_event_str es field =
     ok_or (LineageIntegrity (''money retry event has invalid '' @ field))
       (opt_filter (\<lambda>v. v \<noteq> []) (Option.bind (map_of es field) as_str))"

text \<open>All of the named fields have the given values; the first that is unreadable is the error.\<close>

fun fields_match :: "(string \<times> json) list \<Rightarrow> (string \<times> string) list \<Rightarrow> lineage_error + bool" where
  "fields_match es [] = Ok True"
| "fields_match es ((field, v) # rest) =
     res_bind (retry_event_str es field) (\<lambda>s. if s \<noteq> v then Ok False else fields_match es rest)"

definition effect_start_resource_binding :: "('z lineage_env_scheme) \<Rightarrow> string \<Rightarrow> stored_grant \<Rightarrow> json \<Rightarrow> string" where
  "effect_start_resource_binding env gid g recorded =
     ''hmac-sha256:'' @ hex (gk_hmac (ee_keys env) (gk_key (ee_keys env))
       (utf8 ''cermet-effect-start-resource-v1'' @ [0] @
        concat (map le_part [gid, sg_resource_json g, canonical_json (ee_json env) recorded])))"

definition START_KEYS :: "string list" where
  "START_KEYS = [''grant_id'', ''request_id'', ''provider'', ''action'', ''authority_digest'', ''resource'',
     ''resource_binding'', ''agent_request_fields'', ''provider_resolved_fields'', ''request_session'',
     ''executing_session'', ''evidence_receipt_id'', ''evidence_resolution_digest'', ''effect_id'']"

definition agent_fields :: "json \<Rightarrow> string list \<Rightarrow> json list" where
  "agent_fields resource provider_fields = (case resource of
      JObject es \<Rightarrow> map JString (filter (\<lambda>k. k \<notin> set provider_fields) (map fst es))
    | _ \<Rightarrow> [])"

definition node_effect :: "retry_node \<Rightarrow> string" where
  "node_effect n = (case effect_id (rn_money n) of None \<Rightarrow> [] | Some e \<Rightarrow> e)"

definition validate_money_effect_start :: "('z lineage_env_scheme) \<Rightarrow> retry_node \<Rightarrow> json \<Rightarrow> lineage_error + string" where
  "validate_money_effect_start env node event =
     (let g = rn_grant node; mismatch = LineageIntegrity ''money effect start does not match its grant and effect'' in
      res_bind (exact_retry_event_object event START_KEYS []) (\<lambda>obj.
      res_bind (evidence_from_canonical_json env (sg_evidence_json g)) (\<lambda>envelope.
      case envelope of
        NoEvidence _ \<Rightarrow> Err (LineageIntegrity ''money effect start has no provider evidence'')
      | ProviderResolved evidence \<Rightarrow>
      res_bind (ok_or (LineageIntegrity ''money grant resource is malformed'') (json_parse (ee_json env) (sg_resource_json g))) (\<lambda>resource.
      res_bind (retry_event_str obj ''executing_session'') (\<lambda>executing.
      res_bind (fields_match obj
         [(''grant_id'', rn_id node), (''request_id'', sg_request_id g), (''effect_id'', node_effect node),
          (''provider'', sg_provider g), (''action'', sg_action g), (''authority_digest'', sg_policy_fingerprint g),
          (''request_session'', sg_session g), (''evidence_receipt_id'', re_receipt_id evidence),
          (''evidence_resolution_digest'', re_resolution_digest evidence)]) (\<lambda>same.
      if \<not> same then Err mismatch
      else res_bind (retry_event_str obj ''resource_binding'') (\<lambda>binding.
      res_bind (ok_or (LineageIntegrity ''money effect start has no resource'') (map_of obj ''resource'')) (\<lambda>recorded.
      if binding \<noteq> effect_start_resource_binding env (rn_id node) g recorded \<or>
         map_of obj ''agent_request_fields'' \<noteq> Some (JArray (agent_fields resource (map fst (re_fields evidence)))) \<or>
         map_of obj ''provider_resolved_fields'' \<noteq> Some (JArray (map (JString \<circ> fst) (re_fields evidence)))
      then Err mismatch else Ok executing))))))))"

definition TERMINAL_COMMON :: "string list" where
  "TERMINAL_COMMON = [''grant_id'', ''request_id'', ''provider'', ''action'', ''outcome'', ''mutation_invoked'',
     ''request_session'', ''executing_session'', ''effect_id'', ''effect_outcome'']"

definition OPTIONAL_RESPONSE :: "string list" where
  "OPTIONAL_RESPONSE = [''executing_pid'', ''artifact'', ''digest'', ''wire_stats'', ''retention_error'', ''envelope'',
     ''failure_class'', ''effect_proof'']"

definition OPTIONAL_ERROR :: "string list" where
  "OPTIONAL_ERROR = [''executing_pid'', ''transport_error'', ''attempted_at'', ''failure_class'']"

definition PRE_EFFECT_OUTCOMES :: "string list" where
  "PRE_EFFECT_OUTCOMES = [''lockdown_engaged'', ''authority_changed'', ''authority_unavailable'',
     ''precondition_credential_unavailable'', ''precondition_denied'']"

definition blank_text :: "json \<Rightarrow> bool" where
  "blank_text v = (case as_str v of None \<Rightarrow> True | Some s \<Rightarrow> s = [])"

definition some_is :: "(json \<Rightarrow> bool) \<Rightarrow> json option \<Rightarrow> bool" where
  "some_is P v = (case v of None \<Rightarrow> False | Some j \<Rightarrow> P j)"

definition wire_stats_ok :: "json \<Rightarrow> bool" where
  "wire_stats_ok v = (case v of
      JObject es \<Rightarrow>
        set (map fst es) = {''kept_bytes'', ''total_bytes''} \<and>
        (case (Option.bind (map_of es ''total_bytes'') as_u64, Option.bind (map_of es ''kept_bytes'') as_u64) of
           (Some sent, Some kept) \<Rightarrow> kept \<le> sent
         | _ \<Rightarrow> False)
    | _ \<Rightarrow> False)"

definition terminal_state :: "string \<Rightarrow> (string \<times> json) list \<Rightarrow> bool \<Rightarrow> bool \<Rightarrow> bool \<Rightarrow> string \<Rightarrow> string
    \<Rightarrow> lineage_error + retry_state" where
  "terminal_state ty obj has_error has_result invoked outcome effect =
     (if has_error then
        (if ty \<noteq> ''provider_action_failed'' \<or> outcome \<noteq> ''error'' \<or> \<not> is_ok (retry_event_str obj ''error'')
         then Err (LineageIntegrity ''money error terminal is inconsistent'')
         else if invoked \<and> effect = ''ambiguous'' then Ok RetryAmbiguous
         else if \<not> invoked \<and> effect = ''definitely_pre_effect'' then Ok RetryPreEffect
         else Err (LineageIntegrity ''money error terminal has an invalid outcome class''))
      else if has_result then
        (if ty = ''provider_action_succeeded'' \<and> outcome = ''ok'' \<and> invoked \<and> effect = ''succeeded'' then Ok RetryFinal
         else if ty = ''provider_action_failed'' \<and> outcome = ''provider_error'' \<and> invoked \<and> effect = ''ambiguous''
         then Ok RetryAmbiguous
         else if ty = ''provider_action_failed'' \<and> outcome = ''provider_error'' \<and> invoked \<and> effect = ''definitely_failed''
         then Ok RetryFinal
         else Err (LineageIntegrity ''money response terminal has an invalid outcome class''))
      else if ty \<noteq> ''provider_action_failed'' \<or> invoked \<or> effect \<noteq> ''definitely_pre_effect'' \<or>
              outcome \<notin> set PRE_EFFECT_OUTCOMES
      then Err (LineageIntegrity ''money pre-effect terminal has an invalid outcome class'')
      else Ok RetryPreEffect)"

definition optional_evidence_ok :: "(string \<times> json) list \<Rightarrow> bool" where
  "optional_evidence_ok obj \<longleftrightarrow>
     \<not> some_is (\<lambda>v. as_i64 v = None) (map_of obj ''executing_pid'') \<and>
     \<not> some_is blank_text (map_of obj ''retention_error'')"

definition artifact_evidence_ok :: "(string \<times> json) list \<Rightarrow> bool" where
  "artifact_evidence_ok obj \<longleftrightarrow>
     (map_of obj ''artifact'' \<noteq> None) = (map_of obj ''digest'' \<noteq> None) \<and>
     \<not> some_is blank_text (map_of obj ''artifact'') \<and> \<not> some_is blank_text (map_of obj ''digest'') \<and>
     \<not> (map_of obj ''retention_error'' \<noteq> None \<and> map_of obj ''artifact'' \<noteq> None)"

definition validate_money_terminal :: "retry_node \<Rightarrow> string \<Rightarrow> json \<Rightarrow> lineage_error + retry_state \<times> bool \<times> string \<times> bool" where
  "validate_money_terminal node ty event =
     (let g = rn_grant node; has_error = (jget event ''error'' \<noteq> None); has_result = (jget event ''result'' \<noteq> None) in
      if has_error \<and> has_result then Err (LineageIntegrity ''money terminal mixes error and result schemas'')
      else res_bind (exact_retry_event_object event
             (TERMINAL_COMMON @ (if has_error then [''error''] else if has_result then [''result''] else []))
             (if has_error then OPTIONAL_ERROR else if has_result then OPTIONAL_RESPONSE else [])) (\<lambda>obj.
      res_bind (retry_event_str obj ''executing_session'') (\<lambda>executing.
      res_bind (fields_match obj
         [(''grant_id'', rn_id node), (''request_id'', sg_request_id g), (''effect_id'', node_effect node),
          (''provider'', sg_provider g), (''action'', sg_action g), (''request_session'', sg_session g)]) (\<lambda>same.
      if \<not> same then Err (LineageIntegrity ''money terminal does not match its grant and effect'')
      else if \<not> optional_evidence_ok obj then Err (LineageIntegrity ''money terminal has malformed optional evidence'')
      else if \<not> artifact_evidence_ok obj then Err (LineageIntegrity ''money terminal has malformed artifact evidence'')
      else if some_is (\<lambda>v. \<not> wire_stats_ok v) (map_of obj ''wire_stats'')
      then Err (LineageIntegrity ''money terminal has malformed wire statistics'')
      else res_bind (ok_or (LineageIntegrity ''money terminal has invalid invocation state'')
             (Option.bind (map_of obj ''mutation_invoked'') as_bool)) (\<lambda>invoked.
      res_bind (retry_event_str obj ''outcome'') (\<lambda>outcome.
      res_bind (retry_event_str obj ''effect_outcome'') (\<lambda>effect.
      if has_result \<and> (map_of obj ''artifact'' \<noteq> None \<or> map_of obj ''wire_stats'' \<noteq> None \<or> map_of obj ''retention_error'' \<noteq> None)
      then Err (LineageIntegrity ''money terminal carries impossible response retention'')
      else res_bind (terminal_state ty obj has_error has_result invoked outcome effect) (\<lambda>state.
      Ok (state, invoked, executing, has_error \<or> has_result)))))))))"

section \<open>Ancestry\<close>

definition load_node :: "(string \<rightharpoonup> stored_grant) \<Rightarrow> string \<Rightarrow> lineage_error + stored_grant" where
  "load_node grants gid = ok_or (LineageNoGrant gid) (grants gid)"

definition parent_node :: "('z lineage_env_scheme) \<Rightarrow> (string \<rightharpoonup> stored_grant) \<Rightarrow> string \<Rightarrow> retry_node \<Rightarrow> lineage_error + retry_node" where
  "parent_node env grants effect node =
     res_bind (ok_or (LineageIntegrity ''money retry has no parent grant'') (parent_grant_id (rn_money node))) (\<lambda>pid.
     res_bind (load_node grants pid) (\<lambda>g.
     res_bind (check_grant env pid g) (\<lambda>_.
     res_bind (money_of env g) (\<lambda>money.
     if effect_id money \<noteq> Some effect then Err (LineageIntegrity ''money retry parent has the wrong effect'')
     else let parent = \<lparr>rn_id = pid, rn_grant = g, rn_money = money\<rparr> in
          res_bind (validate_retry_transition env node parent) (\<lambda>_. Ok parent)))))"

definition MAX_LINEAGE :: nat where "MAX_LINEAGE = 32"

function ancestry_loop :: "('z lineage_env_scheme) \<Rightarrow> (string \<rightharpoonup> stored_grant) \<Rightarrow> string \<Rightarrow> string list \<Rightarrow> retry_node
    \<Rightarrow> string list option" where
  "ancestry_loop env grants effect seen node =
     (if \<not> is_ok (check_grant env (rn_id node) (rn_grant node)) then None
      else if MAX_LINEAGE \<le> length seen \<or> rn_id node \<in> set seen then None
      else if \<not> is_retry (rn_money node) then Some (seen @ [rn_id node])
      else (case parent_node env grants effect node of
          Inl _ \<Rightarrow> None
        | Inr parent \<Rightarrow> ancestry_loop env grants effect (seen @ [rn_id node]) parent))"
  by pat_completeness auto
termination by (relation "measure (\<lambda>(_, _, _, seen, _). MAX_LINEAGE - length seen)") auto

declare ancestry_loop.simps [simp del]

definition authenticated_retry_ancestry :: "('z lineage_env_scheme) \<Rightarrow> (string \<rightharpoonup> stored_grant) \<Rightarrow> retry_node \<Rightarrow> string list option" where
  "authenticated_retry_ancestry env grants start =
     Option.bind (effect_id (rn_money start)) (\<lambda>effect. ancestry_loop env grants effect [] start)"

definition authenticated_retry_lineage_intersects :: "('z lineage_env_scheme) \<Rightarrow> (string \<rightharpoonup> stored_grant) \<Rightarrow> retry_node
    \<Rightarrow> string list \<Rightarrow> string \<Rightarrow> bool" where
  "authenticated_retry_lineage_intersects env grants target target_ids other =
     (if other \<in> set target_ids then True
      else (case res_bind (load_node grants other) (\<lambda>g.
                 res_bind (check_grant env other g) (\<lambda>_.
                 res_bind (money_of env g) (\<lambda>money. Ok (g, money)))) of
          Inl _ \<Rightarrow> False
        | Inr (g, money) \<Rightarrow>
            if effect_id money \<noteq> effect_id (rn_money target) then False
            else (case authenticated_retry_ancestry env grants \<lparr>rn_id = other, rn_grant = g, rn_money = money\<rparr> of
                None \<Rightarrow> False
              | Some ids \<Rightarrow> \<not> list_all (\<lambda>i. i \<notin> set target_ids) ids)))"

section \<open>The evidence of one grant\<close>

definition effect_row :: "audit_row \<Rightarrow> bool" where
  "effect_row r \<longleftrightarrow> ar_type r = ''capability_effect_starting'' \<or> ar_type r = ''provider_action_succeeded'' \<or>
     ar_type r = ''provider_action_failed''"

definition money_retry_rows :: "('z lineage_env_scheme) \<Rightarrow> audit_row list \<Rightarrow> string \<Rightarrow> string \<Rightarrow> string
    \<Rightarrow> lineage_error + audit_row list" where
  "money_retry_rows env log gid req effect =
     (if \<not> ee_verified env log then Err (LineageLog ChainNotIntact)
      else Ok (filter (\<lambda>r. effect_row r \<and> (jstr (ar_data r) ''grant_id'' = Some gid \<or>
             jstr (ar_data r) ''request_id'' = Some req \<or> jstr (ar_data r) ''effect_id'' = Some effect)) log))"

definition verified_money_events_for_node :: "('z lineage_env_scheme) \<Rightarrow> (string \<rightharpoonup> stored_grant) \<Rightarrow> audit_row list
    \<Rightarrow> retry_node \<Rightarrow> lineage_error + audit_row list" where
  "verified_money_events_for_node env grants log node =
     res_bind (ok_or (LineageIntegrity ''money lineage has no effect id'') (effect_id (rn_money node))) (\<lambda>effect.
     res_bind (money_retry_rows env log (rn_id node) (sg_request_id (rn_grant node)) effect) (\<lambda>events.
     res_bind (ok_or (LineageIntegrity ''money retry lineage has invalid authenticated ancestry'')
        (authenticated_retry_ancestry env grants node)) (\<lambda>target_ids.
     Ok (filter (\<lambda>r.
       (let other = jstr (ar_data r) ''grant_id'';
            claims_target = (other = Some (rn_id node) \<or> jstr (ar_data r) ''request_id'' = Some (sg_request_id (rn_grant node)));
            connected = (case other of None \<Rightarrow> False
              | Some i \<Rightarrow> authenticated_retry_lineage_intersects env grants node target_ids i) in
        claims_target \<or> \<not> connected)) events))))"

text \<open>The start row, when there is one, and the terminal row, when there is one, with what they say.\<close>

definition split_evidence :: "('z lineage_env_scheme) \<Rightarrow> retry_node \<Rightarrow> audit_row list
    \<Rightarrow> lineage_error + (audit_row \<times> string) option \<times> audit_row option" where
  "split_evidence env node events =
     (let starts = filter (\<lambda>r. ar_type r = ''capability_effect_starting'') events;
          terminals = filter (\<lambda>r. ar_type r \<noteq> ''capability_effect_starting'') events in
      if length starts > 1 \<or> length terminals > 1
      then Err (LineageIntegrity ''duplicate money execution evidence'')
      else res_bind (case starts of
             [] \<Rightarrow> Ok None
           | r # _ \<Rightarrow>
               if ar_session r \<noteq> Some (sg_session (rn_grant node))
               then Err (LineageIntegrity ''effect start has the wrong audit session'')
               else res_bind (validate_money_effect_start env node (ar_data r)) (\<lambda>s. Ok (Some (r, s)))) (\<lambda>start.
           Ok (start, case terminals of [] \<Rightarrow> None | r # _ \<Rightarrow> Some r)))"

definition terminal_evidence :: "retry_node \<Rightarrow> (audit_row \<times> string) option \<Rightarrow> audit_row
    \<Rightarrow> lineage_error + retry_state \<times> bool" where
  "terminal_evidence node start terminal =
     (if ar_session terminal \<noteq> Some (sg_session (rn_grant node))
      then Err (LineageIntegrity ''terminal has the wrong audit session'')
      else res_bind (validate_money_terminal node (ar_type terminal) (ar_data terminal))
        (\<lambda>(state, invoked, terminal_session, requires_start).
        if (case start of
              Some (r, start_session) \<Rightarrow> ar_rowid r < ar_rowid terminal \<and> start_session = terminal_session
            | None \<Rightarrow> \<not> invoked \<and> \<not> requires_start)
        then Ok (state, invoked)
        else Err (LineageIntegrity ''money execution evidence has an invalid sequence'')))"

definition authenticated_retry_state :: "('z lineage_env_scheme) \<Rightarrow> (string \<rightharpoonup> stored_grant) \<Rightarrow> audit_row list
    \<Rightarrow> retry_node \<Rightarrow> lineage_error + retry_state" where
  "authenticated_retry_state env grants log node =
     res_bind (verified_money_events_for_node env grants log node) (\<lambda>events.
     res_bind (split_evidence env node events) (\<lambda>(start, terminal). case terminal of
       Some r \<Rightarrow> map_sum (\<lambda>e. e) fst (terminal_evidence node start r)
     | None \<Rightarrow>
         if start \<noteq> None \<and> (sg_status (rn_grant node) = Executing \<or> sg_status (rn_grant node) = Expired)
         then Ok RetryAmbiguous else Err LineageUnavailable))"

datatype effect_outcome = PreEffect | EffectSucceeded | DefinitelyFailed | Ambiguous

definition effect_outcome_str :: "effect_outcome \<Rightarrow> string" where
  "effect_outcome_str o1 = (case o1 of
      PreEffect \<Rightarrow> ''definitely_pre_effect'' | EffectSucceeded \<Rightarrow> ''succeeded''
    | DefinitelyFailed \<Rightarrow> ''definitely_failed'' | Ambiguous \<Rightarrow> ''ambiguous'')"

definition outcome_word :: "json \<Rightarrow> lineage_error + effect_outcome" where
  "outcome_word data = (case jstr data ''effect_outcome'' of
      Some w \<Rightarrow>
        if w = ''definitely_pre_effect'' then Ok PreEffect
        else if w = ''succeeded'' then Ok EffectSucceeded
        else if w = ''definitely_failed'' then Ok DefinitelyFailed
        else if w = ''ambiguous'' then Ok Ambiguous
        else Err (LineageIntegrity ''terminal has an invalid effect outcome'')
    | None \<Rightarrow> Err (LineageIntegrity ''terminal has an invalid effect outcome''))"

definition verified_money_terminal_effect_outcome :: "('z lineage_env_scheme) \<Rightarrow> (string \<rightharpoonup> stored_grant) \<Rightarrow> audit_row list
    \<Rightarrow> string \<Rightarrow> stored_grant \<Rightarrow> money_metadata \<Rightarrow> lineage_error + effect_outcome option" where
  "verified_money_terminal_effect_outcome env grants log gid g money =
     (let node = \<lparr>rn_id = gid, rn_grant = g, rn_money = money\<rparr> in
      res_bind (verified_money_events_for_node env grants log node) (\<lambda>events.
      res_bind (split_evidence env node events) (\<lambda>(start, terminal). case terminal of
        None \<Rightarrow> Ok None
      | Some r \<Rightarrow>
          res_bind (terminal_evidence node start r) (\<lambda>_.
          res_bind (outcome_word (ar_data r)) (\<lambda>outcome. Ok (Some outcome))))))"

definition verified_abandoned_money_effect_outcome :: "('z lineage_env_scheme) \<Rightarrow> (string \<rightharpoonup> stored_grant) \<Rightarrow> audit_row list
    \<Rightarrow> string \<Rightarrow> stored_grant \<Rightarrow> money_metadata \<Rightarrow> lineage_error + effect_outcome option" where
  "verified_abandoned_money_effect_outcome env grants log gid g money =
     (let node = \<lparr>rn_id = gid, rn_grant = g, rn_money = money\<rparr> in
      res_bind (verified_money_events_for_node env grants log node) (\<lambda>events.
      let starts = filter (\<lambda>r. ar_type r = ''capability_effect_starting'') events;
          terminals = filter (\<lambda>r. ar_type r \<noteq> ''capability_effect_starting'') events in
      if length starts > 1 \<or> terminals \<noteq> []
      then Err (LineageIntegrity ''invalid abandoned execution evidence'')
      else (case starts of
          [] \<Rightarrow> Ok None
        | r # _ \<Rightarrow>
            if ar_session r \<noteq> Some (sg_session g) then Err (LineageIntegrity ''effect start has the wrong audit session'')
            else res_bind (validate_money_effect_start env node (ar_data r)) (\<lambda>_. Ok (Some Ambiguous)))))"

section \<open>The outcome of the whole effect\<close>

definition lease_abandoned_row_exists :: "('z lineage_env_scheme) \<Rightarrow> audit_row list \<Rightarrow> string \<Rightarrow> string \<Rightarrow> string
    \<Rightarrow> int option \<Rightarrow> int option \<Rightarrow> lineage_error + bool" where
  "lease_abandoned_row_exists env log gid req digest opened deadline =
     (if \<not> ee_verified env log then Err (LineageLog ChainNotIntact)
      else let events = filter (\<lambda>r. ar_type r = ''lease_abandoned'' \<and> jstr (ar_data r) ''grant_id'' = Some gid) log in
           if length events > 1 then Err (LineageIntegrity ''duplicate abandonment evidence'')
           else (case events of
               [] \<Rightarrow> Ok False
             | r # _ \<Rightarrow>
                 if jstr (ar_data r) ''request_id'' = Some req \<and> jstr (ar_data r) ''grant_digest'' = Some digest \<and>
                    ji64 (ar_data r) ''lease_opened_at'' = opened \<and> ji64 (ar_data r) ''lease_deadline'' = deadline \<and>
                    jstr (ar_data r) ''outcome'' = Some ''unreported''
                 then Ok True
                 else Err (LineageIntegrity ''abandonment evidence has the wrong lease identity'')))"

definition node_outcome :: "('z lineage_env_scheme) \<Rightarrow> (string \<rightharpoonup> stored_grant) \<Rightarrow> audit_row list \<Rightarrow> retry_node
    \<Rightarrow> lineage_error + effect_outcome option" where
  "node_outcome env grants log node =
     (let gid = rn_id node; g = rn_grant node; money = rn_money node in
      res_bind (check_grant env gid g) (\<lambda>_.
      res_bind (verified_money_terminal_effect_outcome env grants log gid g money) (\<lambda>outcome.
      if outcome = None \<and> sg_status g = Expired \<and> sg_lease_opened_at g \<noteq> None \<and> sg_lease_deadline g \<noteq> None
      then res_bind (lease_abandoned_row_exists env log gid (sg_request_id g) (redigest (ee_keys env) gid g ''executing'')
                (sg_lease_opened_at g) (sg_lease_deadline g)) (\<lambda>abandoned.
              if abandoned then verified_abandoned_money_effect_outcome env grants log gid g money else Ok outcome)
      else Ok outcome)))"

function logical_loop :: "('z lineage_env_scheme) \<Rightarrow> (string \<rightharpoonup> stored_grant) \<Rightarrow> audit_row list \<Rightarrow> string \<Rightarrow> string list
    \<Rightarrow> retry_node \<Rightarrow> lineage_error + effect_outcome option" where
  "logical_loop env grants log effect seen node =
     (if MAX_LINEAGE \<le> length seen \<or> rn_id node \<in> set seen then Err (LineageIntegrity ''money effect lineage is invalid'')
      else (case node_outcome env grants log node of
          Inl e \<Rightarrow> Err e
        | Inr outcome \<Rightarrow>
            if outcome = Some PreEffect \<and> is_retry (rn_money node)
            then (case parent_node env grants effect node of
                Inl e \<Rightarrow> Err e
              | Inr parent \<Rightarrow> logical_loop env grants log effect (seen @ [rn_id node]) parent)
            else Ok outcome))"
  by pat_completeness auto
termination by (relation "measure (\<lambda>(_, _, _, _, seen, _). MAX_LINEAGE - length seen)") auto

declare logical_loop.simps [simp del]

definition verified_logical_money_effect_outcome :: "('z lineage_env_scheme) \<Rightarrow> (string \<rightharpoonup> stored_grant) \<Rightarrow> audit_row list
    \<Rightarrow> string \<Rightarrow> stored_grant \<Rightarrow> money_metadata \<Rightarrow> lineage_error + effect_outcome option" where
  "verified_logical_money_effect_outcome env grants log gid g money =
     res_bind (ok_or (LineageIntegrity ''money grant has no effect id'') (effect_id money)) (\<lambda>effect.
       logical_loop env grants log effect [] \<lparr>rn_id = gid, rn_grant = g, rn_money = money\<rparr>)"

section \<open>What a terminal row proves\<close>

lemma retry_event_str_Ok: "retry_event_str es f = Ok v \<longleftrightarrow> Option.bind (map_of es f) as_str = Some v \<and> v \<noteq> []"
  by (auto simp: retry_event_str_def ok_or_eq_Ok)

lemma fields_match_True: "fields_match es fs = Ok True \<longleftrightarrow> (\<forall>(f, v) \<in> set fs. retry_event_str es f = Ok v)"
  by (induction es fs rule: fields_match.induct) (auto simp: res_bind_eq_Ok)

declare fields_match.simps [simp del]

lemma exact_object_Ok: "exact_retry_event_object event req opt = Ok es \<longleftrightarrow>
    event = JObject es \<and> set req \<subseteq> set (map fst es) \<and> set (map fst es) \<subseteq> set req \<union> set opt"
  by (auto simp: exact_retry_event_object_def split: json.splits)

text \<open>A validated terminal row names the grant, its request and its effect, and its state fits its flag.\<close>

lemma validated_terminal:
  assumes "validate_money_terminal node ty event = Ok (state, invoked, executing, requires)"
  shows "jstr event ''grant_id'' = Some (rn_id node)" "jstr event ''request_id'' = Some (sg_request_id (rn_grant node))"
    "jstr event ''effect_id'' = Some (node_effect node)" "Option.bind (jget event ''mutation_invoked'') as_bool = Some invoked"
    "state = RetryPreEffect \<longleftrightarrow> \<not> invoked" "jstr event ''effect_outcome'' = Some ''definitely_pre_effect'' \<longleftrightarrow> \<not> invoked"
    "\<not> invoked \<longrightarrow> ty = ''provider_action_failed''"
    "state = RetryAmbiguous \<longleftrightarrow> jstr event ''effect_outcome'' = Some ''ambiguous''"
proof -
  from assms obtain obj outcome effect has_error has_result where o1: "event = JObject obj"
    "fields_match obj [(''grant_id'', rn_id node), (''request_id'', sg_request_id (rn_grant node)), (''effect_id'', node_effect node),
          (''provider'', sg_provider (rn_grant node)), (''action'', sg_action (rn_grant node)), (''request_session'', sg_session (rn_grant node))] = Ok True"
    "Option.bind (map_of obj ''mutation_invoked'') as_bool = Some invoked" "retry_event_str obj ''effect_outcome'' = Ok effect"
    "terminal_state ty obj has_error has_result invoked outcome effect = Ok state"
    by (force simp: validate_money_terminal_def Let_def res_bind_eq_Ok exact_object_Ok ok_or_eq_Ok split: if_splits)
  then show "jstr event ''grant_id'' = Some (rn_id node)" "jstr event ''request_id'' = Some (sg_request_id (rn_grant node))"
    "jstr event ''effect_id'' = Some (node_effect node)" "Option.bind (jget event ''mutation_invoked'') as_bool = Some invoked"
    by (auto simp: fields_match_True retry_event_str_Ok jstr_def jget_def)
  from o1 have "jstr event ''effect_outcome'' = Some effect" by (auto simp: retry_event_str_Ok jstr_def jget_def)
  with o1(5) show "state = RetryPreEffect \<longleftrightarrow> \<not> invoked" "jstr event ''effect_outcome'' = Some ''definitely_pre_effect'' \<longleftrightarrow> \<not> invoked"
    "\<not> invoked \<longrightarrow> ty = ''provider_action_failed''" "state = RetryAmbiguous \<longleftrightarrow> jstr event ''effect_outcome'' = Some ''ambiguous''"
    by (auto simp: terminal_state_def split: if_splits)
qed

lemma terminal_evidence_Ok:
  assumes "terminal_evidence node start terminal = Ok (state, invoked)"
  shows "ar_session terminal = Some (sg_session (rn_grant node))"
    "\<exists>executing requires. validate_money_terminal node (ar_type terminal) (ar_data terminal) = Ok (state, invoked, executing, requires)"
    "invoked \<Longrightarrow> \<exists>r s. start = Some (r, s) \<and> ar_rowid r < ar_rowid terminal"
  using assms by (auto simp: terminal_evidence_def res_bind_eq_Ok split: if_splits option.splits)

lemma split_evidence_Ok:
  assumes "split_evidence env node events = Ok (start, terminal)"
  shows "terminal = Some r \<Longrightarrow> filter (\<lambda>e. ar_type e \<noteq> ''capability_effect_starting'') events = [r]"
    "start = Some (e, s) \<Longrightarrow> e \<in> set events \<and> ar_type e = ''capability_effect_starting''"
proof -
  define starts where "starts = filter (\<lambda>r. ar_type r = ''capability_effect_starting'') events"
  define terminals where "terminals = filter (\<lambda>r. ar_type r \<noteq> ''capability_effect_starting'') events"
  from assms have one: "length terminals \<le> 1" "terminal = (case terminals of [] \<Rightarrow> None | r # _ \<Rightarrow> Some r)"
    and st: "start = Some (e, s) \<Longrightarrow> \<exists>rest. starts = e # rest"
    by (auto simp: split_evidence_def Let_def starts_def[symmetric] terminals_def[symmetric] res_bind_eq_Ok
        split: if_splits list.splits)
  show "terminal = Some r \<Longrightarrow> filter (\<lambda>e. ar_type e \<noteq> ''capability_effect_starting'') events = [r]"
    using one by (cases terminals) (simp_all add: terminals_def[symmetric])
  assume "start = Some (e, s)"
  with st have "e \<in> set starts" by fastforce
  then show "e \<in> set events \<and> ar_type e = ''capability_effect_starting''" by (simp add: starts_def)
qed

text \<open>The rows a reader is given: from a verified log, and with every row that names the grant or its request.\<close>

lemma node_events:
  assumes "verified_money_events_for_node env grants log node = Ok events"
  shows "ee_verified env log" "set events \<subseteq> set log" "e \<in> set events \<Longrightarrow> effect_row e"
    "r \<in> set log \<Longrightarrow> effect_row r \<Longrightarrow> jstr (ar_data r) ''grant_id'' = Some (rn_id node) \<or>
       jstr (ar_data r) ''request_id'' = Some (sg_request_id (rn_grant node)) \<Longrightarrow> r \<in> set events"
    "\<exists>ids. authenticated_retry_ancestry env grants node = Some ids" "effect_id (rn_money node) = Some (node_effect node)"
  using assms
  by (auto simp: verified_money_events_for_node_def res_bind_eq_Ok ok_or_eq_Ok money_retry_rows_def Let_def node_effect_def
      split: if_splits)

definition terminal_row :: "audit_row \<Rightarrow> bool" where
  "terminal_row r \<longleftrightarrow> ar_type r = ''provider_action_succeeded'' \<or> ar_type r = ''provider_action_failed''"

definition speaks_of :: "string \<Rightarrow> string \<Rightarrow> audit_row \<Rightarrow> bool" where
  "speaks_of gid req r \<longleftrightarrow> jstr (ar_data r) ''grant_id'' = Some gid \<or> jstr (ar_data r) ''request_id'' = Some req"

definition row_invoked :: "audit_row \<Rightarrow> bool option" where
  "row_invoked r = Option.bind (jget (ar_data r) ''mutation_invoked'') as_bool"

lemma outcome_word_Ok: "outcome_word d = Ok o1 \<longleftrightarrow> jstr d ''effect_outcome'' = Some (effect_outcome_str o1)"
  by (cases o1) (auto simp: outcome_word_def effect_outcome_str_def split: option.splits if_splits)

lemma pre_effect_word: "effect_outcome_str o1 = ''definitely_pre_effect'' \<longleftrightarrow> o1 = PreEffect"
  by (cases o1) (auto simp: effect_outcome_str_def)

lemma effect_row_cases: "effect_row r \<longleftrightarrow> ar_type r = ''capability_effect_starting'' \<or> terminal_row r"
  by (auto simp: effect_row_def terminal_row_def)

lemma terminal_not_start: "terminal_row r \<Longrightarrow> ar_type r \<noteq> ''capability_effect_starting''"
  by (auto simp: terminal_row_def)

lemma terminal_outcome:
  assumes "verified_money_terminal_effect_outcome env grants log gid g money = Ok (Some o1)"
  shows "ee_verified env log"
    "\<exists>r \<in> set log. terminal_row r \<and> jstr (ar_data r) ''grant_id'' = Some gid \<and>
       ar_session r = Some (sg_session g) \<and> row_invoked r = Some (o1 \<noteq> PreEffect) \<and>
       jstr (ar_data r) ''effect_outcome'' = Some (effect_outcome_str o1) \<and>
       (o1 \<noteq> PreEffect \<longrightarrow> (\<exists>s \<in> set log. ar_type s = ''capability_effect_starting'' \<and> ar_rowid s < ar_rowid r)) \<and>
       (\<forall>r' \<in> set log. terminal_row r' \<and> speaks_of gid (sg_request_id g) r' \<longrightarrow> r' = r)"
    "\<exists>ids. authenticated_retry_ancestry env grants \<lparr>rn_id = gid, rn_grant = g, rn_money = money\<rparr> = Some ids"
proof -
  define node where "node = \<lparr>rn_id = gid, rn_grant = g, rn_money = money\<rparr>"
  from assms obtain events start r state invoked where
    ev: "verified_money_events_for_node env grants log node = Ok events"
    and sp: "split_evidence env node events = Ok (start, Some r)"
    and te: "terminal_evidence node start r = Ok (state, invoked)" and ow: "outcome_word (ar_data r) = Ok o1"
    by (auto simp: verified_money_terminal_effect_outcome_def node_def[symmetric] Let_def res_bind_eq_Ok split: option.splits)
  note ne = node_events[OF ev]
  have fil: "filter (\<lambda>e. ar_type e \<noteq> ''capability_effect_starting'') events = [r]"
    using split_evidence_Ok(1)[OF sp] by simp
  then have "r \<in> set (filter (\<lambda>e. ar_type e \<noteq> ''capability_effect_starting'') events)" by simp
  then have r: "r \<in> set events" "terminal_row r" using ne(3)[of r] by (auto simp: effect_row_cases)
  obtain executing requires where
    val: "validate_money_terminal node (ar_type r) (ar_data r) = Ok (state, invoked, executing, requires)"
    using terminal_evidence_Ok(2)[OF te] by blast
  note vt = validated_terminal[OF val]
  have inv: "invoked \<longleftrightarrow> o1 \<noteq> PreEffect" using vt(6) ow by (simp add: outcome_word_Ok pre_effect_word)
  have unique: "r' = r" if "r' \<in> set log" "terminal_row r'" "speaks_of gid (sg_request_id g) r'" for r'
  proof -
    have "r' \<in> set events" using ne(4)[of r'] that by (auto simp: speaks_of_def effect_row_cases node_def)
    then have "r' \<in> set (filter (\<lambda>e. ar_type e \<noteq> ''capability_effect_starting'') events)" using terminal_not_start[OF that(2)] by simp
    then show ?thesis by (simp add: fil)
  qed
  have start: "\<exists>s \<in> set log. ar_type s = ''capability_effect_starting'' \<and> ar_rowid s < ar_rowid r" if "o1 \<noteq> PreEffect"
  proof -
    from terminal_evidence_Ok(3)[OF te] inv that obtain s w where "start = Some (s, w)" "ar_rowid s < ar_rowid r" by blast
    with split_evidence_Ok(2)[OF sp] ne(2) show ?thesis by blast
  qed
  show "ee_verified env log" by (rule ne(1))
  show "\<exists>ids. authenticated_retry_ancestry env grants \<lparr>rn_id = gid, rn_grant = g, rn_money = money\<rparr> = Some ids"
    using ne(5) by (simp add: node_def)
  show "\<exists>r \<in> set log. terminal_row r \<and> jstr (ar_data r) ''grant_id'' = Some gid \<and>
       ar_session r = Some (sg_session g) \<and> row_invoked r = Some (o1 \<noteq> PreEffect) \<and>
       jstr (ar_data r) ''effect_outcome'' = Some (effect_outcome_str o1) \<and>
       (o1 \<noteq> PreEffect \<longrightarrow> (\<exists>s \<in> set log. ar_type s = ''capability_effect_starting'' \<and> ar_rowid s < ar_rowid r)) \<and>
       (\<forall>r' \<in> set log. terminal_row r' \<and> speaks_of gid (sg_request_id g) r' \<longrightarrow> r' = r)"
    using r ne(2) vt(1,4) terminal_evidence_Ok(1)[OF te] ow inv unique start
    by (intro bexI[of _ r]) (auto simp: node_def row_invoked_def outcome_word_Ok)
qed

section \<open>The chain of a retried effect\<close>

text \<open>A link of the chain is a stored, authentic grant for the same effect, asked for by the same principal.\<close>

definition same_effect :: "('z lineage_env_scheme) \<Rightarrow> (string \<rightharpoonup> stored_grant) \<Rightarrow> retry_node \<Rightarrow> string \<Rightarrow> bool" where
  "same_effect env grants node i \<longleftrightarrow> (case grants i of
      None \<Rightarrow> False
    | Some g \<Rightarrow> check_grant env i g = Ok () \<and> (case money_of env g of
        Inl _ \<Rightarrow> False
      | Inr m \<Rightarrow> effect_id m = effect_id (rn_money node) \<and> idempotency_key m = idempotency_key (rn_money node) \<and>
          sg_principal g = sg_principal (rn_grant node) \<and> sg_provider g = sg_provider (rn_grant node) \<and>
          sg_action g = sg_action (rn_grant node) \<and> sg_resource_json g = sg_resource_json (rn_grant node)))"

lemma parent_node_Ok:
  assumes "parent_node env grants effect node = Ok parent"
  shows "parent_grant_id (rn_money node) = Some (rn_id parent)" "grants (rn_id parent) = Some (rn_grant parent)"
    "check_grant env (rn_id parent) (rn_grant parent) = Ok ()" "money_of env (rn_grant parent) = Ok (rn_money parent)"
    "effect_id (rn_money parent) = Some effect" "same_effect env grants node (rn_id parent)"
    "same_effect env grants parent i \<Longrightarrow> same_effect env grants node i"
  using assms
  by (auto simp: parent_node_def res_bind_eq_Ok ok_or_eq_Ok load_node_def Let_def validate_retry_transition_def same_effect_def
      split: if_splits option.splits sum.splits)

lemma ancestry_loop_Some:
  assumes "ancestry_loop env grants effect seen node = Some ids" "distinct seen" "effect_id (rn_money node) = Some effect"
  shows "\<exists>rest. ids = seen @ rn_id node # rest \<and> distinct ids \<and> length ids \<le> MAX_LINEAGE \<and>
    list_all (same_effect env grants node) rest"
  using assms
proof (induction env grants effect seen node rule: ancestry_loop.induct)
  case (1 env grants effect seen node)
  from "1.prems"(1) have fresh: "\<not> (MAX_LINEAGE \<le> length seen \<or> rn_id node \<in> set seen)"
    and chk: "is_ok (check_grant env (rn_id node) (rn_grant node))"
    by (simp_all add: ancestry_loop.simps[of env grants effect seen node] split: if_splits)
  show ?case
  proof (cases "is_retry (rn_money node)")
    case False
    with 1(2,3) fresh chk show ?thesis by (auto simp: ancestry_loop.simps[of env grants effect seen node])
  next
    case True
    with 1(2) fresh chk obtain parent where p: "parent_node env grants effect node = Ok parent"
      and rec: "ancestry_loop env grants effect (seen @ [rn_id node]) parent = Some ids"
      by (auto simp: ancestry_loop.simps[of env grants effect seen node] split: sum.splits)
    note pn = parent_node_Ok[OF p]
    obtain rest where "ids = (seen @ [rn_id node]) @ rn_id parent # rest" "distinct ids" "length ids \<le> MAX_LINEAGE"
      "list_all (same_effect env grants parent) rest"
      using "1.IH"[of parent] chk fresh True p rec "1.prems"(2) pn(5) by auto
    then show ?thesis using pn(6,7) by (intro exI[of _ "rn_id parent # rest"]) (auto simp: list_all_iff)
  qed
qed

definition pre_effect_recorded :: "audit_row list \<Rightarrow> string \<Rightarrow> bool" where
  "pre_effect_recorded log i \<longleftrightarrow>
     list_ex (\<lambda>r. terminal_row r \<and> jstr (ar_data r) ''grant_id'' = Some i) log \<and>
     list_all (\<lambda>r. terminal_row r \<and> jstr (ar_data r) ''grant_id'' = Some i \<longrightarrow> row_invoked r = Some False) log"

lemma abandoned_is_never_pre_effect: "verified_abandoned_money_effect_outcome env grants log gid g money \<noteq> Ok (Some PreEffect)"
  by (auto simp: verified_abandoned_money_effect_outcome_def Let_def res_bind_eq_Ok split: if_split_asm list.split_asm)

lemma node_outcome_pre:
  assumes "node_outcome env grants log node = Ok (Some PreEffect)"
  shows "pre_effect_recorded log (rn_id node)" "\<exists>ids. authenticated_retry_ancestry env grants node = Some ids"
proof -
  have t: "verified_money_terminal_effect_outcome env grants log (rn_id node) (rn_grant node) (rn_money node) = Ok (Some PreEffect)"
    using assms
    by (auto simp: node_outcome_def Let_def res_bind_eq_Ok abandoned_is_never_pre_effect split: if_splits)
  show "\<exists>ids. authenticated_retry_ancestry env grants node = Some ids" using terminal_outcome(3)[OF t] by (cases node) simp
  obtain r where r: "r \<in> set log" "terminal_row r" "jstr (ar_data r) ''grant_id'' = Some (rn_id node)"
    "row_invoked r = Some (PreEffect \<noteq> PreEffect)"
    "\<forall>r' \<in> set log. terminal_row r' \<and> speaks_of (rn_id node) (sg_request_id (rn_grant node)) r' \<longrightarrow> r' = r"
    using terminal_outcome(2)[OF t] by blast
  from r(4) have "row_invoked r = Some False" by simp
  with r(1-3,5) show "pre_effect_recorded log (rn_id node)"
    unfolding pre_effect_recorded_def list_ex_iff list_all_iff speaks_of_def by metis
qed

lemma logical_loop_pre:
  assumes "logical_loop env grants log effect seen node = Ok (Some PreEffect)"
    and "ancestry_loop env grants effect seen node = Some ids"
  shows "\<exists>rest. ids = seen @ rest \<and> list_all (pre_effect_recorded log) rest"
  using assms
proof (induction env grants log effect seen node rule: logical_loop.induct)
  case (1 env grants log effect seen node)
  from "1.prems"(1) have fresh: "\<not> (MAX_LINEAGE \<le> length seen \<or> rn_id node \<in> set seen)"
    by (simp add: logical_loop.simps[of env grants log effect seen node] split: if_splits)
  with "1.prems"(1) have out: "node_outcome env grants log node = Ok (Some PreEffect) \<or>
      (\<exists>o1. node_outcome env grants log node = Ok o1 \<and> o1 = Some PreEffect)"
    by (auto simp: logical_loop.simps[of env grants log effect seen node] split: sum.splits if_splits)
  then have pre: "node_outcome env grants log node = Ok (Some PreEffect)" by blast
  from "1.prems"(2) fresh have chk: "is_ok (check_grant env (rn_id node) (rn_grant node))"
    by (simp add: ancestry_loop.simps[of env grants effect seen node] split: if_splits)
  show ?case
  proof (cases "is_retry (rn_money node)")
    case False
    with "1.prems"(2) fresh chk node_outcome_pre(1)[OF pre] show ?thesis
      by (auto simp: ancestry_loop.simps[of env grants effect seen node])
  next
    case True
    with "1.prems"(2) fresh chk obtain parent where p: "parent_node env grants effect node = Ok parent"
      and rec: "ancestry_loop env grants effect (seen @ [rn_id node]) parent = Some ids"
      by (auto simp: ancestry_loop.simps[of env grants effect seen node] split: sum.splits)
    have "logical_loop env grants log effect (seen @ [rn_id node]) parent = Ok (Some PreEffect)"
      using "1.prems"(1) fresh pre True p by (simp add: logical_loop.simps[of env grants log effect seen node])
    then obtain rest where "ids = (seen @ [rn_id node]) @ rest" "list_all (pre_effect_recorded log) rest"
      using "1.IH"[OF fresh pre _ p] True rec by blast
    then show ?thesis using node_outcome_pre(1)[OF pre] by (intro exI[of _ "rn_id node # rest"]) simp
  qed
qed

text \<open>
  C11. When the reader calls a tracked effect definitely not performed, the whole lineage of the grant has
  authenticated links (at most 32, none twice, all for the same effect, principal and resource), and for
  every link the verified log has a terminal row naming it and no terminal row naming it that says the
  provider was called. The word of one link is never taken for the whole effect.
\<close>

theorem logical_pre_effect:
  assumes "verified_logical_money_effect_outcome env grants log gid g money = Ok (Some PreEffect)"
  shows "\<exists>rest. authenticated_retry_ancestry env grants \<lparr>rn_id = gid, rn_grant = g, rn_money = money\<rparr> = Some (gid # rest) \<and>
    distinct (gid # rest) \<and> length (gid # rest) \<le> MAX_LINEAGE \<and>
    list_all (same_effect env grants \<lparr>rn_id = gid, rn_grant = g, rn_money = money\<rparr>) rest \<and>
    list_all (pre_effect_recorded log) (gid # rest)"
proof -
  define node where "node = \<lparr>rn_id = gid, rn_grant = g, rn_money = money\<rparr>"
  from assms obtain effect where e: "effect_id (rn_money node) = Some effect"
    and l: "logical_loop env grants log effect [] node = Ok (Some PreEffect)"
    by (auto simp: verified_logical_money_effect_outcome_def node_def res_bind_eq_Ok ok_or_eq_Ok)
  then have "\<exists>o1. node_outcome env grants log node = Ok o1 \<and> o1 = Some PreEffect"
    by (auto simp: logical_loop.simps[of env grants log effect "[]" node] split: sum.splits if_splits)
  then obtain ids where ids: "authenticated_retry_ancestry env grants node = Some ids" using node_outcome_pre(2) by blast
  then have a: "ancestry_loop env grants effect [] node = Some ids" by (simp add: authenticated_retry_ancestry_def e)
  from ancestry_loop_Some[OF a _ e] logical_loop_pre[OF l a] ids show ?thesis by (auto simp: node_def)
qed

section \<open>Witness\<close>

text \<open>A charge and one retry of it, both refused before the provider was called.\<close>

definition text_json :: json_lib where
  "text_json = \<lparr>json_parse = (\<lambda>t. Some (JString t)), json_print = (\<lambda>v. case v of JString s \<Rightarrow> s | _ \<Rightarrow> ''null'')\<rparr>"

definition sample_effect :: string where "sample_effect = ''effect_'' @ replicate 32 (CHR ''a'')"

definition sample_fingerprint :: string where "sample_fingerprint = ''sha256:'' @ replicate 64 (CHR ''b'')"

definition first_money :: money_metadata where
  "first_money = Mutation 1 sample_effect (''cermet_'' @ replicate 64 (CHR ''c'')) sample_fingerprint 900"

definition second_money :: money_metadata where
  "second_money = Retry 1 sample_effect (''cermet_'' @ replicate 64 (CHR ''c'')) ''g1'' sample_fingerprint 900"

definition charge_grant :: "string \<Rightarrow> string \<Rightarrow> string \<Rightarrow> stored_grant" where
  "charge_grant gid req money = (let g = unsigned_grant\<lparr>sg_request_id := req, sg_money_json := money, sg_status := Executed\<rparr> in
     g\<lparr>sg_digest := redigest plain_keys gid g ''executed''\<rparr>)"

definition charge_env :: lineage_env where
  "charge_env = \<lparr>ee_keys = plain_keys, ee_json = text_json,
     ee_money = \<lparr>mc_to_value = (\<lambda>m. JString (if is_retry m then ''m2'' else ''m1'')),
       mc_from_value = (\<lambda>v. if v = JString ''m1'' then Some first_money else if v = JString ''m2'' then Some second_money else None)\<rparr>,
     ee_templates = (\<lambda>_ _. Some \<lparr>tf_content_hash = ''t'', tf_is_money = True, tf_precondition_fingerprint = Some sample_fingerprint,
       tf_mints_key = True, tf_proves_effect = True, tf_has_preconditions = True, tf_request_evidence_id = None, tf_relay = False\<rparr>),
     ee_descriptors = (\<lambda>_. Some ''h''), ee_evidence_of = (\<lambda>_. Some (NoEvidence 1)), ee_verified = (\<lambda>_. True),
     ee_like_text = (\<lambda>_ _. True)\<rparr>"

definition refused_row :: "nat \<Rightarrow> string \<Rightarrow> string \<Rightarrow> audit_row" where
  "refused_row n gid req = \<lparr>ar_rowid = int n, ar_id = gid, ar_session = Some ''s1'', ar_type = ''provider_action_failed'',
     ar_data = JObject [(''grant_id'', JString gid), (''request_id'', JString req), (''provider'', JString ''pay''),
       (''action'', JString ''send''), (''outcome'', JString ''lockdown_engaged''), (''mutation_invoked'', JBool False),
       (''request_session'', JString ''s1''), (''executing_session'', JString ''s1''), (''effect_id'', JString sample_effect),
       (''effect_outcome'', JString ''definitely_pre_effect'')]\<rparr>"

definition charge_log :: "audit_row list" where
  "charge_log = [refused_row 1 ''g1'' ''req_1'', refused_row 2 ''g2'' ''req_2'']"

definition charge_grants :: "string \<rightharpoonup> stored_grant" where
  "charge_grants = [''g1'' \<mapsto> charge_grant ''g1'' ''req_1'' ''m1'', ''g2'' \<mapsto> charge_grant ''g2'' ''req_2'' ''m2'']"

lemma charge_fields [simp]:
  "sg_money_json (charge_grant gid req m) = m" "sg_status (charge_grant gid req m) = Executed"
  "sg_request_id (charge_grant gid req m) = req" "sg_session (charge_grant gid req m) = ''s1''"
  "sg_provider (charge_grant gid req m) = ''pay''" "sg_action (charge_grant gid req m) = ''send''"
  "sg_principal (charge_grant gid req m) = None" "sg_resource_json (charge_grant gid req m) = ''{}''"
  "sg_evidence_json (charge_grant gid req m) = ''{}''" "sg_template_hash (charge_grant gid req m) = None"
  "sg_descriptor_hash (charge_grant gid req m) = ''h''"
  by (simp_all add: charge_grant_def Let_def unsigned_grant_def)

lemma tagged_replicate: "is_ascii_hexdigit c \<Longrightarrow> code c < 128 \<Longrightarrow> tagged_hex tag n (tag @ replicate n c)"
proof -
  assume c: "is_ascii_hexdigit c" "code c < 128"
  have "strip_prefix tag (tag @ replicate n c) = Some (replicate n c)" by (induction tag) simp_all
  moreover have "length (utf8 (replicate n c)) = n" using c(2) by (induction n) (simp_all add: utf8_def utf8_char_def)
  ultimately show ?thesis using c(1) by (simp add: tagged_hex_def list_all_iff)
qed

lemma charge_money [simp]:
  "money_of charge_env (charge_grant gid req ''m1'') = Ok first_money" "money_of charge_env (charge_grant gid req ''m2'') = Ok second_money"
proof -
  have "private_fields_ok first_money" "private_fields_ok second_money"
    unfolding first_money_def second_money_def private_fields_ok.simps valid_effect_id_def valid_idempotency_key_def
      valid_fingerprint_def sample_effect_def sample_fingerprint_def
    by (intro conjI tagged_replicate; simp add: is_ascii_hexdigit_def is_lower_hexdigit_def)+
  then show "money_of charge_env (charge_grant gid req ''m1'') = Ok first_money"
    "money_of charge_env (charge_grant gid req ''m2'') = Ok second_money"
    by (simp_all add: money_of_def charge_env_def money_from_canonical_json_def text_json_def MONEY_METADATA_VERSION_def
        first_money_def second_money_def utf8_def utf8_char_def)
qed

lemma charge_check [simp]: "check_grant charge_env gid (charge_grant gid req ''m1'') = Ok ()"
  "check_grant charge_env gid (charge_grant gid req ''m2'') = Ok ()"
proof -
  have d: "sg_digest (charge_grant gid req m) = redigest plain_keys gid (charge_grant gid req m) ''executed''" for m
    by (simp add: charge_grant_def Let_def redigest_def grant_digest_def grant_preimage_def)
  have m: "money_from_canonical_json (ee_json charge_env) (ee_money charge_env) ''m1'' = Ok first_money"
    "money_from_canonical_json (ee_json charge_env) (ee_money charge_env) ''m2'' = Ok second_money"
    using charge_money[of gid req] unfolding money_of_def by (auto split: sum.splits simp: map_sum_def)
  show "check_grant charge_env gid (charge_grant gid req ''m1'') = Ok ()" "check_grant charge_env gid (charge_grant gid req ''m2'') = Ok ()"
    using m by (simp_all add: check_grant_def assert_grant_integrity_def d constant_time_eq_iff status_str_def)
      (simp_all add: charge_env_def first_money_def second_money_def)
qed

definition charge_node :: "string \<Rightarrow> retry_node" where
  "charge_node gid = (if gid = ''g1'' then \<lparr>rn_id = ''g1'', rn_grant = charge_grant ''g1'' ''req_1'' ''m1'', rn_money = first_money\<rparr>
     else \<lparr>rn_id = ''g2'', rn_grant = charge_grant ''g2'' ''req_2'' ''m2'', rn_money = second_money\<rparr>)"

lemma charge_effect [simp]: "effect_id first_money = Some sample_effect" "effect_id second_money = Some sample_effect"
  "is_retry second_money" "\<not> is_retry first_money" "parent_grant_id second_money = Some ''g1''"
  by (simp_all add: first_money_def second_money_def)

lemma charge_parent: "parent_node charge_env charge_grants sample_effect (charge_node ''g2'') = Ok (charge_node ''g1'')"
proof -
  have "evidence_from_canonical_json charge_env ''{}'' = Ok (NoEvidence 1)"
    by (simp add: evidence_from_canonical_json_def charge_env_def text_json_def EVIDENCE_ENVELOPE_VERSION_def)
  then have "validate_retry_transition charge_env (charge_node ''g2'') (charge_node ''g1'') = Ok ()"
    by (simp add: validate_retry_transition_def charge_node_def same_evidence_def) (simp add: first_money_def second_money_def)
  then show ?thesis by (simp add: parent_node_def charge_node_def load_node_def charge_grants_def)
qed

lemma charge_ancestry: "authenticated_retry_ancestry charge_env charge_grants (charge_node ''g1'') = Some [''g1'']"
  "authenticated_retry_ancestry charge_env charge_grants (charge_node ''g2'') = Some [''g2'', ''g1'']"
proof -
  have id: "rn_id (charge_node ''g1'') = ''g1''" "rn_id (charge_node ''g2'') = ''g2''" "\<not> is_retry (rn_money (charge_node ''g1''))"
    "is_retry (rn_money (charge_node ''g2''))" "is_ok (check_grant charge_env ''g1'' (rn_grant (charge_node ''g1'')))"
    "is_ok (check_grant charge_env ''g2'' (rn_grant (charge_node ''g2'')))" "effect_id (rn_money (charge_node ''g2'')) = Some sample_effect"
    "effect_id (rn_money (charge_node ''g1'')) = Some sample_effect"
    by (simp_all add: charge_node_def)
  have g1: "ancestry_loop charge_env charge_grants sample_effect seen (charge_node ''g1'') = Some (seen @ [''g1''])"
    if "length seen \<le> 1" "''g1'' \<notin> set seen" for seen
    using that by (simp add: ancestry_loop.simps[of charge_env charge_grants sample_effect seen] id MAX_LINEAGE_def)
  show "authenticated_retry_ancestry charge_env charge_grants (charge_node ''g1'') = Some [''g1'']"
    using g1[of "[]"] by (simp add: authenticated_retry_ancestry_def id)
  show "authenticated_retry_ancestry charge_env charge_grants (charge_node ''g2'') = Some [''g2'', ''g1'']"
    using g1[of "[''g2'']"] by (simp add: authenticated_retry_ancestry_def id charge_parent MAX_LINEAGE_def
        ancestry_loop.simps[of charge_env charge_grants sample_effect "[]" "charge_node ''g2''"])
qed

lemma refused_row_fields: "jstr (ar_data (refused_row n gid req)) ''grant_id'' = Some gid"
  "jstr (ar_data (refused_row n gid req)) ''request_id'' = Some req" "effect_row (refused_row n gid req)"
  "ar_type (refused_row n gid req) = ''provider_action_failed''" "ar_session (refused_row n gid req) = Some ''s1''"
  "outcome_word (ar_data (refused_row n gid req)) = Ok PreEffect" "jstr (ar_data (refused_row n gid req)) ''effect_id'' = Some sample_effect"
  by (simp_all add: refused_row_def jstr_def jget_def effect_row_def outcome_word_def)

lemma charge_node_fields: "charge_node ''g1'' = \<lparr>rn_id = ''g1'', rn_grant = charge_grant ''g1'' ''req_1'' ''m1'', rn_money = first_money\<rparr>"
  "charge_node ''g2'' = \<lparr>rn_id = ''g2'', rn_grant = charge_grant ''g2'' ''req_2'' ''m2'', rn_money = second_money\<rparr>"
  by (simp_all add: charge_node_def)

lemma charge_siblings:
  "authenticated_retry_lineage_intersects charge_env charge_grants (charge_node ''g1'') [''g1''] ''g2''"
  "authenticated_retry_lineage_intersects charge_env charge_grants (charge_node ''g2'') [''g2'', ''g1''] ''g1''"
  using charge_ancestry(2)
  by (simp_all add: authenticated_retry_lineage_intersects_def load_node_def charge_grants_def charge_node_fields)

lemma charge_rows: "money_retry_rows charge_env charge_log gid req sample_effect = Ok charge_log"
proof -
  have "ee_verified charge_env charge_log" by (simp add: charge_env_def)
  then show ?thesis unfolding money_retry_rows_def by (simp add: charge_log_def refused_row_fields)
qed

lemma charge_events:
  "verified_money_events_for_node charge_env charge_grants charge_log (charge_node ''g1'') = Ok [refused_row 1 ''g1'' ''req_1'']"
  "verified_money_events_for_node charge_env charge_grants charge_log (charge_node ''g2'') = Ok [refused_row 2 ''g2'' ''req_2'']"
  using charge_siblings charge_ancestry charge_rows
  by (simp_all add: verified_money_events_for_node_def charge_node_fields refused_row_fields Let_def)
    (simp_all add: charge_log_def refused_row_fields)

lemma charge_terminal:
  "gid \<in> {''g1'', ''g2''} \<Longrightarrow> req = sg_request_id (rn_grant (charge_node gid)) \<Longrightarrow>
     validate_money_terminal (charge_node gid) ''provider_action_failed'' (ar_data (refused_row n gid req)) = Ok (RetryPreEffect, False, ''s1'', False)"
  by (auto simp: validate_money_terminal_def charge_node_def refused_row_def jget_def exact_retry_event_object_def
      TERMINAL_COMMON_def fields_match.simps retry_event_str_def node_effect_def optional_evidence_ok_def artifact_evidence_ok_def
      some_is_def terminal_state_def PRE_EFFECT_OUTCOMES_def sample_effect_def)

lemma charge_outcomes:
  "node_outcome charge_env charge_grants charge_log (charge_node ''g1'') = Ok (Some PreEffect)"
  "node_outcome charge_env charge_grants charge_log (charge_node ''g2'') = Ok (Some PreEffect)"
proof -
  have split1: "split_evidence charge_env node [refused_row n gid req] = Ok (None, Some (refused_row n gid req))" for node n gid req
    by (simp add: split_evidence_def refused_row_fields)
  have t: "terminal_evidence (charge_node gid) None (refused_row n gid req) = Ok (RetryPreEffect, False)"
    if "gid \<in> {''g1'', ''g2''}" "req = sg_request_id (rn_grant (charge_node gid))" for gid req n
    using charge_terminal[OF that] that(1) by (auto simp: terminal_evidence_def refused_row_fields charge_node_fields)
  show "node_outcome charge_env charge_grants charge_log (charge_node ''g1'') = Ok (Some PreEffect)"
    using charge_events(1) t[of "''g1''" "''req_1''" 1]
    by (simp add: node_outcome_def verified_money_terminal_effect_outcome_def charge_node_fields split1 refused_row_fields)
  show "node_outcome charge_env charge_grants charge_log (charge_node ''g2'') = Ok (Some PreEffect)"
    using charge_events(2) t[of "''g2''" "''req_2''" 2]
    by (simp add: node_outcome_def verified_money_terminal_effect_outcome_def charge_node_fields split1 refused_row_fields)
qed

theorem logical_pre_effect_witness: "pre_effect_recorded charge_log ''g1'' \<and> pre_effect_recorded charge_log ''g2''"
proof -
  have "logical_loop charge_env charge_grants charge_log sample_effect [''g2''] (charge_node ''g1'') = Ok (Some PreEffect)"
    by (simp add: logical_loop.simps[of _ _ _ _ _ "charge_node ''g1''"] charge_outcomes MAX_LINEAGE_def) (simp add: charge_node_fields)
  then have "logical_loop charge_env charge_grants charge_log sample_effect [] (charge_node ''g2'') = Ok (Some PreEffect)"
    by (simp add: logical_loop.simps[of _ _ _ _ _ "charge_node ''g2''"] charge_outcomes charge_parent MAX_LINEAGE_def)
      (simp add: charge_node_fields)
  then have "verified_logical_money_effect_outcome charge_env charge_grants charge_log ''g2'' (charge_grant ''g2'' ''req_2'' ''m2'')
      second_money = Ok (Some PreEffect)"
    by (simp add: verified_logical_money_effect_outcome_def charge_node_fields)
  from logical_pre_effect[OF this] charge_ancestry(2) show ?thesis by (auto simp: charge_node_fields)
qed

end
