(* ===== verification/Audit_Effects.thy ===== *)
theory Audit_Effects
  imports Audit_Log
begin

text \<open>
  What became of an effect, read from the audit log: the failure classes of
  \<^verbatim>\<open>crates/cermet-lang/src/types.rs\<close>, the verdict one row supports and the projections over all rows
  (\<^verbatim>\<open>audit.rs\<close>), the state a receipt shows (\<^verbatim>\<open>broker/views.rs\<close>), and the session timeline. These
  are views: they do not verify the chain, and a row they cannot parse contributes nothing.
\<close>

section \<open>Failure classes\<close>

datatype effect_failure_class =
    ProviderAuthRefused | ProviderPolicyRefused | ProviderInputRefused | ProviderRateLimited
  | ProviderTransient | TransportPreSend | TransportNoResponse | PostconditionMismatch
  | ProtocolDrift | LocalExecutionFailure | EffectFailed

datatype failure_signal =
    HttpStatus nat | NeverSent | SentWithoutAnswer | GitUpstream bool bool | ResponseShapeUnexpected
  | ApprovedOutcomeContradicted | LocalFault | Unclassifiable

fun class_of_signal :: "failure_signal \<Rightarrow> effect_failure_class" where
  "class_of_signal (HttpStatus status) =
     (if status = 401 \<or> status = 403 then ProviderAuthRefused
      else if status = 400 \<or> status = 422 then ProviderInputRefused
      else if status = 429 then ProviderRateLimited
      else if 500 \<le> status \<and> status < 600 then ProviderTransient
      else EffectFailed)"
| "class_of_signal NeverSent = TransportPreSend"
| "class_of_signal SentWithoutAnswer = TransportNoResponse"
| "class_of_signal (GitUpstream credential_attached demanded_credentials) =
     (if credential_attached \<and> demanded_credentials then ProviderAuthRefused else EffectFailed)"
| "class_of_signal ResponseShapeUnexpected = ProtocolDrift"
| "class_of_signal ApprovedOutcomeContradicted = PostconditionMismatch"
| "class_of_signal LocalFault = LocalExecutionFailure"
| "class_of_signal Unclassifiable = EffectFailed"

fun class_str :: "effect_failure_class \<Rightarrow> string" where
  "class_str ProviderAuthRefused = ''provider_auth_refused''"
| "class_str ProviderPolicyRefused = ''provider_policy_refused''"
| "class_str ProviderInputRefused = ''provider_input_refused''"
| "class_str ProviderRateLimited = ''provider_rate_limited''"
| "class_str ProviderTransient = ''provider_transient''"
| "class_str TransportPreSend = ''transport_pre_send''"
| "class_str TransportNoResponse = ''transport_no_response''"
| "class_str PostconditionMismatch = ''postcondition_mismatch''"
| "class_str ProtocolDrift = ''protocol_drift''"
| "class_str LocalExecutionFailure = ''local_execution_failure''"
| "class_str EffectFailed = ''failed''"

definition all_classes :: "effect_failure_class list" where
  "all_classes = [ProviderAuthRefused, ProviderPolicyRefused, ProviderInputRefused, ProviderRateLimited,
     ProviderTransient, TransportPreSend, TransportNoResponse, PostconditionMismatch, ProtocolDrift,
     LocalExecutionFailure, EffectFailed]"

text \<open>The derived reader of the class: its name, or an object with that one name and a null.\<close>

definition class_from_json :: "json \<Rightarrow> effect_failure_class option" where
  "class_from_json v = (case v of
      JString s \<Rightarrow> find (\<lambda>c. class_str c = s) all_classes
    | JObject [(s, JNull)] \<Rightarrow> find (\<lambda>c. class_str c = s) all_classes
    | _ \<Rightarrow> None)"

section \<open>The verdict of one row\<close>

datatype effect_verdict_t = VSilent | VLanded | VFailed effect_failure_class

definition recorded_class :: "json \<Rightarrow> effect_failure_class option" where
  "recorded_class data =
     map_option (\<lambda>v. case class_from_json v of None \<Rightarrow> EffectFailed | Some c \<Rightarrow> c) (jget data ''failure_class'')"

definition as_u16 :: "json \<Rightarrow> nat option" where
  "as_u16 v = opt_filter (\<lambda>n. n < 65536) (as_u64 v)"

definition envelope_class :: "json \<Rightarrow> effect_failure_class option" where
  "envelope_class data =
     Option.bind (jget data ''result'') (\<lambda>result.
     Option.bind (jget result ''error'') (\<lambda>_.
     Option.bind (jget result ''status'') (\<lambda>v.
     Option.bind (as_u16 v) (\<lambda>status.
       if 100 \<le> status \<and> status \<le> 599 then Some (class_of_signal (HttpStatus status)) else None))))"

definition is_effect_hop :: "json \<Rightarrow> bool" where
  "is_effect_hop data \<longleftrightarrow> Option.bind (jget data ''effect'') as_bool = Some True"

definition effect_verdict :: "string \<Rightarrow> json \<Rightarrow> effect_verdict_t" where
  "effect_verdict event_type data =
     (if event_type = ''provider_action_failed'' then
        VFailed (case recorded_class data of Some c \<Rightarrow> c
                 | None \<Rightarrow> (case envelope_class data of Some c \<Rightarrow> c | None \<Rightarrow> EffectFailed))
      else if event_type = ''relay_request_forwarded'' \<and> is_effect_hop data then
        (case Option.bind (jget data ''upstream_status'') as_u16 of
           None \<Rightarrow> VSilent
         | Some status \<Rightarrow> if 200 \<le> status \<and> status < 300 then VLanded
                         else VFailed (class_of_signal (HttpStatus status)))
      else if event_type = ''relay_request_failed'' \<and> is_effect_hop data then
        VFailed (case recorded_class data of Some c \<Rightarrow> c | None \<Rightarrow> EffectFailed)
      else if event_type = ''relay_outcome_mismatch'' then
        VFailed (class_of_signal ApprovedOutcomeContradicted)
      else VSilent)"

section \<open>Projections over the log\<close>

text \<open>The grant a row speaks of, when its data parses and names one.\<close>

definition named_row :: "json_lib \<Rightarrow> stored_event \<Rightarrow> (string \<times> json) option" where
  "named_row J r = Option.bind (row_data J r) (\<lambda>d. map_option (\<lambda>g. (g, d)) (jstr d ''grant_id''))"

record failure_maps =
  fm_terminal :: "string \<rightharpoonup> effect_failure_class"
  fm_hops :: "string \<rightharpoonup> effect_failure_class option"

definition class_types :: "string list" where
  "class_types = [''provider_action_failed'', ''relay_request_forwarded'', ''relay_request_failed'',
     ''relay_outcome_mismatch'']"

definition classes_step :: "json_lib \<Rightarrow> stored_event \<Rightarrow> failure_maps \<Rightarrow> failure_maps" where
  "classes_step J r maps = (case named_row J r of
      None \<Rightarrow> maps
    | Some (g, data) \<Rightarrow>
        (case effect_verdict (se_type r) data of
           VSilent \<Rightarrow> maps
         | VFailed c \<Rightarrow>
             if se_type r = ''provider_action_failed'' then maps\<lparr>fm_terminal := (fm_terminal maps)(g \<mapsto> c)\<rparr>
             else maps\<lparr>fm_hops := (fm_hops maps)(g \<mapsto> Some c)\<rparr>
         | VLanded \<Rightarrow> maps\<lparr>fm_hops := (fm_hops maps)(g \<mapsto> None)\<rparr>))"

definition failure_maps_of :: "json_lib \<Rightarrow> audit_log \<Rightarrow> failure_maps" where
  "failure_maps_of J log =
     fold (classes_step J) (filter (\<lambda>r. se_type r \<in> set class_types) (al_rows log))
       \<lparr>fm_terminal = (\<lambda>_. None), fm_hops = (\<lambda>_. None)\<rparr>"

definition effect_failure_classes :: "json_lib \<Rightarrow> audit_log \<Rightarrow> (string \<rightharpoonup> effect_failure_class)" where
  "effect_failure_classes J log = (let maps = failure_maps_of J log in
     (\<lambda>g. Option.bind (fm_hops maps g) (\<lambda>c. c)) ++ fm_terminal maps)"

record effect_signals_t =
  es_relay :: bool
  es_expires_at :: "int option"
  es_hops :: nat
  es_burned :: "string option"
  es_closed :: "string option"
  es_hop_landed :: "bool option"
  es_terminal_landed :: "bool option"

definition no_signals :: effect_signals_t where
  "no_signals = \<lparr>es_relay = False, es_expires_at = None, es_hops = 0, es_burned = None, es_closed = None,
                 es_hop_landed = None, es_terminal_landed = None\<rparr>"

definition landed :: "effect_signals_t \<Rightarrow> bool option" where
  "landed s = (if es_relay s then es_hop_landed s else es_terminal_landed s)"

definition signal_types :: "string list" where
  "signal_types = [''relay_session_opened'', ''relay_request_forwarded'', ''relay_request_refused'',
     ''relay_request_failed'', ''relay_session_closed'', ''relay_outcome_mismatch'',
     ''provider_action_succeeded'', ''provider_action_failed'']"

definition window_signal :: "string \<Rightarrow> json \<Rightarrow> effect_signals_t \<Rightarrow> effect_signals_t" where
  "window_signal event_type data s =
     (if event_type = ''relay_session_opened'' then
        s\<lparr>es_relay := True, es_expires_at := ji64 data ''expires_at''\<rparr>
      else if event_type = ''relay_session_closed'' then
        s\<lparr>es_relay := True, es_closed := jstr data ''closed'',
          es_expires_at := (if es_expires_at s = None then ji64 data ''expires_at'' else es_expires_at s),
          es_burned := (if es_burned s = None then jstr data ''burned'' else es_burned s)\<rparr>
      else if event_type = ''relay_request_forwarded'' then
        s\<lparr>es_relay := True, es_hops := min (es_hops s + 1) (2 ^ 64 - 1)\<rparr>
      else if event_type = ''relay_request_refused'' then
        s\<lparr>es_relay := True,
          es_burned := (if es_burned s = None \<and> Option.bind (jget data ''burned'') as_bool = Some True
                        then jstr data ''reason'' else es_burned s)\<rparr>
      else if event_type = ''relay_outcome_mismatch'' then
        s\<lparr>es_relay := True,
          es_burned := (if es_burned s = None then Some ''outcome_mismatch'' else es_burned s)\<rparr>
      else if event_type = ''relay_request_failed'' then s\<lparr>es_relay := True\<rparr>
      else s)"

definition landed_signal :: "string \<Rightarrow> json \<Rightarrow> effect_signals_t \<Rightarrow> effect_signals_t" where
  "landed_signal event_type data s =
     (if event_type = ''provider_action_succeeded'' then s\<lparr>es_terminal_landed := Some True\<rparr>
      else if event_type = ''provider_action_failed'' then s\<lparr>es_terminal_landed := Some False\<rparr>
      else (case effect_verdict event_type data of
          VLanded \<Rightarrow> s\<lparr>es_hop_landed := Some True\<rparr>
        | VFailed _ \<Rightarrow> s\<lparr>es_hop_landed := Some False\<rparr>
        | VSilent \<Rightarrow> s))"

definition signals_step :: "json_lib \<Rightarrow> stored_event \<Rightarrow> (string \<rightharpoonup> effect_signals_t) \<Rightarrow> (string \<rightharpoonup> effect_signals_t)" where
  "signals_step J r out = (case named_row J r of
      None \<Rightarrow> out
    | Some (g, data) \<Rightarrow>
        out(g \<mapsto> landed_signal (se_type r) data (window_signal (se_type r) data
                    (case out g of None \<Rightarrow> no_signals | Some s \<Rightarrow> s))))"

definition effect_signals :: "json_lib \<Rightarrow> audit_log \<Rightarrow> (string \<rightharpoonup> effect_signals_t)" where
  "effect_signals J log =
     fold (signals_step J) (filter (\<lambda>r. se_type r \<in> set signal_types) (al_rows log)) (\<lambda>_. None)"

definition effect_terminal_times :: "json_lib \<Rightarrow> audit_log \<Rightarrow> (string \<rightharpoonup> string)" where
  "effect_terminal_times J log =
     fold (\<lambda>r ends. case named_row J r of None \<Rightarrow> ends | Some (g, _) \<Rightarrow> ends(g \<mapsto> se_ts r))
       (filter is_terminal (al_rows log)) (\<lambda>_. None)"

datatype effect_state_t = StateOk | StateBurned | StateExpiredUnused | StateUnresolved

definition effect_state :: "effect_signals_t \<Rightarrow> int \<Rightarrow> effect_state_t option" where
  "effect_state s now =
     (if landed s = Some True then Some StateOk
      else if es_burned s \<noteq> None then Some StateBurned
      else if \<not> es_relay s then None
      else if landed s \<noteq> None then None
      else (let ended = es_closed s \<noteq> None \<or> (case es_expires_at s of None \<Rightarrow> False | Some deadline \<Rightarrow> now > deadline) in
            if \<not> ended then None
            else Some (if es_hops s = 0 then StateExpiredUnused else StateUnresolved)))"

section \<open>Timelines\<close>

record audit_event_view =
  av_id :: string
  av_session :: "string option"
  av_ts :: string
  av_type :: string
  av_severity :: string
  av_summary :: string
  av_data :: json

definition view_of :: "stored_event \<Rightarrow> json \<Rightarrow> audit_event_view" where
  "view_of r data = \<lparr>av_id = se_id r, av_session = se_session r, av_ts = se_ts r, av_type = se_type r,
     av_severity = se_severity r, av_summary = se_summary r, av_data = data\<rparr>"

fun view_rows :: "json_lib \<Rightarrow> bool \<Rightarrow> stored_event list \<Rightarrow> audit_error + audit_event_view list" where
  "view_rows J degrade [] = Ok []"
| "view_rows J degrade (r # rs) = (case row_data J r of
      Some data \<Rightarrow> map_sum (\<lambda>e. e) ((#) (view_of r data)) (view_rows J degrade rs)
    | None \<Rightarrow>
        if degrade
        then map_sum (\<lambda>e. e) ((#) (view_of r (JObject [(''unparseable_data_json'', JBool True)]))) (view_rows J degrade rs)
        else Err MalformedData)"

definition events_for_session_inner :: "json_lib \<Rightarrow> audit_log \<Rightarrow> string \<Rightarrow> bool \<Rightarrow> audit_error + audit_event_view list" where
  "events_for_session_inner J log session degrade =
     view_rows J degrade (filter (\<lambda>r. se_session r = Some session) (al_rows log))"

definition events_for_session :: "json_lib \<Rightarrow> audit_log \<Rightarrow> string \<Rightarrow> audit_error + audit_event_view list" where
  "events_for_session J log session = events_for_session_inner J log session False"

definition events_for_session_degraded :: "json_lib \<Rightarrow> audit_log \<Rightarrow> string \<Rightarrow> audit_error + audit_event_view list" where
  "events_for_session_degraded J log session = events_for_session_inner J log session True"

definition events_of_type :: "json_lib \<Rightarrow> audit_log \<Rightarrow> string \<Rightarrow> audit_error + audit_event_view list" where
  "events_of_type J log ty = view_rows J False (filter (\<lambda>r. se_type r = ty) (al_rows log))"

fun ratified_loop :: "json_lib \<Rightarrow> string \<Rightarrow> string \<Rightarrow> stored_event list \<Rightarrow> audit_error + bool" where
  "ratified_loop J proposal_id content_hash [] = Ok False"
| "ratified_loop J proposal_id content_hash (r # rs) = (case row_data J r of
      None \<Rightarrow> Err MalformedData
    | Some data \<Rightarrow>
        if jstr data ''proposal_id'' = Some proposal_id \<and> jstr data ''content_hash'' = Some content_hash then Ok True
        else ratified_loop J proposal_id content_hash rs)"

definition contract_ratified_exists :: "json_lib \<Rightarrow> audit_log \<Rightarrow> string \<Rightarrow> string \<Rightarrow> audit_error + bool" where
  "contract_ratified_exists J log proposal_id content_hash =
     ratified_loop J proposal_id content_hash (filter (\<lambda>r. se_type r = ''contract_ratified'') (al_rows log))"

fun succeeded_loop :: "json_lib \<Rightarrow> string set \<Rightarrow> stored_event list \<Rightarrow> audit_error + string set" where
  "succeeded_loop J out [] = Ok out"
| "succeeded_loop J out (r # rs) = (case row_data J r of
      None \<Rightarrow> Err MalformedData
    | Some data \<Rightarrow> succeeded_loop J (case jstr data ''grant_id'' of None \<Rightarrow> out | Some g \<Rightarrow> insert g out) rs)"

definition succeeded_grant_ids :: "json_lib \<Rightarrow> audit_log \<Rightarrow> audit_error + string set" where
  "succeeded_grant_ids J log =
     succeeded_loop J {} (filter (\<lambda>r. se_type r = ''provider_action_succeeded'') (al_rows log))"

text \<open>
  Two queries match the stored text with SQLite's \<^verbatim>\<open>LIKE\<close>, an argument: the pattern first, then the
  text.
\<close>

definition grant_pattern :: "string \<Rightarrow> string" where
  "grant_pattern grant_id = ''%'' @ [dquote] @ ''grant_id'' @ [dquote] @ '':'' @ [dquote] @ grant_id @ [dquote] @ ''%''"

definition canceled_pattern :: string where
  "canceled_pattern = ''%'' @ [dquote] @ ''canceled'' @ [dquote] @ '':true%''"

definition provider_action_event_canceled :: "(string \<Rightarrow> string \<Rightarrow> bool) \<Rightarrow> audit_log \<Rightarrow> string \<Rightarrow> bool" where
  "provider_action_event_canceled like log grant_id =
     (length (filter (\<lambda>r. is_terminal r \<and> like (grant_pattern grant_id) (se_data_json r) \<and>
                         like canceled_pattern (se_data_json r)) (al_rows log)) > 0)"

definition capability_denied_reason :: "(string \<Rightarrow> string \<Rightarrow> bool) \<Rightarrow> audit_log \<Rightarrow> string \<Rightarrow> string option" where
  "capability_denied_reason like log grant_id =
     map_option se_summary (find (\<lambda>r. se_type r = ''capability_denied'' \<and>
       like (grant_pattern grant_id) (se_data_json r)) (rev (al_rows log)))"

section \<open>The projections agree\<close>

text \<open>The last word of the effect hops, as the signals and as the classes record it.\<close>

definition hop_word :: "effect_failure_class option option \<Rightarrow> bool option" where
  "hop_word h = map_option (\<lambda>c. c = None) h"

lemma hop_of_window [simp]: "es_hop_landed (window_signal ty d s) = es_hop_landed s"
  by (simp add: window_signal_def)

lemma verdict_outside: "ty \<notin> set class_types \<Longrightarrow> effect_verdict ty d = VSilent"
  by (simp add: effect_verdict_def class_types_def)

lemma step_hop_word:
  assumes "\<forall>g. Option.bind (out g) es_hop_landed = hop_word (fm_hops maps g)"
    and "out' = (if se_type r \<in> set signal_types then signals_step J r out else out)"
    and "maps' = (if se_type r \<in> set class_types then classes_step J r maps else maps)"
  shows "\<forall>g. Option.bind (out' g) es_hop_landed = hop_word (fm_hops maps' g)"
proof (cases "named_row J r")
  case None
  with assms show ?thesis by (simp add: signals_step_def classes_step_def)
next
  case (Some gd)
  obtain g d where gd: "gd = (g, d)" by (cases gd)
  let ?s = "case out g of None \<Rightarrow> no_signals | Some s \<Rightarrow> s"
  have old: "es_hop_landed ?s = hop_word (fm_hops maps g)"
    using assms(1)[rule_format, of g] by (cases "out g") (simp_all add: no_signals_def)
  have types: "se_type r \<in> set class_types \<Longrightarrow> se_type r \<in> set signal_types"
    by (auto simp: class_types_def signal_types_def)
  show ?thesis
  proof (cases "se_type r \<in> set class_types")
    case True
    then show ?thesis using assms(1) old types
      unfolding assms(2,3) signals_step_def classes_step_def Some gd landed_signal_def hop_word_def
      by (auto simp: class_types_def effect_verdict_def split: option.splits effect_verdict_t.splits)
  next
    case False
    then have "es_hop_landed (landed_signal (se_type r) d (window_signal (se_type r) d ?s)) = es_hop_landed ?s"
      using verdict_outside[OF False, of d] by (simp add: landed_signal_def)
    with False assms(1) old show ?thesis
      unfolding assms(2,3) signals_step_def Some gd by auto
  qed
qed

lemma fold_filter_if: "fold f (filter P xs) a = fold (\<lambda>x a. if P x then f x a else a) xs a"
  by (induction xs arbitrary: a) auto

lemma projections_hop_word:
  "Option.bind (effect_signals J log g) es_hop_landed = hop_word (fm_hops (failure_maps_of J log) g)"
proof -
  have "\<forall>g. Option.bind (fold (\<lambda>r out. if se_type r \<in> set signal_types then signals_step J r out else out) rows out g) es_hop_landed
      = hop_word (fm_hops (fold (\<lambda>r maps. if se_type r \<in> set class_types then classes_step J r maps else maps) rows maps) g)"
    if "\<forall>g. Option.bind (out g) es_hop_landed = hop_word (fm_hops maps g)" for rows out maps
    using that
  proof (induction rows arbitrary: out maps)
    case (Cons r rows)
    from step_hop_word[OF Cons.prems refl refl, of r J] show ?case unfolding fold_simps by (rule Cons.IH)
  qed simp
  from this[of "\<lambda>_. None" "\<lparr>fm_terminal = (\<lambda>_. None), fm_hops = (\<lambda>_. None)\<rparr>" "al_rows log"] show ?thesis
    by (simp add: effect_signals_def failure_maps_of_def fold_filter_if hop_word_def)
qed

text \<open>
  C36. A receipt row never hides a finished relay window. For a grant whose signals show a relay session
  that has ended - a closing record exists or its deadline has passed - the row carries a state or a
  failure class; the state is ok exactly when the last effect-bearing hop landed, in which case no
  superseded hop left a class behind, and a last hop that failed always has its class.
\<close>

theorem ended_window_is_explained:
  assumes "effect_signals J log g = Some s" "es_relay s"
    and "es_closed s \<noteq> None \<or> (\<exists>deadline. es_expires_at s = Some deadline \<and> now > deadline)"
  shows "(effect_state s now \<noteq> None \<or> effect_failure_classes J log g \<noteq> None) \<and>
    (effect_state s now = Some StateOk \<longleftrightarrow> es_hop_landed s = Some True) \<and>
    (es_hop_landed s = Some True \<longrightarrow> effect_failure_classes J log g = fm_terminal (failure_maps_of J log) g) \<and>
    (es_hop_landed s = Some False \<longrightarrow> effect_failure_classes J log g \<noteq> None)"
proof -
  have word: "es_hop_landed s = hop_word (fm_hops (failure_maps_of J log) g)"
    using projections_hop_word[of J log g] assms(1) by simp
  have classes: "effect_failure_classes J log g = (case fm_terminal (failure_maps_of J log) g of Some c \<Rightarrow> Some c
      | None \<Rightarrow> Option.bind (fm_hops (failure_maps_of J log) g) (\<lambda>c. c))"
    by (simp add: effect_failure_classes_def Let_def map_add_def)
  have failed: "es_hop_landed s = Some False \<Longrightarrow> effect_failure_classes J log g \<noteq> None"
    unfolding word classes by (auto simp: hop_word_def split: option.splits)
  moreover have "es_hop_landed s = Some True \<Longrightarrow> effect_failure_classes J log g = fm_terminal (failure_maps_of J log) g"
    unfolding word classes by (auto simp: hop_word_def split: option.splits)
  moreover have "effect_state s now = Some StateOk \<longleftrightarrow> es_hop_landed s = Some True"
    using assms(2) by (auto simp: effect_state_def landed_def Let_def)
  moreover have "effect_state s now \<noteq> None \<or> es_hop_landed s = Some False"
    using assms(2,3) by (cases "es_hop_landed s") (auto simp: effect_state_def landed_def Let_def split: option.splits)
  ultimately show ?thesis by blast
qed

text \<open>
  A degraded timeline drops nothing: it always answers, with one entry for each row of the session
  in order, and the entry keeps the identifier, time, type, severity and summary of its row; where
  every row parses it is the strict timeline.
\<close>

theorem degraded_timeline_complete:
  "\<exists>views. events_for_session_degraded J log session = Ok views \<and>
     map (\<lambda>v. (av_id v, av_ts v, av_type v, av_severity v, av_summary v)) views =
       map (\<lambda>r. (se_id r, se_ts r, se_type r, se_severity r, se_summary r))
         (filter (\<lambda>r. se_session r = Some session) (al_rows log)) \<and>
     is_ok (events_for_session J log session) = (events_for_session J log session = Ok views)"
proof -
  have "\<exists>views. view_rows J True rs = Ok views \<and>
     map (\<lambda>v. (av_id v, av_ts v, av_type v, av_severity v, av_summary v)) views =
       map (\<lambda>r. (se_id r, se_ts r, se_type r, se_severity r, se_summary r)) rs \<and>
     is_ok (view_rows J False rs) = (view_rows J False rs = Ok views)" for rs
  proof (induction rs)
    case (Cons r rs)
    then obtain views where "view_rows J True rs = Ok views"
      "map (\<lambda>v. (av_id v, av_ts v, av_type v, av_severity v, av_summary v)) views =
         map (\<lambda>r. (se_id r, se_ts r, se_type r, se_severity r, se_summary r)) rs"
      "is_ok (view_rows J False rs) = (view_rows J False rs = Ok views)" by blast
    then show ?case by (cases "row_data J r"; cases "view_rows J False rs") (simp_all add: view_of_def is_ok_def)
  qed simp
  then show ?thesis
    by (simp add: events_for_session_degraded_def events_for_session_def events_for_session_inner_def)
qed

section \<open>Witness\<close>

definition closing_json :: json_lib where
  "closing_json = \<lparr>json_parse = (\<lambda>t. if t = ''c'' then Some (JObject [(''closed'', JString ''expired''), (''grant_id'', JString ''g'')]) else None),
                   json_print = (\<lambda>v. ''c'')\<rparr>"

definition closing_log :: audit_log where
  "closing_log = \<lparr>al_rows = [\<lparr>se_rowid = 1, se_id = ''evt_1'', se_session = None, se_ts = ''noon'',
     se_type = ''relay_session_closed'', se_severity = ''info'', se_summary = ''over'', se_data_json = ''c'',
     se_prev_hash = None, se_event_hash = ''h''\<rparr>], al_key = [7], al_durable = 1\<rparr>"

definition closing_signals :: effect_signals_t where
  "closing_signals = no_signals\<lparr>es_relay := True, es_closed := Some ''expired''\<rparr>"

theorem ended_window_is_explained_witness:
  "effect_signals closing_json closing_log ''g'' = Some closing_signals \<and>
   effect_state closing_signals 5 = Some StateExpiredUnused \<and>
   (effect_state closing_signals 5 = Some StateOk) = (es_hop_landed closing_signals = Some True)"
proof -
  have "effect_signals closing_json closing_log ''g'' = Some closing_signals" by code_simp
  moreover have "es_relay closing_signals" "es_closed closing_signals \<noteq> None" by (simp_all add: closing_signals_def)
  moreover have "effect_state closing_signals 5 = Some StateExpiredUnused" by code_simp
  ultimately show ?thesis using ended_window_is_explained by blast
qed

end
