(* ===== verification/Grant_Execution.thy ===== *)
theory Grant_Execution
  imports Money_Lineage Audit_Effects Sentence_Corpus
begin

text \<open>
  Claiming and running a grant, \<^verbatim>\<open>crates/cermet-core/src/broker/execute.rs\<close>, with the transitions of a
  grant row from \<^verbatim>\<open>lifecycle.rs\<close>. A handler is a function from the store to the store and a result. Each
  write to either database may fail, as the next entry of \<open>bs_faults\<close> says, and a failed write ends the
  handler; what the process has written when it is killed between two writes is what it has written
  when the second one fails, so the faults cover crashes too.

  The grants are a map with the order of their rows (\<open>bs_ids\<close>).
  \<open>bs_calls\<close> is the trace of the effects: the grants handed to a provider or to a relay session, oldest
  first. The log is the list of its rows with their JSON values, as in \<open>Budget_Gate\<close>.

  What one run meets outside this model - clocks, the lockdown file, the authority source, the vault, the
  evidence's credential, the provider - is the record \<open>exec_answers\<close>, one field for each read in the source.
\<close>

section \<open>Handlers\<close>

text \<open>
  The rows of the two other tables of the broker's database: the requests it has answered and the sessions of its
  callers. A reason is a sentence for a person in the source; here it is one constructor for each sentence.
\<close>

datatype request_reason =
    LockdownReason
  | GitPlaneReason bool
  | ProviderDisabledReason
  | NotRegisteredReason
  | UnsupportedReason
  | InvalidResourceReason
  | InvalidMoneyAllowReason
  | EvidenceUnavailableReason
  | RetryUnavailableReason
  | RetryMismatchReason
  | NeverResolvedReason string
  | UnresolvableReason string string
  | AllowedReason
  | DeniedReason deny_reason
  | NotCanonicalReason
  | SourceRefusedReason string
  | BudgetExhaustedReason window
  | BudgetUnverifiedReason

record request_row =
  rq_id :: string
  rq_provider :: string
  rq_action :: string
  rq_resource_json :: string
  rq_justification :: "string option"
  rq_decision :: string
  rq_reason :: request_reason
  rq_fingerprint :: string
  rq_matched_rule :: "string option"
  rq_deny_reason :: "deny_reason option"
  rq_principal :: string
  rq_session :: string
  rq_created_at :: string
  rq_model :: "string option"

record session_row =
  ss_id :: string
  ss_created_at :: string
  ss_ended_at :: "string option"
  ss_open :: bool
  ss_fingerprint :: string
  ss_owner :: "int option"
  ss_agent :: "string option"
  ss_pid :: "int option"
  ss_client_name :: "string option"
  ss_client_version :: "string option"
  ss_model :: "string option"

record broker_store =
  bs_ids :: "string list"
  bs_grants :: "string \<rightharpoonup> stored_grant"
  bs_requests :: "request_row list"
  bs_sessions :: "session_row list"
  bs_log :: "audit_row list"
  bs_faults :: "bool list"
  bs_calls :: "string list"

datatype execute_refusal = AlreadyUsed | NotReady | GrantExpired | TemplateDrifted

datatype exec_error =
    StoreFault
  | LockedDown string
  | BarrierHolds
  | GrantNotFound string
  | IntegrityFailed integrity_error
  | ProviderDisabledError
  | LineageFault lineage_error
  | ExecuteRefused execute_refusal
  | GrantDenied string
  | NoSentenceProvenance string
  | AuthorityMoved string
  | AuthorityUnavailable string
  | EvidenceDenial
  | ProviderNotRegistered string
  | DisciplineDisagrees
  | NoContract string
  | ResourceInvalid
  | VaultUnavailable
  | PreconditionProfileMissing
  | NoCredentialGeneration
  | PreconditionDenied
  | BudgetFault gate_fault
  | NoInvocationState string
  | SessionExpired
  | NoEffectObservation
  | EffectFailedWith effect_failure_class
  | UntypedFailure
  | NoDescriptor string
  | NoAuthorityDigest

type_synonym 'a handler = "broker_store \<Rightarrow> broker_store \<times> (exec_error + 'a)"

definition give :: "'a \<Rightarrow> 'a handler" where
  "give a st = (st, Ok a)"

definition refuse :: "exec_error \<Rightarrow> 'a handler" where
  "refuse e st = (st, Err e)"

definition then_do :: "'a handler \<Rightarrow> ('a \<Rightarrow> 'b handler) \<Rightarrow> 'b handler" where
  "then_do m f st = (case m st of (st', Inl e) \<Rightarrow> (st', Inl e) | (st', Inr a) \<Rightarrow> f a st')"

definition lift_result :: "('e \<Rightarrow> exec_error) \<Rightarrow> 'e + 'a \<Rightarrow> 'a handler" where
  "lift_result f r st = (st, map_sum f (\<lambda>a. a) r)"

definition unless :: "bool \<Rightarrow> exec_error \<Rightarrow> unit handler" where
  "unless bad e = (if bad then refuse e else give ())"

text \<open>One write: it fails without effect, or takes place.\<close>

definition write_store :: "(broker_store \<Rightarrow> broker_store) \<Rightarrow> unit handler" where
  "write_store f st = (case bs_faults st of
      True # fs \<Rightarrow> (st\<lparr>bs_faults := fs\<rparr>, Err StoreFault)
    | _ \<Rightarrow> (f (st\<lparr>bs_faults := drop 1 (bs_faults st)\<rparr>), Ok ()))"

section \<open>The environment\<close>

text \<open>
  What the broker asks of a registered provider, and the compiled profiles of the evidence resolvers.
\<close>

record provider_iface =
  pi_contract :: "string \<Rightarrow> action_contract option"
  pi_canonicalize :: "string \<Rightarrow> json \<Rightarrow> canonical_resource option"
  pi_requires_credential :: bool

record evidence_output =
  eo_field :: string
  eo_ty :: scalar_kind
  eo_source :: string

record evidence_profile =
  ep_id :: string
  ep_provider :: string
  ep_action :: string
  ep_outputs :: "evidence_output list"
  ep_sources :: "(string \<times> string) list"
  ep_fingerprint :: string

record exec_env = lineage_env +
  ee_fresh :: "nat \<Rightarrow> string"
  ee_like :: "string \<Rightarrow> string \<Rightarrow> json \<Rightarrow> bool"
  ee_secrets :: "string list option"
  ee_enforce_availability :: bool
  ee_provider :: "string \<Rightarrow> provider_iface option"
  ee_profile :: "string \<Rightarrow> evidence_profile option"
  ee_sha :: sha_fun

text \<open>\<open>AuditLog::record\<close>: the data is redacted, the row takes the next row id.\<close>

definition record_row :: "exec_env \<Rightarrow> string option \<Rightarrow> string \<Rightarrow> json \<Rightarrow> string list \<Rightarrow> unit handler" where
  "record_row env session ty data secrets =
     write_store (\<lambda>st. st\<lparr>bs_log := bs_log st @
       [\<lparr>ar_rowid = max_rowid (bs_log st) + 1, ar_id = ee_fresh env (length (bs_log st)), ar_session = session,
         ar_type = ty, ar_data = redacted_for_record data secrets\<rparr>]\<rparr>)"

text \<open>The session of a row that is left out when the grant has none.\<close>

definition session_if_any :: "stored_grant \<Rightarrow> string option" where
  "session_if_any g = (if sg_session g = [] then None else Some (sg_session g))"

definition all_secrets :: "exec_env \<Rightarrow> string list handler" where
  "all_secrets env = lift_result (\<lambda>_. VaultUnavailable) (ok_or () (ee_secrets env))"

definition load_grant :: "string \<Rightarrow> stored_grant handler" where
  "load_grant gid st = (st, ok_or (GrantNotFound gid) (bs_grants st gid))"

text \<open>A conditional update of one row; the answer is whether the row was changed.\<close>

definition update_grant :: "string \<Rightarrow> grant_status list \<Rightarrow> (stored_grant \<Rightarrow> stored_grant) \<Rightarrow> bool handler" where
  "update_grant gid from f st =
     (case bs_grants st gid of
        Some g \<Rightarrow>
          if sg_status g \<in> set from
          then then_do (write_store (\<lambda>st. st\<lparr>bs_grants := (bs_grants st)(gid \<mapsto> f g)\<rparr>)) (\<lambda>_. give True) st
          else then_do (write_store (\<lambda>st. st)) (\<lambda>_. give False) st
      | None \<Rightarrow> then_do (write_store (\<lambda>st. st)) (\<lambda>_. give False) st)"

definition any_status :: "grant_status list" where
  "any_status = [Requested, Approved, Denied, Executing, Executed, Expired]"

section \<open>Releasing and expiring\<close>

definition release_budget :: "exec_env \<Rightarrow> string \<Rightarrow> release_cause \<Rightarrow> unit handler" where
  "release_budget env gid cause st =
     (case budget_mint_ref_for_grant (ee_verified env) (bs_log st) gid of
        Inl e \<Rightarrow> (st, Err (BudgetFault e))
      | Inr None \<Rightarrow> (st, Ok ())
      | Inr (Some (mint, aggregate)) \<Rightarrow>
          if budget_release_exists (ee_like env) (bs_log st) mint then (st, Ok ())
          else then_do (all_secrets env) (\<lambda>secrets.
                 record_row env None ''budget_release'' (release_data mint aggregate gid cause) secrets) st)"

definition expire_grant :: "exec_env \<Rightarrow> string \<Rightarrow> stored_grant \<Rightarrow> unit handler" where
  "expire_grant env gid g =
     then_do (update_grant gid any_status
       (\<lambda>row. row\<lparr>sg_status := Expired, sg_digest := redigest (ee_keys env) gid g ''expired''\<rparr>)) (\<lambda>_.
     then_do (all_secrets env) (\<lambda>secrets.
     then_do (record_row env (Some (sg_session g)) ''grant_expired'' (JObject [(''grant_id'', JString gid)]) secrets) (\<lambda>_.
     if sg_status g = Requested \<or> sg_status g = Approved then release_budget env gid ExpiredUnclaimed else give ())))"

section \<open>Terminal failure before the effect\<close>

definition read_money :: "exec_env \<Rightarrow> stored_grant \<Rightarrow> money_metadata handler" where
  "read_money env g = lift_result (IntegrityFailed \<circ> MoneyUnreadable)
     (money_from_canonical_json (ee_json env) (ee_money env) (sg_money_json g))"

definition pre_invocation_data :: "string \<Rightarrow> stored_grant \<Rightarrow> money_metadata \<Rightarrow> string \<Rightarrow> string \<Rightarrow> json" where
  "pre_invocation_data gid g money outcome executing = JObject
     ([(''grant_id'', JString gid), (''request_id'', JString (sg_request_id g)), (''provider'', JString (sg_provider g)),
       (''action'', JString (sg_action g)), (''outcome'', JString outcome), (''mutation_invoked'', JBool False),
       (''request_session'', JString (sg_session g)), (''executing_session'', JString executing)] @
      (case effect_id money of None \<Rightarrow> []
       | Some e \<Rightarrow> [(''effect_id'', JString e), (''effect_outcome'', JString ''definitely_pre_effect'')]))"

definition flip_executed :: "exec_env \<Rightarrow> string \<Rightarrow> stored_grant \<Rightarrow> int \<Rightarrow> int \<Rightarrow> bool handler" where
  "flip_executed env gid g opened deadline =
     update_grant gid [Executing] (\<lambda>row. row\<lparr>sg_status := Executed,
       sg_digest := redigest_leased (ee_keys env) gid g ''executed'' opened deadline\<rparr>)"

definition terminalize_pre_invocation_failure :: "exec_env \<Rightarrow> string \<Rightarrow> stored_grant \<Rightarrow> int \<Rightarrow> int \<Rightarrow> string list
    \<Rightarrow> string \<Rightarrow> string \<Rightarrow> unit handler" where
  "terminalize_pre_invocation_failure env gid g opened deadline secrets outcome executing =
     then_do (read_money env g) (\<lambda>money.
     then_do (record_row env (Some (sg_session g)) ''provider_action_failed'' (pre_invocation_data gid g money outcome executing) secrets) (\<lambda>_.
     then_do (flip_executed env gid g opened deadline) (\<lambda>_.
     release_budget env gid PreInvocationTerminalFailure)))"

section \<open>What one run meets\<close>

datatype precondition_answer = NoProfile | CredentialUnavailable | CheckFailed string string | CheckPassed

datatype effect_proof = Proved | EffectRefused | Unproved

record provider_reply =
  pr_ok :: bool
  pr_result :: json
  pr_retained :: "nat option"
  pr_envelope :: "(string \<times> json) list"
  pr_failure_class :: "effect_failure_class option"
  pr_proof :: "effect_proof option"

record exec_answers =
  xa_locked_claim :: bool
  xa_locked_post_claim :: bool
  xa_locked_egress :: bool
  xa_barrier_refuses :: bool
  xa_now_expiry :: int
  xa_now_retry :: int
  xa_now_evidence :: int
  xa_now_lease :: int
  xa_authority_pre :: "string option"
  xa_authority_post :: "string option"
  xa_generation_current :: "bool option"
  xa_preconditions :: precondition_answer
  xa_credential_opens :: bool
  xa_reply :: "effect_failure_class option + provider_reply"
  xa_executing_session :: "string option"
  xa_pid :: "int option"
  xa_require_session_open :: bool
  xa_peer_uid :: "int option"
  xa_attempted_at :: string
  xa_staged :: "(string \<times> string \<times> int \<times> bool) option"
  xa_error_text :: string

section \<open>The evidence of a grant\<close>

datatype evidence_fault =
    EvidenceUnreadable lineage_error
  | EvidenceRequired
  | EvidenceStale
  | UnknownProfile
  | ProfileOfAnotherAction
  | ProfileNotTheActions
  | ProfileSemanticsChanged
  | WrongFieldOrSourceSet
  | OutputMissing string
  | ResourceFieldMissing string
  | EvidenceDiffersFromResource string
  | SourceDiffers string
  | NoTemplateHash
  | ResolutionDigestInvalid
  | GenerationUnreadable
  | GenerationChanged

definition evidence_resolution_digest :: "exec_env \<Rightarrow> string \<Rightarrow> string \<Rightarrow> string \<Rightarrow> string \<Rightarrow> evidence_profile \<Rightarrow> string
    \<Rightarrow> resolved_evidence \<Rightarrow> string" where
  "evidence_resolution_digest env request_id provider action descriptor p template_hash e =
     ''sha256:'' @ hex (ee_sha env (utf8 ''cermet-provider-evidence-v1'' @ [0] @ utf8 (canonical_json (ee_json env) (JObject
       [(''action'', JString action), (''credential_generation'', JString (re_credential_generation e)),
        (''descriptor_hash'', JString descriptor),
        (''fields'', JObject (map (\<lambda>(k, f). (k, JObject [(''source'', JString (ef_source f)), (''value'', ef_value f)])) (re_fields e))),
        (''mint_deadline_epoch'', JInt (re_mint_deadline_epoch e)),
        (''oldest_observed_at_epoch'', JInt (re_oldest_observed_at_epoch e)),
        (''profile'', JString (ep_id p)), (''profile_fingerprint'', JString (ep_fingerprint p)),
        (''provider'', JString provider), (''request_id'', JString request_id),
        (''sources'', JArray (map (\<lambda>s. JObject [(''id'', JString (ens_id s)), (''kind'', JString (ens_kind s))]) (re_sources e))),
        (''template_hash'', JString template_hash)]))))"

fun check_outputs :: "resolved_evidence \<Rightarrow> canonical_resource \<Rightarrow> evidence_output list \<Rightarrow> evidence_fault + unit" where
  "check_outputs e res [] = Ok ()"
| "check_outputs e res (out # rest) =
     res_bind (ok_or (OutputMissing (eo_field out)) (map_of (re_fields e) (eo_field out))) (\<lambda>f.
     res_bind (ok_or (ResourceFieldMissing (eo_field out)) (scalar res (eo_field out))) (\<lambda>v.
     if rscalar_kind v \<noteq> eo_ty out \<or> ef_source f \<noteq> eo_source out \<or> ef_value f \<noteq> to_json v
     then Err (EvidenceDiffersFromResource (eo_field out))
     else check_outputs e res rest))"

fun check_sources :: "canonical_resource \<Rightarrow> ((string \<times> string) \<times> envelope_source) list \<Rightarrow> evidence_fault + unit" where
  "check_sources res [] = Ok ()"
| "check_sources res (((kind, id_field), s) # rest) =
     (if ens_kind s \<noteq> kind \<or> req_str res id_field \<noteq> Ok (ens_id s) then Err (SourceDiffers id_field)
      else check_sources res rest)"

definition action_evidence_id :: "exec_env \<Rightarrow> stored_grant \<Rightarrow> string option" where
  "action_evidence_id env g = Option.bind (ee_templates env (sg_provider g) (sg_action g)) tf_request_evidence_id"

definition verify_grant_evidence :: "exec_env \<Rightarrow> exec_answers \<Rightarrow> stored_grant \<Rightarrow> canonical_resource
    \<Rightarrow> evidence_fault + evidence_envelope" where
  "verify_grant_evidence env x g resource =
     res_bind (map_sum EvidenceUnreadable (\<lambda>e. e) (evidence_from_canonical_json env (sg_evidence_json g))) (\<lambda>envelope.
     case envelope of
       NoEvidence _ \<Rightarrow> if action_evidence_id env g \<noteq> None then Err EvidenceRequired else Ok envelope
     | ProviderResolved e \<Rightarrow>
         if xa_now_evidence x > re_mint_deadline_epoch e then Err EvidenceStale
         else res_bind (ok_or UnknownProfile (ee_profile env (re_profile e))) (\<lambda>p.
           if ep_provider p \<noteq> sg_provider g \<or> ep_action p \<noteq> sg_action g then Err ProfileOfAnotherAction
           else if action_evidence_id env g \<noteq> Some (ep_id p) then Err ProfileNotTheActions
           else if re_profile_fingerprint e \<noteq> ep_fingerprint p then Err ProfileSemanticsChanged
           else if length (re_fields e) \<noteq> length (ep_outputs p) \<or> length (re_sources e) \<noteq> length (ep_sources p)
           then Err WrongFieldOrSourceSet
           else res_bind (check_outputs e resource (ep_outputs p)) (\<lambda>_.
             res_bind (check_sources resource (zip (ep_sources p) (re_sources e))) (\<lambda>_.
             res_bind (ok_or NoTemplateHash (sg_template_hash g)) (\<lambda>th.
             if evidence_resolution_digest env (sg_request_id g) (sg_provider g) (sg_action g) (sg_descriptor_hash g) p th e \<noteq> re_resolution_digest e then Err ResolutionDigestInvalid
             else res_bind (ok_or GenerationUnreadable (xa_generation_current x)) (\<lambda>current.
               if \<not> current then Err GenerationChanged else Ok envelope))))))"

fun credential_generation :: "evidence_envelope \<Rightarrow> string option" where
  "credential_generation (NoEvidence _) = None"
| "credential_generation (ProviderResolved e) = Some (re_credential_generation e)"

fun profile_id :: "evidence_envelope \<Rightarrow> string option" where
  "profile_id (NoEvidence _) = None"
| "profile_id (ProviderResolved e) = Some (re_profile e)"

section \<open>Before the claim\<close>

definition refused_data :: "string \<Rightarrow> stored_grant \<Rightarrow> string \<Rightarrow> json" where
  "refused_data gid g reason = JObject
     [(''grant_id'', JString gid), (''provider'', JString (sg_provider g)), (''action'', JString (sg_action g)),
      (''reason'', JString reason), (''mutation_invoked'', JBool False)]"

definition record_capability_execution_refused :: "exec_env \<Rightarrow> string \<Rightarrow> stored_grant \<Rightarrow> string \<Rightarrow> unit handler" where
  "record_capability_execution_refused env gid g reason =
     then_do (all_secrets env) (\<lambda>secrets.
       record_row env (Some (sg_session g)) ''capability_execution_refused'' (refused_data gid g reason) secrets)"

definition refuse_recorded :: "exec_env \<Rightarrow> string \<Rightarrow> stored_grant \<Rightarrow> string \<Rightarrow> exec_error \<Rightarrow> 'a handler" where
  "refuse_recorded env gid g reason e =
     then_do (record_capability_execution_refused env gid g reason) (\<lambda>_. refuse e)"

definition provider_is_product_disabled :: "exec_env \<Rightarrow> string \<Rightarrow> string \<Rightarrow> bool" where
  "provider_is_product_disabled env provider action \<longleftrightarrow>
     ee_enforce_availability env \<and> product_availability provider action = ProviderDisabled"

definition status_refusal :: "string \<Rightarrow> grant_status \<Rightarrow> exec_error option" where
  "status_refusal gid s = (case s of
      Approved \<Rightarrow> None
    | Requested \<Rightarrow> Some (ExecuteRefused NotReady)
    | Executing \<Rightarrow> Some (ExecuteRefused AlreadyUsed)
    | Executed \<Rightarrow> Some (ExecuteRefused AlreadyUsed)
    | Expired \<Rightarrow> Some (ExecuteRefused GrantExpired)
    | Denied \<Rightarrow> Some (GrantDenied gid))"

definition check_status :: "string \<Rightarrow> stored_grant \<Rightarrow> unit handler" where
  "check_status gid g = (case status_refusal gid (sg_status g) of Some e \<Rightarrow> refuse e | None \<Rightarrow> give ())"

definition check_deadline :: "exec_env \<Rightarrow> string \<Rightarrow> stored_grant \<Rightarrow> int option \<Rightarrow> int \<Rightarrow> unit handler" where
  "check_deadline env gid g deadline now = (case deadline of
      None \<Rightarrow> give ()
    | Some d \<Rightarrow>
        if now > d then then_do (expire_grant env gid g) (\<lambda>_. refuse (ExecuteRefused GrantExpired)) else give ())"

definition check_provenance :: "exec_env \<Rightarrow> string \<Rightarrow> stored_grant \<Rightarrow> unit handler" where
  "check_provenance env gid g =
     (if sg_approved_by_kind g \<noteq> Some ''sentence''
      then refuse_recorded env gid g ''sentence_provenance_required'' (NoSentenceProvenance gid) else give ())"

definition check_authority_before :: "exec_env \<Rightarrow> exec_answers \<Rightarrow> string \<Rightarrow> stored_grant \<Rightarrow> unit handler" where
  "check_authority_before env x gid g = (case xa_authority_pre x of
      Some current \<Rightarrow>
        if current = sg_policy_fingerprint g then give ()
        else refuse_recorded env gid g ''sentence_authority_changed'' (AuthorityMoved gid)
    | None \<Rightarrow> refuse_recorded env gid g ''sentence_authority_unavailable'' (AuthorityUnavailable gid))"

definition check_recipe :: "exec_env \<Rightarrow> evidence_envelope \<Rightarrow> string \<Rightarrow> stored_grant \<Rightarrow> unit handler" where
  "check_recipe env ev gid g =
     (let live = map_option tf_content_hash (ee_templates env (sg_provider g) (sg_action g)) in
      if sg_template_hash g \<noteq> live then
        (if profile_id ev \<noteq> None then refuse_recorded env gid g ''evidence_stale'' EvidenceDenial
         else refuse (ExecuteRefused TemplateDrifted))
      else if ee_descriptors env (sg_provider g) \<noteq> Some (sg_descriptor_hash g) then
        (if profile_id ev \<noteq> None then refuse_recorded env gid g ''evidence_stale'' EvidenceDenial
         else refuse (ExecuteRefused TemplateDrifted))
      else give ())"

text \<open>
  The stored resource passes its contract and the provider's own rules again, and the evidence is
  checked against it. The answer is what the rest of the run uses.
\<close>

record checked_call =
  cc_provider :: provider_iface
  cc_contract :: action_contract
  cc_resource :: canonical_resource
  cc_evidence :: evidence_envelope

definition check_call :: "exec_env \<Rightarrow> exec_answers \<Rightarrow> string \<Rightarrow> stored_grant \<Rightarrow> money_metadata \<Rightarrow> checked_call handler" where
  "check_call env x gid g money =
     (let declared = ee_templates env (sg_provider g) (sg_action g);
          mints_key = (case declared of None \<Rightarrow> False | Some l \<Rightarrow> tf_mints_key l) in
      then_do (lift_result (\<lambda>e. e) (ok_or (ProviderNotRegistered (sg_provider g)) (ee_provider env (sg_provider g)))) (\<lambda>provider.
      then_do (unless (mints_key \<noteq> (idempotency_key money \<noteq> None)) DisciplineDisagrees) (\<lambda>_.
      then_do (lift_result (\<lambda>e. e) (ok_or (NoContract (sg_action g)) (pi_contract provider (sg_action g)))) (\<lambda>contract.
      then_do (lift_result (\<lambda>_. ResourceInvalid) (from_stored (ee_json env) (sg_resource_json g) contract)) (\<lambda>stored.
      then_do (lift_result (\<lambda>e. e) (ok_or ResourceInvalid (json_parse (ee_json env) (to_canonical_json (ee_json env) stored)))) (\<lambda>stored_value.
      then_do (lift_result (\<lambda>e. e) (ok_or ResourceInvalid (pi_canonicalize provider (sg_action g) stored_value))) (\<lambda>resource.
      case verify_grant_evidence env x g resource of
        Inl _ \<Rightarrow> refuse_recorded env gid g ''evidence_integrity'' EvidenceDenial
      | Inr evidence \<Rightarrow> give \<lparr>cc_provider = provider, cc_contract = contract, cc_resource = resource, cc_evidence = evidence\<rparr>)))))))"

section \<open>The claim\<close>

definition DEFAULT_MAX_RUNTIME_SECS :: int where "DEFAULT_MAX_RUNTIME_SECS = 900"
definition LEASE_REPORT_GRACE_SECS :: int where "LEASE_REPORT_GRACE_SECS = 120"

definition lease_deadline_of :: "int \<Rightarrow> int" where
  "lease_deadline_of opened = opened + DEFAULT_MAX_RUNTIME_SECS + LEASE_REPORT_GRACE_SECS"

definition claim_grant :: "exec_env \<Rightarrow> exec_answers \<Rightarrow> evidence_envelope \<Rightarrow> string \<Rightarrow> stored_grant \<Rightarrow> unit handler" where
  "claim_grant env x ev gid g =
     (let opened = xa_now_lease x; deadline = lease_deadline_of opened in
      if (case ev of NoEvidence _ \<Rightarrow> False | ProviderResolved e \<Rightarrow> opened > re_mint_deadline_epoch e)
      then refuse_recorded env gid g ''evidence_stale'' EvidenceDenial
      else then_do (update_grant gid [Approved] (\<lambda>row. row\<lparr>sg_status := Executing,
               sg_digest := redigest_leased (ee_keys env) gid g ''executing'' opened deadline,
               sg_lease_opened_at := Some opened, sg_lease_deadline := Some deadline\<rparr>)) (\<lambda>claimed.
           if claimed then give () else refuse (ExecuteRefused AlreadyUsed)))"

definition executing_session :: "exec_answers \<Rightarrow> stored_grant \<Rightarrow> string" where
  "executing_session x g = (case xa_executing_session x of None \<Rightarrow> sg_session g | Some s \<Rightarrow> s)"

definition end_before_effect :: "exec_env \<Rightarrow> exec_answers \<Rightarrow> string \<Rightarrow> stored_grant \<Rightarrow> string list \<Rightarrow> string
    \<Rightarrow> exec_error \<Rightarrow> 'a handler" where
  "end_before_effect env x gid g secrets outcome e =
     then_do (terminalize_pre_invocation_failure env gid g (xa_now_lease x) (lease_deadline_of (xa_now_lease x))
       secrets outcome (executing_session x g)) (\<lambda>_. refuse e)"

definition check_after_claim :: "exec_env \<Rightarrow> exec_answers \<Rightarrow> string \<Rightarrow> stored_grant \<Rightarrow> string list \<Rightarrow> unit handler" where
  "check_after_claim env x gid g secrets =
     (if xa_locked_post_claim x
      then end_before_effect env x gid g secrets ''lockdown_engaged'' (LockedDown ''post-claim egress'')
      else (case xa_authority_post x of
          Some current \<Rightarrow>
            if current = sg_policy_fingerprint g then give ()
            else end_before_effect env x gid g secrets ''authority_changed'' (AuthorityMoved gid)
        | None \<Rightarrow> end_before_effect env x gid g secrets ''authority_unavailable'' (AuthorityUnavailable gid)))"

section \<open>Preconditions and the start of the effect\<close>

definition run_preconditions :: "exec_env \<Rightarrow> exec_answers \<Rightarrow> evidence_envelope \<Rightarrow> string \<Rightarrow> stored_grant \<Rightarrow> money_metadata
    \<Rightarrow> string list \<Rightarrow> unit handler" where
  "run_preconditions env x ev gid g money secrets =
     (if \<not> (case ee_templates env (sg_provider g) (sg_action g) of None \<Rightarrow> False | Some l \<Rightarrow> tf_has_preconditions l)
      then give ()
      else if xa_preconditions x = NoProfile then refuse PreconditionProfileMissing
      else if credential_generation ev = None then refuse NoCredentialGeneration
      else (case xa_preconditions x of
          CredentialUnavailable \<Rightarrow>
            end_before_effect env x gid g secrets ''precondition_credential_unavailable'' VaultUnavailable
        | CheckFailed name cls \<Rightarrow>
            then_do (record_row env (Some (sg_session g)) ''money_precondition_denied'' (JObject
              [(''grant_id'', JString gid),
               (''effect_id'', case effect_id money of None \<Rightarrow> JNull | Some e \<Rightarrow> JString e),
               (''precondition'', JString name), (''failure_class'', JString cls)]) secrets) (\<lambda>_.
            end_before_effect env x gid g secrets ''precondition_denied'' PreconditionDenied)
        | _ \<Rightarrow> give ()))"

definition SECRET_FIELD_MARKER :: string where "SECRET_FIELD_MARKER = ''[redacted: secret]''"

definition redact_secret_fields :: "action_contract \<Rightarrow> json \<Rightarrow> json" where
  "redact_secret_fields c resource = (case resource of
      JObject es \<Rightarrow> JObject (map (\<lambda>(k, v). (k, if field_class c k = Some Secret then JString SECRET_FIELD_MARKER else v)) es)
    | v \<Rightarrow> v)"

fun evidence_field_names :: "evidence_envelope \<Rightarrow> string list" where
  "evidence_field_names (NoEvidence _) = []"
| "evidence_field_names (ProviderResolved e) = map fst (re_fields e)"

fun evidence_receipt_fields :: "evidence_envelope \<Rightarrow> (string \<times> json) list" where
  "evidence_receipt_fields (NoEvidence _) = []"
| "evidence_receipt_fields (ProviderResolved e) =
     [(''evidence_receipt_id'', JString (re_receipt_id e)), (''evidence_resolution_digest'', JString (re_resolution_digest e))]"

definition effect_start_data :: "exec_env \<Rightarrow> exec_answers \<Rightarrow> evidence_envelope \<Rightarrow> string \<Rightarrow> stored_grant \<Rightarrow> money_metadata
    \<Rightarrow> json \<Rightarrow> json" where
  "effect_start_data env x ev gid g money safe = JObject
     ([(''grant_id'', JString gid), (''request_id'', JString (sg_request_id g)), (''provider'', JString (sg_provider g)),
       (''action'', JString (sg_action g)), (''authority_digest'', JString (sg_policy_fingerprint g)),
       (''resource'', safe),
       (''agent_request_fields'', JArray (agent_fields safe (evidence_field_names ev))),
       (''provider_resolved_fields'', JArray (map JString (evidence_field_names ev))),
       (''request_session'', JString (sg_session g)), (''executing_session'', JString (executing_session x g)),
       (''resource_binding'', JString (effect_start_resource_binding env gid g safe))] @
      evidence_receipt_fields ev @
      (case effect_id money of None \<Rightarrow> [] | Some e \<Rightarrow> [(''effect_id'', JString e)]))"

text \<open>The resource is scrubbed before its binding is computed, so the row is recorded as it is.\<close>

definition record_effect_start :: "exec_env \<Rightarrow> exec_answers \<Rightarrow> checked_call \<Rightarrow> string \<Rightarrow> stored_grant \<Rightarrow> money_metadata
    \<Rightarrow> string list \<Rightarrow> unit handler" where
  "record_effect_start env x call gid g money secrets =
     then_do (lift_result (\<lambda>e. e) (ok_or ResourceInvalid (json_parse (ee_json env) (sg_resource_json g)))) (\<lambda>frozen.
     let safe = redacted_for_record (redact_secret_fields (cc_contract call) frozen) secrets in
     record_row env (Some (sg_session g)) ''capability_effect_starting''
       (effect_start_data env x (cc_evidence call) gid g money safe) [])"

section \<open>The effect\<close>

type_synonym invocation = "bool \<times> (exec_error \<times> effect_failure_class option + provider_reply)"

definition call_provider :: "exec_answers \<Rightarrow> string \<Rightarrow> invocation handler" where
  "call_provider x gid st =
     (st\<lparr>bs_calls := bs_calls st @ [gid]\<rparr>,
      Ok (True, map_sum (\<lambda>c. (case c of None \<Rightarrow> UntypedFailure | Some cls \<Rightarrow> EffectFailedWith cls, c)) (\<lambda>r. r) (xa_reply x)))"

definition egress :: "exec_answers \<Rightarrow> string \<Rightarrow> invocation handler" where
  "egress x gid =
     (if xa_locked_egress x then give (False, Inl (LockedDown ''provider egress'', None)) else call_provider x gid)"

definition invoke :: "exec_env \<Rightarrow> exec_answers \<Rightarrow> checked_call \<Rightarrow> string \<Rightarrow> stored_grant \<Rightarrow> invocation handler" where
  "invoke env x call gid g =
     (if (case ee_templates env (sg_provider g) (sg_action g) of None \<Rightarrow> False | Some l \<Rightarrow> tf_relay l) then call_provider x gid
      else if pi_requires_credential (cc_provider call) \<and> \<not> xa_credential_opens x then give (False, Inl (VaultUnavailable, None))
      else egress x gid)"

section \<open>The terminal record\<close>

definition observed_failure_class :: "effect_failure_class option \<Rightarrow> effect_failure_class" where
  "observed_failure_class c = (case c of
      Some TransportPreSend \<Rightarrow> TransportPreSend
    | Some LocalExecutionFailure \<Rightarrow> LocalExecutionFailure
    | _ \<Rightarrow> TransportNoResponse)"

definition effect_failure_message :: "effect_failure_class \<Rightarrow> string \<Rightarrow> string" where
  "effect_failure_message c e =
     (if c = TransportPreSend \<or> c = LocalExecutionFailure
      then ''the request never left this machine and the effect did not occur; a new request is the retry path''
      else ''the request was sent and no response arrived, so whether the effect landed is not yet determined; retry this exact effect with retry_effect='' @ e @
           '', which reuses its idempotency key, rather than making a fresh request'')"

definition derived_effect_outcome :: "effect_proof \<Rightarrow> effect_outcome" where
  "derived_effect_outcome p = (case p of
      Proved \<Rightarrow> EffectSucceeded | EffectRefused \<Rightarrow> DefinitelyFailed | Unproved \<Rightarrow> Ambiguous)"

definition proof_str :: "effect_proof \<Rightarrow> string" where
  "proof_str p = (case p of Proved \<Rightarrow> ''proved'' | EffectRefused \<Rightarrow> ''refused'' | Unproved \<Rightarrow> ''unproved'')"

definition error_class :: "bool \<Rightarrow> money_metadata \<Rightarrow> effect_failure_class option \<Rightarrow> effect_failure_class" where
  "error_class invoked money c =
     (if invoked \<and> effect_id money \<noteq> None then observed_failure_class c
      else (case c of Some cls \<Rightarrow> cls
            | None \<Rightarrow> class_of_signal (if invoked then Unclassifiable else LocalFault)))"

definition error_text :: "bool \<Rightarrow> money_metadata \<Rightarrow> effect_failure_class \<Rightarrow> string \<Rightarrow> string" where
  "error_text invoked money cls text = (case effect_id money of
      Some e \<Rightarrow> if invoked then ''provider error: '' @ effect_failure_message cls e else text
    | None \<Rightarrow> text)"

definition pid_field :: "exec_answers \<Rightarrow> (string \<times> json) list" where
  "pid_field x = (case xa_pid x of None \<Rightarrow> [] | Some p \<Rightarrow> [(''executing_pid'', JInt p)])"

definition error_data :: "exec_answers \<Rightarrow> string \<Rightarrow> stored_grant \<Rightarrow> money_metadata \<Rightarrow> bool \<Rightarrow> effect_failure_class
    \<Rightarrow> json" where
  "error_data x gid g money invoked cls = JObject
     ([(''grant_id'', JString gid), (''request_id'', JString (sg_request_id g)), (''provider'', JString (sg_provider g)),
       (''action'', JString (sg_action g)), (''outcome'', JString ''error''), (''mutation_invoked'', JBool invoked),
       (''error'', JString (error_text invoked money cls (xa_error_text x))), (''failure_class'', JString (class_str cls)),
       (''request_session'', JString (sg_session g)), (''executing_session'', JString (executing_session x g))] @
      (case effect_id money of None \<Rightarrow> []
       | Some e \<Rightarrow> [(''effect_id'', JString e),
           (''effect_outcome'', JString (if invoked then ''ambiguous'' else ''definitely_pre_effect'')),
           (''attempted_at'', JString (xa_attempted_at x))]) @ pid_field x)"

definition finish_error :: "exec_env \<Rightarrow> exec_answers \<Rightarrow> string \<Rightarrow> stored_grant \<Rightarrow> money_metadata \<Rightarrow> string list \<Rightarrow> bool
    \<Rightarrow> exec_error \<Rightarrow> effect_failure_class option \<Rightarrow> 'a handler" where
  "finish_error env x gid g money secrets invoked e c =
     (let cls = error_class invoked money c; opened = xa_now_lease x in
      then_do (record_row env (Some (sg_session g)) ''provider_action_failed'' (error_data x gid g money invoked cls) secrets) (\<lambda>_.
      then_do (flip_executed env gid g opened (lease_deadline_of opened)) (\<lambda>_.
      then_do (if invoked then give () else release_budget env gid PreInvocationTerminalFailure) (\<lambda>_.
      refuse (if invoked \<and> effect_id money \<noteq> None then EffectFailedWith cls else e)))))"

record artifact_ref =
  af_handle :: string
  af_digest :: string

record execution_result =
  er_ok :: bool
  er_provider :: string
  er_action :: string
  er_effect_id :: "string option"
  er_effect_outcome :: "effect_outcome option"
  er_result :: json
  er_artifact :: "string option"
  er_wire_stats :: "(nat \<times> nat) option"
  er_envelope :: json

definition receipt_stamp :: "string \<Rightarrow> (string \<times> json) list \<Rightarrow> json" where
  "receipt_stamp req metadata = JObject ((''request_id'', JString req) # filter (\<lambda>(k, _). k \<noteq> ''request_id'') metadata)"

text \<open>
  The body of a reply is stored before the terminal record; a failure of the store is noted there and
  does not end the run: \<open>None\<close> is that failure.
\<close>

definition store_artifact_capped :: "exec_env \<Rightarrow> exec_answers \<Rightarrow> stored_grant \<Rightarrow> artifact_ref handler" where
  "store_artifact_capped env x g =
     then_do (lift_result (\<lambda>_. StoreFault) (ok_or () (xa_staged x))) (\<lambda>(handle, digest, size, truncated).
     then_do (all_secrets env) (\<lambda>secrets.
     then_do (record_row env (session_if_any g) ''artifact_stored'' (JObject
       [(''handle'', JString handle), (''request_id'', JString (sg_request_id g)), (''digest'', JString digest),
        (''size'', JInt size), (''truncated'', JBool truncated)]) secrets) (\<lambda>_.
     then_do (write_store (\<lambda>st. st)) (\<lambda>_. give \<lparr>af_handle = handle, af_digest = digest\<rparr>))))"

definition retain_artifact :: "exec_env \<Rightarrow> exec_answers \<Rightarrow> stored_grant \<Rightarrow> provider_reply \<Rightarrow> artifact_ref option handler" where
  "retain_artifact env x g r st =
     (case pr_retained r of
        None \<Rightarrow> (st, Ok None)
      | Some _ \<Rightarrow> (case store_artifact_capped env x g st of
            (st', Inl _) \<Rightarrow> (st', Ok None)
          | (st', Inr a) \<Rightarrow> (st', Ok (Some a))))"

definition wire_stats_of :: "exec_env \<Rightarrow> provider_reply \<Rightarrow> json \<Rightarrow> (nat \<times> nat) option" where
  "wire_stats_of env r result = map_option (\<lambda>sent. (sent, length (utf8 (json_print (ee_json env) result)))) (pr_retained r)"

definition effect_fields :: "money_metadata \<Rightarrow> provider_reply \<Rightarrow> exec_error + (string \<times> json) list" where
  "effect_fields money r = (case effect_id money of
      None \<Rightarrow> Ok []
    | Some e \<Rightarrow> (case pr_proof r of
        None \<Rightarrow> Err NoEffectObservation
      | Some p \<Rightarrow> Ok [(''effect_id'', JString e), (''effect_proof'', JString (proof_str p)),
                      (''effect_outcome'', JString (effect_outcome_str (derived_effect_outcome p)))]))"

definition reply_data :: "exec_answers \<Rightarrow> string \<Rightarrow> stored_grant \<Rightarrow> bool \<Rightarrow> provider_reply \<Rightarrow> json
    \<Rightarrow> (string \<times> json) list \<Rightarrow> artifact_ref option \<Rightarrow> (nat \<times> nat) option \<Rightarrow> json \<Rightarrow> json" where
  "reply_data x gid g invoked r result effect artifact wire envelope = JObject
     ([(''grant_id'', JString gid), (''request_id'', JString (sg_request_id g)), (''provider'', JString (sg_provider g)),
       (''action'', JString (sg_action g)), (''outcome'', JString (if pr_ok r then ''ok'' else ''provider_error'')),
       (''mutation_invoked'', JBool invoked), (''result'', result),
       (''request_session'', JString (sg_session g)), (''executing_session'', JString (executing_session x g))] @
      (if pr_ok r then []
       else [(''failure_class'', JString (class_str (case pr_failure_class r of None \<Rightarrow> EffectFailed | Some c \<Rightarrow> c)))]) @
      effect @
      (case artifact of None \<Rightarrow> [] | Some a \<Rightarrow> [(''artifact'', JString (af_handle a)), (''digest'', JString (af_digest a))]) @
      (case wire of None \<Rightarrow> []
       | Some (sent, kept) \<Rightarrow> [(''wire_stats'', JObject [(''total_bytes'', JInt (int sent)), (''kept_bytes'', JInt (int kept))])]) @
      [(''envelope'', envelope)] @
      (if pr_retained r \<noteq> None \<and> artifact = None then [(''retention_error'', JString (xa_error_text x))] else []) @
      pid_field x)"

definition finish_reply :: "exec_env \<Rightarrow> exec_answers \<Rightarrow> string \<Rightarrow> stored_grant \<Rightarrow> money_metadata \<Rightarrow> string list \<Rightarrow> bool
    \<Rightarrow> provider_reply \<Rightarrow> execution_result handler" where
  "finish_reply env x gid g money secrets invoked r =
     (let result = redacted (pr_result r) secrets; opened = xa_now_lease x; wire = wire_stats_of env r result;
          metadata = (case redacted (JObject (pr_envelope r)) secrets of JObject es \<Rightarrow> es | _ \<Rightarrow> []);
          envelope = receipt_stamp (sg_request_id g) metadata in
      then_do (retain_artifact env x g r) (\<lambda>artifact.
      then_do (lift_result (\<lambda>e. e) (effect_fields money r)) (\<lambda>effect.
      then_do (record_row env (Some (sg_session g)) (if pr_ok r then ''provider_action_succeeded'' else ''provider_action_failed'')
        (reply_data x gid g invoked r result effect artifact wire envelope) secrets) (\<lambda>_.
      then_do (flip_executed env gid g opened (lease_deadline_of opened)) (\<lambda>_.
      give \<lparr>er_ok = pr_ok r, er_provider = sg_provider g, er_action = sg_action g, er_effect_id = effect_id money,
        er_effect_outcome = map_option derived_effect_outcome (pr_proof r), er_result = result,
        er_artifact = map_option af_handle artifact, er_wire_stats = wire, er_envelope = envelope\<rparr>)))))"

section \<open>The whole run\<close>

definition run_secrets :: "money_metadata \<Rightarrow> string list \<Rightarrow> string list" where
  "run_secrets money secrets = secrets @ (case idempotency_key money of None \<Rightarrow> [] | Some k \<Rightarrow> [k])"

definition integrity :: "exec_env \<Rightarrow> string \<Rightarrow> stored_grant \<Rightarrow> unit handler" where
  "integrity env gid g = lift_result IntegrityFailed
     (assert_grant_integrity (ee_keys env) (ee_json env) (ee_money env) (ee_templates env) gid g)"

definition admit_claim :: "exec_env \<Rightarrow> exec_answers \<Rightarrow> string \<Rightarrow> (stored_grant \<times> money_metadata \<times> checked_call) handler" where
  "admit_claim env x gid =
     then_do (unless (xa_locked_claim x) (LockedDown ''new execution claims'')) (\<lambda>_.
     then_do (unless (xa_barrier_refuses x) BarrierHolds) (\<lambda>_.
     then_do (load_grant gid) (\<lambda>g.
     then_do (integrity env gid g) (\<lambda>_.
     then_do (if provider_is_product_disabled env (sg_provider g) (sg_action g)
              then refuse_recorded env gid g ''provider_disabled'' ProviderDisabledError else give ()) (\<lambda>_.
     then_do (lift_result LineageFault (evidence_from_canonical_json env (sg_evidence_json g))) (\<lambda>ev.
     then_do (read_money env g) (\<lambda>money.
     then_do (check_status gid g) (\<lambda>_.
     then_do (check_deadline env gid g (sg_expiry g) (xa_now_expiry x)) (\<lambda>_.
     then_do (check_deadline env gid g (retry_deadline_epoch money) (xa_now_retry x)) (\<lambda>_.
     then_do (check_provenance env gid g) (\<lambda>_.
     then_do (check_authority_before env x gid g) (\<lambda>_.
     then_do (check_recipe env ev gid g) (\<lambda>_.
     then_do (check_call env x gid g money) (\<lambda>call.
     give (g, money, call)))))))))))))))"

definition run_claimed :: "exec_env \<Rightarrow> exec_answers \<Rightarrow> string \<Rightarrow> stored_grant \<Rightarrow> money_metadata \<Rightarrow> checked_call
    \<Rightarrow> string list \<Rightarrow> execution_result handler" where
  "run_claimed env x gid g money call secrets =
     then_do (check_after_claim env x gid g secrets) (\<lambda>_.
     then_do (run_preconditions env x (cc_evidence call) gid g money secrets) (\<lambda>_.
     then_do (record_effect_start env x call gid g money secrets) (\<lambda>_.
     then_do (invoke env x call gid g) (\<lambda>(invoked, outcome).
     case outcome of
       Inl (e, c) \<Rightarrow> finish_error env x gid g money secrets invoked e c
     | Inr r \<Rightarrow> finish_reply env x gid g money secrets invoked r))))"

definition claim_and_run :: "exec_env \<Rightarrow> exec_answers \<Rightarrow> string \<Rightarrow> execution_result handler" where
  "claim_and_run env x gid =
     then_do (admit_claim env x gid) (\<lambda>(g, money, call).
     then_do (all_secrets env) (\<lambda>vault.
     let secrets = run_secrets money vault in
     then_do (claim_grant env x (cc_evidence call) gid g) (\<lambda>_.
     run_claimed env x gid g money call secrets)))"

section \<open>Entry points\<close>

definition resolve_grant_id_by_request_id :: "string \<Rightarrow> string handler" where
  "resolve_grant_id_by_request_id req st =
     (st, ok_or (GrantNotFound req)
       (find (\<lambda>i. case bs_grants st i of None \<Rightarrow> False | Some g \<Rightarrow> sg_request_id g = req) (bs_ids st)))"

definition require_session :: "string \<Rightarrow> string \<Rightarrow> unit handler" where
  "require_session gid session = then_do (load_grant gid) (\<lambda>g. unless (sg_session g \<noteq> session) (GrantDenied gid))"

definition require_principal :: "string \<Rightarrow> string \<Rightarrow> unit handler" where
  "require_principal gid owner =
     then_do (load_grant gid) (\<lambda>g. unless (sg_principal g \<noteq> Some owner) (GrantDenied gid))"

definition execute_capability_by_request_id :: "exec_env \<Rightarrow> exec_answers \<Rightarrow> string \<Rightarrow> execution_result handler" where
  "execute_capability_by_request_id env x req =
     then_do (resolve_grant_id_by_request_id req) (\<lambda>gid. claim_and_run env x gid)"

definition execute_capability_in_session :: "exec_env \<Rightarrow> exec_answers \<Rightarrow> string \<Rightarrow> string \<Rightarrow> execution_result handler" where
  "execute_capability_in_session env x gid session =
     then_do (require_session gid session) (\<lambda>_. claim_and_run env x gid)"

definition execute_capability_for_principal :: "exec_env \<Rightarrow> exec_answers \<Rightarrow> string \<Rightarrow> string \<Rightarrow> execution_result handler" where
  "execute_capability_for_principal env x gid owner =
     then_do (require_principal gid owner) (\<lambda>_. claim_and_run env x gid)"

definition execute_capability_for_principal_in_session ::
    "exec_env \<Rightarrow> exec_answers \<Rightarrow> string \<Rightarrow> string \<Rightarrow> string \<Rightarrow> execution_result handler" where
  "execute_capability_for_principal_in_session env x gid session owner =
     then_do (load_grant gid) (\<lambda>g.
     then_do (unless (sg_session g \<noteq> session) (GrantDenied gid)) (\<lambda>_.
     then_do (unless (sg_principal g \<noteq> Some owner) (GrantDenied gid)) (\<lambda>_.
     claim_and_run env x gid)))"

text \<open>
  A session the caller supplies must be open, and opened by the peer that is attested now; a caller without a peer
  is not asked for its ownership.
\<close>

definition trim :: "string \<Rightarrow> string" where
  "trim s = rev (dropWhile is_whitespace (rev (dropWhile is_whitespace s)))"

definition session_open_for_peer :: "broker_store \<Rightarrow> string \<Rightarrow> int option \<Rightarrow> bool" where
  "session_open_for_peer st session peer =
     (case find (\<lambda>s. ss_id s = trim session \<and> ss_open s) (bs_sessions st) of
        None \<Rightarrow> False
      | Some s \<Rightarrow> (case peer of None \<Rightarrow> True | Some uid \<Rightarrow> ss_owner s = Some uid))"

definition require_supplied_session_open :: "exec_answers \<Rightarrow> unit handler" where
  "require_supplied_session_open x st =
     (if xa_require_session_open x then
        (case xa_executing_session x of
           None \<Rightarrow> give () st
         | Some sid \<Rightarrow> unless (\<not> session_open_for_peer st sid (xa_peer_uid x)) SessionExpired st)
      else give () st)"

definition execute_request_for_principal :: "exec_env \<Rightarrow> exec_answers \<Rightarrow> string \<Rightarrow> string \<Rightarrow> execution_result handler" where
  "execute_request_for_principal env x req owner =
     then_do (require_supplied_session_open x) (\<lambda>_.
     then_do (resolve_grant_id_by_request_id req) (\<lambda>gid.
     then_do (require_principal gid owner) (\<lambda>_. claim_and_run env x gid)))"

section \<open>Recovery and sweeps\<close>

definition grant_events :: "exec_env \<Rightarrow> audit_row list \<Rightarrow> (audit_row \<Rightarrow> bool) \<Rightarrow> exec_error + audit_row list" where
  "grant_events env log sel = (if \<not> ee_verified env log then Err (BudgetFault ChainNotIntact) else Ok (filter sel log))"

text \<open>
  The answer says whether the terminal evidence proves that the run ended before the effect. A grant
  with a tracked effect is read by the stricter reader of its effect chain.
\<close>

definition verified_in_process_terminal_execution :: "exec_env \<Rightarrow> string \<Rightarrow> stored_grant \<Rightarrow> bool option handler" where
  "verified_in_process_terminal_execution env gid g =
     then_do (read_money env g) (\<lambda>money.
     if effect_id money \<noteq> None
     then (\<lambda>st. (st, map_sum LineageFault (map_option (\<lambda>e. e = PreEffect))
              (verified_money_terminal_effect_outcome env (bs_grants st) (bs_log st) gid g money)))
     else (\<lambda>st. (st, res_bind (grant_events env (bs_log st)
             (\<lambda>r. (ar_type r = ''capability_effect_starting'' \<or> terminal_row r) \<and> speaks_of gid (sg_request_id g) r)) (\<lambda>events.
           case find terminal_row (rev events) of
             None \<Rightarrow> Ok None
           | Some terminal \<Rightarrow>
               res_bind (ok_or (NoInvocationState gid) (row_invoked terminal))
                 (\<lambda>invoked. Ok (Some (\<not> invoked)))))))"

definition reconcile_terminal_execution :: "exec_env \<Rightarrow> string \<Rightarrow> stored_grant \<Rightarrow> bool option handler" where
  "reconcile_terminal_execution env gid g =
     then_do (verified_in_process_terminal_execution env gid g) (\<lambda>evidence. case evidence of
       None \<Rightarrow> give None
     | Some pre_effect \<Rightarrow>
         then_do (if sg_status g = Executing
                  then update_grant gid [Executing] (\<lambda>row. row\<lparr>sg_status := Executed,
                         sg_digest := redigest (ee_keys env) gid g ''executed''\<rparr>)
                  else give True) (\<lambda>_.
         then_do (if pre_effect then release_budget env gid PreInvocationTerminalFailure else give ()) (\<lambda>_.
         give (Some pre_effect))))"

definition abandoned_data :: "string \<Rightarrow> stored_grant \<Rightarrow> json" where
  "abandoned_data gid g = JObject
     [(''grant_id'', JString gid), (''request_id'', JString (sg_request_id g)), (''grant_digest'', JString (sg_digest g)),
      (''lease_opened_at'', case sg_lease_opened_at g of None \<Rightarrow> JNull | Some n \<Rightarrow> JInt n),
      (''lease_deadline'', case sg_lease_deadline g of None \<Rightarrow> JNull | Some n \<Rightarrow> JInt n),
      (''outcome'', JString ''unreported'')]"

definition lease_abandoned_known :: "exec_env \<Rightarrow> string \<Rightarrow> stored_grant \<Rightarrow> bool handler" where
  "lease_abandoned_known env gid g st =
     (st, map_sum LineageFault (\<lambda>b. b) (lease_abandoned_row_exists env (bs_log st) gid (sg_request_id g) (sg_digest g)
        (sg_lease_opened_at g) (sg_lease_deadline g)))"

definition terminalize_abandoned_lease :: "exec_env \<Rightarrow> string \<Rightarrow> stored_grant \<Rightarrow> unit handler" where
  "terminalize_abandoned_lease env gid g =
     then_do (lease_abandoned_known env gid g) (\<lambda>known.
     then_do (if known then give ()
              else then_do (all_secrets env) (\<lambda>secrets.
                     record_row env (session_if_any g) ''lease_abandoned'' (abandoned_data gid g) secrets)) (\<lambda>_.
     expire_grant env gid g))"

text \<open>A sweep goes on to the next grant whatever happens to one.\<close>

definition try_each :: "(string \<Rightarrow> bool handler) \<Rightarrow> string list \<Rightarrow> broker_store \<Rightarrow> broker_store \<times> nat" where
  "try_each h gids st =
     fold (\<lambda>gid (st, n). case h gid st of (st', Inl _) \<Rightarrow> (st', n) | (st', Inr done1) \<Rightarrow> (st', if done1 then Suc n else n))
       gids (st, 0)"

definition select_ids :: "(stored_grant \<Rightarrow> bool) \<Rightarrow> broker_store \<Rightarrow> string list" where
  "select_ids sel st = filter (\<lambda>i. case bs_grants st i of None \<Rightarrow> False | Some g \<Rightarrow> sel g) (bs_ids st)"

definition sweep_lease :: "exec_env \<Rightarrow> string \<Rightarrow> bool handler" where
  "sweep_lease env gid =
     then_do (load_grant gid) (\<lambda>g.
     then_do (integrity env gid g) (\<lambda>_.
     then_do (reconcile_terminal_execution env gid g) (\<lambda>found. case found of
       Some _ \<Rightarrow> give True
     | None \<Rightarrow> then_do (terminalize_abandoned_lease env gid g) (\<lambda>_. give True))))"

definition sweep_overdue_leases :: "exec_env \<Rightarrow> int \<Rightarrow> broker_store \<Rightarrow> broker_store \<times> nat" where
  "sweep_overdue_leases env now st =
     try_each (sweep_lease env)
       (select_ids (\<lambda>g. sg_status g = Executing \<and> (case sg_lease_deadline g of None \<Rightarrow> False | Some d \<Rightarrow> d < now)) st) st"

definition reconcile_terminal_executions_on_boot :: "exec_env \<Rightarrow> broker_store \<Rightarrow> broker_store" where
  "reconcile_terminal_executions_on_boot env st =
     fst (try_each (\<lambda>gid. then_do (load_grant gid) (\<lambda>g.
       then_do (integrity env gid g) (\<lambda>_.
       then_do (reconcile_terminal_execution env gid g) (\<lambda>_. give True))))
       (select_ids (\<lambda>g. sg_status g = Executing) st) st)"

definition sweep_expired_requested_grants :: "exec_env \<Rightarrow> int \<Rightarrow> broker_store \<Rightarrow> broker_store" where
  "sweep_expired_requested_grants env now st =
     fst (try_each (\<lambda>gid. then_do (load_grant gid) (\<lambda>g.
       then_do (integrity env gid g) (\<lambda>_.
       then_do (expire_grant env gid g) (\<lambda>_. give True))))
       (select_ids (\<lambda>g. sg_status g = Requested \<and> (case sg_expiry g of None \<Rightarrow> False | Some e \<Rightarrow> e < now)) st) st)"

definition cutover_data :: "string \<Rightarrow> stored_grant \<Rightarrow> json" where
  "cutover_data gid g = JObject
     [(''grant_id'', JString gid), (''request_id'', JString (sg_request_id g)), (''provider'', JString (sg_provider g)),
      (''action'', JString (sg_action g)), (''prior_status'', JString (status_str (sg_status g))),
      (''prior_authority_kind'', case sg_approved_by_kind g of None \<Rightarrow> JNull | Some k \<Rightarrow> JString k),
      (''mutation_invoked'', JBool False)]"

fun cutover_loop :: "exec_env \<Rightarrow> audit_row list \<Rightarrow> string list \<Rightarrow> string list \<Rightarrow> nat \<Rightarrow> nat handler" where
  "cutover_loop env prior secrets [] n = give n"
| "cutover_loop env prior secrets (gid # gids) n =
     then_do (load_grant gid) (\<lambda>g.
     then_do (integrity env gid g) (\<lambda>_.
     then_do (if list_ex (\<lambda>r. jstr (ar_data r) ''grant_id'' = Some gid) prior then give ()
              else record_row env (session_if_any g) ''authority_cutover_terminalized'' (cutover_data gid g) secrets) (\<lambda>_.
     then_do (update_grant gid [Requested, Approved] (\<lambda>row. row\<lparr>sg_status := Expired,
                sg_digest := redigest (ee_keys env) gid g ''expired''\<rparr>)) (\<lambda>changed.
     then_do (if changed then release_budget env gid AuthorityCutoverUnclaimed else give ()) (\<lambda>_.
     cutover_loop env prior secrets gids (if changed then Suc n else n))))))"

definition terminalize_pre_sentence_grants_on_boot :: "exec_env \<Rightarrow> nat handler" where
  "terminalize_pre_sentence_grants_on_boot env st =
     then_do (all_secrets env) (\<lambda>secrets.
       cutover_loop env (filter (\<lambda>r. ar_type r = ''authority_cutover_terminalized'') (bs_log st)) secrets
         (sort (select_ids (\<lambda>g. (sg_status g = Requested \<or> sg_status g = Approved) \<and>
            sg_approved_by_kind g \<noteq> Some ''sentence'') st)) 0) st"

section \<open>Storing a grant\<close>

datatype grant_decision = AllowGrant | DenyGrant

definition decision_str :: "grant_decision \<Rightarrow> string" where
  "decision_str d = (case d of AllowGrant \<Rightarrow> ''allow'' | DenyGrant \<Rightarrow> ''deny'')"

record grant_draft =
  gd_request_id :: string
  gd_session :: string
  gd_provider :: string
  gd_action :: string
  gd_resource :: canonical_resource
  gd_evidence_json :: string
  gd_money_json :: string
  gd_status :: grant_status
  gd_decision :: grant_decision
  gd_principal :: "string option"
  gd_authority :: string
  gd_expiry_override :: "int option"

text \<open>The two readings of the clock are arguments, the epoch first. A second row with the same id is refused.\<close>

definition drafted_grant :: "exec_env \<Rightarrow> grant_draft \<Rightarrow> string \<Rightarrow> string \<Rightarrow> int \<Rightarrow> string \<Rightarrow> stored_grant" where
  "drafted_grant env d gid descriptor now stamp =
     (let allowed = (gd_decision d = AllowGrant);
          g = \<lparr>sg_request_id = gd_request_id d, sg_session = gd_session d, sg_provider = gd_provider d, sg_action = gd_action d,
            sg_resource_json = to_canonical_json (ee_json env) (gd_resource d), sg_evidence_json = gd_evidence_json d,
            sg_money_json = gd_money_json d, sg_status = gd_status d, sg_decision = decision_str (gd_decision d),
            sg_policy_fingerprint = gd_authority d, sg_digest = [],
            sg_expiry = Some (case gd_expiry_override d of Some e \<Rightarrow> e | None \<Rightarrow> now + GRANT_TTL_SECS),
            sg_principal = gd_principal d,
            sg_template_hash = map_option tf_content_hash (ee_templates env (gd_provider d) (gd_action d)),
            sg_descriptor_hash = descriptor,
            sg_approved_by_kind = (if allowed then Some ''sentence'' else None), sg_approver = None,
            sg_approved_at = (if allowed then Some stamp else None), sg_lease_opened_at = None, sg_lease_deadline = None\<rparr> in
      g\<lparr>sg_digest := redigest (ee_keys env) gid g (status_str (gd_status d))\<rparr>)"

definition insert_grant :: "exec_env \<Rightarrow> grant_draft \<Rightarrow> string \<Rightarrow> int \<Rightarrow> string \<Rightarrow> unit handler" where
  "insert_grant env d gid now stamp =
     then_do (lift_result (\<lambda>_. ResourceInvalid) (ok_or () (json_parse (ee_json env) (to_canonical_json (ee_json env) (gd_resource d))))) (\<lambda>_.
     then_do (lift_result (\<lambda>e. e) (ok_or (NoDescriptor (gd_provider d)) (ee_descriptors env (gd_provider d)))) (\<lambda>descriptor.
     then_do (unless (gd_authority d = []) NoAuthorityDigest) (\<lambda>_.
     then_do (\<lambda>st. (st, if bs_grants st gid = None then Ok () else Err StoreFault)) (\<lambda>_.
     write_store (\<lambda>st. st\<lparr>bs_ids := bs_ids st @ [gid],
       bs_grants := (bs_grants st)(gid \<mapsto> drafted_grant env d gid descriptor now stamp)\<rparr>)))))"

section \<open>The backstop sweep\<close>

definition grant_read :: "exec_env \<Rightarrow> broker_store \<Rightarrow> string \<Rightarrow> gate_fault + grant_row option" where
  "grant_read env st gid = (case bs_grants st gid of
      None \<Rightarrow> Ok None
    | Some g \<Rightarrow>
        (case assert_grant_integrity (ee_keys env) (ee_json env) (ee_money env) (ee_templates env) gid g of
           Inl _ \<Rightarrow> Err (GrantUnreadable gid)
         | Inr _ \<Rightarrow> Ok (Some (grant_row_of g))))"

definition sweep_mint :: "exec_env \<Rightarrow> int \<Rightarrow> string \<times> string \<times> string \<times> int \<Rightarrow> broker_store \<times> nat \<Rightarrow> broker_store \<times> nat" where
  "sweep_mint env now m acc = (case (m, acc) of ((_, _, gid, expires), (st, n)) \<Rightarrow>
     if budget_grant_releasable (ee_like env) (bs_log st) gid (grant_read env st gid) expires now = Ok True
     then (case release_budget env gid ExpiredUnclaimed st of
         (st', Inl _) \<Rightarrow> (st', n)
       | (st', Inr _) \<Rightarrow> (st', Suc n))
     else (st, n))"

definition sweep_expired_mints :: "exec_env \<Rightarrow> int \<Rightarrow> broker_store \<Rightarrow> broker_store \<times> nat" where
  "sweep_expired_mints env now st =
     fold (sweep_mint env now) (expired_unreleased_budget_mints (ee_like env) (bs_log st) now GRANT_TTL_SECS) (st, 0)"

end
