(* ===== verification/Grant_Request.thy ===== *)
theory Grant_Request
  imports Grant_Execution Sentence_Widen Sentence_Discovery
begin

text \<open>
  The request path, \<^verbatim>\<open>crates/cermet-core/src/broker/mint.rs\<close>: from what a caller asks for to a stored grant or a
  recorded denial. The handlers work on the store of \<open>Grant_Execution\<close>. What one request meets outside this
  model is the record \<open>request_answers\<close>, one field for each read in the source; the template registry, the
  providers and the sets do not change during one request.

  A template, a provider and the serialized forms are in \<open>request_env\<close>. A hint is recorded by its parts, and the
  ellipsis of a value that is cut short is three dots.
\<close>

section \<open>What a request is made of\<close>

record capability_request =
  cq_provider :: string
  cq_action :: string
  cq_resource :: json
  cq_environment :: "string option"
  cq_justification :: "string option"
  cq_model :: "string option"

datatype canonicalizer_kind = VercelTeamScope

definition VERCEL_TEAM_ID_PREFIX :: string where "VERCEL_TEAM_ID_PREFIX = ''team_''"

fun is_canonical :: "canonicalizer_kind \<Rightarrow> string \<Rightarrow> bool" where
  "is_canonical VercelTeamScope value = prefix VERCEL_TEAM_ID_PREFIX value"

record canonicalization_profile =
  kp_id :: string
  kp_provider :: string
  kp_action :: string
  kp_field :: string
  kp_source :: string
  kp_resolver :: canonicalizer_kind

record request_env =
  qe_exec :: exec_env
  qe_sets :: set_resolver_t
  qe_rule_json :: rule_json_fun
  qe_dbg_str :: "string \<Rightarrow> string"
  qe_supports :: "string \<Rightarrow> string \<Rightarrow> bool"
  qe_money_action :: "string \<Rightarrow> string \<Rightarrow> bool"
  qe_canonicalize_present :: "string \<Rightarrow> string \<Rightarrow> json \<Rightarrow> canonical_resource option"
  qe_contract :: "string \<Rightarrow> string \<Rightarrow> action_contract option"
  qe_canonicalization :: "string \<Rightarrow> string \<Rightarrow> canonicalization_profile option"
  qe_git_push :: "string \<Rightarrow> string \<Rightarrow> bool option"
  qe_template_admits :: "string \<Rightarrow> string \<Rightarrow> (string \<times> json) list \<Rightarrow> bool"
  qe_evidence_value :: "evidence_envelope \<Rightarrow> json"

text \<open>The providers are the contract resolver of the evaluator; a template's hash and a descriptor's are members' identity.\<close>

definition broker_evaluator :: "request_env \<Rightarrow> evaluator" where
  "broker_evaluator env =
     \<lparr>ev_sha = ee_sha (qe_exec env), ev_sets = qe_sets env,
      ev_contracts = provider_map_resolver (\<lambda>p. map_option (\<lambda>i.
        \<lparr>cp_action_contract = pi_contract i, cp_is_money_action = qe_money_action env p,
         cp_canonicalizes = (\<lambda>a v. qe_canonicalize_present env p a v \<noteq> None)\<rparr>) (ee_provider (qe_exec env) p))\<rparr>"

definition broker_stores :: "request_env \<Rightarrow> member_stores" where
  "broker_stores env =
     \<lparr>st_descriptor_hash = ee_descriptors (qe_exec env),
      st_template_hash = (\<lambda>p a. map_option tf_content_hash (ee_templates (qe_exec env) p a)),
      st_dbg_str = qe_dbg_str env\<rparr>"

datatype decision_source = SentenceSource rule_set string | SentenceRefusal string string "string option"

fun source_fingerprint :: "decision_source \<Rightarrow> string" where
  "source_fingerprint (SentenceSource _ fingerprint) = fingerprint"
| "source_fingerprint (SentenceRefusal _ fingerprint _) = fingerprint"

datatype request_hint = WidenBy widen_hint | MissingFields "string list"

record request_outcome =
  ro_request_id :: string
  ro_decision :: grant_decision
  ro_reason :: request_reason
  ro_budget_exceeded :: "window option"
  ro_hint :: "request_hint option"
  ro_grant_id :: "string option"
  ro_effect_id :: "string option"
  ro_authority :: bool

text \<open>What every part of one request needs: its session, its identity and the authority it is judged by.\<close>

record request_cx =
  cx_session :: string
  cx_request_id :: string
  cx_req :: capability_request
  cx_principal :: string
  cx_fingerprint :: string
  cx_stamp :: string

section \<open>The verdict\<close>

record policy_verdict =
  pv_decision :: grant_decision
  pv_reason :: request_reason
  pv_matched_rule :: "string option"
  pv_deny_reason :: "deny_reason option"

definition policy_evaluate :: "json_lib \<Rightarrow> evaluator \<Rightarrow> rule_set \<Rightarrow> string \<Rightarrow> string \<Rightarrow> json \<Rightarrow> policy_verdict" where
  "policy_evaluate J ev rules provider action resource =
     (case evaluate_match_value J ev rules provider action resource of
        Inl _ \<Rightarrow> \<lparr>pv_decision = DenyGrant, pv_reason = NotCanonicalReason, pv_matched_rule = None, pv_deny_reason = None\<rparr>
      | Inr (DAllow i) \<Rightarrow> \<lparr>pv_decision = AllowGrant, pv_reason = AllowedReason,
          pv_matched_rule = (if i < length (rs_rules rules) then Some (print_rule (rs_rules rules ! i)) else None),
          pv_deny_reason = None\<rparr>
      | Inr (DDeny d) \<Rightarrow> \<lparr>pv_decision = DenyGrant, pv_reason = DeniedReason d, pv_matched_rule = None, pv_deny_reason = Some d\<rparr>)"

definition evaluate_capability :: "request_env \<Rightarrow> decision_source \<Rightarrow> string \<Rightarrow> string \<Rightarrow> json \<Rightarrow> policy_verdict" where
  "evaluate_capability env source provider action value = (case source of
      SentenceSource rules _ \<Rightarrow> policy_evaluate (ee_json (qe_exec env)) (broker_evaluator env) rules provider action value
    | SentenceRefusal reason _ _ \<Rightarrow>
        \<lparr>pv_decision = DenyGrant, pv_reason = SourceRefusedReason reason, pv_matched_rule = None, pv_deny_reason = None\<rparr>)"

definition suggestion_contract :: "request_env \<Rightarrow> string \<Rightarrow> string \<Rightarrow> action_contract option" where
  "suggestion_contract env provider action = (case qe_contract env provider action of
      Some c \<Rightarrow> Some c
    | None \<Rightarrow> Option.bind (ee_provider (qe_exec env) provider) (\<lambda>p. pi_contract p action))"

definition sentence_widen_hint_for_denial :: "request_env \<Rightarrow> rule_set \<Rightarrow> string \<Rightarrow> string \<Rightarrow> canonical_resource \<Rightarrow> widen_hint option" where
  "sentence_widen_hint_for_denial env rules provider action resource =
     se_widen_hint (evaluate_with_widen_hint (ee_json (qe_exec env)) (broker_evaluator env) rules provider action resource)"

definition shape_has_possible_allow :: "request_env \<Rightarrow> rule_set \<Rightarrow> string \<Rightarrow> string \<Rightarrow> canonical_resource \<Rightarrow> string list \<Rightarrow> bool" where
  "shape_has_possible_allow env rules provider action resource unknown =
     (let known = (case as_match_value resource of JObject es \<Rightarrow> filter (\<lambda>(k, _). k \<notin> set unknown) es | _ \<Rightarrow> []) in
      resource_shape_is_discoverable (broker_evaluator env) rules provider action known unknown unknown)"

section \<open>The resource as submitted\<close>

datatype fold_error = ResourceNotObject string | EnvironmentNotString | EnvironmentConflict

text \<open>\<^verbatim>\<open>helpers::canonical_resource\<close>: the environment of the request becomes a field of its resource.\<close>

definition folded_resource :: "capability_request \<Rightarrow> fold_error + json" where
  "folded_resource req =
     (let fold_into = (\<lambda>es. case cq_environment req of
          None \<Rightarrow> Ok (JObject es)
        | Some e \<Rightarrow> (case map_of es ''environment'' of
            Some (JString existing) \<Rightarrow> if existing \<noteq> e then Err EnvironmentConflict else Ok (JObject es)
          | Some _ \<Rightarrow> Err EnvironmentNotString
          | None \<Rightarrow> Ok (JObject (bt_insert ''environment'' (JString e) es)))) in
      case cq_resource req of
        JNull \<Rightarrow> fold_into []
      | JObject es \<Rightarrow> fold_into es
      | other \<Rightarrow> Err (ResourceNotObject (json_shape other)))"

definition RETAINED_VALUE_MAX_BYTES :: nat where "RETAINED_VALUE_MAX_BYTES = 256"

text \<open>The longest prefix of whole characters within a number of bytes.\<close>

fun take_bytes :: "nat \<Rightarrow> string \<Rightarrow> string" where
  "take_bytes n [] = []"
| "take_bytes n (c # cs) = (if length (utf8 [c]) \<le> n then c # take_bytes (n - length (utf8 [c])) cs else [])"

fun cap_field_values :: "json \<Rightarrow> json" where
  "cap_field_values (JString s) =
     (if length (utf8 s) > RETAINED_VALUE_MAX_BYTES
      then JString (take_bytes RETAINED_VALUE_MAX_BYTES s @ ''... [truncated: '' @ nat_str (length (utf8 s)) @ '' bytes]'')
      else JString s)"
| "cap_field_values (JArray items) = JArray (map cap_field_values items)"
| "cap_field_values (JObject es) = JObject (map (\<lambda>(k, v). (k, cap_field_values v)) es)"
| "cap_field_values v = v"

definition missing_required_fields_hint :: "action_contract option \<Rightarrow> json \<Rightarrow> request_hint option" where
  "missing_required_fields_hint contract resource = (case (resource, contract) of
      (JObject es, Some c) \<Rightarrow>
        (case map fd_name (filter (\<lambda>d. fd_required d \<and> fd_name d \<notin> set (map fst es)) (ac_schema c)) of
           [] \<Rightarrow> None
         | missing \<Rightarrow> Some (MissingFields missing))
    | _ \<Rightarrow> None)"

text \<open>The pins of a denied request: its execution targets, then the fields a rule may pin.\<close>

fun pin_targets :: "action_contract \<Rightarrow> (string \<times> json) list \<Rightarrow> string list \<Rightarrow> (string, json) btree \<Rightarrow> (string, json) btree option" where
  "pin_targets c obj [] pinned = Some pinned"
| "pin_targets c obj (t # ts) pinned = (case map_of obj t of
      Some v \<Rightarrow> pin_targets c obj ts (bt_insert t v pinned)
    | None \<Rightarrow>
        if \<not> (case field_decl c t of None \<Rightarrow> False | Some d \<Rightarrow> fd_required d) then pin_targets c obj ts pinned else None)"

definition pin_schema :: "(string \<times> json) list \<Rightarrow> field_decl_t \<Rightarrow> (string, json) btree \<Rightarrow> (string, json) btree" where
  "pin_schema obj d pinned =
     (if fd_binding d \<noteq> ExactResourcePin then pinned
      else (case map_of obj (fd_name d) of
          Some v \<Rightarrow> bt_insert (fd_name d) v pinned
        | None \<Rightarrow> if \<not> fd_required d then bt_insert (fd_name d) JNull pinned else pinned))"

record suggestion_shape =
  sh_names :: "string list"
  sh_key :: string

definition widening_shape :: "json_lib \<Rightarrow> action_contract option \<Rightarrow> string \<Rightarrow> string \<Rightarrow> json \<Rightarrow> unit + suggestion_shape option" where
  "widening_shape J contract provider action resource = (case contract of
      None \<Rightarrow> Ok None
    | Some c \<Rightarrow>
        if \<not> has_fully_pinned_execution_targets c then Err ()
        else (case resource of
            JObject obj \<Rightarrow>
              (case pin_targets c obj (ac_execution_targets c) [] of
                 None \<Rightarrow> Ok None
               | Some pinned \<Rightarrow>
                   let pinned = fold (pin_schema obj) (ac_schema c) pinned;
                       names = (if has_schema_field c ''name''
                                then (case Option.bind (map_of obj ''name'') as_str of None \<Rightarrow> [] | Some n \<Rightarrow> [n]) else []) in
                   Ok (Some \<lparr>sh_names = names,
                     sh_key = provider @ [CHR 0x00] @ action @ [CHR 0x00] @ json_print J (JObject pinned)\<rparr>))
          | _ \<Rightarrow> Ok None))"

section \<open>Sessions\<close>

definition AGENT_LABEL_MAX :: nat where "AGENT_LABEL_MAX = 128"

definition is_control :: "char \<Rightarrow> bool" where
  "is_control c \<longleftrightarrow> code c < 32 \<or> (127 \<le> code c \<and> code c < 160)"

definition defang_label :: "string \<Rightarrow> string" where
  "defang_label raw = take AGENT_LABEL_MAX (filter (\<lambda>c. \<not> is_control c) raw)"

definition blank_session :: "string \<Rightarrow> string \<Rightarrow> string \<Rightarrow> int option \<Rightarrow> session_row" where
  "blank_session sid stamp fingerprint owner =
     \<lparr>ss_id = sid, ss_created_at = stamp, ss_ended_at = None, ss_open = True, ss_fingerprint = fingerprint, ss_owner = owner,
      ss_agent = None, ss_pid = None, ss_client_name = None, ss_client_version = None, ss_model = None\<rparr>"

definition has_session :: "broker_store \<Rightarrow> string \<Rightarrow> bool" where
  "has_session st sid \<longleftrightarrow> list_ex (\<lambda>s. ss_id s = sid) (bs_sessions st)"

definition ensure_session_with_fingerprint :: "string \<Rightarrow> int option \<Rightarrow> string \<Rightarrow> string \<Rightarrow> unit handler" where
  "ensure_session_with_fingerprint session owner fingerprint stamp =
     write_store (\<lambda>st. if has_session st session then st
       else st\<lparr>bs_sessions := bs_sessions st @ [blank_session session stamp fingerprint owner]\<rparr>)"

text \<open>The authority's digest, or \<^verbatim>\<open>unavailable\<close> when its source cannot be read.\<close>

definition digest_or_unavailable :: "string option \<Rightarrow> string" where
  "digest_or_unavailable current = (case current of None \<Rightarrow> ''unavailable'' | Some d \<Rightarrow> d)"

definition ensure_session :: "string \<Rightarrow> int option \<Rightarrow> string option \<Rightarrow> string \<Rightarrow> unit handler" where
  "ensure_session session owner current stamp =
     ensure_session_with_fingerprint session owner (digest_or_unavailable current) stamp"

record session_actor =
  sa_client_name :: "string option"
  sa_client_version :: "string option"
  sa_model :: "string option"

definition open_session :: "string \<Rightarrow> string \<Rightarrow> int option \<Rightarrow> int option \<Rightarrow> session_actor \<Rightarrow> string option \<Rightarrow> string \<Rightarrow> unit handler" where
  "open_session session_id agent_cmd pid owner actor current stamp =
     (let session = trim session_id;
          label = (\<lambda>s. s\<lparr>ss_agent := Some (defang_label agent_cmd), ss_pid := pid,
            ss_client_name := map_option defang_label (sa_client_name actor),
            ss_client_version := map_option defang_label (sa_client_version actor),
            ss_model := map_option defang_label (sa_model actor)\<rparr>) in
      if session = [] then refuse (GrantDenied [])
      else write_store (\<lambda>st. st\<lparr>bs_sessions :=
        (if has_session st session then map (\<lambda>s. if ss_id s = session then label s else s) (bs_sessions st)
         else bs_sessions st @ [label (blank_session session stamp (digest_or_unavailable current) owner)])\<rparr>))"

definition close_session :: "string \<Rightarrow> string \<Rightarrow> unit handler" where
  "close_session session stamp =
     write_store (\<lambda>st. st\<lparr>bs_sessions :=
       map (\<lambda>s. if ss_id s = session then s\<lparr>ss_ended_at := Some stamp, ss_open := False\<rparr> else s) (bs_sessions st)\<rparr>)"

definition session_open :: "broker_store \<Rightarrow> string \<Rightarrow> bool" where
  "session_open st session \<longleftrightarrow> list_ex (\<lambda>s. ss_id s = session \<and> ss_open s) (bs_sessions st)"

section \<open>Recording a request and denying it\<close>

definition stored_resource :: "request_env \<Rightarrow> capability_request \<Rightarrow> json" where
  "stored_resource env req = (case suggestion_contract env (cq_provider req) (cq_action req) of
      Some c \<Rightarrow> redact_secret_fields c (cq_resource req)
    | None \<Rightarrow> cap_field_values (cq_resource req))"

definition request_row_of :: "request_env \<Rightarrow> request_cx \<Rightarrow> capability_request \<Rightarrow> string \<Rightarrow> request_reason \<Rightarrow> string option \<Rightarrow> deny_reason option
    \<Rightarrow> request_row" where
  "request_row_of env cx req decision reason matched denied =
     \<lparr>rq_id = cx_request_id cx, rq_provider = cq_provider req, rq_action = cq_action req,
      rq_resource_json = json_print (ee_json (qe_exec env)) (stored_resource env req), rq_justification = cq_justification req,
      rq_decision = decision, rq_reason = reason, rq_fingerprint = cx_fingerprint cx, rq_matched_rule = matched,
      rq_deny_reason = denied, rq_principal = cx_principal cx, rq_session = cx_session cx, rq_created_at = cx_stamp cx,
      rq_model = map_option defang_label (cq_model req)\<rparr>"

definition record_request :: "request_env \<Rightarrow> request_cx \<Rightarrow> capability_request \<Rightarrow> string \<Rightarrow> request_reason \<Rightarrow> string option
    \<Rightarrow> deny_reason option \<Rightarrow> unit handler" where
  "record_request env cx req decision reason matched denied =
     write_store (\<lambda>st. if list_ex (\<lambda>q. rq_id q = cx_request_id cx) (bs_requests st) then st
       else st\<lparr>bs_requests := bs_requests st @ [request_row_of env cx req decision reason matched denied]\<rparr>)"

fun hint_json :: "request_hint \<Rightarrow> json" where
  "hint_json (WidenBy (PinStands standing omitted _)) = JArray [JString standing, JString omitted]"
| "hint_json (WidenBy (AllowCommand command)) = JArray [JString command]"
| "hint_json (WidenBy (OmittedThenCommand omitted _ command)) = JArray [JString omitted, JString command]"
| "hint_json (MissingFields names) = JArray (map JString names)"

definition shape_fields :: "request_env \<Rightarrow> capability_request \<Rightarrow> string \<Rightarrow> json option \<Rightarrow> (string \<times> json) list" where
  "shape_fields env req deny_class scope = (case scope of
      Some resource \<Rightarrow>
        if deny_class = ''policy'' then
          (case widening_shape (ee_json (qe_exec env)) (suggestion_contract env (cq_provider req) (cq_action req))
                  (cq_provider req) (cq_action req) resource of
             Inr (Some shape) \<Rightarrow> [(''denied_base_key'', JString (sh_key shape)), (''denied_names'', JArray (map JString (sh_names shape)))]
           | _ \<Rightarrow> [])
        else []
    | None \<Rightarrow> [])"

definition scope_fields :: "request_env \<Rightarrow> capability_request \<Rightarrow> json option \<Rightarrow> (string \<times> json) list" where
  "scope_fields env req scope = (case scope of
      None \<Rightarrow> []
    | Some resource \<Rightarrow> [(''canonical_request'', JObject
        [(''provider'', JString (cq_provider req)), (''action'', JString (cq_action req)),
         (''resource'', case suggestion_contract env (cq_provider req) (cq_action req) of
            Some c \<Rightarrow> redact_secret_fields c resource | None \<Rightarrow> cap_field_values resource)])])"

definition denied_data :: "request_env \<Rightarrow> request_cx \<Rightarrow> capability_request \<Rightarrow> string \<Rightarrow> json option \<Rightarrow> request_hint option \<Rightarrow> json" where
  "denied_data env cx req deny_class scope hint = JObject
     ([(''provider'', JString (cq_provider req)), (''action'', JString (cq_action req)), (''deny_class'', JString deny_class),
       (''authority_kind'', JString ''sentence''), (''authority_fingerprint'', JString (cx_fingerprint cx))] @
      shape_fields env req deny_class scope @ scope_fields env req scope @
      (case hint of None \<Rightarrow> [] | Some h \<Rightarrow> [(''hint'', hint_json h)]))"

definition request_decision :: "string \<Rightarrow> string" where
  "request_decision deny_class =
     (if deny_class = ''unregistered'' \<or> deny_class = ''unsupported'' then deny_class else ''deny'')"

definition deny :: "request_env \<Rightarrow> request_cx \<Rightarrow> capability_request \<Rightarrow> request_reason \<Rightarrow> string \<Rightarrow> json option \<Rightarrow> request_hint option
    \<Rightarrow> string list \<Rightarrow> deny_reason option \<Rightarrow> request_outcome handler" where
  "deny env cx req reason deny_class scope hint secrets denied =
     then_do (record_row (qe_exec env) (Some (cx_session cx)) ''capability_denied'' (denied_data env cx req deny_class scope hint) secrets) (\<lambda>_.
     then_do (record_request env cx req (request_decision deny_class) reason None denied) (\<lambda>_.
     give \<lparr>ro_request_id = cx_request_id cx, ro_decision = DenyGrant, ro_reason = reason, ro_budget_exceeded = None, ro_hint = hint,
       ro_grant_id = None, ro_effect_id = None, ro_authority = (deny_class = ''policy'')\<rparr>))"

section \<open>Refusals of the evidence and of the lineage\<close>

datatype evidence_failure_class =
    EvCredentialUnavailable | EvProviderAuthentication | EvProviderDenied | EvProviderNotFound | EvRateLimited
  | EvProviderUnavailable | EvMalformed | EvAmbiguous | EvMismatch | EvStale | EvIntegrity

definition failure_class_str :: "evidence_failure_class \<Rightarrow> string" where
  "failure_class_str c = (case c of
      EvCredentialUnavailable \<Rightarrow> ''credential_unavailable'' | EvProviderAuthentication \<Rightarrow> ''provider_authentication''
    | EvProviderDenied \<Rightarrow> ''provider_denied'' | EvProviderNotFound \<Rightarrow> ''provider_not_found'' | EvRateLimited \<Rightarrow> ''rate_limited''
    | EvProviderUnavailable \<Rightarrow> ''provider_unavailable'' | EvMalformed \<Rightarrow> ''malformed'' | EvAmbiguous \<Rightarrow> ''ambiguous''
    | EvMismatch \<Rightarrow> ''mismatch'' | EvStale \<Rightarrow> ''stale'' | EvIntegrity \<Rightarrow> ''integrity'')"

record evidence_failure =
  vf_class :: evidence_failure_class
  vf_http_status :: "nat option"

definition failure_of :: "evidence_failure_class \<Rightarrow> evidence_failure" where
  "failure_of c = \<lparr>vf_class = c, vf_http_status = None\<rparr>"

definition status_field :: "evidence_failure \<Rightarrow> (string \<times> json) list" where
  "status_field f = (case vf_http_status f of None \<Rightarrow> [] | Some n \<Rightarrow> [(''http_status'', JInt (int n))])"

definition deny_evidence_request :: "request_env \<Rightarrow> request_cx \<Rightarrow> evidence_failure option \<Rightarrow> string list \<Rightarrow> evidence_profile
    \<Rightarrow> request_outcome handler" where
  "deny_evidence_request env cx failure secrets profile =
     (let req = cx_req cx in
      then_do (case failure of
          None \<Rightarrow> give ()
        | Some f \<Rightarrow> record_row (qe_exec env) (Some (cx_session cx)) ''provider_evidence_failed'' (JObject
            ([(''request_id'', JString (cx_request_id cx)), (''provider'', JString (cq_provider req)), (''action'', JString (cq_action req)),
              (''profile'', JString (ep_id profile)), (''failure_class'', JString (failure_class_str (vf_class f)))] @ status_field f)) secrets) (\<lambda>_.
      deny env cx (req\<lparr>cq_resource := cap_field_values (cq_resource req)\<rparr>) EvidenceUnavailableReason ''evidence'' None None secrets None))"

definition deny_retry_lineage :: "request_env \<Rightarrow> request_cx \<Rightarrow> request_reason \<Rightarrow> string list \<Rightarrow> evidence_profile option \<Rightarrow> request_outcome handler" where
  "deny_retry_lineage env cx reason secrets profile = (case profile of
      Some p \<Rightarrow> deny_evidence_request env cx None secrets p
    | None \<Rightarrow> deny env cx (cx_req cx) reason ''retry_lineage'' None None secrets None)"

section \<open>What one request meets\<close>

record resolved_answer =
  rv_fields :: "(string, rscalar) btree"
  rv_sources :: "(string \<times> string) list"

text \<open>The reads in the order of the source; a clock is read where its field says.\<close>

record request_answers =
  qa_request_id :: string
  qa_grant_id :: string
  qa_stamp :: string
  qa_locked_entry :: bool
  qa_locked_request :: bool
  qa_locked_source :: bool
  qa_authority :: "string + rule_set \<times> string"
  qa_authority_session :: "string option"
  qa_authority_after :: "string option"
  qa_canonical_credential :: "string option"
  qa_canonical :: "evidence_failure + string"
  qa_evidence_credential :: "string option"
  qa_now_evidence :: int
  qa_resolved :: "evidence_failure + resolved_answer"
  qa_receipt_hash :: string
  qa_now_fresh :: int
  qa_generation_fresh :: "bool option"
  qa_now_lineage :: int
  qa_now_verdict :: int
  qa_now_gate :: int
  qa_now_decided :: int
  qa_generation_decided :: "bool option"
  qa_now_mint :: int
  qa_generation_mint :: "bool option"
  qa_random :: "nat list \<times> nat list"
  qa_now_money :: int
  qa_now_retry :: int
  qa_now_linked :: int
  qa_now_insert :: int

text \<open>A part of the request answers it, with a denial, or lets it go on.\<close>

datatype 'a request_step = Answered request_outcome | Onward 'a

definition answer :: "request_outcome handler \<Rightarrow> 'a request_step handler" where
  "answer m = then_do m (\<lambda>o1. give (Answered o1))"

definition onward :: "'a request_step handler \<Rightarrow> ('a \<Rightarrow> 'b request_step handler) \<Rightarrow> 'b request_step handler" where
  "onward m f = then_do m (\<lambda>s. case s of Answered o1 \<Rightarrow> give (Answered o1) | Onward a \<Rightarrow> f a)"

definition integrity_stop :: "string \<Rightarrow> exec_error" where
  "integrity_stop msg = LineageFault (LineageIntegrity msg)"

section \<open>One field in the provider's own spelling\<close>

definition deny_canonicalization :: "request_env \<Rightarrow> request_cx \<Rightarrow> canonicalization_profile \<Rightarrow> string \<Rightarrow> evidence_failure \<Rightarrow> string list
    \<Rightarrow> request_outcome handler" where
  "deny_canonicalization env cx profile supplied failure secrets =
     (let req = cx_req cx in
      then_do (record_row (qe_exec env) (Some (cx_session cx)) ''request_field_canonicalization_failed'' (JObject
        ([(''request_id'', JString (cx_request_id cx)), (''provider'', JString (cq_provider req)), (''action'', JString (cq_action req)),
          (''profile'', JString (kp_id profile)), (''field'', JString (kp_field profile)), (''supplied'', JString supplied),
          (''failure_class'', JString (failure_class_str (vf_class failure)))] @ status_field failure)) secrets) (\<lambda>_.
      deny env cx req (UnresolvableReason (kp_field profile) (failure_class_str (vf_class failure))) ''invalid'' None None secrets None))"

definition canonicalized_data :: "request_cx \<Rightarrow> canonicalization_profile \<Rightarrow> string \<Rightarrow> string \<Rightarrow> string \<Rightarrow> json" where
  "canonicalized_data cx profile supplied canonical generation = JObject
     [(''request_id'', JString (cx_request_id cx)), (''provider'', JString (cq_provider (cx_req cx))),
      (''action'', JString (cq_action (cx_req cx))), (''profile'', JString (kp_id profile)), (''field'', JString (kp_field profile)),
      (''supplied'', JString supplied), (''canonical'', JString canonical), (''source'', JString (kp_source profile)),
      (''credential_generation'', JString generation)]"

definition resolve_field :: "request_env \<Rightarrow> request_answers \<Rightarrow> request_cx \<Rightarrow> canonicalization_profile \<Rightarrow> string \<Rightarrow> canonical_resource
    \<Rightarrow> string list \<Rightarrow> canonical_resource request_step handler" where
  "resolve_field env a cx profile supplied resource secrets = (case qa_canonical_credential a of
      None \<Rightarrow> answer (deny_canonicalization env cx profile supplied (failure_of EvCredentialUnavailable) secrets)
    | Some generation \<Rightarrow> (case qa_canonical a of
        Inl failure \<Rightarrow> answer (deny_canonicalization env cx profile supplied failure secrets)
      | Inr canonical \<Rightarrow>
          then_do (record_row (qe_exec env) (Some (cx_session cx)) ''request_field_canonicalized''
            (canonicalized_data cx profile supplied canonical generation) secrets) (\<lambda>_.
          then_do (lift_result (\<lambda>_. integrity_stop ''canonical field'') (replaced resource [(kp_field profile, RStr canonical)])) (\<lambda>res.
          give (Onward res)))))"

definition canonicalize_request :: "request_env \<Rightarrow> request_answers \<Rightarrow> request_cx \<Rightarrow> decision_source \<Rightarrow> canonical_resource \<Rightarrow> string list
    \<Rightarrow> canonical_resource request_step handler" where
  "canonicalize_request env a cx source resource secrets =
     (let req = cx_req cx in
      case qe_canonicalization env (cq_provider req) (cq_action req) of
        None \<Rightarrow> give (Onward resource)
      | Some profile \<Rightarrow>
          if scalar resource (kp_field profile) = None then give (Onward resource)
          else (case req_str resource (kp_field profile) of
              Inl _ \<Rightarrow> answer (deny env cx req InvalidResourceReason ''invalid'' None None secrets None)
            | Inr supplied \<Rightarrow>
                if is_canonical (kp_resolver profile) supplied then give (Onward resource)
                else if \<not> (case source of
                    SentenceSource rules _ \<Rightarrow>
                      shape_has_possible_allow env rules (cq_provider req) (cq_action req) resource [kp_field profile]
                  | SentenceRefusal _ _ _ \<Rightarrow> False)
                then answer (deny env cx req (NeverResolvedReason (kp_field profile)) ''policy'' (Some (as_match_value resource)) None secrets None)
                else resolve_field env a cx profile supplied resource secrets))"

section \<open>Resolving evidence\<close>

definition ep_output :: "evidence_profile \<Rightarrow> string \<Rightarrow> evidence_output option" where
  "ep_output p field = find (\<lambda>out. eo_field out = field) (ep_outputs p)"

definition is_output :: "evidence_profile \<Rightarrow> string \<Rightarrow> bool" where
  "is_output p field \<longleftrightarrow> ep_output p field \<noteq> None"

fun resolve_outputs :: "canonical_resource \<Rightarrow> (string, rscalar) btree \<Rightarrow> string list \<Rightarrow> evidence_output list \<Rightarrow> (string, envelope_field) btree
    \<Rightarrow> evidence_failure_class + (string, envelope_field) btree" where
  "resolve_outputs partial found secrets [] acc = Ok acc"
| "resolve_outputs partial found secrets (out # rest) acc = (case map_of found (eo_field out) of
      None \<Rightarrow> Err EvMalformed
    | Some v \<Rightarrow>
        if rscalar_kind v \<noteq> eo_ty out then Err EvMalformed
        else if redacted (to_json v) secrets \<noteq> to_json v then Err EvIntegrity
        else if scalar partial (eo_field out) \<noteq> None then Err EvMismatch
        else resolve_outputs partial found secrets rest
          (bt_insert (eo_field out) \<lparr>ef_source = eo_source out, ef_value = to_json v\<rparr> acc))"

fun sources_by_kind :: "(string \<times> string) list \<Rightarrow> (string \<times> string) list \<Rightarrow> evidence_failure_class + (string \<times> string) list" where
  "sources_by_kind [] acc = Ok acc"
| "sources_by_kind ((kind, i) # rest) acc =
     (if map_of acc kind \<noteq> None then Err EvAmbiguous else sources_by_kind rest ((kind, i) # acc))"

fun resolve_sources :: "canonical_resource \<Rightarrow> (string \<times> string) list \<Rightarrow> (string \<times> string) list \<Rightarrow> envelope_source list
    \<Rightarrow> evidence_failure_class + envelope_source list" where
  "resolve_sources partial [] by_kind acc = (if by_kind \<noteq> [] then Err EvMalformed else Ok acc)"
| "resolve_sources partial ((kind, id_field) # rest) by_kind acc = (case (req_str partial id_field, map_of by_kind kind) of
      (Inr expected, Some observed) \<Rightarrow>
        if observed \<noteq> expected then Err EvMismatch
        else resolve_sources partial rest (filter (\<lambda>(k, _). k \<noteq> kind) by_kind) (acc @ [\<lparr>ens_id = observed, ens_kind = kind\<rparr>])
    | _ \<Rightarrow> Err EvMalformed)"

definition validate_resolved_evidence :: "request_env \<Rightarrow> evidence_profile \<Rightarrow> canonical_resource \<Rightarrow> resolved_answer \<Rightarrow> string list
    \<Rightarrow> evidence_failure_class + canonical_resource \<times> (string, envelope_field) btree \<times> envelope_source list" where
  "validate_resolved_evidence env profile partial resolved secrets =
     (if length (rv_fields resolved) \<noteq> length (ep_outputs profile) then Err EvMalformed
      else res_bind (resolve_outputs partial (rv_fields resolved) secrets (ep_outputs profile) []) (\<lambda>flds.
      if list_ex (\<lambda>(k, _). \<not> is_output profile k) (rv_fields resolved) then Err EvMalformed
      else if length (rv_sources resolved) \<noteq> length (ep_sources profile) then Err EvMalformed
      else res_bind (sources_by_kind (rv_sources resolved) []) (\<lambda>by_kind.
      res_bind (resolve_sources partial (ep_sources profile) by_kind []) (\<lambda>sources.
      res_bind (map_sum (\<lambda>_. EvMismatch) (\<lambda>r. r) (merged partial (rv_fields resolved))) (\<lambda>complete.
      if ee_templates (qe_exec env) (ep_provider profile) (ep_action profile) = None then Err EvIntegrity
      else (case as_match_value complete of
          JObject es \<Rightarrow>
            if qe_template_admits env (ep_provider profile) (ep_action profile) es then Ok (complete, flds, sources) else Err EvMalformed
        | _ \<Rightarrow> Err EvIntegrity))))))"

definition request_evidence_is_current :: "request_env \<Rightarrow> string \<Rightarrow> string \<Rightarrow> string \<Rightarrow> evidence_envelope \<Rightarrow> int \<Rightarrow> bool option
    \<Rightarrow> exec_error + bool" where
  "request_evidence_is_current env request_id provider action envelope now generation = (case envelope of
      NoEvidence _ \<Rightarrow> Ok True
    | ProviderResolved e \<Rightarrow>
        (case (ee_profile (qe_exec env) (re_profile e), ee_templates (qe_exec env) provider action, ee_descriptors (qe_exec env) provider) of
           (Some p, Some l, Some descriptor) \<Rightarrow>
             if ep_provider p = provider \<and> ep_action p = action \<and> tf_request_evidence_id l = Some (ep_id p) \<and>
                re_profile_fingerprint e = ep_fingerprint p \<and> now \<le> re_mint_deadline_epoch e \<and>
                evidence_resolution_digest (qe_exec env) request_id provider action descriptor p (tf_content_hash l) e = re_resolution_digest e
             then ok_or VaultUnavailable generation
             else Ok False
         | _ \<Rightarrow> Ok False))"

definition EVIDENCE_TTL_SECS :: int where "EVIDENCE_TTL_SECS = 30"

definition deny_evidence :: "request_env \<Rightarrow> request_cx \<Rightarrow> evidence_failure_class option \<Rightarrow> string list \<Rightarrow> evidence_profile \<Rightarrow> 'a request_step handler" where
  "deny_evidence env cx failure secrets profile = answer (deny_evidence_request env cx (map_option failure_of failure) secrets profile)"

text \<open>The fields the caller gave, canonical, before a credential is opened: the profile's outputs must be missing and all else present.\<close>

definition evidence_partial :: "request_env \<Rightarrow> request_cx \<Rightarrow> decision_source \<Rightarrow> provider_iface \<Rightarrow> evidence_profile
    \<Rightarrow> canonical_resource request_step handler" where
  "evidence_partial env cx source provider profile =
     (let req = cx_req cx in
      case folded_resource req of
        Inl _ \<Rightarrow> deny_evidence env cx (Some EvMalformed) [] profile
      | Inr folded \<Rightarrow>
          if (case folded of JObject es \<Rightarrow> list_ex (\<lambda>(k, _). is_output profile k) es | _ \<Rightarrow> False)
          then deny_evidence env cx (Some EvMismatch) [] profile
          else (case qe_canonicalize_present env (cq_provider req) (cq_action req) folded of
              None \<Rightarrow> deny_evidence env cx (Some EvMalformed) [] profile
            | Some partial \<Rightarrow>
                (case pi_contract provider (cq_action req) of
                   None \<Rightarrow> refuse (integrity_stop ''evidence-backed action lost its contract'')
                 | Some contract \<Rightarrow>
                     if list_ex (\<lambda>d. fd_required d \<and> \<not> is_output profile (fd_name d) \<and> scalar partial (fd_name d) = None) (ac_schema contract)
                     then deny_evidence env cx (Some EvMalformed) [] profile
                     else if \<not> (case source of
                         SentenceSource rules _ \<Rightarrow> shape_has_possible_allow env rules (cq_provider req) (cq_action req) partial
                           (sort_dedup (map eo_field (ep_outputs profile)))
                       | SentenceRefusal _ _ _ \<Rightarrow> False)
                     then deny_evidence env cx None [] profile
                     else give (Onward partial))))"

definition evidence_receipt_data :: "request_cx \<Rightarrow> evidence_profile \<Rightarrow> resolved_evidence \<Rightarrow> json" where
  "evidence_receipt_data cx profile e = JObject
     [(''request_id'', JString (cx_request_id cx)), (''provider'', JString (cq_provider (cx_req cx))),
      (''action'', JString (cq_action (cx_req cx))), (''profile'', JString (ep_id profile)),
      (''profile_fingerprint'', JString (re_profile_fingerprint e)),
      (''oldest_observed_at_epoch'', JInt (re_oldest_observed_at_epoch e)), (''mint_deadline_epoch'', JInt (re_mint_deadline_epoch e)),
      (''fields'', JObject (map (\<lambda>(k, f). (k, JObject [(''source'', JString (ef_source f)), (''value'', ef_value f)])) (re_fields e))),
      (''sources'', JArray (map (\<lambda>s. JObject [(''id'', JString (ens_id s)), (''kind'', JString (ens_kind s))]) (re_sources e))),
      (''credential_generation'', JString (re_credential_generation e)), (''resolution_digest'', JString (re_resolution_digest e))]"

definition new_envelope :: "request_env \<Rightarrow> request_answers \<Rightarrow> request_cx \<Rightarrow> evidence_profile \<Rightarrow> string \<Rightarrow> string \<Rightarrow> string
    \<Rightarrow> (string, envelope_field) btree \<Rightarrow> envelope_source list \<Rightarrow> string \<Rightarrow> resolved_evidence" where
  "new_envelope env a cx profile generation template_hash descriptor flds sources receipt =
     (let e = \<lparr>re_version = EVIDENCE_ENVELOPE_VERSION, re_credential_generation = generation, re_fields = flds,
            re_mint_deadline_epoch = qa_now_evidence a + EVIDENCE_TTL_SECS, re_oldest_observed_at_epoch = qa_now_evidence a,
            re_profile = ep_id profile, re_profile_fingerprint = ep_fingerprint profile, re_receipt_event_hash = qa_receipt_hash a,
            re_receipt_id = receipt, re_resolution_digest = [], re_sources = sources\<rparr> in
      e\<lparr>re_resolution_digest := evidence_resolution_digest (qe_exec env) (cx_request_id cx) (cq_provider (cx_req cx))
          (cq_action (cx_req cx)) descriptor profile template_hash e\<rparr>)"

definition evidence_is_fresh :: "request_env \<Rightarrow> request_answers \<Rightarrow> request_cx \<Rightarrow> evidence_profile \<Rightarrow> string \<Rightarrow> string \<Rightarrow> resolved_evidence
    \<Rightarrow> exec_error + bool" where
  "evidence_is_fresh env a cx profile template_hash descriptor e =
     (let loaded = ee_templates (qe_exec env) (cq_provider (cx_req cx)) (cq_action (cx_req cx)) in
      if qa_now_fresh a \<le> re_mint_deadline_epoch e \<and> Option.bind loaded tf_request_evidence_id = Some (ep_id profile) \<and>
         map_option tf_content_hash loaded = Some template_hash \<and> ee_descriptors (qe_exec env) (cq_provider (cx_req cx)) = Some descriptor
      then ok_or VaultUnavailable (qa_generation_fresh a) else Ok False)"

definition resolve_evidence :: "request_env \<Rightarrow> request_answers \<Rightarrow> request_cx \<Rightarrow> decision_source \<Rightarrow> provider_iface \<Rightarrow> evidence_profile
    \<Rightarrow> (canonical_resource \<times> string \<times> string list) request_step handler" where
  "resolve_evidence env a cx source provider profile =
     (let x = qe_exec env; p = cq_provider (cx_req cx); act = cq_action (cx_req cx) in
      onward (evidence_partial env cx source provider profile) (\<lambda>partial.
      then_do (all_secrets x) (\<lambda>secrets.
      case qa_evidence_credential a of
        None \<Rightarrow> deny_evidence env cx (Some EvCredentialUnavailable) secrets profile
      | Some generation \<Rightarrow> (case qa_resolved a of
          Inl failure \<Rightarrow> answer (deny_evidence_request env cx (Some failure) secrets profile)
        | Inr resolved \<Rightarrow> (case validate_resolved_evidence env profile partial resolved secrets of
            Inl failure \<Rightarrow> deny_evidence env cx (Some failure) secrets profile
          | Inr (complete, flds, sources) \<Rightarrow>
              then_do (lift_result (\<lambda>e. e) (ok_or (integrity_stop ''evidence template vanished during request'')
                (map_option tf_content_hash (ee_templates x p act)))) (\<lambda>template_hash.
              then_do (lift_result (\<lambda>e. e) (ok_or (integrity_stop ''evidence descriptor vanished during request'') (ee_descriptors x p))) (\<lambda>descriptor.
              then_do (\<lambda>st. (st, Ok (ee_fresh x (length (bs_log st))))) (\<lambda>receipt.
              let e = new_envelope env a cx profile generation template_hash descriptor flds sources receipt in
              then_do (record_row x (Some (cx_session cx)) ''provider_evidence_resolved'' (evidence_receipt_data cx profile e) secrets) (\<lambda>_.
              then_do (lift_result (\<lambda>err. err) (evidence_is_fresh env a cx profile template_hash descriptor e)) (\<lambda>fresh.
              if \<not> fresh then deny_evidence env cx (Some EvStale) secrets profile
              else give (Onward (complete, canonical_json (ee_json x) (qe_evidence_value env (ProviderResolved e)), secrets)))))))))))) "

text \<open>A request without an evidence profile.\<close>

definition resolve_plain :: "request_env \<Rightarrow> request_answers \<Rightarrow> request_cx \<Rightarrow> decision_source \<Rightarrow> provider_iface
    \<Rightarrow> (canonical_resource \<times> string \<times> string list) request_step handler" where
  "resolve_plain env a cx source provider =
     (let x = qe_exec env; req = cx_req cx in
      then_do (all_secrets x) (\<lambda>secrets.
      case (case folded_resource req of Inl _ \<Rightarrow> None | Inr folded \<Rightarrow> pi_canonicalize provider (cq_action req) folded) of
        None \<Rightarrow> answer (deny env cx req InvalidResourceReason ''invalid'' None
          (missing_required_fields_hint (suggestion_contract env (cq_provider req) (cq_action req)) (cq_resource req)) secrets None)
      | Some resource \<Rightarrow>
          onward (canonicalize_request env a cx source resource secrets) (\<lambda>res.
          give (Onward (res, canonical_json (ee_json x) (qe_evidence_value env (NoEvidence EVIDENCE_ENVELOPE_VERSION)), secrets)))))"

section \<open>The parent of a retry\<close>

record retry_parent =
  rp_grant_id :: string
  rp_grant :: stored_grant
  rp_money :: money_metadata
  rp_owner_id :: string
  rp_owner_grant :: stored_grant
  rp_grant_ids :: "string list"
  rp_request_ids :: "string list"

text \<open>Whose effect is retried, by whom, and when.\<close>

record retry_key =
  rk_effect :: string
  rk_principal :: string
  rk_provider :: string
  rk_action :: string
  rk_now :: int

definition retry_unavailable :: exec_error where
  "retry_unavailable = LineageFault LineageUnavailable"

definition retry_key_fits :: "exec_env \<Rightarrow> retry_key \<Rightarrow> stored_grant \<Rightarrow> money_metadata \<Rightarrow> bool" where
  "retry_key_fits env k g money \<longleftrightarrow>
     effect_id money = Some (rk_effect k) \<and> sg_principal g = Some (rk_principal k) \<and> sg_provider g = rk_provider k \<and>
     sg_action g = rk_action k \<and> rk_now k \<le> (case retry_deadline_epoch money of None \<Rightarrow> -1 | Some d \<Rightarrow> d) \<and>
     sg_template_hash g = map_option tf_content_hash (ee_templates env (rk_provider k) (rk_action k)) \<and>
     ee_descriptors env (rk_provider k) = Some (sg_descriptor_hash g)"

definition load_retry_node :: "exec_env \<Rightarrow> retry_key \<Rightarrow> string \<Rightarrow> retry_node handler" where
  "load_retry_node env k gid =
     then_do (load_grant gid) (\<lambda>g.
     then_do (integrity env gid g) (\<lambda>_.
     then_do (read_money env g) (\<lambda>money.
     if \<not> retry_key_fits env k g money then refuse retry_unavailable
     else give \<lparr>rn_id = gid, rn_grant = g, rn_money = money\<rparr>)))"

definition parent_of_retry :: "exec_env \<Rightarrow> retry_key \<Rightarrow> retry_node \<Rightarrow> retry_node handler" where
  "parent_of_retry env k node = (case parent_grant_id (rn_money node) of
      None \<Rightarrow> refuse retry_unavailable
    | Some pid \<Rightarrow>
        then_do (load_retry_node env k pid) (\<lambda>parent.
        then_do (lift_result LineageFault (validate_retry_transition env node parent)) (\<lambda>_. give parent)))"

definition retry_state_of :: "exec_env \<Rightarrow> retry_node \<Rightarrow> retry_state handler" where
  "retry_state_of env node st = (st, map_sum LineageFault (\<lambda>s. s) (authenticated_retry_state env (bs_grants st) (bs_log st) node))"

text \<open>From the newest grant of the effect up to the first whose outcome is undetermined.\<close>

function eligible_loop :: "exec_env \<Rightarrow> retry_key \<Rightarrow> (string \<times> string) list \<Rightarrow> retry_node \<Rightarrow> (string \<times> (string \<times> string) list) handler" where
  "eligible_loop env k seen node =
     (if MAX_LINEAGE \<le> length seen \<or> rn_id node \<in> set (map fst seen) then refuse retry_unavailable
      else let seen' = seen @ [(rn_id node, sg_request_id (rn_grant node))] in
      then_do (reconcile_terminal_execution env (rn_id node) (rn_grant node)) (\<lambda>_.
      then_do (retry_state_of env node) (\<lambda>state. case state of
        RetryAmbiguous \<Rightarrow> give (rn_id node, seen')
      | RetryFinal \<Rightarrow> refuse retry_unavailable
      | RetryPreEffect \<Rightarrow> then_do (parent_of_retry env k node) (\<lambda>parent. eligible_loop env k seen' parent))))"
  by pat_completeness auto
termination by (relation "measure (\<lambda>(_, _, seen, _). MAX_LINEAGE - length seen)") auto

declare eligible_loop.simps [simp del]

text \<open>From there up to the grant that owns the reservation.\<close>

function owner_loop :: "exec_env \<Rightarrow> retry_key \<Rightarrow> (string \<times> string) list \<Rightarrow> retry_node \<Rightarrow> (retry_node \<times> (string \<times> string) list) handler" where
  "owner_loop env k seen node =
     (if MAX_LINEAGE \<le> length seen \<or> rn_id node \<in> set (map fst seen) then refuse retry_unavailable
      else let seen' = seen @ [(rn_id node, sg_request_id (rn_grant node))] in
      if \<not> is_retry (rn_money node) then give (node, seen')
      else then_do (parent_of_retry env k node) (\<lambda>parent. owner_loop env k seen' parent))"
  by pat_completeness auto
termination by (relation "measure (\<lambda>(_, _, seen, _). MAX_LINEAGE - length seen)") auto

declare owner_loop.simps [simp del]

definition newest_of_effect :: "exec_env \<Rightarrow> string \<Rightarrow> string handler" where
  "newest_of_effect env effect st =
     (let pattern = ''%'' @ [dquote] @ ''effect_id'' @ [dquote] @ '':'' @ [dquote] @ effect @ [dquote] @ ''%'' in
      (st, ok_or retry_unavailable
        (find (\<lambda>i. case bs_grants st i of None \<Rightarrow> False | Some g \<Rightarrow> ee_like_text env pattern (sg_money_json g)) (rev (bs_ids st)))))"

definition authenticate_retry_parent :: "exec_env \<Rightarrow> retry_key \<Rightarrow> retry_parent handler" where
  "authenticate_retry_parent env k =
     then_do (newest_of_effect env (rk_effect k)) (\<lambda>newest.
     then_do (load_retry_node env k newest) (\<lambda>first.
     then_do (eligible_loop env k [] first) (\<lambda>(eligible_id, tried).
     then_do (load_retry_node env k eligible_id) (\<lambda>start.
     then_do (owner_loop env k [] start) (\<lambda>(owner, owners).
     then_do (load_retry_node env k eligible_id) (\<lambda>eligible.
     give \<lparr>rp_grant_id = rn_id eligible, rp_grant = rn_grant eligible, rp_money = rn_money eligible, rp_owner_id = rn_id owner,
       rp_owner_grant = rn_grant owner, rp_grant_ids = map fst (tried @ owners), rp_request_ids = map snd (tried @ owners)\<rparr>))))))"

end
