(* ===== verification/Grant_Mint.thy ===== *)
theory Grant_Mint
  imports Grant_Request
begin

text \<open>
  The decision on a request and its grant, the second half of \<^verbatim>\<open>broker/mint.rs\<close>: the verdict on the complete
  resource, the budget gate with its receipts (\<^verbatim>\<open>broker/budget.rs\<close>), the recorded decision, and the stored grant;
  then the ways a request reaches it.
\<close>

section \<open>The receipts of the gate\<close>

definition fault_str :: "fault \<Rightarrow> string" where
  "fault_str f = (case f of
      DebitInvalid \<Rightarrow> ''debit_invalid'' | RateDebitNotOne \<Rightarrow> ''rate_debit_not_one'' | Overflow \<Rightarrow> ''arithmetic_overflow''
    | WindowOverflow \<Rightarrow> ''window_overflow'' | OrphanRelease \<Rightarrow> ''orphan_release'' | DuplicateRelease \<Rightarrow> ''duplicate_release''
    | ReleaseGrantMismatch \<Rightarrow> ''release_grant_mismatch'' | AmbiguousResolution \<Rightarrow> ''ambiguous_resolution''
    | HistoricalMintInvalid \<Rightarrow> ''historical_mint_invalid'')"

fun gate_error :: "gate_error_kind \<Rightarrow> string option \<times> string" where
  "gate_error TypedDecisionNotAllow = (None, ''typed_decision_not_allow'')"
| "gate_error UnresolvedSummedField = (None, ''unresolved_summed_field'')"
| "gate_error UnresolvedSelectorMembers = (None, ''unresolved_selector_members'')"
| "gate_error (EvidenceLoadFailed aggregate) = (Some aggregate, ''evidence_load_failed'')"
| "gate_error (DecisionFault aggregate f) = (Some aggregate, fault_str f)"

definition opt_str :: "string option \<Rightarrow> json" where
  "opt_str s = (case s of None \<Rightarrow> JNull | Some t \<Rightarrow> JString t)"

definition record_budget_gate_error :: "request_env \<Rightarrow> request_cx \<Rightarrow> gate_error_kind \<Rightarrow> string list \<Rightarrow> unit handler" where
  "record_budget_gate_error env cx kind secrets = (case gate_error kind of (aggregate, f) \<Rightarrow>
     record_row (qe_exec env) (Some (cx_session cx)) ''budget_gate_error''
       (JObject [(''aggregate_id'', opt_str aggregate), (''fault'', JString f)]) secrets)"

definition budget_denied_data :: "admit_ticket \<Rightarrow> json" where
  "budget_denied_data t =
     (let p = at_proof t in JObject
       [(''aggregate_id'', JString (at_aggregate_id t)), (''resolution_digest'', JString (at_resolution_digest t)),
        (''kind'', JString (meter_str (at_kind t))), (''debit_field'', opt_str (at_debit_field t)), (''debit'', JInt (wp_debit p)),
        (''limit'', JInt (wp_limit p)), (''window'', JString (window_str (wp_window p))), (''window_start'', JInt (wp_window_start p)),
        (''window_end'', JInt (wp_window_end p)), (''consumed_before'', JInt (wp_consumed_before p)),
        (''live_mint_count'', JInt (int (wp_live_mint_count p))), (''release_count'', JInt (int (wp_release_count p))),
        (''projected'', JInt (wp_projected p)), (''evidence_through_rowid'', JInt (wp_evidence_through_rowid p))])"

definition record_budget_denied :: "request_env \<Rightarrow> request_cx \<Rightarrow> admit_ticket \<Rightarrow> string list \<Rightarrow> unit handler" where
  "record_budget_denied env cx t secrets =
     record_row (qe_exec env) (Some (cx_session cx)) ''budget_denied'' (budget_denied_data t) secrets"

text \<open>The gate of \<open>Budget_Gate\<close> on the log of the store, with the receipt of a refusal.\<close>

definition gate_of :: "request_env \<Rightarrow> audit_row list \<Rightarrow> int \<Rightarrow> rule_set \<Rightarrow> request_cx \<Rightarrow> canonical_resource \<Rightarrow> budget_gate_t" where
  "gate_of env log now rules cx resource =
     budget_gate (broker_evaluator env) (qe_rule_json env) (broker_stores env) log now rules
       (cq_provider (cx_req cx)) (cq_action (cx_req cx)) resource"

definition gate_receipt :: "request_env \<Rightarrow> request_cx \<Rightarrow> string list \<Rightarrow> budget_gate_t \<Rightarrow> unit handler" where
  "gate_receipt env cx secrets gate = (case gate of
      GateExceeded t \<Rightarrow> record_budget_denied env cx t secrets
    | GateInvalid kind \<Rightarrow> record_budget_gate_error env cx kind secrets
    | _ \<Rightarrow> give ())"

definition run_budget_gate :: "request_env \<Rightarrow> request_cx \<Rightarrow> int \<Rightarrow> rule_set \<Rightarrow> canonical_resource \<Rightarrow> string list \<Rightarrow> budget_gate_t handler" where
  "run_budget_gate env cx now rules resource secrets =
     then_do (\<lambda>st. (st, Ok (gate_of env (bs_log st) now rules cx resource))) (\<lambda>gate.
     then_do (gate_receipt env cx secrets gate) (\<lambda>_. give gate))"

section \<open>The retry is of the same effect\<close>

fun same_evidence_semantics :: "evidence_envelope \<Rightarrow> evidence_envelope \<Rightarrow> bool" where
  "same_evidence_semantics (NoEvidence _) (NoEvidence _) \<longleftrightarrow> True"
| "same_evidence_semantics (ProviderResolved p) (ProviderResolved c) \<longleftrightarrow>
     re_profile p = re_profile c \<and> re_profile_fingerprint p = re_profile_fingerprint c"
| "same_evidence_semantics _ _ \<longleftrightarrow> False"

definition envelope_of :: "request_env \<Rightarrow> string \<Rightarrow> evidence_envelope handler" where
  "envelope_of env text = lift_result LineageFault (evidence_from_canonical_json (qe_exec env) text)"

definition check_retry_frozen :: "request_env \<Rightarrow> request_cx \<Rightarrow> retry_parent option \<Rightarrow> canonical_resource \<Rightarrow> string \<Rightarrow> string list
    \<Rightarrow> evidence_profile option \<Rightarrow> unit request_step handler" where
  "check_retry_frozen env cx parent resource evidence_json secrets profile = (case parent of
      None \<Rightarrow> give (Onward ())
    | Some p \<Rightarrow>
        then_do (envelope_of env (sg_evidence_json (rp_grant p))) (\<lambda>parent_evidence.
        then_do (envelope_of env evidence_json) (\<lambda>current_evidence.
        if sg_resource_json (rp_grant p) \<noteq> to_canonical_json (ee_json (qe_exec env)) resource \<or>
           \<not> same_evidence_semantics parent_evidence current_evidence
        then answer (deny_retry_lineage env cx RetryMismatchReason secrets profile)
        else give (Onward ()))))"

section \<open>The decision\<close>

record gated_verdict =
  gv_verdict :: policy_verdict
  gv_admit :: "admit_ticket option"
  gv_retry :: "retry_ticket option"
  gv_exceeded :: "window option"

definition ungated :: "policy_verdict \<Rightarrow> gated_verdict" where
  "ungated v = \<lparr>gv_verdict = v, gv_admit = None, gv_retry = None, gv_exceeded = None\<rparr>"

definition refused_as :: "request_reason \<Rightarrow> deny_reason option \<Rightarrow> policy_verdict \<Rightarrow> policy_verdict" where
  "refused_as reason denied v = v\<lparr>pv_decision := DenyGrant, pv_reason := reason, pv_deny_reason := denied\<rparr>"

text \<open>A deadline that is not there is in the past.\<close>

definition retry_overdue :: "retry_parent option \<Rightarrow> int \<Rightarrow> bool" where
  "retry_overdue parent now = (case parent of
      None \<Rightarrow> False
    | Some p \<Rightarrow> now > (case retry_deadline_epoch (rp_money p) of None \<Rightarrow> -1 | Some d \<Rightarrow> d))"

definition retry_deadline_verdict :: "retry_parent option \<Rightarrow> int \<Rightarrow> policy_verdict \<Rightarrow> policy_verdict" where
  "retry_deadline_verdict parent now v =
     (if pv_decision v = AllowGrant \<and> retry_overdue parent now
      then refused_as RetryUnavailableReason (pv_deny_reason v) v else v)"

text \<open>The authority is read again once a credential has been opened for the evidence.\<close>

definition authority_unchanged :: "decision_source \<Rightarrow> string option \<Rightarrow> bool" where
  "authority_unchanged source current = (case source of
      SentenceSource _ fingerprint \<Rightarrow> current = Some fingerprint
    | SentenceRefusal _ _ _ \<Rightarrow> False)"

definition check_authority_after :: "request_env \<Rightarrow> request_answers \<Rightarrow> request_cx \<Rightarrow> decision_source \<Rightarrow> string list
    \<Rightarrow> evidence_profile option \<Rightarrow> unit request_step handler" where
  "check_authority_after env a cx source secrets profile = (case profile of
      Some p \<Rightarrow> if authority_unchanged source (qa_authority_after a) then give (Onward ())
                else deny_evidence env cx (Some EvStale) secrets p
    | None \<Rightarrow> give (Onward ()))"

definition lineage_of :: "retry_parent \<Rightarrow> retry_lineage" where
  "lineage_of p = \<lparr>rl_eligible_parent = rp_grant_id p, rl_owner_id = rp_owner_id p, rl_owner_grant = grant_row_of (rp_owner_grant p),
     rl_grant_ids = rp_grant_ids p, rl_request_ids = rp_request_ids p\<rparr>"

definition retry_ticket_of :: "request_env \<Rightarrow> audit_row list \<Rightarrow> int \<Rightarrow> retry_parent \<Rightarrow> rule_set \<Rightarrow> request_cx \<Rightarrow> canonical_resource
    \<Rightarrow> gate_fault + retry_ticket" where
  "retry_ticket_of env log now p rules cx resource =
     retry_budget_substitution (ee_verified (qe_exec env)) (broker_evaluator env) (qe_rule_json env) (broker_stores env) log now
       (lineage_of p) rules (cq_provider (cx_req cx)) (cq_action (cx_req cx)) resource"

definition gate_retry :: "request_env \<Rightarrow> request_answers \<Rightarrow> request_cx \<Rightarrow> rule_set \<Rightarrow> retry_parent \<Rightarrow> canonical_resource \<Rightarrow> policy_verdict
    \<Rightarrow> gated_verdict handler" where
  "gate_retry env a cx rules p resource v st =
     (st, Ok (case retry_ticket_of env (bs_log st) (qa_now_gate a) p rules cx resource of
        Inr ticket \<Rightarrow> (ungated v)\<lparr>gv_retry := Some ticket\<rparr>
      | Inl _ \<Rightarrow> ungated (refused_as RetryUnavailableReason None v)))"

definition gate_fresh :: "request_env \<Rightarrow> request_answers \<Rightarrow> request_cx \<Rightarrow> rule_set \<Rightarrow> canonical_resource \<Rightarrow> string list \<Rightarrow> policy_verdict
    \<Rightarrow> gated_verdict handler" where
  "gate_fresh env a cx rules resource secrets v =
     then_do (run_budget_gate env cx (qa_now_gate a) rules resource secrets) (\<lambda>gate. give (case gate of
        NoAggregate \<Rightarrow> ungated v
      | GateAdmit t \<Rightarrow> (ungated v)\<lparr>gv_admit := Some t\<rparr>
      | GateExceeded t \<Rightarrow>
          (ungated (refused_as (BudgetExhaustedReason (at_window t)) (Some (BudgetExceeded (at_window t))) v))\<lparr>gv_exceeded := Some (at_window t)\<rparr>
      | GateInvalid _ \<Rightarrow> ungated (refused_as BudgetUnverifiedReason None v)))"

definition gate_verdict :: "request_env \<Rightarrow> request_answers \<Rightarrow> request_cx \<Rightarrow> decision_source \<Rightarrow> retry_parent option \<Rightarrow> canonical_resource
    \<Rightarrow> string list \<Rightarrow> policy_verdict \<Rightarrow> gated_verdict handler" where
  "gate_verdict env a cx source parent resource secrets v =
     (if pv_decision v = AllowGrant then (case source of
        SentenceSource rules _ \<Rightarrow> (case parent of
            Some p \<Rightarrow> gate_retry env a cx rules p resource v
          | None \<Rightarrow> gate_fresh env a cx rules resource secrets v)
      | SentenceRefusal _ _ _ \<Rightarrow> give (ungated v))
      else give (ungated v))"

text \<open>The evidence is checked again, before the decision is recorded and before the grant is stored.\<close>

definition evidence_current :: "request_env \<Rightarrow> request_cx \<Rightarrow> string \<Rightarrow> int \<Rightarrow> bool option \<Rightarrow> bool handler" where
  "evidence_current env cx evidence_json now generation =
     then_do (envelope_of env evidence_json) (\<lambda>envelope.
     lift_result (\<lambda>e. e) (request_evidence_is_current env (cx_request_id cx) (cq_provider (cx_req cx)) (cq_action (cx_req cx))
       envelope now generation))"

definition check_evidence_decided :: "request_env \<Rightarrow> request_answers \<Rightarrow> request_cx \<Rightarrow> string \<Rightarrow> string list \<Rightarrow> evidence_profile option
    \<Rightarrow> unit request_step handler" where
  "check_evidence_decided env a cx evidence_json secrets profile = (case profile of
      None \<Rightarrow> give (Onward ())
    | Some p \<Rightarrow> then_do (evidence_current env cx evidence_json (qa_now_decided a) (qa_generation_decided a)) (\<lambda>current.
        if current then give (Onward ()) else deny_evidence env cx (Some EvStale) secrets p))"

definition decided_rule :: "policy_verdict \<Rightarrow> string option" where
  "decided_rule v = (if pv_decision v = AllowGrant then pv_matched_rule v else None)"

definition decision_data :: "request_cx \<Rightarrow> decision_source \<Rightarrow> canonical_resource \<Rightarrow> policy_verdict \<Rightarrow> json" where
  "decision_data cx source resource v = JObject
     ([(''decision'', JString (decision_str (pv_decision v))), (''provider'', JString (cq_provider (cx_req cx))),
       (''action'', JString (cq_action (cx_req cx))),
       (''environment'', case scalar resource ''environment'' of Some (RStr s) \<Rightarrow> JString s | _ \<Rightarrow> JNull),
       (''authority_kind'', JString ''sentence''), (''authority_fingerprint'', JString (cx_fingerprint cx))] @
      (case decided_rule v of None \<Rightarrow> [] | Some r \<Rightarrow> [(''matched_rule'', JString r)]) @
      (case source of SentenceRefusal _ _ (Some supplied) \<Rightarrow> [(''supplied_authority_fingerprint'', JString supplied)] | _ \<Rightarrow> []))"

definition deny_decided :: "request_env \<Rightarrow> request_cx \<Rightarrow> decision_source \<Rightarrow> canonical_resource \<Rightarrow> string list \<Rightarrow> evidence_profile option
    \<Rightarrow> gated_verdict \<Rightarrow> request_outcome handler" where
  "deny_decided env cx source resource secrets profile gv =
     (let req = cx_req cx; v = gv_verdict gv;
          hint = (if gv_exceeded gv \<noteq> None \<or> profile \<noteq> None then None
                  else (case source of
                      SentenceSource rules _ \<Rightarrow> map_option WidenBy
                        (sentence_widen_hint_for_denial env rules (cq_provider req) (cq_action req) resource)
                    | SentenceRefusal _ _ _ \<Rightarrow> None)) in
      then_do (deny env cx req (if profile \<noteq> None then EvidenceUnavailableReason else pv_reason v) ''policy''
        (Some (as_match_value resource)) hint secrets (pv_deny_reason v)) (\<lambda>o1.
      give (if profile \<noteq> None then o1\<lparr>ro_authority := False, ro_budget_exceeded := None\<rparr>
            else o1\<lparr>ro_budget_exceeded := gv_exceeded gv\<rparr>)))"

section \<open>The grant\<close>

definition mint_expiry :: "admit_ticket option \<Rightarrow> retry_parent option \<Rightarrow> exec_error + int option" where
  "mint_expiry admit parent =
     (let expiry = map_option grant_expiry_epoch admit in
      case parent of
        None \<Rightarrow> Ok expiry
      | Some p \<Rightarrow> map_sum (\<lambda>e. e) (\<lambda>d. Some (case expiry of None \<Rightarrow> d | Some e \<Rightarrow> min e d))
          (ok_or (integrity_stop ''retry parent lost its authenticated deadline'') (retry_deadline_epoch (rp_money p))))"

definition book_debit :: "request_env \<Rightarrow> request_answers \<Rightarrow> request_cx \<Rightarrow> string list \<Rightarrow> admit_ticket option \<Rightarrow> unit handler" where
  "book_debit env a cx secrets admit = (case admit of
      None \<Rightarrow> give ()
    | Some t \<Rightarrow> record_row (qe_exec env) (Some (cx_session cx)) ''budget_mint'' (mint_data t (qa_grant_id a) (cx_request_id cx)) secrets)"

definition check_evidence_at_mint :: "request_env \<Rightarrow> request_answers \<Rightarrow> request_cx \<Rightarrow> string \<Rightarrow> string list \<Rightarrow> evidence_profile option
    \<Rightarrow> admit_ticket option \<Rightarrow> unit request_step handler" where
  "check_evidence_at_mint env a cx evidence_json secrets profile admit = (case profile of
      None \<Rightarrow> give (Onward ())
    | Some p \<Rightarrow> then_do (evidence_current env cx evidence_json (qa_now_mint a) (qa_generation_mint a)) (\<lambda>current.
        if current then give (Onward ())
        else then_do (if admit \<noteq> None then release_budget (qe_exec env) (qa_grant_id a) EvidenceStaleBeforeGrant else give ()) (\<lambda>_.
          deny_evidence env cx (Some EvStale) secrets p)))"

definition mint_money :: "request_env \<Rightarrow> request_answers \<Rightarrow> request_cx \<Rightarrow> retry_parent option \<Rightarrow> int option \<Rightarrow> exec_error + money_metadata" where
  "mint_money env a cx parent expiry =
     (case opt_filter tf_is_money (ee_templates (qe_exec env) (cq_provider (cx_req cx)) (cq_action (cx_req cx))) of
        None \<Rightarrow> Ok money_none
      | Some loaded \<Rightarrow> (case parent of
          Some p \<Rightarrow> ok_or (integrity_stop ''retry parent lost its private money metadata'') (money_retry (rp_money p) (rp_grant_id p))
        | None \<Rightarrow>
            let deadline = (case expiry of Some e \<Rightarrow> e | None \<Rightarrow> qa_now_money a + GRANT_TTL_SECS) in
            map_sum (\<lambda>e. e) (\<lambda>fp. money_fresh (fst (qa_random a)) (snd (qa_random a)) fp deadline)
              (ok_or (integrity_stop ''money precondition profile vanished before mint'') (tf_precondition_fingerprint loaded))))"

definition retry_in_time :: "request_env \<Rightarrow> request_cx \<Rightarrow> money_metadata \<Rightarrow> int \<Rightarrow> string list \<Rightarrow> evidence_profile option \<Rightarrow> unit request_step handler" where
  "retry_in_time env cx money now secrets profile =
     (if is_retry money \<and> (case retry_deadline_epoch money of None \<Rightarrow> False | Some d \<Rightarrow> now > d)
      then answer (deny_retry_lineage env cx RetryUnavailableReason secrets profile) else give (Onward ()))"

definition retry_link_data :: "retry_ticket \<Rightarrow> string \<Rightarrow> string \<Rightarrow> string \<Rightarrow> json" where
  "retry_link_data t child effect fingerprint = JObject
     [(''parent_grant_id'', JString (rt_parent_grant t)), (''child_grant_id'', JString child), (''effect_id'', JString effect),
      (''parent_budget'', JString (if rt_parent_mint t \<noteq> None then ''aggregate'' else ''unbudgeted'')),
      (''parent_mint_event_id'', opt_str (rt_parent_mint t)), (''authority_fingerprint'', JString fingerprint)]"

definition record_money_retry_link :: "request_env \<Rightarrow> request_cx \<Rightarrow> string \<Rightarrow> string \<Rightarrow> string \<Rightarrow> retry_ticket \<Rightarrow> string list \<Rightarrow> unit handler" where
  "record_money_retry_link env cx child effect fingerprint t secrets =
     record_row (qe_exec env) (Some (cx_session cx)) ''money_retry_linked'' (retry_link_data t child effect fingerprint) secrets"

definition link_retry :: "request_env \<Rightarrow> request_answers \<Rightarrow> request_cx \<Rightarrow> retry_parent option \<Rightarrow> retry_ticket option \<Rightarrow> money_metadata
    \<Rightarrow> string list \<Rightarrow> unit handler" where
  "link_retry env a cx parent ticket money secrets = (case ticket of
      None \<Rightarrow> give ()
    | Some t \<Rightarrow> (case parent of
        None \<Rightarrow> refuse (integrity_stop ''retry budget ticket has no authenticated parent'')
      | Some p \<Rightarrow>
          if rt_parent_grant t \<noteq> rp_grant_id p then refuse (integrity_stop ''retry budget ticket names another parent'')
          else (case effect_id money of
              None \<Rightarrow> refuse (integrity_stop ''retry grant has no authenticated effect id'')
            | Some effect \<Rightarrow> record_money_retry_link env cx (qa_grant_id a) effect (cx_fingerprint cx) t secrets)))"

definition approved_draft :: "request_env \<Rightarrow> request_cx \<Rightarrow> canonical_resource \<Rightarrow> string \<Rightarrow> money_metadata \<Rightarrow> int option \<Rightarrow> grant_draft" where
  "approved_draft env cx resource evidence_json money expiry =
     \<lparr>gd_request_id = cx_request_id cx, gd_session = cx_session cx, gd_provider = cq_provider (cx_req cx),
      gd_action = cq_action (cx_req cx), gd_resource = resource, gd_evidence_json = evidence_json,
      gd_money_json = money_to_canonical_json (ee_json (qe_exec env)) (ee_money (qe_exec env)) money, gd_status = Approved,
      gd_decision = AllowGrant, gd_principal = Some (cx_principal cx), gd_authority = cx_fingerprint cx, gd_expiry_override = expiry\<rparr>"

definition allowed_outcome :: "request_answers \<Rightarrow> request_cx \<Rightarrow> policy_verdict \<Rightarrow> money_metadata \<Rightarrow> request_outcome" where
  "allowed_outcome a cx v money =
     \<lparr>ro_request_id = cx_request_id cx, ro_decision = AllowGrant, ro_reason = pv_reason v, ro_budget_exceeded = None, ro_hint = None,
      ro_grant_id = Some (qa_grant_id a), ro_effect_id = effect_id money, ro_authority = True\<rparr>"

definition store_approved :: "request_env \<Rightarrow> request_answers \<Rightarrow> request_cx \<Rightarrow> canonical_resource \<Rightarrow> string \<Rightarrow> policy_verdict \<Rightarrow> money_metadata
    \<Rightarrow> int option \<Rightarrow> request_outcome request_step handler" where
  "store_approved env a cx resource evidence_json v money expiry =
     then_do (insert_grant (qe_exec env) (approved_draft env cx resource evidence_json money expiry) (qa_grant_id a)
       (qa_now_insert a) (qa_stamp a)) (\<lambda>_.
     then_do (record_request env cx (cx_req cx) ''allow'' (pv_reason v) (decided_rule v) None) (\<lambda>_.
     give (Onward (allowed_outcome a cx v money))))"

definition mint_grant :: "request_env \<Rightarrow> request_answers \<Rightarrow> request_cx \<Rightarrow> retry_parent option \<Rightarrow> canonical_resource \<Rightarrow> string \<Rightarrow> string list
    \<Rightarrow> evidence_profile option \<Rightarrow> gated_verdict \<Rightarrow> request_outcome request_step handler" where
  "mint_grant env a cx parent resource evidence_json secrets profile gv =
     then_do (lift_result (\<lambda>e. e) (mint_expiry (gv_admit gv) parent)) (\<lambda>expiry.
     then_do (book_debit env a cx secrets (gv_admit gv)) (\<lambda>_.
     onward (check_evidence_at_mint env a cx evidence_json secrets profile (gv_admit gv)) (\<lambda>_.
     then_do (lift_result (\<lambda>e. e) (mint_money env a cx parent expiry)) (\<lambda>money.
     onward (retry_in_time env cx money (qa_now_retry a) secrets profile) (\<lambda>_.
     then_do (link_retry env a cx parent (gv_retry gv) money secrets) (\<lambda>_.
     onward (retry_in_time env cx money (qa_now_linked a) secrets profile) (\<lambda>_.
     store_approved env a cx resource evidence_json (gv_verdict gv) money expiry)))))))"

section \<open>From the complete resource to the answer\<close>

definition decide_request :: "request_env \<Rightarrow> request_answers \<Rightarrow> request_cx \<Rightarrow> decision_source \<Rightarrow> retry_parent option \<Rightarrow> evidence_profile option
    \<Rightarrow> canonical_resource \<times> string \<times> string list \<Rightarrow> request_outcome request_step handler" where
  "decide_request env a cx source parent profile found = (case found of (resource, evidence_json, secrets) \<Rightarrow>
     onward (check_retry_frozen env cx parent resource evidence_json secrets profile) (\<lambda>_.
     let v = evaluate_capability env source (cq_provider (cx_req cx)) (cq_action (cx_req cx)) (as_match_value resource) in
     onward (check_authority_after env a cx source secrets profile) (\<lambda>_.
     then_do (gate_verdict env a cx source parent resource secrets (retry_deadline_verdict parent (qa_now_verdict a) v)) (\<lambda>gv.
     onward (check_evidence_decided env a cx evidence_json secrets profile) (\<lambda>_.
     then_do (record_row (qe_exec env) (Some (cx_session cx)) ''policy_decision'' (decision_data cx source resource (gv_verdict gv)) secrets) (\<lambda>_.
     if pv_decision (gv_verdict gv) = AllowGrant then mint_grant env a cx parent resource evidence_json secrets profile gv
     else answer (deny_decided env cx source resource secrets profile gv)))))))"

definition evidence_profile_of :: "request_env \<Rightarrow> capability_request \<Rightarrow> evidence_profile option" where
  "evidence_profile_of env req = Option.bind
     (Option.bind (ee_templates (qe_exec env) (cq_provider req) (cq_action req)) tf_request_evidence_id) (ee_profile (qe_exec env))"

text \<open>A lineage that cannot be authenticated is a denial; what its reconciliation wrote stays written.\<close>

definition find_retry_parent :: "request_env \<Rightarrow> request_answers \<Rightarrow> request_cx \<Rightarrow> string option \<Rightarrow> evidence_profile option
    \<Rightarrow> retry_parent option request_step handler" where
  "find_retry_parent env a cx retry profile st = (case retry of
      None \<Rightarrow> give (Onward None) st
    | Some effect \<Rightarrow>
        (case authenticate_retry_parent (qe_exec env) \<lparr>rk_effect = effect, rk_principal = cx_principal cx,
            rk_provider = cq_provider (cx_req cx), rk_action = cq_action (cx_req cx), rk_now = qa_now_lineage a\<rparr> st of
           (st', Inr parent) \<Rightarrow> give (Onward (Some parent)) st'
         | (st', Inl _) \<Rightarrow> answer (deny_retry_lineage env cx RetryUnavailableReason [] profile) st'))"

definition check_money_corpus :: "request_env \<Rightarrow> request_cx \<Rightarrow> decision_source \<Rightarrow> evidence_profile option \<Rightarrow> unit request_step handler" where
  "check_money_corpus env cx source profile = (case source of
      SentenceSource rules _ \<Rightarrow>
        (case validate_money_authority (broker_evaluator env) rules of
           Inr _ \<Rightarrow> give (Onward ())
         | Inl _ \<Rightarrow> (case profile of
             Some p \<Rightarrow> deny_evidence env cx None [] p
           | None \<Rightarrow> answer (deny env cx (cx_req cx) InvalidMoneyAllowReason ''policy'' None None [] None)))
    | SentenceRefusal _ _ _ \<Rightarrow> give (Onward ()))"

definition conclude :: "request_outcome request_step handler \<Rightarrow> request_outcome handler" where
  "conclude m = then_do m (\<lambda>s. case s of Answered o1 \<Rightarrow> give o1 | Onward o1 \<Rightarrow> give o1)"

definition find_provider :: "request_env \<Rightarrow> request_cx \<Rightarrow> provider_iface request_step handler" where
  "find_provider env cx =
     (let req = cx_req cx; plain_deny = (\<lambda>reason c. answer (deny env cx req reason c None None [] None)) in
      if provider_is_product_disabled (qe_exec env) (cq_provider req) (cq_action req)
      then plain_deny ProviderDisabledReason ''provider_disabled''
      else (case ee_provider (qe_exec env) (cq_provider req) of
          None \<Rightarrow> plain_deny NotRegisteredReason ''unregistered''
        | Some provider \<Rightarrow>
            if \<not> qe_supports env (cq_provider req) (cq_action req) then plain_deny UnsupportedReason ''unsupported''
            else give (Onward provider)))"

definition cx_of :: "request_answers \<Rightarrow> string \<Rightarrow> string \<Rightarrow> capability_request \<Rightarrow> string \<Rightarrow> request_cx" where
  "cx_of a session caller req fingerprint =
     \<lparr>cx_session = session, cx_request_id = qa_request_id a, cx_req = req, cx_principal = caller, cx_fingerprint = fingerprint,
      cx_stamp = qa_stamp a\<rparr>"

definition serve_request :: "request_env \<Rightarrow> request_answers \<Rightarrow> request_cx \<Rightarrow> decision_source \<Rightarrow> string option
    \<Rightarrow> request_outcome request_step handler" where
  "serve_request env a cx source retry =
     (let profile = evidence_profile_of env (cx_req cx) in
      onward (find_provider env cx) (\<lambda>provider.
      onward (find_retry_parent env a cx retry profile) (\<lambda>parent.
      onward (check_money_corpus env cx source profile) (\<lambda>_.
      onward (case profile of
          Some p \<Rightarrow> resolve_evidence env a cx source provider p
        | None \<Rightarrow> resolve_plain env a cx source provider) (\<lambda>found.
      decide_request env a cx source parent profile found)))))"

definition request_capability_for_principal_owned_with_source :: "request_env \<Rightarrow> request_answers \<Rightarrow> string \<Rightarrow> string \<Rightarrow> capability_request
    \<Rightarrow> int option \<Rightarrow> string option \<Rightarrow> decision_source \<Rightarrow> request_outcome handler" where
  "request_capability_for_principal_owned_with_source env a session_id caller req owner retry source =
     (let session = trim session_id in
      if qa_locked_source a then refuse (LockedDown ''capability requests'')
      else if session = [] then refuse (GrantDenied [])
      else then_do (ensure_session session owner (qa_authority_session a) (qa_stamp a)) (\<lambda>_.
        conclude (serve_request env a (cx_of a session caller req (source_fingerprint source)) source retry)))"

section \<open>The ways in\<close>

definition LOCAL_REQUESTER :: string where "LOCAL_REQUESTER = ''local-agent''"

text \<open>The authority in custody, or why it cannot be read.\<close>

definition current_source :: "request_answers \<Rightarrow> decision_source" where
  "current_source a = (case qa_authority a of
      Inr (rules, fingerprint) \<Rightarrow> SentenceSource rules fingerprint
    | Inl reason \<Rightarrow> SentenceRefusal reason ''unavailable'' None)"

definition request_capability_for_principal_owned_with_retry :: "request_env \<Rightarrow> request_answers \<Rightarrow> string \<Rightarrow> string \<Rightarrow> capability_request
    \<Rightarrow> int option \<Rightarrow> string option \<Rightarrow> request_outcome handler" where
  "request_capability_for_principal_owned_with_retry env a session_id caller req owner retry =
     (let session = trim session_id in
      if qa_locked_request a then refuse (LockedDown ''capability requests'')
      else if session = [] then refuse (GrantDenied [])
      else if provider_is_product_disabled (qe_exec env) (cq_provider req) (cq_action req) then
        then_do (ensure_session_with_fingerprint session owner ''provider_disabled'' (qa_stamp a)) (\<lambda>_.
        deny env (cx_of a session caller req ''provider_disabled'') req ProviderDisabledReason ''provider_disabled'' None None [] None)
      else request_capability_for_principal_owned_with_source env a session_id caller req owner retry (current_source a))"

definition deny_pre_sentence :: "request_env \<Rightarrow> request_answers \<Rightarrow> string \<Rightarrow> string \<Rightarrow> capability_request \<Rightarrow> int option \<Rightarrow> request_reason \<Rightarrow> string
    \<Rightarrow> request_outcome handler" where
  "deny_pre_sentence env a session caller req owner reason authority =
     then_do (ensure_session_with_fingerprint session owner authority (qa_stamp a)) (\<lambda>_.
     deny env (cx_of a session caller req authority) req reason ''invalid'' None None [] None)"

definition git_kind_refusal :: "request_env \<Rightarrow> capability_request \<Rightarrow> request_reason option" where
  "git_kind_refusal env req = map_option GitPlaneReason (qe_git_push env (cq_provider req) (cq_action req))"

definition agent_pre_sentence_refusal :: "request_env \<Rightarrow> request_answers \<Rightarrow> string \<Rightarrow> string \<Rightarrow> capability_request \<Rightarrow> int option
    \<Rightarrow> request_outcome handler option" where
  "agent_pre_sentence_refusal env a session caller req owner =
     (if session = [] then None
      else if qa_locked_entry a then Some (deny_pre_sentence env a session caller req owner LockdownReason ''lockdown'')
      else map_option (\<lambda>reason. deny_pre_sentence env a session caller req owner reason ''git_plane'') (git_kind_refusal env req))"

definition enter_refusable :: "request_env \<Rightarrow> request_answers \<Rightarrow> string \<Rightarrow> string \<Rightarrow> capability_request \<Rightarrow> int option \<Rightarrow> string option
    \<Rightarrow> request_outcome handler" where
  "enter_refusable env a session_id caller req owner retry =
     (case agent_pre_sentence_refusal env a (trim session_id) caller req owner of
        Some refusal \<Rightarrow> refusal
      | None \<Rightarrow> request_capability_for_principal_owned_with_retry env a session_id caller req owner retry)"

definition require_session_open :: "string \<Rightarrow> bool \<Rightarrow> int option \<Rightarrow> unit handler" where
  "require_session_open session_id required peer st =
     (if required \<and> \<not> session_open_for_peer st (trim session_id) peer then (st, Err SessionExpired) else (st, Ok ()))"

definition request_capability_for_principal_owned :: "request_env \<Rightarrow> request_answers \<Rightarrow> string \<Rightarrow> string \<Rightarrow> capability_request \<Rightarrow> int option
    \<Rightarrow> request_outcome handler" where
  "request_capability_for_principal_owned env a session_id caller req owner =
     enter_refusable env a session_id caller req owner None"

definition request_capability_for_principal :: "request_env \<Rightarrow> request_answers \<Rightarrow> string \<Rightarrow> string \<Rightarrow> capability_request \<Rightarrow> request_outcome handler" where
  "request_capability_for_principal env a session_id caller req =
     request_capability_for_principal_owned env a session_id caller req None"

definition request_capability :: "request_env \<Rightarrow> request_answers \<Rightarrow> string \<Rightarrow> capability_request \<Rightarrow> request_outcome handler" where
  "request_capability env a session_id req = request_capability_for_principal env a session_id LOCAL_REQUESTER req"

definition request_capability_owned :: "request_env \<Rightarrow> request_answers \<Rightarrow> string \<Rightarrow> capability_request \<Rightarrow> int option \<Rightarrow> request_outcome handler" where
  "request_capability_owned env a session_id req owner =
     request_capability_for_principal_owned env a session_id LOCAL_REQUESTER req owner"

definition request_retry_capability_owned :: "request_env \<Rightarrow> request_answers \<Rightarrow> string \<Rightarrow> capability_request \<Rightarrow> int option \<Rightarrow> string
    \<Rightarrow> request_outcome handler" where
  "request_retry_capability_owned env a session_id req owner effect =
     request_capability_for_principal_owned_with_retry env a session_id LOCAL_REQUESTER req owner (Some effect)"

definition request_capability_for_principal_open :: "request_env \<Rightarrow> request_answers \<Rightarrow> string \<Rightarrow> string \<Rightarrow> capability_request \<Rightarrow> bool
    \<Rightarrow> int option \<Rightarrow> request_outcome handler" where
  "request_capability_for_principal_open env a session_id caller req required peer =
     then_do (require_session_open session_id required peer) (\<lambda>_.
     request_capability_for_principal_owned env a session_id caller req peer)"

definition request_retry_capability_for_principal_open :: "request_env \<Rightarrow> request_answers \<Rightarrow> string \<Rightarrow> string \<Rightarrow> string \<Rightarrow> capability_request
    \<Rightarrow> bool \<Rightarrow> int option \<Rightarrow> request_outcome handler" where
  "request_retry_capability_for_principal_open env a session_id caller effect req required peer =
     then_do (require_session_open session_id required peer) (\<lambda>_.
     enter_refusable env a session_id caller req peer (Some effect))"

definition request_capability_from_git_plane :: "request_env \<Rightarrow> request_answers \<Rightarrow> string \<Rightarrow> string \<Rightarrow> capability_request \<Rightarrow> int option
    \<Rightarrow> request_outcome handler" where
  "request_capability_from_git_plane env a session_id caller req owner =
     request_capability_for_principal_owned_with_retry env a session_id caller req owner None"

text \<open>The caller's own rules must be the ones in custody.\<close>

definition supplied_source :: "request_env \<Rightarrow> request_answers \<Rightarrow> rule_set \<Rightarrow> decision_source" where
  "supplied_source env a rules =
     (let supplied = authority_digest (ee_sha (qe_exec env)) rules in
      case qa_authority a of
        Inl reason \<Rightarrow> SentenceRefusal reason ''unavailable'' (Some supplied)
      | Inr (current, fingerprint) \<Rightarrow>
          if supplied \<noteq> fingerprint
          then SentenceRefusal (''supplied '' @ supplied @ '' is not current '' @ fingerprint) fingerprint (Some supplied)
          else SentenceSource current fingerprint)"

definition request_capability_with_sentence :: "request_env \<Rightarrow> request_answers \<Rightarrow> string \<Rightarrow> rule_set \<Rightarrow> capability_request \<Rightarrow> request_outcome handler" where
  "request_capability_with_sentence env a session_id rules req =
     request_capability_for_principal_owned_with_source env a session_id LOCAL_REQUESTER req None None (supplied_source env a rules)"

end
