(* ===== verification/Grant_Contracts.thy ===== *)
theory Grant_Contracts
  imports Grant_Execution
begin

text \<open>
  Contracts of the handlers of \<open>Grant_Execution\<close>: pre- and postconditions that hold whether the handler answers
  or fails, so that a lost write or a crash between two writes is covered, and one invariant of the clock, the
  grants, the log and the trace of effects that every handler keeps.
\<close>

section \<open>Contracts of handlers\<close>

definition spec :: "(broker_store \<Rightarrow> bool) \<Rightarrow> 'a handler \<Rightarrow> ('a \<Rightarrow> broker_store \<Rightarrow> bool) \<Rightarrow> (broker_store \<Rightarrow> bool) \<Rightarrow> bool" where
  "spec P h Q E \<longleftrightarrow> (\<forall>st. P st \<longrightarrow> (case h st of (st', Inl _) \<Rightarrow> E st' | (st', Inr a) \<Rightarrow> Q a st'))"

lemma spec_run: "spec P h Q E \<Longrightarrow> P st \<Longrightarrow> h st = (st', r) \<Longrightarrow> (case r of Inl _ \<Rightarrow> E st' | Inr a \<Rightarrow> Q a st')"
  by (auto simp: spec_def split: sum.splits)

lemma spec_final: "spec P h (\<lambda>_. E) E \<Longrightarrow> P st \<Longrightarrow> E (fst (h st))"
  by (cases "h st") (auto simp: spec_def split: sum.splits)

lemma spec_pre: "spec P' h Q E \<Longrightarrow> (\<And>st. P st \<Longrightarrow> P' st) \<Longrightarrow> spec P h Q E"
  by (auto simp: spec_def)

lemma spec_post: "spec P h Q' E \<Longrightarrow> (\<And>a st. Q' a st \<Longrightarrow> Q a st) \<Longrightarrow> spec P h Q E"
  by (fastforce simp: spec_def split: prod.splits sum.splits)

lemma spec_err: "spec P h Q E' \<Longrightarrow> (\<And>st. E' st \<Longrightarrow> E st) \<Longrightarrow> spec P h Q E"
  by (fastforce simp: spec_def split: prod.splits sum.splits)

lemma spec_assume: "(F \<Longrightarrow> spec P h Q E) \<Longrightarrow> spec (\<lambda>st. P st \<and> F) h Q E"
  by (simp add: spec_def)

lemma spec_give: "(\<And>st. P st \<Longrightarrow> Q a st) \<Longrightarrow> spec P (give a) Q E"
  by (simp add: spec_def give_def)

lemma spec_refuse: "(\<And>st. P st \<Longrightarrow> E st) \<Longrightarrow> spec P (refuse e) Q E"
  by (simp add: spec_def refuse_def)

lemma spec_then: "spec P m R E \<Longrightarrow> (\<And>a. spec (R a) (f a) Q E) \<Longrightarrow> spec P (then_do m f) Q E"
  by (fastforce simp: spec_def then_do_def split: prod.splits sum.splits)

lemma spec_if: "(b \<Longrightarrow> spec P h Q E) \<Longrightarrow> (\<not> b \<Longrightarrow> spec P k Q E) \<Longrightarrow> spec P (if b then h else k) Q E"
  by simp

lemma spec_unless: "(\<And>st. P st \<Longrightarrow> E st) \<Longrightarrow> (\<And>st. P st \<Longrightarrow> \<not> b \<Longrightarrow> Q () st) \<Longrightarrow> spec P (unless b e) Q E"
  by (simp add: unless_def spec_def refuse_def give_def)

lemma spec_lift: "(\<And>st. P st \<Longrightarrow> E st) \<Longrightarrow> (\<And>a st. P st \<Longrightarrow> r = Ok a \<Longrightarrow> Q a st) \<Longrightarrow> spec P (lift_result f r) Q E"
  by (cases r) (simp_all add: spec_def lift_result_def)

lemma spec_write:
  "(\<And>st fs. P st \<Longrightarrow> E (st\<lparr>bs_faults := fs\<rparr>)) \<Longrightarrow> (\<And>st fs. P st \<Longrightarrow> Q () (f (st\<lparr>bs_faults := fs\<rparr>))) \<Longrightarrow> spec P (write_store f) Q E"
  by (auto simp: spec_def write_store_def split: list.splits bool.splits)

lemma spec_load: "(\<And>st. P st \<Longrightarrow> E st) \<Longrightarrow> (\<And>g st. P st \<Longrightarrow> bs_grants st gid = Some g \<Longrightarrow> Q g st) \<Longrightarrow> spec P (load_grant gid) Q E"
  by (auto simp: spec_def load_grant_def ok_or_def split: option.splits)

lemma spec_secrets: "(\<And>st. P st \<Longrightarrow> E st) \<Longrightarrow> (\<And>s st. P st \<Longrightarrow> Q s st) \<Longrightarrow> spec P (all_secrets env) Q E"
  unfolding all_secrets_def by (rule spec_lift)

lemma spec_update:
  assumes "\<And>st fs. P st \<Longrightarrow> E (st\<lparr>bs_faults := fs\<rparr>)"
    and "\<And>st fs. P st \<Longrightarrow> (\<And>g. bs_grants st gid = Some g \<Longrightarrow> sg_status g \<notin> set from) \<Longrightarrow> Q False (st\<lparr>bs_faults := fs\<rparr>)"
    and "\<And>st g fs. P st \<Longrightarrow> bs_grants st gid = Some g \<Longrightarrow> sg_status g \<in> set from \<Longrightarrow>
      Q True (st\<lparr>bs_faults := fs, bs_grants := (bs_grants st)(gid \<mapsto> f g)\<rparr>)"
  shows "spec P (update_grant gid from f) Q E"
  using assms
  by (fastforce simp: spec_def update_grant_def then_do_def write_store_def give_def split: option.splits list.splits bool.splits)

section \<open>What a recorded row says\<close>

text \<open>
  Redaction puts a bracket into every text it changes, so a text without one was recorded as it is. The
  identifiers of grants and requests have none.
\<close>

definition plain :: "string \<Rightarrow> bool" where
  "plain s \<longleftrightarrow> CHR ''['' \<notin> set s"

lemma replace_bracket:
  "CHR ''['' \<in> set s \<Longrightarrow> CHR ''['' \<in> set (replace_all p redacted_marker s)"
  "replace_all p redacted_marker s = s \<or> CHR ''['' \<in> set (replace_all p redacted_marker s)"
proof (induction p redacted_marker s rule: replace_all.induct)
  case (2 pat c cs)
  { case 1 with 2 show ?case by (auto simp: redacted_marker_def) }
  { case 2 with "2.hyps" show ?case by (auto simp: redacted_marker_def) }
qed simp_all

lemma bracket_stays: "CHR ''['' \<in> set s \<Longrightarrow> CHR ''['' \<in> set (redact_str s secrets)"
  unfolding redact_str_def by (induction secrets arbitrary: s) (auto simp: replace_bracket(1))

lemma redact_str_plain: "plain (redact_str s secrets) \<Longrightarrow> redact_str s secrets = s"
  unfolding plain_def
proof (induction secrets arbitrary: s)
  case (Cons p secrets)
  let ?s = "if p \<noteq> [] then replace_all p redacted_marker s else s"
  have step: "redact_str s (p # secrets) = redact_str ?s secrets" by (simp add: redact_str_def)
  with Cons.prems bracket_stays[of ?s secrets] have "CHR ''['' \<notin> set ?s" by metis
  then have same: "?s = s" using replace_bracket(2)[of p s] by (cases "p = []") simp_all
  have "redact_str s (p # secrets) = redact_str s secrets" using step unfolding same .
  then show ?case using Cons.IH[of s] Cons.prems by simp
qed (simp add: redact_str_def)

lemma redacted_get:
  assumes "jget (redacted_for_record (JObject es) secrets) k = Some v" "plain k"
  shows "\<exists>v0. (k, v0) \<in> set es \<and> v = redact_value_refs v0 secrets"
proof -
  let ?es = "map (\<lambda>(key, child). (key, redact_value_refs child secrets)) es"
  from assms(1) have "(k, v) \<in> set (fold (\<lambda>(key, child) m. bt_insert (redact_str key secrets) child m) ?es [])"
    by (auto simp: redacted_for_record_def redacted_def redact_value_def jget_def dest: map_of_SomeD)
  then obtain key where "(key, v) \<in> set ?es" "k = redact_str key secrets"
    using fold_insert_member[of k v "\<lambda>key. redact_str key secrets" ?es "[]"] by (metis empty_iff list.set(1))
  with assms(2) redact_str_plain[of key secrets] show ?thesis by auto
qed

text \<open>The three fields of an event that later decisions read.\<close>

definition says :: "(string \<times> json) list \<Rightarrow> string \<Rightarrow> json \<Rightarrow> bool" where
  "says es k v \<longleftrightarrow> list_all (\<lambda>(k', v'). k' = k \<longrightarrow> v' = v) es"

lemma recorded_text:
  assumes "jstr (redacted_for_record (JObject es) secrets) k = Some t" "says es k (JString s)" "plain k" "plain t"
  shows "t = s"
proof -
  from assms(1) obtain v where "jget (redacted_for_record (JObject es) secrets) k = Some v" "as_str v = Some t"
    by (auto simp: jstr_def bind_eq_Some_conv)
  with redacted_get[OF _ assms(3)] assms(2) have "as_str (redact_value_refs (JString s) secrets) = Some t"
    by (fastforce simp: says_def list_all_iff)
  with assms(4) redact_str_plain show ?thesis by auto
qed

lemma recorded_flag:
  assumes "Option.bind (jget (redacted_for_record (JObject es) secrets) ''mutation_invoked'') as_bool = Some b"
    and "says es ''mutation_invoked'' (JBool b0)"
  shows "b = b0"
proof -
  from assms(1) obtain v where "jget (redacted_for_record (JObject es) secrets) ''mutation_invoked'' = Some v" "as_bool v = Some b"
    by (auto simp: bind_eq_Some_conv)
  with redacted_get[of es secrets "''mutation_invoked''"] assms(2) have "as_bool (redact_value_refs (JBool b0) secrets) = Some b"
    by (fastforce simp: says_def list_all_iff plain_def)
  then show ?thesis by simp
qed

lemma plain_keys_of_events [simp]: "plain ''grant_id''" "plain ''request_id''" "plain ''mutation_invoked''"
  by (simp_all add: plain_def)

section \<open>The invariant\<close>

definition claimed :: "stored_grant \<Rightarrow> bool" where
  "claimed g \<longleftrightarrow> sg_status g \<in> {Executing, Executed, Expired} \<and> sg_lease_opened_at g \<noteq> None"

definition refused_before :: "string \<Rightarrow> string \<Rightarrow> audit_row \<Rightarrow> bool" where
  "refused_before gid req r \<longleftrightarrow> terminal_row r \<and> row_invoked r = Some False \<and> speaks_of gid req r"

definition releases :: "string \<Rightarrow> audit_row \<Rightarrow> bool" where
  "releases gid r \<longleftrightarrow> ar_type r = ''budget_release'' \<and> jstr (ar_data r) ''grant_id'' = Some gid"

definition lapsed :: "int \<Rightarrow> stored_grant \<Rightarrow> bool" where
  "lapsed clock g \<longleftrightarrow> (\<exists>e. sg_expiry g = Some e \<and> e < clock)"

text \<open>A terminal row for the grant, as it was before its secrets were cut out.\<close>

definition terminal_for :: "string \<Rightarrow> string \<Rightarrow> audit_row \<Rightarrow> bool" where
  "terminal_for gid req r \<longleftrightarrow> terminal_row r \<and>
     (speaks_of gid req r \<or> (\<exists>d secrets. ar_data r = redacted_for_record d secrets \<and> jstr d ''grant_id'' = Some gid))"

definition spendable :: "int \<Rightarrow> (string \<rightharpoonup> stored_grant) \<Rightarrow> string \<Rightarrow> bool" where
  "spendable clock grants i \<longleftrightarrow> (\<exists>g. grants i = Some g \<and> sg_status g = Approved \<and> \<not> lapsed clock g)"

definition ids_ok :: "(string \<rightharpoonup> stored_grant) \<Rightarrow> bool" where
  "ids_ok grants \<longleftrightarrow> (\<forall>i g. grants i = Some g \<longrightarrow> plain i \<and> plain (sg_request_id g)) \<and>
     (\<forall>i j g h. grants i = Some g \<and> grants j = Some h \<and> sg_request_id g = sg_request_id h \<longrightarrow> i = j)"

definition calls_ok :: "broker_store \<Rightarrow> bool" where
  "calls_ok st \<longleftrightarrow> distinct (bs_calls st) \<and> (\<forall>i \<in> set (bs_calls st). \<exists>g. bs_grants st i = Some g \<and> claimed g)"

definition refusals_ok :: "broker_store \<Rightarrow> bool" where
  "refusals_ok st \<longleftrightarrow> (\<forall>i g. bs_grants st i = Some g \<and> list_ex (refused_before i (sg_request_id g)) (bs_log st) \<longrightarrow>
     i \<notin> set (bs_calls st) \<and> sg_status g \<noteq> Approved)"

definition releases_ok :: "int \<Rightarrow> broker_store \<Rightarrow> bool" where
  "releases_ok clock st \<longleftrightarrow> (\<forall>i. list_ex (releases i) (bs_log st) \<longrightarrow>
     i \<notin> set (bs_calls st) \<and> \<not> spendable clock (bs_grants st) i)"

definition executed_ok :: "broker_store \<Rightarrow> bool" where
  "executed_ok st \<longleftrightarrow> (\<forall>i g. bs_grants st i = Some g \<and> sg_status g = Executed \<longrightarrow>
     list_ex (terminal_for i (sg_request_id g)) (bs_log st))"

definition life_inv :: "int \<Rightarrow> broker_store \<Rightarrow> bool" where
  "life_inv clock st \<longleftrightarrow> ids_ok (bs_grants st) \<and> calls_ok st \<and> refusals_ok st \<and> releases_ok clock st \<and> executed_ok st"

lemmas life_inv_defs = life_inv_def ids_ok_def calls_ok_def refusals_ok_def releases_ok_def executed_ok_def

lemma inv_faults [simp]: "life_inv clock (st\<lparr>bs_faults := fs\<rparr>) = life_inv clock st"
  by (simp add: life_inv_defs)

lemma inv_clock: "life_inv clock st \<Longrightarrow> clock \<le> clock' \<Longrightarrow> life_inv clock' st"
  by (auto simp: life_inv_def releases_ok_def spendable_def lapsed_def) force

text \<open>One row more.\<close>

definition row_fits :: "int \<Rightarrow> broker_store \<Rightarrow> audit_row \<Rightarrow> bool" where
  "row_fits clock st r \<longleftrightarrow>
     (\<forall>i g. bs_grants st i = Some g \<and> refused_before i (sg_request_id g) r \<longrightarrow> i \<notin> set (bs_calls st) \<and> sg_status g \<noteq> Approved) \<and>
     (\<forall>i. releases i r \<longrightarrow> i \<notin> set (bs_calls st) \<and> \<not> spendable clock (bs_grants st) i)"

lemma inv_row: "life_inv clock st \<Longrightarrow> row_fits clock st r \<Longrightarrow> life_inv clock (st\<lparr>bs_log := bs_log st @ [r]\<rparr>)"
  by (auto simp: life_inv_defs row_fits_def)

lemma row_fits_other: "\<not> terminal_row r \<Longrightarrow> ar_type r \<noteq> ''budget_release'' \<Longrightarrow> row_fits clock st r"
  by (simp add: row_fits_def refused_before_def releases_def)

text \<open>One grant changed: its identity and expiry stay, and it may not become claimable again.\<close>

lemma inv_update:
  assumes "life_inv clock st" "bs_grants st gid = Some g"
    and "sg_request_id g' = sg_request_id g" "sg_expiry g' = sg_expiry g"
    and "sg_status g' = Approved \<Longrightarrow> sg_status g = Approved" "gid \<in> set (bs_calls st) \<Longrightarrow> claimed g'"
    and "sg_status g' = Executed \<Longrightarrow> list_ex (terminal_for gid (sg_request_id g)) (bs_log st)"
  shows "life_inv clock (st\<lparr>bs_grants := (bs_grants st)(gid \<mapsto> g')\<rparr>)"
proof -
  have sp: "spendable clock ((bs_grants st)(gid \<mapsto> g')) i \<Longrightarrow> spendable clock (bs_grants st) i" for i
    using assms(2,4,5) by (auto simp: spendable_def lapsed_def split: if_splits)
  have "ids_ok ((bs_grants st)(gid \<mapsto> g'))" using assms(1-3) unfolding life_inv_def ids_ok_def by (auto split: if_splits)
  moreover have "calls_ok (st\<lparr>bs_grants := (bs_grants st)(gid \<mapsto> g')\<rparr>)"
    using assms(1,6) unfolding life_inv_def calls_ok_def by auto
  moreover have "refusals_ok (st\<lparr>bs_grants := (bs_grants st)(gid \<mapsto> g')\<rparr>)"
    using assms(1,2,3,5) unfolding life_inv_def refusals_ok_def by auto
  moreover have "releases_ok clock (st\<lparr>bs_grants := (bs_grants st)(gid \<mapsto> g')\<rparr>)"
    using assms(1) sp unfolding life_inv_def releases_ok_def by auto
  moreover have "executed_ok (st\<lparr>bs_grants := (bs_grants st)(gid \<mapsto> g')\<rparr>)"
    using assms(1,2,3,7) unfolding life_inv_def executed_ok_def by (auto split: if_splits)
  ultimately show ?thesis unfolding life_inv_def by simp
qed

text \<open>One effect more, and one grant more.\<close>

lemma inv_call:
  assumes "life_inv clock st" "bs_grants st gid = Some g" "claimed g" "gid \<notin> set (bs_calls st)"
    and "\<not> list_ex (refused_before gid (sg_request_id g)) (bs_log st)" "\<not> list_ex (releases gid) (bs_log st)"
  shows "life_inv clock (st\<lparr>bs_calls := bs_calls st @ [gid]\<rparr>)"
  using assms unfolding life_inv_defs by auto

definition fresh_ids :: "broker_store \<Rightarrow> string \<Rightarrow> string \<Rightarrow> bool" where
  "fresh_ids st gid req \<longleftrightarrow> plain gid \<and> plain req \<and> bs_grants st gid = None \<and>
     (\<forall>i g. bs_grants st i = Some g \<longrightarrow> sg_request_id g \<noteq> req) \<and>
     list_all (\<lambda>r. terminal_row r \<or> ar_type r = ''budget_release'' \<longrightarrow> \<not> speaks_of gid req r) (bs_log st)"

lemma inv_insert:
  assumes "life_inv clock st" "fresh_ids st gid (sg_request_id g)" "sg_status g \<noteq> Executed"
  shows "life_inv clock (st\<lparr>bs_ids := ids, bs_grants := (bs_grants st)(gid \<mapsto> g)\<rparr>)"
proof -
  have new: "gid \<notin> set (bs_calls st)" using assms(1,2) by (auto simp: life_inv_defs fresh_ids_def)
  have none: "\<not> list_ex (refused_before gid (sg_request_id g)) (bs_log st)" "\<not> list_ex (releases gid) (bs_log st)"
    using assms(2) by (auto simp: fresh_ids_def list_all_iff list_ex_iff refused_before_def releases_def speaks_of_def)
  have sp: "spendable clock ((bs_grants st)(gid \<mapsto> g)) i \<Longrightarrow> i \<noteq> gid \<Longrightarrow> spendable clock (bs_grants st) i" for i
    by (auto simp: spendable_def)
  let ?st = "st\<lparr>bs_ids := ids, bs_grants := (bs_grants st)(gid \<mapsto> g)\<rparr>"
  have "ids_ok (bs_grants ?st)" using assms(1,2) unfolding life_inv_def ids_ok_def fresh_ids_def by (simp; metis option.inject)
  moreover have "calls_ok ?st" using assms(1) new unfolding life_inv_def calls_ok_def by auto
  moreover have "refusals_ok ?st" using assms(1) none(1) unfolding life_inv_def refusals_ok_def by auto
  moreover have "releases_ok clock ?st" using assms(1) none(2) sp unfolding life_inv_def releases_ok_def by auto
  moreover have "executed_ok ?st" using assms(1,3) unfolding life_inv_def executed_ok_def by auto
  ultimately show ?thesis unfolding life_inv_def by blast
qed

section \<open>Recording\<close>

definition steady :: "int \<Rightarrow> (broker_store \<Rightarrow> bool) \<Rightarrow> bool" where
  "steady clock P \<longleftrightarrow> (\<forall>st. P st \<longrightarrow> life_inv clock st) \<and> (\<forall>st fs. P st \<longrightarrow> P (st\<lparr>bs_faults := fs\<rparr>)) \<and>
     (\<forall>st r. P st \<and> \<not> terminal_row r \<and> ar_type r \<noteq> ''budget_release'' \<longrightarrow> P (st\<lparr>bs_log := bs_log st @ [r]\<rparr>))"

lemma steadyD: "steady clock P \<Longrightarrow> P st \<Longrightarrow> life_inv clock st" "steady clock P \<Longrightarrow> P st \<Longrightarrow> P (st\<lparr>bs_faults := fs\<rparr>)"
  by (simp_all add: steady_def)

lemma spec_record:
  assumes "\<And>st fs. P st \<Longrightarrow> E (st\<lparr>bs_faults := fs\<rparr>)"
    and "\<And>st (r :: audit_row) fs. P st \<Longrightarrow> ar_type r = ty \<Longrightarrow> ar_data r = redacted_for_record data secrets \<Longrightarrow>
      Q () (st\<lparr>bs_faults := fs, bs_log := bs_log st @ [r]\<rparr>)"
  shows "spec P (record_row env s ty data secrets) Q E"
  unfolding record_row_def by (rule spec_write) (use assms in simp_all)

lemma spec_record_steady:
  assumes "steady clock P" "ty \<notin> {''provider_action_succeeded'', ''provider_action_failed'', ''budget_release''}"
  shows "spec P (record_row env s ty data secrets) (\<lambda>_. P) P"
proof (rule spec_record)
  show "P st \<Longrightarrow> P (st\<lparr>bs_faults := fs\<rparr>)" for st fs using steadyD(2)[OF assms(1)] by simp
  fix st fs and r :: audit_row assume "P st" "ar_type r = ty"
  then have "P (st\<lparr>bs_faults := fs\<rparr>)" "\<not> terminal_row r" "ar_type r \<noteq> ''budget_release''"
    using steadyD(2)[OF assms(1)] assms(2) by (auto simp: terminal_row_def)
  with assms(1) have "P (st\<lparr>bs_faults := fs\<rparr>\<lparr>bs_log := bs_log (st\<lparr>bs_faults := fs\<rparr>) @ [r]\<rparr>)" unfolding steady_def by blast
  then show "P (st\<lparr>bs_faults := fs, bs_log := bs_log st @ [r]\<rparr>)" by simp
qed

lemma spec_record_other:
  assumes "steady clock P" "ty \<notin> {''provider_action_succeeded'', ''provider_action_failed'', ''budget_release''}"
  shows "spec P (record_row env s ty data secrets) (\<lambda>_. P) (life_inv clock)"
  by (rule spec_err[OF spec_record_steady[OF assms]]) (rule steadyD(1)[OF assms(1)])

lemma steady_secrets: "steady clock P \<Longrightarrow> spec P (all_secrets env) (\<lambda>_. P) (life_inv clock)"
  by (rule spec_secrets) (auto intro: steadyD)

lemma spec_refuse_recorded: "steady clock P \<Longrightarrow> spec P (refuse_recorded env gid g reason e) Q (life_inv clock)"
  unfolding refuse_recorded_def record_capability_execution_refused_def
  by (rule spec_then[OF spec_then[where R = "\<lambda>_. P", OF spec_secrets spec_record_other] spec_refuse])
    (auto intro: steadyD)

lemma fits_terminal:
  assumes "life_inv clock st" "bs_grants st gid = Some h" "ar_data r = redacted_for_record (JObject es) secrets"
    and "says es ''grant_id'' (JString gid)" "says es ''request_id'' (JString (sg_request_id h))"
    and "says es ''mutation_invoked'' (JBool b)" "terminal_row r" "b \<or> gid \<notin> set (bs_calls st) \<and> sg_status h \<noteq> Approved"
  shows "row_fits clock st r"
proof -
  have "i \<notin> set (bs_calls st) \<and> sg_status g \<noteq> Approved" if g: "bs_grants st i = Some g" and ref: "refused_before i (sg_request_id g) r" for i g
  proof -
    have ids: "plain i" "plain (sg_request_id g)" using assms(1) g by (auto simp: life_inv_defs)
    have "\<not> b" using ref recorded_flag[of es secrets False b] assms(3,6) by (auto simp: refused_before_def row_invoked_def)
    moreover have "i = gid \<or> sg_request_id g = sg_request_id h"
      using ref recorded_text[of es secrets] ids assms(3,4,5) by (fastforce simp: refused_before_def speaks_of_def)
    then have "i = gid" using assms(1,2) g unfolding life_inv_def ids_ok_def by blast
    ultimately show ?thesis using assms(2,8) g by simp
  qed
  moreover have "ar_type r \<noteq> ''budget_release''" using assms(7) by (auto simp: terminal_row_def)
  ultimately show ?thesis unfolding row_fits_def releases_def by blast
qed

definition grant_settled :: "int \<Rightarrow> string \<Rightarrow> broker_store \<Rightarrow> bool" where
  "grant_settled clock gid st \<longleftrightarrow> life_inv clock st \<and> gid \<notin> set (bs_calls st) \<and> \<not> spendable clock (bs_grants st) gid"

lemma fits_release:
  assumes "grant_settled clock gid st" "ar_type r = ''budget_release''" "ar_data r = redacted_for_record (JObject es) secrets"
    and "says es ''grant_id'' (JString gid)"
  shows "row_fits clock st r"
proof -
  have "i \<notin> set (bs_calls st) \<and> \<not> spendable clock (bs_grants st) i" if "releases i r" for i
  proof (cases "plain i")
    case True
    then have "i = gid" using that assms(3,4) recorded_text[of es secrets "''grant_id''" i gid] by (simp add: releases_def)
    then show ?thesis using assms(1) by (simp add: grant_settled_def)
  next
    case False
    then show ?thesis using assms(1) by (auto simp: grant_settled_def life_inv_defs spendable_def)
  qed
  moreover have "\<not> terminal_row r" using assms(2) by (simp add: terminal_row_def)
  ultimately show ?thesis by (simp add: row_fits_def refused_before_def)
qed

lemma spec_release: "spec (grant_settled clock gid) (release_budget env gid cause) (\<lambda>_. life_inv clock) (life_inv clock)"
proof -
  have rel: "spec (grant_settled clock gid) (record_row env None ''budget_release'' (release_data m a gid cause) secrets)
      (\<lambda>_. life_inv clock) (life_inv clock)" for m a secrets
  proof (rule spec_record)
    fix st fs and r :: audit_row assume "grant_settled clock gid st" and r: "ar_type r = ''budget_release''"
      "ar_data r = redacted_for_record (release_data m a gid cause) secrets"
    then have s: "grant_settled clock gid (st\<lparr>bs_faults := fs\<rparr>)" by (simp add: grant_settled_def)
    then have "row_fits clock (st\<lparr>bs_faults := fs\<rparr>) r"
      by (rule fits_release) (use r in \<open>auto simp: release_data_def says_def\<close>)
    with s have "life_inv clock (st\<lparr>bs_faults := fs\<rparr>\<lparr>bs_log := bs_log (st\<lparr>bs_faults := fs\<rparr>) @ [r]\<rparr>)"
      by (intro inv_row) (simp_all add: grant_settled_def)
    then show "life_inv clock (st\<lparr>bs_faults := fs, bs_log := bs_log st @ [r]\<rparr>)" by simp
  qed (simp add: grant_settled_def)
  have "spec (grant_settled clock gid) (then_do (all_secrets env) (\<lambda>secrets. record_row env None ''budget_release''
      (release_data m a gid cause) secrets)) (\<lambda>_. life_inv clock) (life_inv clock)" for m a
    by (rule spec_then[OF spec_secrets rel]) (auto simp: grant_settled_def)
  then show ?thesis
    unfolding spec_def[of _ "release_budget env gid cause"] release_budget_def
    by (auto simp: grant_settled_def spec_def split: sum.splits option.splits)
qed

section \<open>Expiry and reconciliation\<close>

definition at_rest :: "int \<Rightarrow> string \<Rightarrow> stored_grant \<Rightarrow> broker_store \<Rightarrow> bool" where
  "at_rest clock gid g st \<longleftrightarrow> life_inv clock st \<and> bs_grants st gid = Some g"

lemma steady_at_rest: "steady clock (at_rest clock gid g)"
  by (auto simp: steady_def at_rest_def intro: inv_row row_fits_other)

lemma steady_inv: "steady clock (life_inv clock)"
  by (auto simp: steady_def intro: inv_row row_fits_other)

lemma steady_settled: "steady clock (grant_settled clock gid)"
  by (auto simp: steady_def grant_settled_def intro: inv_row row_fits_other)

lemma inv_called: "life_inv clock st \<Longrightarrow> i \<in> set (bs_calls st) \<Longrightarrow> bs_grants st i = Some g \<Longrightarrow> claimed g"
  by (auto simp: life_inv_def calls_ok_def)

lemma unclaimed_not_called:
  "at_rest clock gid g st \<Longrightarrow> sg_status g = Requested \<or> sg_status g = Approved \<Longrightarrow> gid \<notin> set (bs_calls st)"
  using inv_called[of clock st gid g] by (auto simp: at_rest_def claimed_def)

lemma spec_expire: "spec (at_rest clock gid g) (expire_grant env gid g) (\<lambda>_. life_inv clock) (life_inv clock)"
proof -
  let ?unclaimed = "sg_status g = Requested \<or> sg_status g = Approved"
  let ?R = "\<lambda>st. life_inv clock st \<and> (?unclaimed \<longrightarrow> grant_settled clock gid st)"
  have steady: "steady clock ?R" by (auto simp: steady_def grant_settled_def intro: inv_row row_fits_other)
  have upd: "spec (at_rest clock gid g) (update_grant gid any_status
      (\<lambda>row. row\<lparr>sg_status := Expired, sg_digest := redigest (ee_keys env) gid g ''expired''\<rparr>)) (\<lambda>_. ?R) (life_inv clock)"
  proof (rule spec_update)
    fix st fs assume a: "at_rest clock gid g st" and no: "\<And>g. bs_grants st gid = Some g \<Longrightarrow> sg_status g \<notin> set any_status"
    have "sg_status g \<in> set any_status" by (cases "sg_status g") (simp_all add: any_status_def)
    with a no show "?R (st\<lparr>bs_faults := fs\<rparr>)" by (auto simp: at_rest_def)
  next
    fix st h fs assume a: "at_rest clock gid g st" and h: "bs_grants st gid = Some h"
    then have h: "h = g" by (simp add: at_rest_def)
    let ?g = "h\<lparr>sg_status := Expired, sg_digest := redigest (ee_keys env) gid g ''expired''\<rparr>"
    have "life_inv clock (st\<lparr>bs_faults := fs\<rparr>\<lparr>bs_grants := (bs_grants (st\<lparr>bs_faults := fs\<rparr>))(gid \<mapsto> ?g)\<rparr>)"
      by (rule inv_update) (use a inv_called[of clock st gid g] h in \<open>auto simp: at_rest_def claimed_def\<close>)
    then show "?R (st\<lparr>bs_faults := fs, bs_grants := (bs_grants st)(gid \<mapsto> ?g)\<rparr>)"
      using unclaimed_not_called[OF a] by (auto simp: grant_settled_def spendable_def)
  qed (simp add: at_rest_def)
  show ?thesis
    unfolding expire_grant_def
  proof (rule spec_then[OF upd], rule spec_then[OF spec_secrets], rule_tac [3] spec_then[OF spec_record_other[OF steady]])
    show "spec ?R (if ?unclaimed then release_budget env gid ExpiredUnclaimed else give ()) (\<lambda>_. life_inv clock) (life_inv clock)"
      by (rule spec_if; rule spec_pre[OF spec_release] spec_give) auto
  qed auto
qed

lemma found_member: "find P xs = Some x \<Longrightarrow> P x \<and> x \<in> set xs"
  by (induction xs) (auto split: if_splits)

text \<open>What reconciliation reads from the log is there.\<close>

lemma evidence_found:
  assumes "verified_in_process_terminal_execution env gid g st = (st', Inr (Some pre))"
  shows "st' = st" "\<exists>r \<in> set (bs_log st). terminal_row r \<and> speaks_of gid (sg_request_id g) r"
    "pre \<Longrightarrow> list_ex (refused_before gid (sg_request_id g)) (bs_log st)"
proof -
  from assms obtain money where m: "read_money env g st = (st, Inr money)"
    by (auto simp: verified_in_process_terminal_execution_def then_do_def read_money_def lift_result_def split: prod.splits sum.splits)
  have "st' = st \<and> (\<exists>r \<in> set (bs_log st). terminal_row r \<and> speaks_of gid (sg_request_id g) r \<and> (pre \<longrightarrow> row_invoked r = Some False))"
  proof (cases "effect_id money = None")
    case True
    with assms m have res: "st' = st" and "\<exists>terminal. find terminal_row (rev (filter (\<lambda>r. (ar_type r = ''capability_effect_starting'' \<or> terminal_row r) \<and>
        speaks_of gid (sg_request_id g) r) (bs_log st))) = Some terminal \<and> row_invoked terminal = Some (\<not> pre)"
      by (auto simp: verified_in_process_terminal_execution_def then_do_def grant_events_def res_bind_eq_Ok ok_or_eq_Ok
          split: option.splits if_splits)
    then show ?thesis by (auto dest!: found_member)
  next
    case False
    with assms m obtain o1 where o1: "st' = st" "pre = (o1 = PreEffect)"
      "verified_money_terminal_effect_outcome env (bs_grants st) (bs_log st) gid g money = Ok (Some o1)"
      by (auto simp: verified_in_process_terminal_execution_def then_do_def map_sum_def split: option.splits sum.splits)
    from terminal_outcome(2)[OF o1(3)] obtain r where "r \<in> set (bs_log st)" "terminal_row r"
      "jstr (ar_data r) ''grant_id'' = Some gid" "row_invoked r = Some (o1 \<noteq> PreEffect)" by blast
    then show ?thesis using o1(1,2) by (auto simp: speaks_of_def)
  qed
  then show "st' = st" "\<exists>r \<in> set (bs_log st). terminal_row r \<and> speaks_of gid (sg_request_id g) r"
    "pre \<Longrightarrow> list_ex (refused_before gid (sg_request_id g)) (bs_log st)"
    by (auto simp: list_ex_iff refused_before_def)
qed

lemma spec_evidence:
  "spec (at_rest clock gid g) (verified_in_process_terminal_execution env gid g)
     (\<lambda>found st. at_rest clock gid g st \<and> (\<forall>pre. found = Some pre \<longrightarrow>
        list_ex (terminal_for gid (sg_request_id g)) (bs_log st) \<and>
        (pre \<longrightarrow> list_ex (refused_before gid (sg_request_id g)) (bs_log st))))
     (life_inv clock)"
proof -
  have same: "fst (verified_in_process_terminal_execution env gid g st) = st" for st
    by (auto simp: verified_in_process_terminal_execution_def then_do_def read_money_def lift_result_def split: prod.splits sum.splits)
  show ?thesis
    unfolding spec_def
  proof (intro allI impI)
    fix st assume a: "at_rest clock gid g st"
    obtain st' r where run: "verified_in_process_terminal_execution env gid g st = (st', r)" by fastforce
    with same[of st] have st: "st' = st" by simp
    show "case verified_in_process_terminal_execution env gid g st of (st', Inl _) \<Rightarrow> life_inv clock st'
      | (st', Inr found) \<Rightarrow> at_rest clock gid g st' \<and> (\<forall>pre. found = Some pre \<longrightarrow>
          list_ex (terminal_for gid (sg_request_id g)) (bs_log st') \<and>
          (pre \<longrightarrow> list_ex (refused_before gid (sg_request_id g)) (bs_log st')))"
    proof (cases r)
      case (Inr found)
      have "list_ex (terminal_for gid (sg_request_id g)) (bs_log st)"
        "pre \<longrightarrow> list_ex (refused_before gid (sg_request_id g)) (bs_log st)" if "found = Some pre" for pre
        using evidence_found[of env gid g st st' pre] run Inr that unfolding list_ex_iff terminal_for_def by blast+
      then show ?thesis using run Inr st a by simp
    qed (use run st a in \<open>simp add: at_rest_def\<close>)
  qed
qed

lemma refused_settled:
  "life_inv clock st \<Longrightarrow> bs_grants st gid = Some g \<Longrightarrow> list_ex (refused_before gid (sg_request_id g)) (bs_log st) \<Longrightarrow> grant_settled clock gid st"
  by (auto simp: grant_settled_def spendable_def life_inv_def refusals_ok_def)

lemma spec_reconcile:
  "spec (at_rest clock gid g) (reconcile_terminal_execution env gid g)
     (\<lambda>found st. life_inv clock st \<and> (found = None \<longrightarrow> at_rest clock gid g st)) (life_inv clock)"
proof -
  let ?found = "\<lambda>pre st. at_rest clock gid g st \<and> list_ex (terminal_for gid (sg_request_id g)) (bs_log st) \<and>
    (pre \<longrightarrow> list_ex (refused_before gid (sg_request_id g)) (bs_log st))"
  let ?after = "\<lambda>pre st. life_inv clock st \<and> (pre \<longrightarrow> grant_settled clock gid st)"
  have flip: "spec (?found pre) (if sg_status g = Executing then update_grant gid [Executing] (\<lambda>row. row\<lparr>sg_status := Executed,
      sg_digest := redigest (ee_keys env) gid g ''executed''\<rparr>) else give True) (\<lambda>_. ?after pre) (life_inv clock)" for pre
  proof (rule spec_if)
    show "spec (?found pre) (update_grant gid [Executing] (\<lambda>row. row\<lparr>sg_status := Executed,
        sg_digest := redigest (ee_keys env) gid g ''executed''\<rparr>)) (\<lambda>_. ?after pre) (life_inv clock)"
    proof (rule spec_update)
      fix st h fs assume f: "?found pre st" and h: "bs_grants st gid = Some h"
      then have h: "h = g" by (simp add: at_rest_def)
      let ?g = "h\<lparr>sg_status := Executed, sg_digest := redigest (ee_keys env) gid g ''executed''\<rparr>"
      have "life_inv clock (st\<lparr>bs_faults := fs\<rparr>\<lparr>bs_grants := (bs_grants (st\<lparr>bs_faults := fs\<rparr>))(gid \<mapsto> ?g)\<rparr>)"
        by (rule inv_update) (use f inv_called[of clock st gid g] h in \<open>auto simp: at_rest_def claimed_def\<close>)
      then have inv: "life_inv clock (st\<lparr>bs_faults := fs, bs_grants := (bs_grants st)(gid \<mapsto> ?g)\<rparr>)" by simp
      moreover have "gid \<notin> set (bs_calls st)" if pre
        using f that refused_settled[of clock st gid g] by (simp add: at_rest_def grant_settled_def)
      ultimately show "?after pre (st\<lparr>bs_faults := fs, bs_grants := (bs_grants st)(gid \<mapsto> ?g)\<rparr>)"
        by (simp add: grant_settled_def spendable_def)
    qed (use refused_settled in \<open>auto simp: at_rest_def\<close>)
    show "spec (?found pre) (give True) (\<lambda>_. ?after pre) (life_inv clock)"
      by (rule spec_give) (use refused_settled in \<open>auto simp: at_rest_def\<close>)
  qed
  have rel: "spec (?after pre) (if pre then release_budget env gid PreInvocationTerminalFailure else give ())
      (\<lambda>_. life_inv clock) (life_inv clock)" for pre
    by (rule spec_if; rule spec_pre[OF spec_release] spec_give) auto
  show ?thesis
    unfolding reconcile_terminal_execution_def
  proof (rule spec_then[OF spec_evidence])
    fix found
    let ?P = "\<lambda>st. at_rest clock gid g st \<and> (\<forall>pre. found = Some pre \<longrightarrow> list_ex (terminal_for gid (sg_request_id g)) (bs_log st) \<and>
        (pre \<longrightarrow> list_ex (refused_before gid (sg_request_id g)) (bs_log st)))"
    show "spec ?P (case found of None \<Rightarrow> give None | Some pre \<Rightarrow>
        then_do (if sg_status g = Executing then update_grant gid [Executing] (\<lambda>row. row\<lparr>sg_status := Executed,
                   sg_digest := redigest (ee_keys env) gid g ''executed''\<rparr>) else give True) (\<lambda>_.
        then_do (if pre then release_budget env gid PreInvocationTerminalFailure else give ()) (\<lambda>_. give (Some pre))))
      (\<lambda>found st. life_inv clock st \<and> (found = None \<longrightarrow> at_rest clock gid g st)) (life_inv clock)"
    proof (cases found)
      case (Some pre)
      have "spec (?found pre) (then_do (if sg_status g = Executing then update_grant gid [Executing] (\<lambda>row. row\<lparr>sg_status := Executed,
          sg_digest := redigest (ee_keys env) gid g ''executed''\<rparr>) else give True) (\<lambda>_.
        then_do (if pre then release_budget env gid PreInvocationTerminalFailure else give ()) (\<lambda>_. give (Some pre))))
        (\<lambda>found st. life_inv clock st \<and> (found = None \<longrightarrow> at_rest clock gid g st)) (life_inv clock)"
        by (rule spec_then[OF flip], rule spec_then[OF rel], rule spec_give) simp
      then show ?thesis unfolding Some option.case by (rule spec_pre) simp
    qed (auto intro: spec_give simp: at_rest_def)
  qed
qed

lemma spec_abandoned_read: "spec (at_rest clock gid g) (lease_abandoned_known env gid g) (\<lambda>_. at_rest clock gid g) (life_inv clock)"
  by (auto simp: spec_def lease_abandoned_known_def at_rest_def split: sum.splits)

lemma spec_abandon: "spec (at_rest clock gid g) (terminalize_abandoned_lease env gid g) (\<lambda>_. life_inv clock) (life_inv clock)"
proof -
  have "spec (at_rest clock gid g) (if known then give () else then_do (all_secrets env) (\<lambda>secrets.
      record_row env (session_if_any g) ''lease_abandoned'' (abandoned_data gid g) secrets)) (\<lambda>_. at_rest clock gid g) (life_inv clock)" for known
    by (intro spec_if spec_give spec_then[OF steady_secrets] spec_record_other steady_at_rest) auto
  then show ?thesis
    unfolding terminalize_abandoned_lease_def by (rule spec_then[OF spec_abandoned_read spec_then[OF _ spec_expire]])
qed

lemma spec_at_rest: "(\<And>g. spec (at_rest clock gid g) (f g) Q (life_inv clock)) \<Longrightarrow> spec (life_inv clock) (then_do (load_grant gid) f) Q (life_inv clock)"
  by (rule spec_then[where R = "at_rest clock gid", OF spec_load]) (auto simp: at_rest_def)

lemma spec_integrity: "spec (at_rest clock gid g) (integrity env gid g) (\<lambda>_. at_rest clock gid g) (life_inv clock)"
  unfolding integrity_def by (rule spec_lift) (auto simp: at_rest_def)

section \<open>Sweeps\<close>

lemma try_each_inv:
  assumes "\<And>i. i \<in> set gids \<Longrightarrow> spec (life_inv clock) (h i) (\<lambda>_. life_inv clock) (life_inv clock)" "life_inv clock st"
  shows "life_inv clock (fst (try_each h gids st))"
proof -
  have "life_inv clock (fst (fold (\<lambda>gid (st, n). case h gid st of (st', Inl _) \<Rightarrow> (st', n)
      | (st', Inr done1) \<Rightarrow> (st', if done1 then Suc n else n)) gids (st, n)))" for n
    using assms
  proof (induction gids arbitrary: st n)
    case (Cons i gids)
    obtain st' r where run: "h i st = (st', r)" by fastforce
    have "life_inv clock st'" using spec_final[of "life_inv clock" "h i" "life_inv clock" st] Cons.prems run by simp
    with Cons.IH[of st'] Cons.prems(1) show ?case by (cases r) (simp_all add: run)
  qed simp
  then show ?thesis by (simp add: try_each_def)
qed

lemma spec_sweep_lease: "spec (life_inv clock) (sweep_lease env gid) (\<lambda>_. life_inv clock) (life_inv clock)"
  unfolding sweep_lease_def
proof (rule spec_at_rest, rule spec_then[OF spec_integrity], rule spec_then[OF spec_reconcile])
  fix g found
  show "spec (\<lambda>st. life_inv clock st \<and> (found = None \<longrightarrow> at_rest clock gid g st))
      (case found of None \<Rightarrow> then_do (terminalize_abandoned_lease env gid g) (\<lambda>_. give True) | Some _ \<Rightarrow> give True)
      (\<lambda>_. life_inv clock) (life_inv clock)"
  proof (cases found)
    case None
    have "spec (at_rest clock gid g) (then_do (terminalize_abandoned_lease env gid g) (\<lambda>_. give True)) (\<lambda>_. life_inv clock) (life_inv clock)"
      by (rule spec_then[OF spec_abandon spec_give]) simp
    then show ?thesis unfolding None option.case by (rule spec_pre) simp
  qed (auto intro: spec_give)
qed

lemma sweeps_keep:
  assumes "life_inv clock st"
  shows "life_inv clock (fst (sweep_overdue_leases env now st))"
    "life_inv clock (reconcile_terminal_executions_on_boot env st)"
    "life_inv clock (sweep_expired_requested_grants env now st)"
proof -
  have rec: "spec (life_inv clock) (then_do (load_grant gid) (\<lambda>g. then_do (integrity env gid g) (\<lambda>_.
      then_do (reconcile_terminal_execution env gid g) (\<lambda>_. give True)))) (\<lambda>_. life_inv clock) (life_inv clock)" for gid
    by (rule spec_at_rest, rule spec_then[OF spec_integrity], rule spec_then[OF spec_reconcile], rule spec_give) simp
  have exp: "spec (life_inv clock) (then_do (load_grant gid) (\<lambda>g. then_do (integrity env gid g) (\<lambda>_.
      then_do (expire_grant env gid g) (\<lambda>_. give True)))) (\<lambda>_. life_inv clock) (life_inv clock)" for gid
    by (rule spec_at_rest, rule spec_then[OF spec_integrity], rule spec_then[OF spec_expire], rule spec_give) simp
  show "life_inv clock (fst (sweep_overdue_leases env now st))"
    unfolding sweep_overdue_leases_def by (rule try_each_inv[OF spec_sweep_lease assms])
  show "life_inv clock (reconcile_terminal_executions_on_boot env st)"
    unfolding reconcile_terminal_executions_on_boot_def by (rule try_each_inv[OF rec assms])
  show "life_inv clock (sweep_expired_requested_grants env now st)"
    unfolding sweep_expired_requested_grants_def by (rule try_each_inv[OF exp assms])
qed

lemma spec_cutover_flip:
  "spec (at_rest clock gid g) (update_grant gid [Requested, Approved] (\<lambda>row. row\<lparr>sg_status := Expired,
     sg_digest := redigest (ee_keys env) gid g ''expired''\<rparr>)) (\<lambda>changed st. life_inv clock st \<and> (changed \<longrightarrow> grant_settled clock gid st))
     (life_inv clock)"
proof (rule spec_update)
  fix st h fs assume a: "at_rest clock gid g st" and h: "bs_grants st gid = Some h" "sg_status h \<in> set [Requested, Approved]"
  then have h: "h = g" "sg_status g = Requested \<or> sg_status g = Approved" by (auto simp: at_rest_def)
  let ?g = "h\<lparr>sg_status := Expired, sg_digest := redigest (ee_keys env) gid g ''expired''\<rparr>"
  note nc = unclaimed_not_called[OF a h(2)]
  have "life_inv clock (st\<lparr>bs_faults := fs\<rparr>\<lparr>bs_grants := (bs_grants (st\<lparr>bs_faults := fs\<rparr>))(gid \<mapsto> ?g)\<rparr>)"
    by (rule inv_update) (use a nc h in \<open>auto simp: at_rest_def\<close>)
  then show "life_inv clock (st\<lparr>bs_faults := fs, bs_grants := (bs_grants st)(gid \<mapsto> ?g)\<rparr>) \<and>
      (True \<longrightarrow> grant_settled clock gid (st\<lparr>bs_faults := fs, bs_grants := (bs_grants st)(gid \<mapsto> ?g)\<rparr>))"
    using nc by (simp add: grant_settled_def spendable_def)
qed (simp_all add: at_rest_def)

lemma spec_cutover_loop: "spec (life_inv clock) (cutover_loop env prior secrets gids n) (\<lambda>_. life_inv clock) (life_inv clock)"
proof (induction gids arbitrary: n)
  case (Cons gid gids)
  have rec: "spec (at_rest clock gid g) (if list_ex (\<lambda>r. jstr (ar_data r) ''grant_id'' = Some gid) prior then give ()
      else record_row env (session_if_any g) ''authority_cutover_terminalized'' (cutover_data gid g) secrets)
      (\<lambda>_. at_rest clock gid g) (life_inv clock)" for g
    by (intro spec_if spec_give spec_record_other steady_at_rest) auto
  have rel: "spec (\<lambda>st. life_inv clock st \<and> (changed \<longrightarrow> grant_settled clock gid st))
      (if changed then release_budget env gid AuthorityCutoverUnclaimed else give ()) (\<lambda>_. life_inv clock) (life_inv clock)" for changed
    by (rule spec_if; rule spec_pre[OF spec_release] spec_give) auto
  show ?case
    unfolding cutover_loop.simps
    by (rule spec_at_rest, rule spec_then[OF spec_integrity], rule spec_then[OF rec], rule spec_then[OF spec_cutover_flip],
        rule spec_then[OF rel], rule Cons.IH)
qed (auto intro: spec_give)

lemma cutover_keeps: "life_inv clock st \<Longrightarrow> life_inv clock (fst (terminalize_pre_sentence_grants_on_boot env st))"
  unfolding terminalize_pre_sentence_grants_on_boot_def
  by (rule spec_final[OF spec_then[OF steady_secrets[OF steady_inv] spec_cutover_loop]])

text \<open>The sweep of debits frees a debit only when the grant was not handed to the provider and can no longer be.\<close>

lemma releasable_settled:
  assumes "life_inv clock st" "clock \<le> now"
    and "budget_grant_releasable (ee_like env) (bs_log st) gid (grant_read env st gid) expires now = Ok True"
  shows "grant_settled now gid st"
proof (cases "bs_grants st gid")
  case None
  then show ?thesis using assms(1,2) inv_clock by (auto simp: grant_settled_def spendable_def life_inv_def calls_ok_def)
next
  case (Some g)
  have inv: "life_inv now st" using inv_clock assms(1,2) by blast
  from assms(3) Some have rel: "if sg_status g = Requested \<or> sg_status g = Approved \<or>
        sg_status g = Expired \<and> sg_lease_opened_at g = None \<and> sg_lease_deadline g = None
      then sg_expiry g = Some expires \<and> now > expires else grant_terminated_before_invocation (ee_like env) (bs_log st) gid"
    by (cases "sg_status g")
      (auto simp: budget_grant_releasable_def grant_read_def res_bind_eq_Ok grant_row_of_def Let_def split: sum.splits if_splits)
  show ?thesis
  proof (cases "grant_terminated_before_invocation (ee_like env) (bs_log st) gid")
    case True
    then have "list_ex (refused_before gid (sg_request_id g)) (bs_log st)"
      by (auto simp: grant_terminated_before_invocation_def list_ex_iff refused_before_def terminal_row_def row_invoked_def speaks_of_def)
    then show ?thesis using refused_settled[OF inv Some] by blast
  next
    case False
    then have "\<not> claimed g" "sg_expiry g = Some expires" "expires < now" using rel by (auto simp: claimed_def split: if_splits)
    then show ?thesis using inv inv_called[OF inv] Some by (auto simp: grant_settled_def spendable_def lapsed_def)
  qed
qed

lemma sweep_mints_keep: "life_inv clock st \<Longrightarrow> clock \<le> now \<Longrightarrow> life_inv now (fst (sweep_expired_mints env now st))"
proof -
  have "life_inv now (fst (fold (sweep_mint env now) ms (st, n)))" if "life_inv now st" for ms st n
    using that
  proof (induction ms arbitrary: st n)
    case (Cons m ms)
    obtain mint aggregate gid expires where m: "m = (mint, aggregate, gid, expires)" by (cases m)
    obtain st' r where run: "release_budget env gid ExpiredUnclaimed st = (st', r)" by fastforce
    have "life_inv now st'" if "grant_settled now gid st"
      using spec_final[OF spec_release that, of env ExpiredUnclaimed] run by simp
    then have "life_inv now (fst (sweep_mint env now m (st, n)))"
      using releasable_settled[OF Cons.prems order.refl, of env gid expires] Cons.prems
      by (cases r) (auto simp: sweep_mint_def m run)
    with Cons.IH[of "fst (sweep_mint env now m (st, n))" "snd (sweep_mint env now m (st, n))"] show ?case by simp
  qed simp
  then show "life_inv clock st \<Longrightarrow> clock \<le> now \<Longrightarrow> life_inv now (fst (sweep_expired_mints env now st))"
    using inv_clock by (simp add: sweep_expired_mints_def)
qed

section \<open>A run\<close>

text \<open>After the claim: before the effect, once it may have happened, and with its terminal row.\<close>

definition executing_row :: "string \<Rightarrow> stored_grant \<Rightarrow> broker_store \<Rightarrow> bool" where
  "executing_row gid g st \<longleftrightarrow> (\<exists>h. bs_grants st gid = Some h \<and> sg_status h = Executing \<and> claimed h \<and>
     sg_request_id h = sg_request_id g)"

definition armed :: "int \<Rightarrow> string \<Rightarrow> stored_grant \<Rightarrow> broker_store \<Rightarrow> bool" where
  "armed clock gid g st \<longleftrightarrow> life_inv clock st \<and> executing_row gid g st \<and> gid \<notin> set (bs_calls st) \<and>
     \<not> list_ex (refused_before gid (sg_request_id g)) (bs_log st) \<and> \<not> list_ex (releases gid) (bs_log st)"

definition running :: "int \<Rightarrow> string \<Rightarrow> stored_grant \<Rightarrow> bool \<Rightarrow> broker_store \<Rightarrow> bool" where
  "running clock gid g invoked st \<longleftrightarrow> life_inv clock st \<and> executing_row gid g st \<and> (invoked \<or> gid \<notin> set (bs_calls st))"

definition ended :: "int \<Rightarrow> string \<Rightarrow> stored_grant \<Rightarrow> bool \<Rightarrow> broker_store \<Rightarrow> bool" where
  "ended clock gid g invoked st \<longleftrightarrow> running clock gid g invoked st \<and> list_ex (terminal_for gid (sg_request_id g)) (bs_log st)"

lemma armed_running: "armed clock gid g st \<Longrightarrow> running clock gid g invoked st"
  by (simp add: armed_def running_def)

lemma steady_armed: "steady clock (armed clock gid g)"
  by (auto simp: steady_def armed_def executing_row_def refused_before_def releases_def intro: inv_row row_fits_other)

lemma steady_running: "steady clock (running clock gid g invoked)"
  by (auto simp: steady_def running_def executing_row_def intro: inv_row row_fits_other)

lemma spec_flip:
  "spec (ended clock gid g invoked) (flip_executed env gid g opened deadline)
     (\<lambda>_ st. life_inv clock st \<and> (invoked \<or> grant_settled clock gid st)) (life_inv clock)"
  unfolding flip_executed_def
proof (rule spec_update)
  fix st h fs assume e: "ended clock gid g invoked st" and h: "bs_grants st gid = Some h"
  let ?g = "h\<lparr>sg_status := Executed, sg_digest := redigest_leased (ee_keys env) gid g ''executed'' opened deadline\<rparr>"
  have "life_inv clock (st\<lparr>bs_faults := fs\<rparr>\<lparr>bs_grants := (bs_grants (st\<lparr>bs_faults := fs\<rparr>))(gid \<mapsto> ?g)\<rparr>)"
    by (rule inv_update) (use e h in \<open>auto simp: ended_def running_def executing_row_def claimed_def\<close>)
  then show "life_inv clock (st\<lparr>bs_faults := fs, bs_grants := (bs_grants st)(gid \<mapsto> ?g)\<rparr>) \<and>
      (invoked \<or> grant_settled clock gid (st\<lparr>bs_faults := fs, bs_grants := (bs_grants st)(gid \<mapsto> ?g)\<rparr>))"
    using e by (auto simp: grant_settled_def spendable_def ended_def running_def)
qed (auto simp: ended_def running_def executing_row_def)

lemma spec_terminal:
  assumes "ty = ''provider_action_succeeded'' \<or> ty = ''provider_action_failed''" "jstr (JObject es) ''grant_id'' = Some gid"
    and "says es ''grant_id'' (JString gid)" "says es ''request_id'' (JString (sg_request_id g))"
    and "says es ''mutation_invoked'' (JBool invoked)"
  shows "spec (running clock gid g invoked) (record_row env s ty (JObject es) secrets) (\<lambda>_. ended clock gid g invoked) (life_inv clock)"
proof (rule spec_record)
  fix st fs and r :: audit_row assume run: "running clock gid g invoked st"
    and r: "ar_type r = ty" "ar_data r = redacted_for_record (JObject es) secrets"
  let ?st = "st\<lparr>bs_faults := fs\<rparr>"
  from run obtain h where h: "bs_grants st gid = Some h" "sg_status h = Executing" "sg_request_id h = sg_request_id g"
    by (auto simp: running_def executing_row_def)
  have t: "terminal_row r" using r(1) assms(1) by (simp add: terminal_row_def)
  have fits: "row_fits clock ?st r"
    by (rule fits_terminal[where h = h and b = invoked]) (use run h r t assms(3,4,5) in \<open>auto simp: running_def\<close>)
  have "terminal_for gid (sg_request_id g) r" using t r(2) assms(2) unfolding terminal_for_def by blast
  with inv_row[OF _ fits] run show "ended clock gid g invoked (st\<lparr>bs_faults := fs, bs_log := bs_log st @ [r]\<rparr>)"
    by (simp add: ended_def running_def executing_row_def)
qed (simp add: running_def)

lemma spec_give_up: "spec (\<lambda>st. life_inv clock st \<and> (invoked \<or> grant_settled clock gid st))
    (if invoked then give () else release_budget env gid cause) (\<lambda>_. life_inv clock) (life_inv clock)"
  by (rule spec_if; rule spec_pre[OF spec_release] spec_give) auto

lemma spec_money: "(\<And>st. P st \<Longrightarrow> E st) \<Longrightarrow> spec P (read_money env g) (\<lambda>_. P) E"
  unfolding read_money_def by (rule spec_lift)

lemma spec_terminalize:
  "spec (running clock gid g False) (terminalize_pre_invocation_failure env gid g opened deadline secrets outcome session)
     (\<lambda>_. life_inv clock) (life_inv clock)"
proof -
  have row: "spec (running clock gid g False) (record_row env s ''provider_action_failed''
      (pre_invocation_data gid g money outcome session) secrets) (\<lambda>_. ended clock gid g False) (life_inv clock)" for money s
    unfolding pre_invocation_data_def by (rule spec_terminal) (auto simp: says_def jstr_def jget_def split: option.splits)
  show ?thesis
    unfolding terminalize_pre_invocation_failure_def
    by (rule spec_then[OF spec_money], simp add: running_def, rule spec_then[OF row], rule spec_then[OF spec_flip],
        rule spec_pre[OF spec_release]) simp
qed

lemma spec_end: "spec (armed clock gid g) (end_before_effect env x gid g secrets outcome e) Q (life_inv clock)"
  unfolding end_before_effect_def
  by (rule spec_then[OF spec_pre[OF spec_terminalize] spec_refuse]) (auto intro: armed_running)

lemma spec_after_claim: "spec (armed clock gid g) (check_after_claim env x gid g secrets) (\<lambda>_. armed clock gid g) (life_inv clock)"
  unfolding check_after_claim_def
  by (intro spec_if spec_end; cases "xa_authority_post x"; simp add: spec_end spec_give)

lemma spec_preconditions:
  "spec (armed clock gid g) (run_preconditions env x ev gid g money secrets) (\<lambda>_. armed clock gid g) (life_inv clock)"
  unfolding run_preconditions_def
  by (intro spec_if; cases "xa_preconditions x";
      auto intro!: spec_give spec_refuse spec_end spec_then[OF spec_record_other[OF steady_armed]] simp: armed_def[of clock gid g])

lemma spec_start: "spec (armed clock gid g) (record_effect_start env x call gid g money secrets) (\<lambda>_. armed clock gid g) (life_inv clock)"
  unfolding record_effect_start_def Let_def
  by (rule spec_then[OF spec_lift[where Q = "\<lambda>_. armed clock gid g"] spec_record_other[OF steady_armed]]) (auto simp: armed_def)

lemma spec_call: "spec (armed clock gid g) (call_provider x gid) (\<lambda>(invoked, _). running clock gid g invoked) (life_inv clock)"
proof -
  have "running clock gid g True (st\<lparr>bs_calls := bs_calls st @ [gid]\<rparr>)" if "armed clock gid g st" for st
    using that inv_call[of clock st gid] by (auto simp: armed_def running_def executing_row_def)
  then show ?thesis by (simp add: spec_def call_provider_def)
qed

lemma spec_invoke: "spec (armed clock gid g) (invoke env x call gid g) (\<lambda>(invoked, _). running clock gid g invoked) (life_inv clock)"
  unfolding invoke_def egress_def by (intro spec_if spec_call spec_give) (auto intro: armed_running)

lemma spec_finish_error: "spec (running clock gid g invoked) (finish_error env x gid g money secrets invoked e c) Q (life_inv clock)"
proof -
  have row: "spec (running clock gid g invoked) (record_row env s ''provider_action_failed''
      (error_data x gid g money invoked cls) secrets) (\<lambda>_. ended clock gid g invoked) (life_inv clock)" for cls s
    unfolding error_data_def
    by (rule spec_terminal) (auto simp: says_def jstr_def jget_def pid_field_def split: option.splits)
  show ?thesis
    unfolding finish_error_def Let_def
    by (rule spec_then[OF row], rule spec_then[OF spec_flip], rule spec_then[OF spec_give_up], rule spec_refuse)
qed

lemma spec_retain: "spec (running clock gid g invoked) (retain_artifact env x h r) (\<lambda>_. running clock gid g invoked) (life_inv clock)"
proof -
  let ?P = "running clock gid g invoked"
  have "spec ?P (store_artifact_capped env x h) (\<lambda>_. ?P) ?P"
    unfolding store_artifact_capped_def split_def
    by (rule spec_then[OF spec_lift[where Q = "\<lambda>_. ?P"]], simp, simp,
        rule spec_then[OF spec_secrets[where Q = "\<lambda>_. ?P"]], simp, simp,
        rule spec_then[OF spec_record_steady[OF steady_running]], simp,
        rule spec_then[OF spec_write[where Q = "\<lambda>_. ?P"]])
      (auto intro: spec_give steadyD(2)[OF steady_running])
  then show ?thesis
    unfolding spec_def retain_artifact_def by (auto split: option.splits prod.splits sum.splits)
qed

lemma effect_fields_keys: "effect_fields money r = Ok es \<Longrightarrow> set (map fst es) \<subseteq> {''effect_id'', ''effect_proof'', ''effect_outcome''}"
  by (auto simp: effect_fields_def split: option.splits)

lemma says_append: "says (xs @ ys) k v \<longleftrightarrow> says xs k v \<and> says ys k v"
  by (simp add: says_def)

lemma says_Cons: "says ((k', v') # es) k v \<longleftrightarrow> (k' = k \<longrightarrow> v' = v) \<and> says es k v" "says [] k v"
  by (simp_all add: says_def)

lemma says_absent: "k \<notin> set (map fst es) \<Longrightarrow> says es k v"
  by (force simp: says_def list_all_iff)

lemma spec_finish_reply: "spec (running clock gid g invoked) (finish_reply env x gid g money secrets invoked r) (\<lambda>_. life_inv clock) (life_inv clock)"
proof -
  have row: "spec (running clock gid g invoked) (record_row env s (if pr_ok r then ''provider_action_succeeded'' else ''provider_action_failed'')
      (reply_data x gid g invoked r result effect artifact wire envelope) secrets) (\<lambda>_. ended clock gid g invoked) (life_inv clock)"
    if eff: "effect_fields money r = Ok effect" for s result effect artifact wire envelope
  proof -
    have e: "says effect k v" if "k \<in> {''grant_id'', ''request_id'', ''mutation_invoked''}" for k v
      using effect_fields_keys[OF eff] that by (intro says_absent) auto
    have seg: "says (if b then [] else [(''failure_class'', c)]) k v"
      "says (case artifact of None \<Rightarrow> [] | Some a \<Rightarrow> [(''artifact'', JString (af_handle a)), (''digest'', JString (af_digest a))]) k v"
      "says (case wire of None \<Rightarrow> []
        | Some (sent, kept) \<Rightarrow> [(''wire_stats'', JObject [(''total_bytes'', JInt (int sent)), (''kept_bytes'', JInt (int kept))])]) k v"
      "says (if b then [(''retention_error'', c)] else []) k v" "says (pid_field x) k v" "says [(''envelope'', envelope)] k v"
      if "k \<in> {''grant_id'', ''request_id'', ''mutation_invoked''}" for k v b c
      using that by (auto simp: pid_field_def says_Cons split: option.splits)
    show ?thesis
      unfolding reply_data_def
      by (rule spec_terminal; (simp only: says_append)?) (simp_all add: e seg says_Cons jstr_def jget_def)
  qed
  have rest: "spec (\<lambda>st. running clock gid g invoked st \<and> effect_fields money r = Ok effect)
      (then_do (record_row env s (if pr_ok r then ''provider_action_succeeded'' else ''provider_action_failed'')
        (reply_data x gid g invoked r result effect artifact wire envelope) secrets) (\<lambda>_.
       then_do (flip_executed env gid g opened deadline) (\<lambda>_. give res))) (\<lambda>_. life_inv clock) (life_inv clock)"
    for s result effect artifact wire envelope opened deadline res
    by (rule spec_assume, rule spec_then[OF row], assumption, rule spec_then[OF spec_flip], rule spec_give) simp
  show ?thesis
    unfolding finish_reply_def Let_def
    by (rule spec_then[OF spec_retain], rule spec_then[OF spec_lift], simp add: running_def, erule conjI, assumption, rule rest)
qed

lemma spec_run_claimed: "spec (armed clock gid g) (run_claimed env x gid g money call secrets) (\<lambda>_. life_inv clock) (life_inv clock)"
  unfolding run_claimed_def
proof (rule spec_then[OF spec_after_claim], rule spec_then[OF spec_preconditions], rule spec_then[OF spec_start],
    rule spec_then[OF spec_invoke])
  fix inv :: invocation
  obtain invoked outcome where i: "inv = (invoked, outcome)" by fastforce
  show "spec ((case inv of (invoked, _) \<Rightarrow> running clock gid g invoked))
      (case inv of (invoked, outcome) \<Rightarrow> (case outcome of
         Inl (e, c) \<Rightarrow> finish_error env x gid g money secrets invoked e c
       | Inr r \<Rightarrow> finish_reply env x gid g money secrets invoked r)) (\<lambda>_. life_inv clock) (life_inv clock)"
    unfolding i by (cases outcome) (auto intro: spec_finish_error spec_finish_reply)
qed

section \<open>Admission and claim\<close>

lemma spec_deadline: "spec (at_rest clock gid g) (check_deadline env gid g d now) (\<lambda>_. at_rest clock gid g) (life_inv clock)"
proof (cases d)
  case (Some e)
  then show ?thesis unfolding check_deadline_def
    by (auto intro!: spec_then[OF spec_expire spec_refuse] spec_give)
qed (simp add: check_deadline_def spec_give)

lemma spec_recorded_check: "spec (at_rest clock gid g) (refuse_recorded env gid g reason e) Q (life_inv clock)"
  by (rule spec_refuse_recorded[OF steady_at_rest])

lemma at_rest_inv: "at_rest clock gid g st \<Longrightarrow> life_inv clock st"
  by (simp add: at_rest_def)

lemmas spec_check = spec_recorded_check spec_give spec_refuse[OF at_rest_inv] spec_if

lemma spec_checks:
  "spec (at_rest clock gid g) (check_status gid g) (\<lambda>_. at_rest clock gid g) (life_inv clock)"
  "spec (at_rest clock gid g) (check_provenance env gid g) (\<lambda>_. at_rest clock gid g) (life_inv clock)"
  "spec (at_rest clock gid g) (check_authority_before env x gid g) (\<lambda>_. at_rest clock gid g) (life_inv clock)"
  "spec (at_rest clock gid g) (check_recipe env ev gid g) (\<lambda>_. at_rest clock gid g) (life_inv clock)"
  unfolding check_status_def check_provenance_def check_authority_before_def check_recipe_def Let_def
  by (auto intro!: spec_check split: option.split)

lemma spec_lift_rest: "spec (at_rest clock gid g) (lift_result f r) (\<lambda>_. at_rest clock gid g) (life_inv clock)"
  by (rule spec_lift) (auto simp: at_rest_def)

lemma spec_unless_rest: "spec (at_rest clock gid g) (unless b e) (\<lambda>_. at_rest clock gid g) (life_inv clock)"
  by (rule spec_unless) (auto simp: at_rest_def)

lemma spec_check_call: "spec (at_rest clock gid g) (check_call env x gid g money) (\<lambda>_. at_rest clock gid g) (life_inv clock)"
  unfolding check_call_def Let_def
proof (rule spec_then[OF spec_lift_rest], rule spec_then[OF spec_unless_rest], rule spec_then[OF spec_lift_rest],
    rule spec_then[OF spec_lift_rest], rule spec_then[OF spec_lift_rest], rule spec_then[OF spec_lift_rest])
  fix provider contract and resource :: canonical_resource
  show "spec (at_rest clock gid g) (case verify_grant_evidence env x g resource of
        Inl _ \<Rightarrow> refuse_recorded env gid g ''evidence_integrity'' EvidenceDenial
      | Inr evidence \<Rightarrow> give \<lparr>cc_provider = provider, cc_contract = contract, cc_resource = resource, cc_evidence = evidence\<rparr>)
    (\<lambda>_. at_rest clock gid g) (life_inv clock)"
    by (auto intro: spec_recorded_check spec_give split: sum.split)
qed

lemma spec_admit: "spec (life_inv clock) (admit_claim env x gid) (\<lambda>_. life_inv clock) (life_inv clock)"
proof -
  have dis: "spec (at_rest clock gid g) (if b then refuse_recorded env gid g reason e else give ()) (\<lambda>_. at_rest clock gid g) (life_inv clock)"
    for g b reason e by (intro spec_check)
  show ?thesis
    unfolding admit_claim_def
    by (rule spec_then[OF spec_unless[where Q = "\<lambda>_. life_inv clock"]], simp, simp,
        rule spec_then[OF spec_unless[where Q = "\<lambda>_. life_inv clock"]], simp, simp,
        rule spec_at_rest, rule spec_then[OF spec_integrity], rule spec_then[OF dis], rule spec_then[OF spec_lift_rest],
        rule spec_then[OF spec_money], simp add: at_rest_def, rule spec_then[OF spec_checks(1)], rule spec_then[OF spec_deadline],
        rule spec_then[OF spec_deadline], rule spec_then[OF spec_checks(2)], rule spec_then[OF spec_checks(3)],
        rule spec_then[OF spec_checks(4)], rule spec_then[OF spec_check_call], rule spec_give) (simp add: at_rest_def)
qed

text \<open>Admission writes nothing when it admits, and then every check has passed.\<close>

lemma then_do_Ok: "then_do m f st = (st', Inr b) \<longleftrightarrow> (\<exists>st1 a. m st = (st1, Inr a) \<and> f a st1 = (st', Inr b))"
  by (auto simp: then_do_def split: prod.splits sum.splits)

lemma handler_Ok:
  "give a st = (st', Inr b) \<longleftrightarrow> st' = st \<and> b = a" "refuse e st = (st', Inr b) \<longleftrightarrow> False"
  "unless c e st = (st', Inr u) \<longleftrightarrow> st' = st \<and> \<not> c" "lift_result f r st = (st', Inr b) \<longleftrightarrow> st' = st \<and> r = Ok b"
  "load_grant gid st = (st', Inr g) \<longleftrightarrow> st' = st \<and> bs_grants st gid = Some g"
  "refuse_recorded env gid g reason e st = (st', Inr v) \<longleftrightarrow> False"
  by (auto simp: give_def refuse_def unless_def lift_result_def load_grant_def refuse_recorded_def then_do_Ok ok_or_eq_Ok
      map_sum_def split: sum.splits)

definition authorised :: "exec_env \<Rightarrow> exec_answers \<Rightarrow> string \<Rightarrow> stored_grant \<Rightarrow> money_metadata \<Rightarrow> bool" where
  "authorised env x gid g money \<longleftrightarrow>
     \<not> xa_locked_claim x \<and> \<not> xa_barrier_refuses x \<and>
     assert_grant_integrity (ee_keys env) (ee_json env) (ee_money env) (ee_templates env) gid g = Ok () \<and>
     \<not> provider_is_product_disabled env (sg_provider g) (sg_action g) \<and>
     money_from_canonical_json (ee_json env) (ee_money env) (sg_money_json g) = Ok money \<and>
     sg_status g = Approved \<and>
     (case sg_expiry g of None \<Rightarrow> True | Some e \<Rightarrow> xa_now_expiry x \<le> e) \<and>
     (case retry_deadline_epoch money of None \<Rightarrow> True | Some e \<Rightarrow> xa_now_retry x \<le> e) \<and>
     sg_approved_by_kind g = Some ''sentence'' \<and>
     xa_authority_pre x = Some (sg_policy_fingerprint g) \<and>
     sg_template_hash g = map_option tf_content_hash (ee_templates env (sg_provider g) (sg_action g)) \<and>
     ee_descriptors env (sg_provider g) = Some (sg_descriptor_hash g)"

lemma checks_Ok:
  "integrity env gid g st = (st', Inr u) \<longleftrightarrow> st' = st \<and>
     assert_grant_integrity (ee_keys env) (ee_json env) (ee_money env) (ee_templates env) gid g = Ok ()"
  "read_money env g st = (st', Inr m) \<longleftrightarrow> st' = st \<and> money_from_canonical_json (ee_json env) (ee_money env) (sg_money_json g) = Ok m"
  "check_status gid g st = (st', Inr v) \<longleftrightarrow> st' = st \<and> sg_status g = Approved"
  "check_provenance env gid g st = (st', Inr w) \<longleftrightarrow> st' = st \<and> sg_approved_by_kind g = Some ''sentence''"
  "check_authority_before env x gid g st = (st', Inr y) \<longleftrightarrow> st' = st \<and> xa_authority_pre x = Some (sg_policy_fingerprint g)"
  by (auto simp: integrity_def read_money_def handler_Ok check_status_def status_refusal_def check_provenance_def
      check_authority_before_def split: option.splits if_splits grant_status.splits)

lemma check_deadline_Ok: "check_deadline env gid g d now st = (st', Inr u) \<longleftrightarrow> st' = st \<and> (case d of None \<Rightarrow> True | Some e \<Rightarrow> now \<le> e)"
  by (auto simp: check_deadline_def handler_Ok then_do_Ok split: option.splits)

lemma check_recipe_Ok: "check_recipe env ev gid g st = (st', Inr u) \<longleftrightarrow> st' = st \<and>
    sg_template_hash g = map_option tf_content_hash (ee_templates env (sg_provider g) (sg_action g)) \<and>
    ee_descriptors env (sg_provider g) = Some (sg_descriptor_hash g)"
  by (auto simp: check_recipe_def Let_def handler_Ok)

lemma check_call_Ok: "check_call env x gid g money st = (st', Inr call) \<Longrightarrow> st' = st \<and>
    verify_grant_evidence env x g (cc_resource call) = Ok (cc_evidence call)"
proof -
  have last: "(case e of Inl _ \<Rightarrow> refuse_recorded env gid g reason err | Inr v \<Rightarrow> give (f v)) st = (st', Inr c) \<longleftrightarrow>
      st' = st \<and> (\<exists>v. e = Ok v \<and> c = f v)" for e reason err f c st and st' :: broker_store
    by (cases e) (auto simp: handler_Ok)
  show "check_call env x gid g money st = (st', Inr call) \<Longrightarrow> st' = st \<and>
      verify_grant_evidence env x g (cc_resource call) = Ok (cc_evidence call)"
    unfolding check_call_def Let_def then_do_Ok handler_Ok last by auto
qed

lemma admit_Ok:
  assumes "admit_claim env x gid st = (st', Inr (g, money, call))"
  shows "st' = st" "bs_grants st gid = Some g" "authorised env x gid g money"
    "verify_grant_evidence env x g (cc_resource call) = Ok (cc_evidence call)"
proof -
  have dis: "(if b then refuse_recorded env gid g reason e else give ()) st = (st', Inr u) \<longleftrightarrow> st' = st \<and> \<not> b" for b g reason e st st' u
    by (simp add: handler_Ok)
  have "st' = st \<and> bs_grants st gid = Some g \<and> authorised env x gid g money \<and>
      verify_grant_evidence env x g (cc_resource call) = Ok (cc_evidence call)"
    using assms unfolding admit_claim_def then_do_Ok handler_Ok checks_Ok check_deadline_Ok check_recipe_Ok dis
    by (elim exE conjE) (simp add: authorised_def checks_Ok check_call_Ok handler_Ok)
  then show "st' = st" "bs_grants st gid = Some g" "authorised env x gid g money"
    "verify_grant_evidence env x g (cc_resource call) = Ok (cc_evidence call)" by blast+
qed

lemma spec_claim:
  assumes "sg_status g = Approved" "\<not> lapsed clock g"
  shows "spec (at_rest clock gid g) (claim_grant env x ev gid g) (\<lambda>_. armed clock gid g) (life_inv clock)"
proof -
  let ?upd = "\<lambda>row :: stored_grant. row\<lparr>sg_status := Executing,
      sg_digest := redigest_leased (ee_keys env) gid g ''executing'' (xa_now_lease x) (lease_deadline_of (xa_now_lease x)),
      sg_lease_opened_at := Some (xa_now_lease x), sg_lease_deadline := Some (lease_deadline_of (xa_now_lease x))\<rparr>"
  have upd: "spec (at_rest clock gid g) (update_grant gid [Approved] ?upd)
      (\<lambda>b st. life_inv clock st \<and> (b \<longrightarrow> armed clock gid g st)) (life_inv clock)"
  proof (rule spec_update)
    fix st h fs assume a: "at_rest clock gid g st" and h: "bs_grants st gid = Some h"
    then have h: "h = g" by (simp add: at_rest_def)
    have nc: "gid \<notin> set (bs_calls st)" using unclaimed_not_called[OF a] assms(1) by simp
    have "spendable clock (bs_grants st) gid" using a assms by (simp add: at_rest_def spendable_def)
    then have rows: "\<not> list_ex (refused_before gid (sg_request_id g)) (bs_log st)" "\<not> list_ex (releases gid) (bs_log st)"
      using a assms(1) by (auto simp: at_rest_def life_inv_def refusals_ok_def releases_ok_def)
    have "life_inv clock (st\<lparr>bs_faults := fs\<rparr>\<lparr>bs_grants := (bs_grants (st\<lparr>bs_faults := fs\<rparr>))(gid \<mapsto> ?upd h)\<rparr>)"
      by (rule inv_update) (use a nc h in \<open>auto simp: at_rest_def\<close>)
    then show "life_inv clock (st\<lparr>bs_faults := fs, bs_grants := (bs_grants st)(gid \<mapsto> ?upd h)\<rparr>) \<and>
        (True \<longrightarrow> armed clock gid g (st\<lparr>bs_faults := fs, bs_grants := (bs_grants st)(gid \<mapsto> ?upd h)\<rparr>))"
      using nc rows h by (simp add: armed_def executing_row_def claimed_def)
  qed (simp_all add: at_rest_def)
  have fin: "spec (\<lambda>st. life_inv clock st \<and> (b \<longrightarrow> armed clock gid g st)) (if b then give () else refuse (ExecuteRefused AlreadyUsed))
      (\<lambda>_. armed clock gid g) (life_inv clock)" for b
    by (auto intro: spec_give spec_refuse)
  show ?thesis
    unfolding claim_grant_def Let_def by (rule spec_if, rule spec_recorded_check, rule spec_then[OF upd fin])
qed

lemma claim_and_run_keeps:
  assumes "life_inv clock st" "clock \<le> xa_now_expiry x"
  shows "life_inv clock (fst (claim_and_run env x gid st))"
proof -
  obtain st1 r where adm: "admit_claim env x gid st = (st1, r)" by fastforce
  show ?thesis
  proof (cases r)
    case (Inl e)
    then show ?thesis using spec_final[OF spec_admit assms(1), of env x gid] adm
      by (simp add: claim_and_run_def then_do_def)
  next
    case (Inr t)
    obtain g money call where t: "t = (g, money, call)" by (cases t)
    note ok = admit_Ok[OF adm[unfolded Inr t]]
    have rest: "at_rest clock gid g st" using assms(1) ok(2) by (simp add: at_rest_def)
    have ap: "sg_status g = Approved" "\<not> lapsed clock g" using ok(3) assms(2) by (auto simp: authorised_def lapsed_def)
    have "spec (at_rest clock gid g) (then_do (all_secrets env) (\<lambda>vault. let secrets = run_secrets money vault in
        then_do (claim_grant env x (cc_evidence call) gid g) (\<lambda>_. run_claimed env x gid g money call secrets)))
        (\<lambda>_. life_inv clock) (life_inv clock)"
      unfolding Let_def by (rule spec_then[OF steady_secrets[OF steady_at_rest]], rule spec_then[OF spec_claim[OF ap] spec_run_claimed])
    from spec_final[OF this rest] show ?thesis using adm ok(1) by (simp add: claim_and_run_def then_do_def Inr t)
  qed
qed

end
