(* ===== verification/Request_Contracts.thy ===== *)
theory Request_Contracts
  imports Grant_Mint Grant_Contracts
begin

text \<open>
  Contracts of the request path. The locale \<open>request_frame\<close> is what the parts of a request rely on: a condition on
  the store that their writes keep, and what a denial guarantees. Its lemmas carry the condition from each way in to
  the decision; its interpretations at the end give the invariant of the broker and the records of a denial.
\<close>

section \<open>Contracts of parts that may answer\<close>

definition steps :: "(broker_store \<Rightarrow> bool) \<Rightarrow> 'a request_step handler \<Rightarrow> ('a \<Rightarrow> broker_store \<Rightarrow> bool)
    \<Rightarrow> (request_outcome \<Rightarrow> broker_store \<Rightarrow> bool) \<Rightarrow> (broker_store \<Rightarrow> bool) \<Rightarrow> bool" where
  "steps P h Q D E \<longleftrightarrow> spec P h (\<lambda>s st. case s of Answered o1 \<Rightarrow> D o1 st | Onward a \<Rightarrow> Q a st) E"

lemma steps_give: "(\<And>st. P st \<Longrightarrow> Q a st) \<Longrightarrow> steps P (give (Onward a)) Q D E"
  unfolding steps_def by (rule spec_give) simp

lemma steps_refuse: "(\<And>st. P st \<Longrightarrow> E st) \<Longrightarrow> steps P (refuse e) Q D E"
  unfolding steps_def by (rule spec_refuse)

lemma steps_answer: "spec P m D E \<Longrightarrow> steps P (answer m) Q D E"
  unfolding steps_def answer_def by (rule spec_then, assumption, rule spec_give) simp

lemma steps_then: "spec P m R E \<Longrightarrow> (\<And>a. steps (R a) (f a) Q D E) \<Longrightarrow> steps P (then_do m f) Q D E"
  unfolding steps_def by (rule spec_then)

lemma steps_onward:
  assumes "steps P m R D E" "\<And>a. steps (R a) (f a) Q D E"
  shows "steps P (onward m f) Q D E"
  unfolding steps_def onward_def
proof (rule spec_then[OF assms(1)[unfolded steps_def]])
  fix s show "spec (\<lambda>st. case s of Answered o1 \<Rightarrow> D o1 st | Onward a \<Rightarrow> R a st) (case s of Answered o1 \<Rightarrow> give (Answered o1) | Onward a \<Rightarrow> f a)
      (\<lambda>s st. case s of Answered o1 \<Rightarrow> D o1 st | Onward a \<Rightarrow> Q a st) E"
    using assms(2) by (cases s) (auto simp: steps_def intro: spec_give)
qed

lemma steps_if: "(b \<Longrightarrow> steps P h Q D E) \<Longrightarrow> (\<not> b \<Longrightarrow> steps P k Q D E) \<Longrightarrow> steps P (if b then h else k) Q D E"
  by simp

lemma steps_option: "(v = None \<Longrightarrow> steps P h Q D E) \<Longrightarrow> (\<And>a. v = Some a \<Longrightarrow> steps P (k a) Q D E) \<Longrightarrow>
    steps P (case v of None \<Rightarrow> h | Some a \<Rightarrow> k a) Q D E"
  by (cases v) simp_all

lemma steps_sum: "(\<And>e. v = Inl e \<Longrightarrow> steps P (h e) Q D E) \<Longrightarrow> (\<And>a. v = Inr a \<Longrightarrow> steps P (k a) Q D E) \<Longrightarrow>
    steps P (case v of Inl e \<Rightarrow> h e | Inr a \<Rightarrow> k a) Q D E"
  by (cases v) simp_all

lemma steps_source: "(\<And>rules fp. s = SentenceSource rules fp \<Longrightarrow> steps P (h rules fp) Q D E) \<Longrightarrow>
    (\<And>r fp given. s = SentenceRefusal r fp given \<Longrightarrow> steps P (k r fp given) Q D E) \<Longrightarrow>
    steps P (case s of SentenceSource rules fp \<Rightarrow> h rules fp | SentenceRefusal r fp given \<Rightarrow> k r fp given) Q D E"
  by (cases s) simp_all

lemma steps_assume: "(F \<Longrightarrow> steps P h Q D E) \<Longrightarrow> steps (\<lambda>st. P st \<and> F) h Q D E"
  unfolding steps_def by (rule spec_assume)

lemma steps_post: "steps P h Q' D E \<Longrightarrow> (\<And>a st. Q' a st \<Longrightarrow> Q a st) \<Longrightarrow> steps P h Q D E"
  unfolding steps_def by (erule spec_post) (auto split: request_step.splits)

lemma steps_pre: "steps P' h Q D E \<Longrightarrow> (\<And>st. P st \<Longrightarrow> P' st) \<Longrightarrow> steps P h Q D E"
  unfolding steps_def by (rule spec_pre)

lemma spec_conclude: "steps P m D D E \<Longrightarrow> spec P (conclude m) D E"
  unfolding steps_def conclude_def
proof (erule spec_then)
  fix s show "spec (\<lambda>st. case s of Answered o1 \<Rightarrow> D o1 st | Onward a \<Rightarrow> D a st) (case s of Answered o1 \<Rightarrow> give o1 | Onward o1 \<Rightarrow> give o1) D E"
    by (cases s) (auto intro: spec_give)
qed

section \<open>The parent of a retry is authentic\<close>

text \<open>
  What the lineage of a retry guarantees: the grant tried last and the grant that owns the reservation belong to the
  caller, the action and the effect that is named, and share one idempotency key; the owner is no retry itself.
\<close>

definition fitting_node :: "exec_env \<Rightarrow> retry_key \<Rightarrow> retry_node \<Rightarrow> bool" where
  "fitting_node env k node \<longleftrightarrow> retry_key_fits env k (rn_grant node) (rn_money node) \<and>
     assert_grant_integrity (ee_keys env) (ee_json env) (ee_money env) (ee_templates env) (rn_id node) (rn_grant node) = Ok () \<and>
     money_from_canonical_json (ee_json env) (ee_money env) (sg_money_json (rn_grant node)) = Ok (rn_money node)"

definition authentic :: "exec_env \<Rightarrow> retry_key \<Rightarrow> retry_parent \<Rightarrow> bool" where
  "authentic env k p \<longleftrightarrow> fitting_node env k \<lparr>rn_id = rp_grant_id p, rn_grant = rp_grant p, rn_money = rp_money p\<rparr> \<and>
     (\<exists>money. fitting_node env k \<lparr>rn_id = rp_owner_id p, rn_grant = rp_owner_grant p, rn_money = money\<rparr> \<and> \<not> is_retry money \<and>
        idempotency_key money = idempotency_key (rp_money p))"

definition undetermined :: "exec_env \<Rightarrow> string \<Rightarrow> broker_store \<Rightarrow> bool" where
  "undetermined env gid st \<longleftrightarrow>
     (\<exists>node. rn_id node = gid \<and> authenticated_retry_state env (bs_grants st) (bs_log st) node = Ok RetryAmbiguous)"

lemma node_loaded:
  "spec P (load_retry_node env k gid) (\<lambda>node st. P st \<and> bs_grants st gid = Some (rn_grant node) \<and> rn_id node = gid \<and> fitting_node env k node) P"
  by (auto simp: spec_def load_retry_node_def then_do_def load_grant_def integrity_def read_money_def lift_result_def refuse_def give_def
      ok_or_def fitting_node_def map_sum_def split: option.splits sum.splits if_splits)

lemma parent_loaded:
  "spec P (parent_of_retry env k node) (\<lambda>parent st. P st \<and> bs_grants st (rn_id parent) = Some (rn_grant parent) \<and> fitting_node env k parent \<and>
     idempotency_key (rn_money parent) = idempotency_key (rn_money node)) P"
proof (cases "parent_grant_id (rn_money node)")
  case None
  then show ?thesis by (simp add: parent_of_retry_def spec_refuse)
next
  case (Some pid)
  have "spec (\<lambda>st. P st \<and> bs_grants st pid = Some (rn_grant parent) \<and> rn_id parent = pid \<and> fitting_node env k parent)
      (then_do (lift_result LineageFault (validate_retry_transition env node parent)) (\<lambda>_. give parent))
      (\<lambda>parent st. P st \<and> bs_grants st (rn_id parent) = Some (rn_grant parent) \<and> fitting_node env k parent \<and>
         idempotency_key (rn_money parent) = idempotency_key (rn_money node)) P" for parent
    by (auto simp: spec_def then_do_def lift_result_def give_def map_sum_def validate_retry_transition_def res_bind_eq_Ok
        split: sum.splits if_splits)
  then show ?thesis by (simp add: parent_of_retry_def Some spec_then[OF node_loaded])
qed

lemma state_read: "spec P (retry_state_of env node) (\<lambda>s st. P st \<and> (s = RetryAmbiguous \<longrightarrow> undetermined env (rn_id node) st)) P"
  by (auto simp: spec_def retry_state_of_def undetermined_def map_sum_def split: sum.splits)

lemma eligible_found:
  assumes "\<And>gid g. spec (\<lambda>st. P st \<and> bs_grants st gid = Some g) (reconcile_terminal_execution env gid g) (\<lambda>_. P) P"
  shows "spec (\<lambda>st. P st \<and> bs_grants st (rn_id node) = Some (rn_grant node)) (eligible_loop env k seen node)
    (\<lambda>(gid, _) st. P st \<and> undetermined env gid st) P"
  using assms
proof (induction env k seen node rule: eligible_loop.induct)
  case (1 env k seen node)
  let ?seen = "seen @ [(rn_id node, sg_request_id (rn_grant node))]"
  let ?Q = "\<lambda>(gid, _) st. P st \<and> undetermined env gid st"
  show ?case
  proof (subst eligible_loop.simps, rule spec_if)
    assume stop: "\<not> (MAX_LINEAGE \<le> length seen \<or> rn_id node \<in> set (map fst seen))"
    have after: "spec (\<lambda>st. P st \<and> (s = RetryAmbiguous \<longrightarrow> undetermined env (rn_id node) st)) (case s of
        RetryAmbiguous \<Rightarrow> give (rn_id node, ?seen) | RetryPreEffect \<Rightarrow>
          then_do (parent_of_retry env k node) (\<lambda>parent. eligible_loop env k ?seen parent) | RetryFinal \<Rightarrow> refuse retry_unavailable) ?Q P" for s
    proof (cases s)
      case RetryPreEffect
      have "spec P (then_do (parent_of_retry env k node) (\<lambda>parent. eligible_loop env k ?seen parent)) ?Q P"
        by (rule spec_then[OF parent_loaded spec_pre[OF "1.IH"[OF stop refl "1.prems"]]]) auto
      then show ?thesis unfolding RetryPreEffect retry_state.case by (rule spec_pre) simp
    qed (auto intro: spec_give spec_refuse)
    show "spec (\<lambda>st. P st \<and> bs_grants st (rn_id node) = Some (rn_grant node))
        (let seen' = ?seen in then_do (reconcile_terminal_execution env (rn_id node) (rn_grant node)) (\<lambda>_.
         then_do (retry_state_of env node) (\<lambda>state. case state of
           RetryAmbiguous \<Rightarrow> give (rn_id node, seen') | RetryPreEffect \<Rightarrow>
             then_do (parent_of_retry env k node) (\<lambda>parent. eligible_loop env k seen' parent) | RetryFinal \<Rightarrow> refuse retry_unavailable))) ?Q P"
      unfolding Let_def by (rule spec_then[OF "1.prems" spec_then[OF state_read after]])
  qed (rule spec_refuse, simp)
qed

lemma owner_found:
  "spec (\<lambda>st. P st \<and> fitting_node env k node) (owner_loop env k seen node)
    (\<lambda>(owner, _) st. P st \<and> fitting_node env k owner \<and> \<not> is_retry (rn_money owner) \<and>
       idempotency_key (rn_money owner) = idempotency_key (rn_money node)) P"
proof (induction env k seen node rule: owner_loop.induct)
  case (1 env k seen node)
  let ?seen = "seen @ [(rn_id node, sg_request_id (rn_grant node))]"
  let ?Q = "\<lambda>(owner, _) st. P st \<and> fitting_node env k owner \<and> \<not> is_retry (rn_money owner) \<and>
    idempotency_key (rn_money owner) = idempotency_key (rn_money node)"
  show ?case
  proof (subst owner_loop.simps, unfold Let_def, intro spec_if)
    assume go: "\<not> (MAX_LINEAGE \<le> length seen \<or> rn_id node \<in> set (map fst seen))" "\<not> \<not> is_retry (rn_money node)"
    have "spec (\<lambda>st. P st \<and> bs_grants st (rn_id parent) = Some (rn_grant parent) \<and> fitting_node env k parent \<and>
        idempotency_key (rn_money parent) = idempotency_key (rn_money node)) (owner_loop env k ?seen parent) ?Q P" for parent
      unfolding spec_def
    proof (intro allI impI)
      fix st assume a: "P st \<and> bs_grants st (rn_id parent) = Some (rn_grant parent) \<and> fitting_node env k parent \<and>
        idempotency_key (rn_money parent) = idempotency_key (rn_money node)"
      then have "case owner_loop env k ?seen parent st of (st', Inl _) \<Rightarrow> P st' | (st', Inr (owner, _)) \<Rightarrow> P st' \<and>
          fitting_node env k owner \<and> \<not> is_retry (rn_money owner) \<and> idempotency_key (rn_money owner) = idempotency_key (rn_money parent)"
        using "1.IH"[OF go(1) refl go(2), of parent] by (simp add: spec_def split_def)
      then show "case owner_loop env k ?seen parent st of (st', Inl _) \<Rightarrow> P st' | (st', Inr a) \<Rightarrow> ?Q a st'"
        using a by (simp add: split_def split: sum.splits prod.splits)
    qed
    then show "spec (\<lambda>st. P st \<and> fitting_node env k node) (then_do (parent_of_retry env k node) (\<lambda>parent. owner_loop env k ?seen parent)) ?Q P"
      by (rule spec_pre[OF spec_then[OF parent_loaded]]) simp
  qed (auto intro: spec_refuse spec_give)
qed

text \<open>After the last outcome was read nothing is written, so the parent's outcome is still undetermined when it is ask_answered.\<close>

lemma owner_and_parent:
  "spec P (then_do (load_retry_node env k gid) (\<lambda>start. then_do (owner_loop env k [] start) (\<lambda>(owner, owners).
     then_do (load_retry_node env k gid) (\<lambda>eligible.
     give \<lparr>rp_grant_id = rn_id eligible, rp_grant = rn_grant eligible, rp_money = rn_money eligible, rp_owner_id = rn_id owner,
       rp_owner_grant = rn_grant owner, rp_grant_ids = map fst (tried @ owners), rp_request_ids = map snd (tried @ owners)\<rparr>))))
   (\<lambda>p st. P st \<and> rp_grant_id p = gid \<and> authentic env k p) P"
proof (rule spec_then[OF node_loaded])
  fix start :: retry_node
  let ?P = "\<lambda>st. P st \<and> bs_grants st gid = Some (rn_grant start) \<and> fitting_node env k start"
  have last: "spec (\<lambda>st. ?P st \<and> fitting_node env k owner \<and> \<not> is_retry (rn_money owner) \<and>
        idempotency_key (rn_money owner) = idempotency_key (rn_money start))
      (then_do (load_retry_node env k gid) (\<lambda>eligible.
        give \<lparr>rp_grant_id = rn_id eligible, rp_grant = rn_grant eligible, rp_money = rn_money eligible, rp_owner_id = rn_id owner,
          rp_owner_grant = rn_grant owner, rp_grant_ids = map fst (tried @ owners), rp_request_ids = map snd (tried @ owners)\<rparr>))
      (\<lambda>p st. P st \<and> rp_grant_id p = gid \<and> authentic env k p) ?P" for owner owners
  proof (rule spec_err[OF spec_then[OF node_loaded spec_give]])
    fix eligible st
    assume a: "(?P st \<and> fitting_node env k owner \<and> \<not> is_retry (rn_money owner) \<and>
        idempotency_key (rn_money owner) = idempotency_key (rn_money start)) \<and>
      bs_grants st gid = Some (rn_grant eligible) \<and> rn_id eligible = gid \<and> fitting_node env k eligible"
    then have "rn_money eligible = rn_money start" by (auto simp: fitting_node_def)
    with a show "P st \<and> rp_grant_id \<lparr>rp_grant_id = rn_id eligible, rp_grant = rn_grant eligible, rp_money = rn_money eligible,
        rp_owner_id = rn_id owner, rp_owner_grant = rn_grant owner, rp_grant_ids = map fst (tried @ owners),
        rp_request_ids = map snd (tried @ owners)\<rparr> = gid \<and>
      authentic env k \<lparr>rp_grant_id = rn_id eligible, rp_grant = rn_grant eligible, rp_money = rn_money eligible,
        rp_owner_id = rn_id owner, rp_owner_grant = rn_grant owner, rp_grant_ids = map fst (tried @ owners),
        rp_request_ids = map snd (tried @ owners)\<rparr>"
      by (auto simp: authentic_def fitting_node_def intro!: exI[of _ "rn_money owner"])
  qed auto
  show "spec (\<lambda>st. P st \<and> bs_grants st gid = Some (rn_grant start) \<and> rn_id start = gid \<and> fitting_node env k start)
      (then_do (owner_loop env k [] start) (\<lambda>(owner, owners). then_do (load_retry_node env k gid) (\<lambda>eligible.
        give \<lparr>rp_grant_id = rn_id eligible, rp_grant = rn_grant eligible, rp_money = rn_money eligible, rp_owner_id = rn_id owner,
          rp_owner_grant = rn_grant owner, rp_grant_ids = map fst (tried @ owners), rp_request_ids = map snd (tried @ owners)\<rparr>)))
      (\<lambda>p st. P st \<and> rp_grant_id p = gid \<and> authentic env k p) P"
    apply (rule spec_pre[OF spec_err[where E' = ?P, OF spec_then[OF owner_found]]])
    subgoal for e using last by (cases e) (simp only: prod.case)
    by auto
qed

lemma parent_authentic:
  assumes "\<And>gid g. spec (\<lambda>st. P st \<and> bs_grants st gid = Some g) (reconcile_terminal_execution env gid g) (\<lambda>_. P) P"
  shows "spec P (authenticate_retry_parent env k) (\<lambda>p st. P st \<and> undetermined env (rp_grant_id p) st \<and> authentic env k p) P"
proof -
  have newest: "spec P (newest_of_effect env effect) (\<lambda>_. P) P" for effect
    by (auto simp: spec_def newest_of_effect_def ok_or_def split: option.splits)
  have rest: "spec (\<lambda>st. P st \<and> undetermined env gid st) (then_do (load_retry_node env k gid) (\<lambda>start.
      then_do (owner_loop env k [] start) (\<lambda>(owner, owners). then_do (load_retry_node env k gid) (\<lambda>eligible.
      give \<lparr>rp_grant_id = rn_id eligible, rp_grant = rn_grant eligible, rp_money = rn_money eligible, rp_owner_id = rn_id owner,
        rp_owner_grant = rn_grant owner, rp_grant_ids = map fst (tried @ owners), rp_request_ids = map snd (tried @ owners)\<rparr>))))
    (\<lambda>p st. P st \<and> undetermined env (rp_grant_id p) st \<and> authentic env k p) P" for gid tried
    by (rule spec_post[OF spec_err[OF owner_and_parent]]) auto
  show ?thesis
    unfolding authenticate_retry_parent_def
    apply (rule spec_then[OF newest], rule spec_then[OF node_loaded], rule spec_then[OF spec_pre[OF eligible_found[OF assms]]])
    subgoal by auto
    subgoal for newest first e using rest by (cases e) (simp only: prod.case)
    done
qed

section \<open>The parts of a request\<close>

definition key_of :: "request_answers \<Rightarrow> request_cx \<Rightarrow> string \<Rightarrow> retry_key" where
  "key_of a cx effect = \<lparr>rk_effect = effect, rk_principal = cx_principal cx, rk_provider = cq_provider (cx_req cx),
     rk_action = cq_action (cx_req cx), rk_now = qa_now_lineage a\<rparr>"

definition parent_fits :: "request_env \<Rightarrow> request_answers \<Rightarrow> request_cx \<Rightarrow> string option \<Rightarrow> retry_parent option \<Rightarrow> bool" where
  "parent_fits env a cx effect p = (case p of
      None \<Rightarrow> effect = None
    | Some q \<Rightarrow> (\<exists>e. effect = Some e \<and> authentic (qe_exec env) (key_of a cx e) q))"

definition other_type :: "string \<Rightarrow> bool" where
  "other_type ty \<longleftrightarrow> ty \<notin> {''provider_action_succeeded'', ''provider_action_failed'', ''budget_release''}"

locale denial_frame =
  fixes env :: request_env and rid :: string
    and J :: "broker_store \<Rightarrow> bool" and D :: "request_outcome \<Rightarrow> broker_store \<Rightarrow> bool" and E :: "broker_store \<Rightarrow> bool"
  assumes J_E: "J st \<Longrightarrow> E st"
    and J_faults: "J st \<Longrightarrow> J (st\<lparr>bs_faults := fs\<rparr>)"
    and J_row: "J st \<Longrightarrow> other_type (ar_type r) \<Longrightarrow> J (st\<lparr>bs_log := bs_log st @ [r]\<rparr>)"
    and denied: "cx_request_id cx = rid \<Longrightarrow> spec J (deny env cx req reason cls scope hint secrets dr) D E"
begin

lemma row_kept: "other_type ty \<Longrightarrow> spec J (record_row x s ty data secrets) (\<lambda>_. J) E"
proof (rule spec_record)
  fix st fs and r :: audit_row assume "J st" "other_type ty" "ar_type r = ty"
  then have "J (st\<lparr>bs_faults := fs\<rparr>\<lparr>bs_log := bs_log (st\<lparr>bs_faults := fs\<rparr>) @ [r]\<rparr>)" by (intro J_row J_faults) simp_all
  then show "J (st\<lparr>bs_faults := fs, bs_log := bs_log st @ [r]\<rparr>)" by simp
qed (intro J_E J_faults)

lemma lifted: "(\<And>a. r = Ok a \<Longrightarrow> F a) \<Longrightarrow> spec J (lift_result f r) (\<lambda>a st. J st \<and> F a) E"
  by (rule spec_lift) (auto intro: J_E)

lemma lifted_plain: "spec J (lift_result f r) (\<lambda>_. J) E"
  by (rule spec_lift) (auto intro: J_E)

lemma secrets_read: "spec J (all_secrets x) (\<lambda>_. J) E"
  unfolding all_secrets_def by (rule lifted_plain)

lemma evidence_denied: "cx_request_id cx = rid \<Longrightarrow> spec J (deny_evidence_request env cx failure secrets profile) D E"
  unfolding deny_evidence_request_def Let_def
proof (rule spec_then[OF _ denied])
  show "spec J (case failure of None \<Rightarrow> give () | Some f \<Rightarrow> record_row (qe_exec env) (Some (cx_session cx)) ''provider_evidence_failed''
      (JObject ([(''request_id'', JString (cx_request_id cx)), (''provider'', JString (cq_provider (cx_req cx))),
         (''action'', JString (cq_action (cx_req cx))), (''profile'', JString (ep_id profile)),
         (''failure_class'', JString (failure_class_str (vf_class f)))] @ status_field f)) secrets) (\<lambda>_. J) E"
    by (cases failure) (auto intro: spec_give row_kept simp: other_type_def)
qed

lemma evidence_step: "cx_request_id cx = rid \<Longrightarrow> steps J (deny_evidence env cx failure secrets profile) Q D E"
  unfolding deny_evidence_def by (intro steps_answer evidence_denied)

lemma denied_step: "cx_request_id cx = rid \<Longrightarrow> steps J (answer (deny env cx req reason cls scope hint secrets dr)) Q D E"
  by (intro steps_answer denied)

lemma lineage_denied: "cx_request_id cx = rid \<Longrightarrow> spec J (deny_retry_lineage env cx reason secrets profile) D E"
  unfolding deny_retry_lineage_def by (cases profile) (auto intro: denied evidence_denied)

lemma lineage_step: "cx_request_id cx = rid \<Longrightarrow> steps J (answer (deny_retry_lineage env cx reason secrets profile)) Q D E"
  by (intro steps_answer lineage_denied)

lemma canonicalization_denied: "cx_request_id cx = rid \<Longrightarrow> steps J (answer (deny_canonicalization env cx profile supplied failure secrets)) Q D E"
  unfolding deny_canonicalization_def Let_def
  by (intro steps_answer spec_then[OF row_kept denied]) (auto simp: other_type_def)

lemma field_resolved: "cx_request_id cx = rid \<Longrightarrow> steps J (resolve_field env a cx profile supplied resource secrets) (\<lambda>_. J) D E"
  unfolding resolve_field_def
  by (intro steps_option steps_sum canonicalization_denied steps_then[OF row_kept] steps_then[OF lifted_plain] steps_give)
    (auto simp: other_type_def)

lemma canonicalized: "cx_request_id cx = rid \<Longrightarrow> steps J (canonicalize_request env a cx source resource secrets) (\<lambda>_. J) D E"
  unfolding canonicalize_request_def Let_def
  by (intro steps_option steps_sum steps_if denied_step field_resolved steps_give) auto

lemma plain_resolved: "cx_request_id cx = rid \<Longrightarrow> steps J (resolve_plain env a cx source provider) (\<lambda>_. J) D E"
  unfolding resolve_plain_def Let_def
  by (intro steps_then[OF secrets_read] steps_option denied_step steps_onward[OF canonicalized] steps_give) auto

lemma partial_found: "cx_request_id cx = rid \<Longrightarrow> steps J (evidence_partial env cx source provider profile) (\<lambda>_. J) D E"
  unfolding evidence_partial_def Let_def
  by (intro steps_option steps_sum steps_if evidence_step steps_give steps_refuse) (auto intro: J_E)

lemma receipt_named: "spec J (\<lambda>st. (st, Ok (f st))) (\<lambda>_. J) E"
  by (simp add: spec_def)

lemma evidence_resolved: "cx_request_id cx = rid \<Longrightarrow> steps J (resolve_evidence env a cx source provider profile) (\<lambda>_. J) D E"
proof -
  assume cx: "cx_request_id cx = rid"
  have other: "other_type ''provider_evidence_resolved''" by (simp add: other_type_def)
  have found: "steps J (case r of (complete, flds, sources) \<Rightarrow> h complete flds sources) Q D E"
    if "\<And>complete flds sources. steps J (h complete flds sources) Q D E" for r h and Q :: "'b \<Rightarrow> broker_store \<Rightarrow> bool"
    using that by (cases r) simp
  show ?thesis
    unfolding resolve_evidence_def Let_def
    by (intro steps_onward[OF partial_found] steps_then[OF secrets_read] steps_option steps_sum evidence_step steps_answer[OF evidence_denied]
        found steps_then[OF lifted_plain] steps_then[OF receipt_named] steps_then[OF row_kept[OF other]] steps_if steps_give cx)
qed

text \<open>What is known once a part lets the request go on.\<close>

lemma provider_found: "cx_request_id cx = rid \<Longrightarrow>
    steps J (find_provider env cx) (\<lambda>_ st. J st \<and> \<not> provider_is_product_disabled (qe_exec env) (cq_provider (cx_req cx)) (cq_action (cx_req cx))) D E"
  unfolding find_provider_def Let_def by (intro steps_if steps_option denied_step steps_give) auto

lemma corpus_checked: "cx_request_id cx = rid \<Longrightarrow> steps J (check_money_corpus env cx source profile)
    (\<lambda>_ st. J st \<and> (\<forall>rules fp. source = SentenceSource rules fp \<longrightarrow> validate_money_authority (broker_evaluator env) rules = Ok ())) D E"
  unfolding check_money_corpus_def
  by (intro steps_source steps_sum steps_option evidence_step denied_step steps_give) auto

text \<open>A condition that rows and lost writes keep can be carried along.\<close>

lemma carry:
  assumes "\<And>st fs. Z st \<Longrightarrow> Z (st\<lparr>bs_faults := fs\<rparr>)" "\<And>st r. Z st \<Longrightarrow> Z (st\<lparr>bs_log := bs_log st @ [r]\<rparr>)"
  shows "denial_frame env rid (\<lambda>st. J st \<and> Z st) D E"
proof
  show "cx_request_id cx = rid \<Longrightarrow> spec (\<lambda>st. J st \<and> Z st) (deny env cx req reason cls scope hint secrets dr) D E"
    for cx req reason cls scope hint secrets dr by (rule spec_pre[OF denied]) simp_all
qed (use assms in \<open>auto intro: J_E J_faults J_row\<close>)

end

locale request_frame = denial_frame +
  assumes J_sessions: "J st \<Longrightarrow> J (st\<lparr>bs_sessions := ss\<rparr>)"
    and retry: "spec J (authenticate_retry_parent (qe_exec env) k) (\<lambda>p st. J st \<and> authentic (qe_exec env) k p) J"
begin

lemma write_sessions: "(\<And>st. \<exists>ss. f st = st\<lparr>bs_sessions := ss\<rparr>) \<Longrightarrow> spec J (write_store f) (\<lambda>_. J) E"
  by (rule spec_write) (auto intro: J_E J_faults, metis J_sessions J_faults)

lemma ensured: "spec J (ensure_session_with_fingerprint session owner fingerprint stamp) (\<lambda>_. J) E"
  unfolding ensure_session_with_fingerprint_def
proof (rule write_sessions)
  fix st :: broker_store
  have "(if has_session st session then st else st\<lparr>bs_sessions := bs_sessions st @ [blank_session session stamp fingerprint owner]\<rparr>) =
      st\<lparr>bs_sessions := if has_session st session then bs_sessions st
        else bs_sessions st @ [blank_session session stamp fingerprint owner]\<rparr>" by simp
  then show "\<exists>ss. (if has_session st session then st
      else st\<lparr>bs_sessions := bs_sessions st @ [blank_session session stamp fingerprint owner]\<rparr>) = st\<lparr>bs_sessions := ss\<rparr>" by blast
qed

lemma parent_found: "cx_request_id cx = rid \<Longrightarrow>
    steps J (find_retry_parent env a cx effect profile) (\<lambda>p st. J st \<and> parent_fits env a cx effect p) D E"
proof (cases effect)
  case None
  have "find_retry_parent env a cx effect profile = give (Onward None)" by (rule ext) (simp add: find_retry_parent_def None)
  then show ?thesis by (simp add: None steps_give parent_fits_def)
next
  case (Some eff)
  assume cx: "cx_request_id cx = rid"
  let ?Q = "\<lambda>p st. J st \<and> parent_fits env a cx effect p"
  show ?thesis
    unfolding steps_def spec_def
  proof (intro allI impI)
    fix st assume J: "J st"
    obtain st1 r where run: "authenticate_retry_parent (qe_exec env) (key_of a cx eff) st = (st1, r)" by fastforce
    note auth = spec_run[OF retry J run]
    show "case find_retry_parent env a cx effect profile st of (st', Inl _) \<Rightarrow> E st' | (st', Inr s) \<Rightarrow>
        (case s of Answered o1 \<Rightarrow> D o1 st' | Onward p \<Rightarrow> ?Q p st')"
    proof (cases r)
      case (Inl e)
      then have "find_retry_parent env a cx effect profile st = answer (deny_retry_lineage env cx RetryUnavailableReason [] profile) st1"
        using run by (simp add: find_retry_parent_def Some key_of_def)
      moreover have "J st1" using auth Inl by simp
      ultimately show ?thesis
        using lineage_step[OF cx, of RetryUnavailableReason "[]" profile ?Q, unfolded steps_def spec_def, rule_format, of st1] by (simp only:)
    next
      case (Inr p)
      then show ?thesis using run auth by (simp add: find_retry_parent_def give_def Some key_of_def parent_fits_def)
    qed
  qed
qed

end

section \<open>The decision\<close>

text \<open>What holds of an allowed verdict, read from the log the gate saw.\<close>

definition gate_passed :: "request_env \<Rightarrow> request_answers \<Rightarrow> request_cx \<Rightarrow> decision_source \<Rightarrow> retry_parent option \<Rightarrow> canonical_resource
    \<Rightarrow> audit_row list \<Rightarrow> gated_verdict \<Rightarrow> bool" where
  "gate_passed env a cx source parent resource log gv \<longleftrightarrow> (\<exists>rules fp. source = SentenceSource rules fp \<and>
     \<not> retry_overdue parent (qa_now_verdict a) \<and>
     (case parent of
        None \<Rightarrow> gv_retry gv = None \<and> (case gv_admit gv of
            None \<Rightarrow> gate_of env log (qa_now_gate a) rules cx resource = NoAggregate
          | Some t \<Rightarrow> gate_of env log (qa_now_gate a) rules cx resource = GateAdmit t)
      | Some p \<Rightarrow> gv_admit gv = None \<and>
          (\<exists>t. gv_retry gv = Some t \<and> retry_ticket_of env log (qa_now_gate a) p rules cx resource = Ok t)))"

definition debit_row :: "request_answers \<Rightarrow> request_cx \<Rightarrow> admit_ticket \<Rightarrow> audit_row \<Rightarrow> bool" where
  "debit_row a cx t r \<longleftrightarrow> ar_type r = ''budget_mint'' \<and> ar_session r = Some (cx_session cx) \<and>
     (\<exists>secrets. ar_data r = redacted_for_record (mint_data t (qa_grant_id a) (cx_request_id cx)) secrets)"

definition booked :: "request_answers \<Rightarrow> request_cx \<Rightarrow> gated_verdict \<Rightarrow> audit_row list \<Rightarrow> bool" where
  "booked a cx gv rows = (case gv_admit gv of None \<Rightarrow> True | Some t \<Rightarrow> list_ex (debit_row a cx t) rows)"

context denial_frame
begin

lemma receipt_kept: "spec J (gate_receipt env cx secrets gate) (\<lambda>_. J) E"
  unfolding gate_receipt_def record_budget_denied_def record_budget_gate_error_def
  by (cases gate) (auto simp: split_def other_type_def intro: spec_give row_kept)

lemma gate_run: "spec (\<lambda>st. J st \<and> bs_log st = log) (run_budget_gate env cx now rules resource secrets)
    (\<lambda>gate st. J st \<and> gate = gate_of env log now rules cx resource) E"
proof -
  have read: "spec (\<lambda>st. J st \<and> bs_log st = log) (\<lambda>st. (st, Ok (gate_of env (bs_log st) now rules cx resource)))
      (\<lambda>gate st. J st \<and> gate = gate_of env log now rules cx resource) E"
    by (simp add: spec_def)
  show ?thesis
    unfolding run_budget_gate_def
    by (rule spec_then[OF read], rule spec_assume, rule spec_then[OF receipt_kept], rule spec_give) simp
qed

lemma gated: "spec (\<lambda>st. J st \<and> bs_log st = log) (gate_verdict env a cx source parent resource secrets
      (retry_deadline_verdict parent (qa_now_verdict a) v))
    (\<lambda>gv st. J st \<and> (pv_decision (gv_verdict gv) = AllowGrant \<longrightarrow> gv_verdict gv = v \<and> pv_decision v = AllowGrant \<and>
       (\<forall>rules fp. source = SentenceSource rules fp \<longrightarrow> gate_passed env a cx source parent resource log gv))) E"
proof (cases "pv_decision (retry_deadline_verdict parent (qa_now_verdict a) v) = AllowGrant")
  case False
  then show ?thesis by (auto simp: gate_verdict_def ungated_def intro: spec_give)
next
  case True
  then have v: "retry_deadline_verdict parent (qa_now_verdict a) v = v" "pv_decision v = AllowGrant" "\<not> retry_overdue parent (qa_now_verdict a)"
    by (auto simp: retry_deadline_verdict_def refused_as_def split: if_splits)
  let ?Q = "\<lambda>gv st. J st \<and> (pv_decision (gv_verdict gv) = AllowGrant \<longrightarrow> gv_verdict gv = v \<and> pv_decision v = AllowGrant \<and>
       (\<forall>rules fp. source = SentenceSource rules fp \<longrightarrow> gate_passed env a cx source parent resource log gv))"
  show ?thesis
  proof (cases source)
    case (SentenceRefusal r fp given)
    then show ?thesis using v by (auto simp: gate_verdict_def ungated_def intro: spec_give)
  next
    case (SentenceSource rules fp)
    show ?thesis
    proof (cases parent)
      case (Some p)
      have "spec (\<lambda>st. J st \<and> bs_log st = log) (gate_retry env a cx rules p resource v) ?Q E"
        by (auto simp: spec_def gate_retry_def ungated_def refused_as_def gate_passed_def SentenceSource Some split: sum.splits)
          (use v(2,3) Some in auto)
      then show ?thesis using v(1,2) by (simp add: gate_verdict_def SentenceSource Some)
    next
      case None
      have "spec (\<lambda>st. J st \<and> bs_log st = log) (gate_fresh env a cx rules resource secrets v) ?Q E"
        unfolding gate_fresh_def
      proof (rule spec_then[OF gate_run], rule spec_give)
        fix gate st assume "J st \<and> gate = gate_of env log (qa_now_gate a) rules cx resource"
        then have "J st" "gate_of env log (qa_now_gate a) rules cx resource = gate" by simp_all
        then show "?Q (case gate of NoAggregate \<Rightarrow> ungated v | GateAdmit t \<Rightarrow> ungated v\<lparr>gv_admit := Some t\<rparr>
          | GateExceeded t \<Rightarrow> ungated (refused_as (BudgetExhaustedReason (at_window t)) (Some (BudgetExceeded (at_window t))) v)
              \<lparr>gv_exceeded := Some (at_window t)\<rparr>
          | GateInvalid x \<Rightarrow> ungated (refused_as BudgetUnverifiedReason None v)) st"
          using v(2,3) None by (cases gate) (auto simp: ungated_def refused_as_def gate_passed_def SentenceSource)
      qed
      then show ?thesis using v(1,2) by (simp add: gate_verdict_def SentenceSource None)
    qed
  qed
qed

lemma frozen_checked: "cx_request_id cx = rid \<Longrightarrow> steps J (check_retry_frozen env cx parent resource evidence_json secrets profile)
    (\<lambda>_ st. J st \<and> (\<forall>p. parent = Some p \<longrightarrow> sg_resource_json (rp_grant p) = to_canonical_json (ee_json (qe_exec env)) resource)) D E"
  unfolding check_retry_frozen_def envelope_of_def
  by (intro steps_option steps_then[OF lifted_plain] steps_if lineage_step steps_give) auto

lemma authority_checked: "cx_request_id cx = rid \<Longrightarrow> steps J (check_authority_after env a cx source secrets profile) (\<lambda>_. J) D E"
  unfolding check_authority_after_def by (intro steps_option steps_if evidence_step steps_give) auto

lemma evidence_read: "spec J (evidence_current env cx evidence_json now generation) (\<lambda>_. J) E"
  unfolding evidence_current_def envelope_of_def by (rule spec_then[OF lifted_plain lifted_plain])

lemma evidence_rechecked: "cx_request_id cx = rid \<Longrightarrow> steps J (check_evidence_decided env a cx evidence_json secrets profile) (\<lambda>_. J) D E"
  unfolding check_evidence_decided_def by (intro steps_option steps_then[OF evidence_read] steps_if evidence_step steps_give) auto

lemma retry_timed: "cx_request_id cx = rid \<Longrightarrow> steps J (retry_in_time env cx money now secrets profile) (\<lambda>_. J) D E"
  unfolding retry_in_time_def by (intro steps_if lineage_step steps_give) auto

lemma retry_linked: "spec J (link_retry env a cx parent ticket money secrets) (\<lambda>_ st. J st \<and> (ticket \<noteq> None \<longrightarrow> effect_id money \<noteq> None)) E"
proof -
  have "spec J (record_money_retry_link env cx child effect fp t secrets) (\<lambda>_. J) E" for child effect fp t
    unfolding record_money_retry_link_def by (rule row_kept) (simp add: other_type_def)
  then show ?thesis
    unfolding link_retry_def
    by (cases ticket; cases parent; cases "effect_id money") (auto intro!: spec_give spec_if spec_refuse intro: J_E)
qed

lemma decided_denied:
  assumes "cx_request_id cx = rid" "\<And>o1 st w b. D o1 st \<Longrightarrow> D (o1\<lparr>ro_budget_exceeded := w\<rparr>) st \<and> D (o1\<lparr>ro_authority := b, ro_budget_exceeded := w\<rparr>) st"
  shows "steps J (answer (deny_decided env cx source resource secrets profile gv)) Q D E"
  unfolding deny_decided_def Let_def
  by (rule steps_answer, rule spec_then[OF denied[OF assms(1)]], rule spec_give) (use assms(2) in auto)

end

section \<open>The grant\<close>

definition custody :: "request_answers \<Rightarrow> decision_source \<Rightarrow> bool" where
  "custody a source \<longleftrightarrow> (\<forall>rules fp. source = SentenceSource rules fp \<longrightarrow> qa_authority a = Inr (rules, fp))"

text \<open>What is known of a request when its resource is complete.\<close>

definition request_opened :: "request_env \<Rightarrow> request_answers \<Rightarrow> request_cx \<Rightarrow> decision_source \<Rightarrow> string option \<Rightarrow> retry_parent option \<Rightarrow> bool" where
  "request_opened env a cx source effect parent \<longleftrightarrow> cx_request_id cx = qa_request_id a \<and> \<not> qa_locked_source a \<and> custody a source \<and>
     cx_fingerprint cx = source_fingerprint source \<and>
     \<not> provider_is_product_disabled (qe_exec env) (cq_provider (cx_req cx)) (cq_action (cx_req cx)) \<and>
     (\<forall>rules fp. source = SentenceSource rules fp \<longrightarrow> validate_money_authority (broker_evaluator env) rules = Ok ()) \<and>
     parent_fits env a cx effect parent"

text \<open>What is known of an allowed request, apart from the gate's proof.\<close>

definition request_allowed :: "request_env \<Rightarrow> request_answers \<Rightarrow> request_cx \<Rightarrow> decision_source \<Rightarrow> string option \<Rightarrow> retry_parent option \<Rightarrow> canonical_resource
    \<Rightarrow> policy_verdict \<Rightarrow> bool" where
  "request_allowed env a cx source effect parent resource v \<longleftrightarrow> request_opened env a cx source effect parent \<and>
     (\<forall>p. parent = Some p \<longrightarrow> sg_resource_json (rp_grant p) = to_canonical_json (ee_json (qe_exec env)) resource) \<and>
     v = evaluate_capability env source (cq_provider (cx_req cx)) (cq_action (cx_req cx)) (as_match_value resource) \<and>
     pv_decision v = AllowGrant"

definition gate_proved :: "(broker_store \<Rightarrow> bool) \<Rightarrow> request_env \<Rightarrow> request_answers \<Rightarrow> request_cx \<Rightarrow> decision_source \<Rightarrow> retry_parent option \<Rightarrow> canonical_resource
    \<Rightarrow> gated_verdict \<Rightarrow> broker_store \<Rightarrow> bool" where
  "gate_proved J env a cx source parent resource gv st \<longleftrightarrow> (\<exists>st1. J st1 \<and> prefix (bs_log st1) (bs_log st) \<and>
     gate_passed env a cx source parent resource (bs_log st1) gv)"

definition warranted :: "(broker_store \<Rightarrow> bool) \<Rightarrow> request_env \<Rightarrow> request_answers \<Rightarrow> request_cx \<Rightarrow> decision_source \<Rightarrow> retry_parent option \<Rightarrow> canonical_resource
    \<Rightarrow> gated_verdict \<Rightarrow> broker_store \<Rightarrow> bool" where
  "warranted J env a cx source parent resource gv st \<longleftrightarrow> (\<exists>st1. J st1 \<and> prefix (bs_log st1) (bs_log st) \<and>
     gate_passed env a cx source parent resource (bs_log st1) gv \<and> booked a cx gv (drop (length (bs_log st1)) (bs_log st)))"

lemma gate_proved_kept:
  "gate_proved J env a cx source parent resource gv st \<Longrightarrow> gate_proved J env a cx source parent resource gv (st\<lparr>bs_faults := fs\<rparr>)"
  "gate_proved J env a cx source parent resource gv st \<Longrightarrow> gate_proved J env a cx source parent resource gv (st\<lparr>bs_log := bs_log st @ [r]\<rparr>)"
  unfolding gate_proved_def by (auto intro: prefix_order.trans)

lemma warranted_kept:
  "warranted J env a cx source parent resource gv st \<Longrightarrow> warranted J env a cx source parent resource gv (st\<lparr>bs_faults := fs\<rparr>)"
  "warranted J env a cx source parent resource gv st \<Longrightarrow> warranted J env a cx source parent resource gv (st\<lparr>bs_log := bs_log st @ [r]\<rparr>)"
proof -
  assume "warranted J env a cx source parent resource gv st"
  then obtain st1 where st1: "J st1" "prefix (bs_log st1) (bs_log st)" "gate_passed env a cx source parent resource (bs_log st1) gv"
    "booked a cx gv (drop (length (bs_log st1)) (bs_log st))" by (auto simp: warranted_def)
  then have "booked a cx gv (drop (length (bs_log st1)) (bs_log st @ [r]))"
    by (auto simp: booked_def prefix_length_le split: option.splits)
  with st1 show "warranted J env a cx source parent resource gv (st\<lparr>bs_log := bs_log st @ [r]\<rparr>)"
    unfolding warranted_def by (intro exI[of _ st1]) (auto intro: prefix_order.trans)
qed (simp add: warranted_def)

lemma booking: "spec (gate_proved J env a cx source parent resource gv) (book_debit env a cx secrets (gv_admit gv))
    (\<lambda>_. warranted J env a cx source parent resource gv) (\<lambda>_. True)"
proof (cases "gv_admit gv")
  case None
  then show ?thesis by (auto simp: book_debit_def spec_def give_def gate_proved_def warranted_def booked_def)
next
  case (Some t)
  have "warranted J env a cx source parent resource gv (st\<lparr>bs_faults := fs, bs_log := bs_log st @ [r]\<rparr>)"
    if "gate_proved J env a cx source parent resource gv st" "debit_row a cx t r" for st fs r
  proof -
    from that(1) obtain st1 where "J st1" "prefix (bs_log st1) (bs_log st)" "gate_passed env a cx source parent resource (bs_log st1) gv"
      by (auto simp: gate_proved_def)
    then show ?thesis unfolding warranted_def using that(2)
      by (intro exI[of _ st1]) (auto simp: booked_def Some prefix_length_le intro: prefix_order.trans)
  qed
  then show ?thesis
    unfolding book_debit_def Some option.case record_row_def by (intro spec_write) (simp_all add: debit_row_def exI)
qed

lemma spec_both: "spec P h Q E \<Longrightarrow> spec P' h Q' E' \<Longrightarrow> spec (\<lambda>st. P st \<and> P' st) h (\<lambda>a st. Q a st \<and> Q' a st) E"
  by (fastforce simp: spec_def split: prod.splits sum.splits)

section \<open>The ways in\<close>

datatype way =
    Local string
  | LocalOwned string "int option"
  | LocalRetry string "int option" string
  | Principal string string
  | PrincipalOwned string string "int option"
  | PrincipalOpen string string bool "int option"
  | PrincipalRetry string string string bool "int option"
  | GitPlane string string "int option"
  | WithSentence string rule_set

fun ask :: "request_env \<Rightarrow> request_answers \<Rightarrow> capability_request \<Rightarrow> way \<Rightarrow> request_outcome handler" where
  "ask env a req (Local session) = request_capability env a session req"
| "ask env a req (LocalOwned session owner) = request_capability_owned env a session req owner"
| "ask env a req (LocalRetry session owner effect) = request_retry_capability_owned env a session req owner effect"
| "ask env a req (Principal session caller) = request_capability_for_principal env a session caller req"
| "ask env a req (PrincipalOwned session caller owner) = request_capability_for_principal_owned env a session caller req owner"
| "ask env a req (PrincipalOpen session caller required peer) = request_capability_for_principal_open env a session caller req required peer"
| "ask env a req (PrincipalRetry session caller effect required peer) =
     request_retry_capability_for_principal_open env a session caller effect req required peer"
| "ask env a req (GitPlane session caller owner) = request_capability_from_git_plane env a session caller req owner"
| "ask env a req (WithSentence session rules) = request_capability_with_sentence env a session rules req"

fun way_session :: "way \<Rightarrow> string" where
  "way_session (Local session) = session"
| "way_session (LocalOwned session _) = session"
| "way_session (LocalRetry session _ _) = session"
| "way_session (Principal session _) = session"
| "way_session (PrincipalOwned session _ _) = session"
| "way_session (PrincipalOpen session _ _ _) = session"
| "way_session (PrincipalRetry session _ _ _ _) = session"
| "way_session (GitPlane session _ _) = session"
| "way_session (WithSentence session _) = session"

fun way_caller :: "way \<Rightarrow> string" where
  "way_caller (Principal _ caller) = caller"
| "way_caller (PrincipalOwned _ caller _) = caller"
| "way_caller (PrincipalOpen _ caller _ _) = caller"
| "way_caller (PrincipalRetry _ caller _ _ _) = caller"
| "way_caller (GitPlane _ caller _) = caller"
| "way_caller _ = LOCAL_REQUESTER"

fun way_effect :: "way \<Rightarrow> string option" where
  "way_effect (LocalRetry _ _ effect) = Some effect"
| "way_effect (PrincipalRetry _ _ effect _ _) = Some effect"
| "way_effect _ = None"

lemmas ask_defs = request_capability_def request_capability_owned_def request_retry_capability_owned_def request_capability_for_principal_def
  request_capability_for_principal_owned_def request_capability_for_principal_open_def request_retry_capability_for_principal_open_def
  request_capability_from_git_plane_def request_capability_with_sentence_def

section \<open>What every way in keeps\<close>

locale mint_frame = request_frame env rid J D E + stale: denial_frame env rid K D E
  for env rid J D E K +
  fixes a :: request_answers and B :: "request_cx \<Rightarrow> string option \<Rightarrow> bool"
  assumes same_id: "qa_request_id a = rid"
    and outcome_fields: "D o1 st \<Longrightarrow> D (o1\<lparr>ro_budget_exceeded := w\<rparr>) st \<and> D (o1\<lparr>ro_authority := b, ro_budget_exceeded := w\<rparr>) st"
    and released: "spec J (release_budget (qe_exec env) (qa_grant_id a) EvidenceStaleBeforeGrant) (\<lambda>_. K) E"
    and weaker: "J st \<Longrightarrow> K st"
    and stored: "B cx effect \<Longrightarrow> request_allowed env a cx source effect parent resource (gv_verdict gv) \<Longrightarrow> cx_request_id cx = rid \<Longrightarrow>
      mint_expiry (gv_admit gv) parent = Ok expiry \<Longrightarrow> mint_money env a cx parent expiry = Ok money \<Longrightarrow>
      gv_retry gv \<noteq> None \<longrightarrow> effect_id money \<noteq> None \<Longrightarrow>
      steps (\<lambda>st. J st \<and> warranted J env a cx source parent resource gv st)
        (store_approved env a cx resource evidence_json (gv_verdict gv) money expiry) D D E"
begin

lemma mint_checked: "cx_request_id cx = rid \<Longrightarrow> steps (\<lambda>st. J st \<and> Z st)
    (check_evidence_at_mint env a cx evidence_json secrets profile admit) (\<lambda>_ st. J st \<and> Z st) D E"
proof -
  assume cx: "cx_request_id cx = rid"
  have read: "spec (\<lambda>st. J st \<and> Z st) (evidence_current env cx evidence_json now generation) (\<lambda>_ st. J st \<and> Z st) E" for now generation
    by (auto simp: spec_def evidence_current_def envelope_of_def then_do_def lift_result_def split: sum.splits intro: J_E)
  have give_back: "spec (\<lambda>st. J st \<and> Z st) (if admit \<noteq> None then release_budget (qe_exec env) (qa_grant_id a) EvidenceStaleBeforeGrant else give ())
      (\<lambda>_. K) E"
    by (rule spec_if; rule spec_pre[OF released] spec_give) (auto intro: weaker)
  show ?thesis
    unfolding check_evidence_at_mint_def
    by (intro steps_option steps_then[OF read] steps_if steps_then[OF give_back] stale.evidence_step steps_give cx)
qed

lemma lifted_fact: "spec (\<lambda>st. J st \<and> Z st) (lift_result (\<lambda>e. e) r) (\<lambda>x st. (J st \<and> Z st) \<and> r = Ok x) E"
  by (rule spec_lift) (auto intro: J_E)

lemma minted:
  assumes "request_allowed env a cx source effect parent resource (gv_verdict gv)" "cx_request_id cx = rid" "B cx effect"
  shows "steps (\<lambda>st. J st \<and> gate_proved J env a cx source parent resource gv st)
    (mint_grant env a cx parent resource evidence_json secrets profile gv) D D E"
proof -
  let ?P = "gate_proved J env a cx source parent resource gv" and ?W = "warranted J env a cx source parent resource gv"
  have w: "denial_frame env rid (\<lambda>st. J st \<and> ?W st) D E" by (rule carry) (auto intro: warranted_kept)
  have kept: "spec J (book_debit env a cx secrets (gv_admit gv)) (\<lambda>_. J) E"
    unfolding book_debit_def by (cases "gv_admit gv") (auto simp: other_type_def intro: spec_give row_kept)
  note store = stored[OF assms(3,1,2)]
  show ?thesis
    unfolding mint_grant_def
    by (rule steps_then[OF lifted_fact], rule steps_assume, rule steps_then[OF spec_both[OF kept booking]],
        rule steps_onward[OF mint_checked[OF assms(2)]], rule steps_then[OF lifted_fact], rule steps_assume,
        rule steps_onward[OF denial_frame.retry_timed[OF w assms(2)]], rule steps_then[OF denial_frame.retry_linked[OF w]], rule steps_assume,
        rule steps_onward[OF denial_frame.retry_timed[OF w assms(2)]], rule store)
qed

lemma decision_made:
  assumes "request_opened env a cx source effect parent" "cx_request_id cx = rid" "B cx effect"
  shows "steps J (decide_request env a cx source parent profile found) D D E"
proof -
  obtain resource evidence_json secrets where found: "found = (resource, evidence_json, secrets)" by (cases found)
  let ?v = "evaluate_capability env source (cq_provider (cx_req cx)) (cq_action (cx_req cx)) (as_match_value resource)"
  let ?F = "\<forall>p. parent = Some p \<longrightarrow> sg_resource_json (rp_grant p) = to_canonical_json (ee_json (qe_exec env)) resource"
  let ?A = "\<lambda>gv. pv_decision (gv_verdict gv) = AllowGrant \<longrightarrow> gv_verdict gv = ?v \<and> pv_decision ?v = AllowGrant"
  let ?Z = "\<lambda>gv st. pv_decision (gv_verdict gv) = AllowGrant \<longrightarrow> gate_proved J env a cx source parent resource gv st"
  have refusal: "source = SentenceRefusal r fp given \<Longrightarrow> pv_decision ?v \<noteq> AllowGrant" for r fp given
    by (simp add: evaluate_capability_def)
  have gate: "spec J (gate_verdict env a cx source parent resource secrets (retry_deadline_verdict parent (qa_now_verdict a) ?v))
      (\<lambda>gv st. (J st \<and> ?Z gv st) \<and> ?A gv) E"
    unfolding spec_def
  proof (intro allI impI)
    fix st assume J: "J st"
    let ?h = "gate_verdict env a cx source parent resource secrets (retry_deadline_verdict parent (qa_now_verdict a) ?v)"
    obtain st' r where run: "?h st = (st', r)" by fastforce
    have w: "denial_frame env rid (\<lambda>s. J s \<and> prefix (bs_log st) (bs_log s)) D E" by (rule carry) (auto intro: prefix_order.trans)
    from spec_run[OF denial_frame.gated[OF w] _ run, of "bs_log st"] J
    show "case ?h st of (st', Inl _) \<Rightarrow> E st' | (st', Inr gv) \<Rightarrow> (J st' \<and> ?Z gv st') \<and> ?A gv"
      using run refusal by (cases r; cases source) (auto simp: gate_proved_def)
  qed
  have z: "denial_frame env rid (\<lambda>st. J st \<and> ?Z gv st) D E" for gv by (rule carry) (auto intro: gate_proved_kept)
  have other: "other_type ''policy_decision''" by (simp add: other_type_def)
  have finish: "steps (\<lambda>st. J st \<and> ?Z gv st) (if pv_decision (gv_verdict gv) = AllowGrant
      then mint_grant env a cx parent resource evidence_json secrets profile gv
      else answer (deny_decided env cx source resource secrets profile gv)) D D E" if ?F "?A gv" for gv
  proof (rule steps_if)
    assume go: "pv_decision (gv_verdict gv) = AllowGrant"
    then have "request_allowed env a cx source effect parent resource (gv_verdict gv)" using that assms(1) by (auto simp: request_allowed_def)
    from minted[OF this assms(2,3)] show "steps (\<lambda>st. J st \<and> ?Z gv st) (mint_grant env a cx parent resource evidence_json secrets profile gv) D D E"
      by (rule steps_pre) (simp add: go)
  next
    have den: "steps J (answer (deny_decided env cx source resource secrets profile gv)) D D E"
      by (rule decided_denied[OF assms(2)]) (use outcome_fields in blast)
    show "steps (\<lambda>st. J st \<and> ?Z gv st) (answer (deny_decided env cx source resource secrets profile gv)) D D E"
      by (rule steps_pre[OF den]) (rule conjunct1)
  qed
  show ?thesis
    unfolding decide_request_def found prod.case Let_def
    by (rule steps_onward[OF frozen_checked[OF assms(2)]], rule steps_assume, rule steps_onward[OF authority_checked[OF assms(2)]],
        rule steps_then[OF gate], rule steps_assume, rule steps_onward[OF denial_frame.evidence_rechecked[OF z assms(2)]],
        rule steps_then[OF denial_frame.row_kept[OF z other]], rule finish)
qed

lemma served:
  assumes "cx_request_id cx = rid" "\<not> qa_locked_source a" "custody a source" "cx_fingerprint cx = source_fingerprint source" "B cx effect"
  shows "steps J (serve_request env a cx source effect) D D E"
proof -
  have go: "steps J (decide_request env a cx source parent profile found) D D E"
    if "\<not> provider_is_product_disabled (qe_exec env) (cq_provider (cx_req cx)) (cq_action (cx_req cx))" "parent_fits env a cx effect parent"
      "\<forall>rules fp. source = SentenceSource rules fp \<longrightarrow> validate_money_authority (broker_evaluator env) rules = Ok ()" for parent profile found
    by (rule decision_made[of cx source effect]) (use assms that same_id in \<open>simp_all add: request_opened_def\<close>)
  have resolve: "steps J (case profile of Some p \<Rightarrow> resolve_evidence env a cx source provider p | None \<Rightarrow> resolve_plain env a cx source provider)
      (\<lambda>_. J) D E" for profile provider
    by (intro steps_option evidence_resolved plain_resolved assms)
  show ?thesis
    unfolding serve_request_def Let_def
    by (rule steps_onward[OF provider_found[OF assms(1)]], rule steps_assume, rule steps_onward[OF parent_found[OF assms(1)]], rule steps_assume,
        rule steps_onward[OF corpus_checked[OF assms(1)]], rule steps_assume, rule steps_onward[OF resolve], rule go)
qed

lemma sourced:
  assumes "custody a source" "B (cx_of a (trim session_id) caller req (source_fingerprint source)) effect"
  shows "spec J (request_capability_for_principal_owned_with_source env a session_id caller req owner effect source) D E"
  unfolding request_capability_for_principal_owned_with_source_def Let_def ensure_session_def
  by (intro spec_if spec_refuse J_E spec_then[OF ensured] spec_conclude served) (use assms same_id in \<open>simp_all add: cx_of_def\<close>)

lemma retried:
  assumes "\<And>fp. B (cx_of a (trim session_id) caller req fp) effect"
  shows "spec J (request_capability_for_principal_owned_with_retry env a session_id caller req owner effect) D E"
proof -
  have "custody a (current_source a)" by (auto simp: custody_def current_source_def split: sum.splits)
  then show ?thesis
    unfolding request_capability_for_principal_owned_with_retry_def Let_def
    by (intro spec_if spec_refuse J_E spec_then[OF ensured] denied sourced assms) (simp_all add: cx_of_def same_id)
qed

lemma ask_entered:
  assumes "\<And>fp. B (cx_of a (trim session_id) caller req fp) effect"
  shows "spec J (enter_refusable env a session_id caller req owner effect) D E"
proof -
  have "spec J (deny_pre_sentence env a session caller req owner reason authority) D E" for session reason authority
    unfolding deny_pre_sentence_def by (rule spec_then[OF ensured denied]) (simp add: cx_of_def same_id)
  then show ?thesis
    using retried[OF assms] by (auto simp: enter_refusable_def agent_pre_sentence_refusal_def split: option.splits if_splits)
qed

lemma ask_answered:
  assumes "\<And>fp. B (cx_of a (trim (way_session w)) (way_caller w) req fp) (way_effect w)"
  shows "spec J (ask env a req w) D E"
proof -
  have peer: "spec J (require_session_open session_id required peer) (\<lambda>_. J) E" for session_id required peer
    by (auto simp: spec_def require_session_open_def intro: J_E)
  have "custody a (supplied_source env a rules)" for rules
    by (auto simp: custody_def supplied_source_def Let_def split: sum.splits if_splits)
  then show ?thesis
    using assms ask_entered[of "way_session w" "way_caller w" req] retried[of "way_session w" "way_caller w" req]
      sourced[of _ "way_session w" "way_caller w" req]
    by (cases w) (auto simp: ask_defs intro: spec_then[OF peer])
qed

end

end
