(* ===== verification/Request_Life.thy ===== *)
theory Request_Life
  imports Request_Contracts
begin

text \<open>
  A request keeps the invariant of the broker, whichever way it comes in and whatever it meets: the contracts of
  \<open>Request_Contracts\<close> at the invariant of \<open>Grant_Contracts\<close>. The identifiers of the request and of its grant are
  new, as the random ones of the source are.
\<close>

section \<open>Storing a grant\<close>

lemma spec_insert:
  assumes "gd_status d \<noteq> Executed"
  shows "spec (\<lambda>st. life_inv clock st \<and> fresh_ids st gid (gd_request_id d)) (insert_grant env d gid now stamp)
    (\<lambda>_. life_inv clock) (life_inv clock)"
proof -
  have g: "sg_request_id (drafted_grant env d gid desc now stamp) = gd_request_id d"
    "sg_status (drafted_grant env d gid desc now stamp) = gd_status d" for desc
    by (simp_all add: drafted_grant_def Let_def)
  let ?P = "\<lambda>st. life_inv clock st \<and> fresh_ids st gid (gd_request_id d)"
  have wr: "spec ?P (write_store (\<lambda>st. st\<lparr>bs_ids := bs_ids st @ [gid],
      bs_grants := (bs_grants st)(gid \<mapsto> drafted_grant env d gid desc now stamp)\<rparr>)) (\<lambda>_. life_inv clock) (life_inv clock)" for desc
  proof (rule spec_write)
    fix st fs assume p: "?P st"
    then have "?P (st\<lparr>bs_faults := fs\<rparr>)" by (simp add: fresh_ids_def)
    then show "life_inv clock ((st\<lparr>bs_faults := fs\<rparr>)\<lparr>bs_ids := bs_ids (st\<lparr>bs_faults := fs\<rparr>) @ [gid],
        bs_grants := (bs_grants (st\<lparr>bs_faults := fs\<rparr>))(gid \<mapsto> drafted_grant env d gid desc now stamp)\<rparr>)"
      by (intro inv_insert) (use assms g in simp_all)
  qed simp
  have chk: "spec ?P (\<lambda>st. (st, if bs_grants st gid = None then Ok () else Err StoreFault)) (\<lambda>_. ?P) (life_inv clock)"
    by (simp add: spec_def)
  show ?thesis
    unfolding insert_grant_def
    by (rule spec_then[OF spec_lift[where Q = "\<lambda>_. ?P"]], simp, simp, rule spec_then[OF spec_lift[where Q = "\<lambda>_. ?P"]], simp, simp,
        rule spec_then[OF spec_unless[where Q = "\<lambda>_. ?P"]], simp, simp, rule spec_then[OF chk wr])
qed

lemma insert_keeps:
  assumes "life_inv clock st" "fresh_ids st gid (gd_request_id d)" "gd_status d \<noteq> Executed"
  shows "life_inv clock (fst (insert_grant env d gid now stamp st))"
  using spec_final[OF spec_insert[OF assms(3)]] assms(1,2) by blast

section \<open>What is new stays new\<close>

lemma spec_conj: "spec P h Q E \<Longrightarrow> spec P' h Q' E' \<Longrightarrow> spec (\<lambda>st. P st \<and> P' st) h (\<lambda>a st. Q a st \<and> Q' a st) (\<lambda>st. E st \<and> E' st)"
  by (fastforce simp: spec_def split: prod.splits sum.splits)

lemma fresh_faults [simp]: "fresh_ids (st\<lparr>bs_faults := fs\<rparr>) gid rid = fresh_ids st gid rid"
  "fresh_ids (st\<lparr>bs_sessions := ss\<rparr>) gid rid = fresh_ids st gid rid"
  by (simp_all add: fresh_ids_def)

lemma fresh_other_row: "fresh_ids st gid rid \<Longrightarrow> other_type (ar_type r) \<Longrightarrow> fresh_ids (st\<lparr>bs_log := bs_log st @ [r]\<rparr>) gid rid"
  by (auto simp: fresh_ids_def other_type_def terminal_row_def)

text \<open>The release of another grant's debit does not speak of the new grant.\<close>

lemma fresh_release_row:
  assumes "fresh_ids st gid rid" "i \<noteq> gid" "ar_data r = redacted_for_record (release_data m agg i cause) secrets" "\<not> terminal_row r"
  shows "fresh_ids (st\<lparr>bs_log := bs_log st @ [r]\<rparr>) gid rid"
proof -
  let ?es = "[(''mint_event_id'', JString m), (''aggregate_id'', JString agg), (''grant_id'', JString i), (''cause'', JString (cause_str cause))]"
  have ids: "plain gid" "plain rid" using assms(1) by (simp_all add: fresh_ids_def)
  have "jstr (ar_data r) ''grant_id'' \<noteq> Some gid"
    using recorded_text[of ?es secrets "''grant_id''" gid i] assms(2,3) ids by (auto simp: release_data_def says_def)
  moreover have "jget (redacted_for_record (JObject ?es) secrets) ''request_id'' = None"
    using redacted_get[of ?es secrets "''request_id''"] by (cases "jget (redacted_for_record (JObject ?es) secrets) ''request_id''") auto
  then have "jstr (ar_data r) ''request_id'' \<noteq> Some rid" using assms(3) by (simp add: jstr_def release_data_def)
  ultimately have "\<not> speaks_of gid rid r" by (auto simp: speaks_of_def)
  then show ?thesis using assms(1) by (auto simp: fresh_ids_def)
qed

lemma fresh_release: "i \<noteq> gid \<Longrightarrow> spec (\<lambda>st. fresh_ids st gid rid) (release_budget env i cause) (\<lambda>_ st. fresh_ids st gid rid) (\<lambda>st. fresh_ids st gid rid)"
proof -
  assume i: "i \<noteq> gid"
  let ?F = "\<lambda>st. fresh_ids st gid rid"
  have rel: "spec ?F (record_row env None ''budget_release'' (release_data m agg i cause) secrets) (\<lambda>_. ?F) ?F" for m agg secrets
  proof (rule spec_record)
    fix st fs and r :: audit_row
    assume f: "?F st" and r: "ar_type r = ''budget_release''" "ar_data r = redacted_for_record (release_data m agg i cause) secrets"
    have "?F (st\<lparr>bs_faults := fs\<rparr>\<lparr>bs_log := bs_log (st\<lparr>bs_faults := fs\<rparr>) @ [r]\<rparr>)"
      by (rule fresh_release_row[OF _ i r(2)]) (use f r(1) in \<open>simp_all add: terminal_row_def\<close>)
    then show "?F (st\<lparr>bs_faults := fs, bs_log := bs_log st @ [r]\<rparr>)" by simp
  qed simp
  have "spec ?F (then_do (all_secrets env) (\<lambda>secrets. record_row env None ''budget_release'' (release_data m agg i cause) secrets)) (\<lambda>_. ?F) ?F" for m agg
    by (rule spec_then[OF spec_secrets rel])
  then show ?thesis
    unfolding spec_def[of _ "release_budget env i cause"] release_budget_def
    by (auto simp: spec_def split: sum.splits option.splits)
qed

lemma impossible: "(\<And>st. \<not> P st) \<Longrightarrow> spec P h Q E"
  by (simp add: spec_def)

lemma fresh_reconcile:
  "spec (\<lambda>st. fresh_ids st gid rid \<and> bs_grants st i = Some g) (reconcile_terminal_execution env i g)
     (\<lambda>_ st. fresh_ids st gid rid) (\<lambda>st. fresh_ids st gid rid)"
proof (cases "i = gid")
  case True
  then show ?thesis by (intro impossible) (auto simp: fresh_ids_def)
next
  case False
  let ?F = "\<lambda>st. fresh_ids st gid rid"
  have read: "spec (\<lambda>st. ?F st \<and> bs_grants st i = Some g) (verified_in_process_terminal_execution env i g)
      (\<lambda>_. ?F) ?F"
    by (auto simp: spec_def verified_in_process_terminal_execution_def then_do_def read_money_def lift_result_def split: prod.splits sum.splits)
  have flip: "spec ?F (update_grant i [Executing] (\<lambda>row. row\<lparr>sg_status := Executed, sg_digest := d\<rparr>)) (\<lambda>_. ?F) ?F" for d
  proof (rule spec_update)
    fix st h fs assume "?F st" "bs_grants st i = Some h"
    then show "?F (st\<lparr>bs_faults := fs, bs_grants := (bs_grants st)(i \<mapsto> h\<lparr>sg_status := Executed, sg_digest := d\<rparr>)\<rparr>)"
      using False by (auto simp: fresh_ids_def)
  qed simp_all
  have rest: "spec ?F (then_do (if sg_status g = Executing then update_grant i [Executing] (\<lambda>row. row\<lparr>sg_status := Executed,
        sg_digest := redigest (ee_keys env) i g ''executed''\<rparr>) else give True) (\<lambda>_.
      then_do (if pre then release_budget env i PreInvocationTerminalFailure else give ()) (\<lambda>_. give (Some pre)))) (\<lambda>_. ?F) ?F" for pre
    by (rule spec_then[where R = "\<lambda>_. ?F"], rule spec_if, rule flip, rule spec_give, assumption,
        rule spec_then[where R = "\<lambda>_. ?F"], rule spec_if, rule fresh_release[OF False], (rule spec_give, assumption)+)
  show ?thesis
    unfolding reconcile_terminal_execution_def
  proof (rule spec_then[OF read])
    fix evidence show "spec ?F (case evidence of None \<Rightarrow> give None | Some pre_effect \<Rightarrow>
        then_do (if sg_status g = Executing then update_grant i [Executing] (\<lambda>row. row\<lparr>sg_status := Executed,
          sg_digest := redigest (ee_keys env) i g ''executed''\<rparr>) else give True) (\<lambda>_.
        then_do (if pre_effect then release_budget env i PreInvocationTerminalFailure else give ()) (\<lambda>_. give (Some pre_effect)))) (\<lambda>_. ?F) ?F"
      using rest by (cases evidence) (auto intro: spec_give)
  qed
qed

section \<open>The invariant through a request\<close>

lemma inv_requests [simp]: "life_inv clock (st\<lparr>bs_requests := qs\<rparr>) = life_inv clock st" "life_inv clock (st\<lparr>bs_sessions := ss\<rparr>) = life_inv clock st"
  by (simp_all add: life_inv_defs)

lemma inv_other_row: "life_inv clock st \<Longrightarrow> other_type (ar_type r) \<Longrightarrow> life_inv clock (st\<lparr>bs_log := bs_log st @ [r]\<rparr>)"
  by (rule inv_row) (auto intro: row_fits_other simp: other_type_def terminal_row_def)

lemma inv_record_request: "spec (life_inv clock) (record_request env cx req decision reason matched dr) (\<lambda>_. life_inv clock) (life_inv clock)"
  unfolding record_request_def by (rule spec_write) simp_all

lemma inv_deny: "spec (life_inv clock) (deny env cx req reason cls scope hint secrets dr) (\<lambda>_. life_inv clock) (life_inv clock)"
  unfolding deny_def
  by (rule spec_then[OF spec_record_other[OF steady_inv]], simp, rule spec_then[OF inv_record_request], rule spec_give, assumption)

abbreviation awaiting :: "int \<Rightarrow> request_answers \<Rightarrow> broker_store \<Rightarrow> bool" where
  "awaiting clock a st \<equiv> life_inv clock st \<and> fresh_ids st (qa_grant_id a) (qa_request_id a)"

interpretation request_life: mint_frame env "qa_request_id a" "awaiting clock a" "\<lambda>_. life_inv clock" "life_inv clock" "life_inv clock" a "\<lambda>_ _. True"
  for env clock a
proof
  show "awaiting clock a st \<Longrightarrow> other_type (ar_type r) \<Longrightarrow> awaiting clock a (st\<lparr>bs_log := bs_log st @ [r]\<rparr>)" for st r
    by (auto intro: inv_other_row fresh_other_row)
  show "life_inv clock st \<Longrightarrow> other_type (ar_type r) \<Longrightarrow> life_inv clock (st\<lparr>bs_log := bs_log st @ [r]\<rparr>)" for st r
    by (rule inv_other_row)
  show "spec (awaiting clock a) (deny env cx req reason cls scope hint secrets dr) (\<lambda>_. life_inv clock) (life_inv clock)"
    for cx req reason cls scope hint secrets dr by (rule spec_pre[OF inv_deny]) simp
  show "spec (life_inv clock) (deny env cx req reason cls scope hint secrets dr) (\<lambda>_. life_inv clock) (life_inv clock)"
    for cx req reason cls scope hint secrets dr by (rule inv_deny)
  show "spec (awaiting clock a) (authenticate_retry_parent (qe_exec env) k) (\<lambda>p st. awaiting clock a st \<and> authentic (qe_exec env) k p)
      (awaiting clock a)" for k
  proof (rule spec_post[OF parent_authentic])
    fix gid g
    have "spec (\<lambda>st. at_rest clock gid g st \<and> (fresh_ids st (qa_grant_id a) (qa_request_id a) \<and> bs_grants st gid = Some g))
        (reconcile_terminal_execution (qe_exec env) gid g) (\<lambda>_. awaiting clock a) (awaiting clock a)"
      by (rule spec_post[OF spec_err[OF spec_conj[OF spec_reconcile fresh_reconcile]]]) simp_all
    then show "spec (\<lambda>st. awaiting clock a st \<and> bs_grants st gid = Some g) (reconcile_terminal_execution (qe_exec env) gid g)
        (\<lambda>_. awaiting clock a) (awaiting clock a)"
      by (rule spec_pre) (simp add: at_rest_def)
  qed simp
  show "spec (awaiting clock a) (release_budget (qe_exec env) (qa_grant_id a) EvidenceStaleBeforeGrant) (\<lambda>_. life_inv clock) (life_inv clock)"
    by (rule spec_pre[OF spec_release]) (auto simp: grant_settled_def spendable_def fresh_ids_def life_inv_def calls_ok_def)
  fix cx source effect parent resource expiry money evidence_json and gv :: gated_verdict
  assume "request_allowed env a cx source effect parent resource (gv_verdict gv)" "cx_request_id cx = qa_request_id a"
  then have d: "gd_request_id (approved_draft env cx resource evidence_json money expiry) = qa_request_id a"
    "gd_status (approved_draft env cx resource evidence_json money expiry) \<noteq> Executed" by (simp_all add: approved_draft_def)
  have "steps (awaiting clock a) (store_approved env a cx resource evidence_json (gv_verdict gv) money expiry) (\<lambda>_. life_inv clock)
      (\<lambda>_. life_inv clock) (life_inv clock)"
    unfolding store_approved_def
    by (rule steps_then[OF spec_insert[OF d(2), of clock, unfolded d(1)]], rule steps_then[OF inv_record_request], rule steps_give)
  then show "steps (\<lambda>st. awaiting clock a st \<and> warranted (awaiting clock a) env a cx source parent resource gv st)
      (store_approved env a cx resource evidence_json (gv_verdict gv) money expiry) (\<lambda>_. life_inv clock) (\<lambda>_. life_inv clock) (life_inv clock)"
    by (rule steps_pre) simp
qed simp_all

lemma ask_keeps:
  assumes "life_inv clock st" "fresh_ids st (qa_grant_id a) (qa_request_id a)"
  shows "life_inv clock (fst (ask env a req w st))"
  proof -
  have "spec (awaiting clock a) (ask env a req w) (\<lambda>_. life_inv clock) (life_inv clock)" by (rule request_life.ask_answered) simp
  then show ?thesis using spec_final assms by fast
qed

end
