(* ===== verification/Grant_Lifecycle.thy ===== *)
theory Grant_Lifecycle
  imports Request_Life
begin

text \<open>
  The life of a grant across runs, sweeps and crashes. The steps of the system are the handlers of
  \<open>Grant_Execution\<close>, and the invariant of \<open>Grant_Contracts\<close> holds in all the states they reach. Besides, what has to
  hold when an effect leaves the broker, and that an unobstructed run ends.
\<close>

section \<open>What only the effect changes\<close>

definition keeps :: "'a handler \<Rightarrow> bool" where
  "keeps h \<longleftrightarrow> (\<forall>st. bs_calls (fst (h st)) = bs_calls st \<and> prefix (bs_log st) (bs_log (fst (h st))))"

named_theorems keeps_rules

lemma keeps_basic [keeps_rules]: "keeps (give a)" "keeps (refuse e)" "keeps (lift_result f r)" "keeps (unless b e)" "keeps (load_grant gid)"
  by (simp_all add: keeps_def give_def refuse_def lift_result_def unless_def load_grant_def)

lemma keeps_then [keeps_rules]: "keeps m \<Longrightarrow> (\<And>a. keeps (f a)) \<Longrightarrow> keeps (then_do m f)"
  unfolding keeps_def then_do_def by (auto split: prod.splits sum.splits; metis fst_conv prefix_order.trans)

lemma keeps_if [keeps_rules]: "(b \<Longrightarrow> keeps h) \<Longrightarrow> (\<not> b \<Longrightarrow> keeps k) \<Longrightarrow> keeps (if b then h else k)"
  by simp

lemma keeps_option [keeps_rules]: "keeps h \<Longrightarrow> (\<And>a. keeps (k a)) \<Longrightarrow> keeps (case v of None \<Rightarrow> h | Some a \<Rightarrow> k a)"
  by (cases v) simp_all

lemma keeps_sum [keeps_rules]: "(\<And>e. keeps (h e)) \<Longrightarrow> (\<And>a. keeps (k a)) \<Longrightarrow> keeps (case v of Inl e \<Rightarrow> h e | Inr a \<Rightarrow> k a)"
  by (cases v) simp_all

lemma keeps_write:
  assumes "\<And>st. bs_calls (f st) = bs_calls st \<and> prefix (bs_log st) (bs_log (f st))"
  shows "keeps (write_store f)"
proof -
  have "bs_calls (f (st\<lparr>bs_faults := fs\<rparr>)) = bs_calls st \<and> prefix (bs_log st) (bs_log (f (st\<lparr>bs_faults := fs\<rparr>)))" for st fs
    using assms[of "st\<lparr>bs_faults := fs\<rparr>"] by simp
  then show ?thesis by (simp add: keeps_def write_store_def split: list.splits bool.splits)
qed

lemma keeps_record [keeps_rules]: "keeps (record_row env s ty data secrets)"
  unfolding record_row_def by (rule keeps_write) simp

lemma keeps_update [keeps_rules]: "keeps (update_grant gid from f)"
proof -
  have "keeps (then_do (write_store w) (\<lambda>_. give b))" if "\<And>st. bs_calls (w st) = bs_calls st \<and> prefix (bs_log st) (bs_log (w st))" for w and b :: bool
    by (intro keeps_then keeps_write keeps_basic that)
  from this[of "\<lambda>st. st" False] this[of "\<lambda>st. st\<lparr>bs_grants := (bs_grants st)(gid \<mapsto> f g)\<rparr>" True for g]
  show ?thesis unfolding keeps_def update_grant_def by (auto split: option.splits)
qed

lemma keeps_secrets [keeps_rules]: "keeps (all_secrets env)"
  unfolding all_secrets_def by (rule keeps_basic)

lemma keeps_release [keeps_rules]: "keeps (release_budget env gid cause)"
proof -
  have "keeps (then_do (all_secrets env) (\<lambda>secrets. record_row env None ''budget_release'' (release_data m a gid cause) secrets))" for m a
    by (intro keeps_rules)
  then show ?thesis unfolding keeps_def release_budget_def by (auto split: sum.splits option.splits)
qed

lemma keeps_expire [keeps_rules]: "keeps (expire_grant env gid g)"
  unfolding expire_grant_def by (intro keeps_rules)

lemma keeps_terminalize [keeps_rules]: "keeps (terminalize_pre_invocation_failure env gid g opened deadline secrets outcome session)"
  unfolding terminalize_pre_invocation_failure_def read_money_def flip_executed_def by (intro keeps_rules)

lemma keeps_phases [keeps_rules]:
  "keeps (refuse_recorded env gid g reason e)" "keeps (end_before_effect env x gid g secrets outcome e)"
  "keeps (integrity env gid g)" "keeps (read_money env g)" "keeps (check_status gid g)" "keeps (check_deadline env gid g d now)"
  "keeps (flip_executed env gid g opened deadline)"
  unfolding refuse_recorded_def record_capability_execution_refused_def end_before_effect_def integrity_def read_money_def
    check_status_def check_deadline_def flip_executed_def
  by (intro keeps_rules)+

lemma keeps_admission [keeps_rules]:
  "keeps (check_provenance env gid g)" "keeps (check_authority_before env x gid g)" "keeps (check_recipe env ev gid g)"
  "keeps (check_call env x gid g money)" "keeps (check_after_claim env x gid g secrets)"
  "keeps (claim_grant env x ev gid g)" "keeps (record_effect_start env x call gid g money secrets)"
  unfolding check_provenance_def check_authority_before_def check_recipe_def check_call_def check_after_claim_def
    claim_grant_def record_effect_start_def Let_def
  by (intro keeps_rules)+

lemma keeps_preconditions [keeps_rules]: "keeps (run_preconditions env x ev gid g money secrets)"
  unfolding run_preconditions_def by (intro keeps_if keeps_basic; cases "xa_preconditions x"; simp; intro keeps_rules)

lemma keeps_admit [keeps_rules]: "keeps (admit_claim env x gid)"
  unfolding admit_claim_def by (intro keeps_rules)

lemma keeps_retain [keeps_rules]: "keeps (retain_artifact env x g r)"
proof -
  have "keeps (store_artifact_capped env x g)"
    unfolding store_artifact_capped_def split_def by (intro keeps_rules keeps_write) simp
  then show ?thesis unfolding keeps_def retain_artifact_def
    by (auto split: option.splits prod.splits sum.splits) (metis fst_conv)+
qed

lemma keeps_finish [keeps_rules]: "keeps (finish_error env x gid g money secrets invoked e c)"
  "keeps (finish_reply env x gid g money secrets invoked r)"
  unfolding finish_error_def finish_reply_def Let_def by (intro keeps_rules)+

lemma calls_thenE:
  assumes "keeps m" "then_do m f st = (st', r)" "bs_calls st' \<noteq> bs_calls st"
  obtains st1 a where "m st = (st1, Inr a)" "bs_calls st1 = bs_calls st" "f a st1 = (st', r)"
proof -
  obtain st1 v where m: "m st = (st1, v)" by fastforce
  then have "bs_calls st1 = bs_calls st" using assms(1) unfolding keeps_def by (metis fst_conv)
  with m assms(2,3) that show thesis by (cases v) (auto simp: then_do_def)
qed

lemma keepsD: "keeps h \<Longrightarrow> h st = (st', r) \<Longrightarrow> bs_calls st' = bs_calls st \<and> prefix (bs_log st) (bs_log st')"
  unfolding keeps_def by (metis fst_conv)

lemma end_before_Ok: "end_before_effect env x gid g secrets outcome e st = (st', Inr v) \<longleftrightarrow> False"
  by (simp add: end_before_effect_def then_do_Ok handler_Ok)

lemma after_claim_Ok: "check_after_claim env x gid g secrets st = (st', Inr u) \<Longrightarrow>
    \<not> xa_locked_post_claim x \<and> xa_authority_post x = Some (sg_policy_fingerprint g)"
  by (auto simp: check_after_claim_def end_before_Ok split: if_splits option.splits)

lemma preconditions_Ok: "run_preconditions env x ev gid g money secrets st = (st', Inr u) \<Longrightarrow>
    ee_templates env (sg_provider g) (sg_action g) = Some l \<Longrightarrow> tf_has_preconditions l \<Longrightarrow> xa_preconditions x = CheckPassed"
  by (cases "xa_preconditions x") (auto simp: run_preconditions_def handler_Ok then_do_Ok end_before_Ok split: if_splits)

lemma record_Ok: "record_row env s ty data secrets st = (st', Inr u) \<Longrightarrow>
    \<exists>r. bs_log st' = bs_log st @ [r] \<and> ar_type r = ty \<and> ar_data r = redacted_for_record data secrets"
  by (auto simp: record_row_def write_store_def split: list.splits bool.splits)

lemma redact_nothing [simp]: "redact_str s [] = s"
  by (simp add: redact_str_def)

lemma start_row_names:
  "jstr (redacted_for_record (effect_start_data env x ev gid g money safe) []) ''grant_id'' = Some gid"
  "jstr (redacted_for_record (effect_start_data env x ev gid g money safe) []) ''authority_digest'' = Some (sg_policy_fingerprint g)"
proof -
  obtain es where d: "effect_start_data env x ev gid g money safe = JObject es" and dist: "distinct (map fst es)"
    and f: "map_of es ''grant_id'' = Some (JString gid)" "map_of es ''authority_digest'' = Some (JString (sg_policy_fingerprint g))"
    by (cases ev; cases "effect_id money") (simp_all add: effect_start_data_def)
  let ?es = "map (\<lambda>(key, child). (key, redact_value_refs child [])) es"
  have "fold (\<lambda>(key, child) m. bt_insert (redact_str key []) child m) ?es [] = fold (\<lambda>(k, v) m. bt_insert k v m) ?es []" by simp
  moreover have "map_of (fold (\<lambda>(k, v) m. bt_insert k v m) ?es []) = map_of ?es"
    using fold_insert_map_of[of "[]" ?es] dist by (simp add: bt_wf_def case_prod_beta comp_def)
  moreover have "map_of ?es k = map_option (\<lambda>v. redact_value_refs v []) (map_of es k)" for k
    by (induction es) auto
  ultimately show "jstr (redacted_for_record (effect_start_data env x ev gid g money safe) []) ''grant_id'' = Some gid"
    "jstr (redacted_for_record (effect_start_data env x ev gid g money safe) []) ''authority_digest'' = Some (sg_policy_fingerprint g)"
    by (simp_all add: d redacted_for_record_def redacted_def redact_value_def jstr_def jget_def f)
qed

definition started :: "string \<Rightarrow> string \<Rightarrow> audit_row \<Rightarrow> bool" where
  "started gid digest r \<longleftrightarrow> ar_type r = ''capability_effect_starting'' \<and> jstr (ar_data r) ''grant_id'' = Some gid \<and>
     jstr (ar_data r) ''authority_digest'' = Some digest"

lemma effect_start_Ok: "record_effect_start env x call gid g money secrets st = (st', Inr u) \<Longrightarrow>
    list_ex (started gid (sg_policy_fingerprint g)) (bs_log st')"
  by (auto simp: record_effect_start_def Let_def then_do_Ok handler_Ok started_def start_row_names list_ex_iff dest!: record_Ok)

lemma invoke_effect:
  assumes "invoke env x call gid g st = (st', r)"
  shows "bs_calls st' \<noteq> bs_calls st \<Longrightarrow> bs_calls st' = bs_calls st @ [gid]" "bs_log st' = bs_log st" "\<exists>v. r = Inr v"
    "bs_calls st' \<noteq> bs_calls st \<Longrightarrow> (case ee_templates env (sg_provider g) (sg_action g) of None \<Rightarrow> False | Some l \<Rightarrow> tf_relay l) \<or> \<not> xa_locked_egress x"
  using assms by (auto simp: invoke_def egress_def call_provider_def give_def split: if_splits)

definition cleared :: "exec_env \<Rightarrow> exec_answers \<Rightarrow> stored_grant \<Rightarrow> bool" where
  "cleared env x g \<longleftrightarrow> \<not> xa_locked_post_claim x \<and> xa_authority_post x = Some (sg_policy_fingerprint g) \<and>
     (case ee_templates env (sg_provider g) (sg_action g) of
        None \<Rightarrow> \<not> xa_locked_egress x
      | Some l \<Rightarrow> (tf_relay l \<or> \<not> xa_locked_egress x) \<and> (tf_has_preconditions l \<longrightarrow> xa_preconditions x = CheckPassed))"

lemma run_claimed_effect:
  assumes "run_claimed env x gid g money call secrets st = (st', r)" "bs_calls st' \<noteq> bs_calls st"
  shows "cleared env x g" "bs_calls st' = bs_calls st @ [gid]" "list_ex (started gid (sg_policy_fingerprint g)) (bs_log st')"
proof -
  from assms obtain st1 u1 where 1: "check_after_claim env x gid g secrets st = (st1, Inr u1)" "bs_calls st1 = bs_calls st"
    "then_do (run_preconditions env x (cc_evidence call) gid g money secrets) (\<lambda>_. then_do (record_effect_start env x call gid g money secrets) (\<lambda>_.
      then_do (invoke env x call gid g) (\<lambda>(invoked, outcome). case outcome of
        Inl (e, c) \<Rightarrow> finish_error env x gid g money secrets invoked e c
      | Inr r \<Rightarrow> finish_reply env x gid g money secrets invoked r))) st1 = (st', r)"
    unfolding run_claimed_def by (rule calls_thenE[OF keeps_admission(5)])
  obtain st2 u2 where 2: "run_preconditions env x (cc_evidence call) gid g money secrets st1 = (st2, Inr u2)" "bs_calls st2 = bs_calls st1"
    "then_do (record_effect_start env x call gid g money secrets) (\<lambda>_. then_do (invoke env x call gid g) (\<lambda>(invoked, outcome). case outcome of
        Inl (e, c) \<Rightarrow> finish_error env x gid g money secrets invoked e c
      | Inr r \<Rightarrow> finish_reply env x gid g money secrets invoked r)) st2 = (st', r)"
    by (rule calls_thenE[OF keeps_preconditions 1(3)]) (use assms(2) 1(2) in simp)
  obtain st3 u3 where 3: "record_effect_start env x call gid g money secrets st2 = (st3, Inr u3)" "bs_calls st3 = bs_calls st2"
    "then_do (invoke env x call gid g) (\<lambda>(invoked, outcome). case outcome of
        Inl (e, c) \<Rightarrow> finish_error env x gid g money secrets invoked e c
      | Inr r \<Rightarrow> finish_reply env x gid g money secrets invoked r) st3 = (st', r)"
    by (rule calls_thenE[OF keeps_admission(7) 2(3)]) (use assms(2) 1(2) 2(2) in simp)
  obtain st4 v where inv: "invoke env x call gid g st3 = (st4, v)" by fastforce
  note ie = invoke_effect[OF inv]
  obtain invoked outcome where v: "v = Inr (invoked, outcome)" using ie(3) by fastforce
  have "bs_calls st' = bs_calls st4 \<and> prefix (bs_log st4) (bs_log st')"
  proof (cases outcome)
    case (Inl ec)
    then show ?thesis using 3(3) by (cases ec) (auto simp: then_do_def inv v dest: keepsD[OF keeps_finish(1)])
  next
    case (Inr rep)
    then show ?thesis using 3(3) by (auto simp: then_do_def inv v dest: keepsD[OF keeps_finish(2)])
  qed
  then have same: "bs_calls st' = bs_calls st4" "prefix (bs_log st3) (bs_log st')" using ie(2) by simp_all
  then have ne: "bs_calls st4 \<noteq> bs_calls st3" using assms(2) 1(2) 2(2) 3(2) by simp
  show "bs_calls st' = bs_calls st @ [gid]" using ie(1)[OF ne] same(1) 1(2) 2(2) 3(2) by simp
  show "list_ex (started gid (sg_policy_fingerprint g)) (bs_log st')"
    using effect_start_Ok[OF 3(1)] same(2) by (auto simp: list_ex_iff dest: set_mono_prefix)
  show "cleared env x g"
    using after_claim_Ok[OF 1(1)] preconditions_Ok[OF 2(1)] ie(4)[OF ne] by (auto simp: cleared_def split: option.splits)
qed

text \<open>
  C2. Nothing leaves the broker unless everything that authorises it held. When a run hands a grant to its
  provider, the grant in the store was approved by a sentence and authentic (its digest covers the row),
  not past its expiry or its retry deadline, claimed outside a lockdown and outside a repoint barrier, for
  a provider that is not disabled, with the recipe and the descriptor it was approved for; the authority it
  was approved under was read before and again after the claim and was the same both times; its evidence
  passed, and its preconditions when it has any; and the log has the row that announces the effect, with
  that authority. The run hands it over once.
\<close>

theorem egress_authorised:
  assumes "claim_and_run env x gid st = (st', r)" "bs_calls st' \<noteq> bs_calls st"
  shows "\<exists>g money resource evidence. bs_grants st gid = Some g \<and> authorised env x gid g money \<and>
    verify_grant_evidence env x g resource = Ok evidence \<and> cleared env x g \<and>
    bs_calls st' = bs_calls st @ [gid] \<and> list_ex (started gid (sg_policy_fingerprint g)) (bs_log st')"
proof -
  obtain st0 t where adm: "admit_claim env x gid st = (st0, Inr t)" and run0: "(case t of (g, money, call) \<Rightarrow>
      then_do (all_secrets env) (\<lambda>vault. let secrets = run_secrets money vault in
      then_do (claim_grant env x (cc_evidence call) gid g) (\<lambda>_. run_claimed env x gid g money call secrets))) st0 = (st', r)"
    using assms unfolding claim_and_run_def by (rule calls_thenE[OF keeps_admit])
  obtain g money call where t: "t = (g, money, call)" by (cases t)
  note ok = admit_Ok[OF adm[unfolded t]]
  have run: "then_do (all_secrets env) (\<lambda>vault. then_do (claim_grant env x (cc_evidence call) gid g)
      (\<lambda>_. run_claimed env x gid g money call (run_secrets money vault))) st = (st', r)"
    using run0 by (simp add: t ok(1) Let_def)
  obtain st1 vault where 1: "bs_calls st1 = bs_calls st"
    "then_do (claim_grant env x (cc_evidence call) gid g) (\<lambda>_. run_claimed env x gid g money call (run_secrets money vault)) st1 = (st', r)"
    using run assms(2) by (rule calls_thenE[OF keeps_secrets])
  obtain st2 where 2: "bs_calls st2 = bs_calls st1" "run_claimed env x gid g money call (run_secrets money vault) st2 = (st', r)"
    by (rule calls_thenE[OF keeps_admission(6) 1(2)]) (use assms(2) 1(1) in simp_all)
  have "bs_calls st' \<noteq> bs_calls st2" using assms(2) 1(1) 2(1) by simp
  from run_claimed_effect[OF 2(2) this] ok 1(1) 2(1) show ?thesis by metis
qed

section \<open>The system\<close>

text \<open>
  The ways a grant is run: by its id, by the operator with its request, by a session, by a principal, by
  both, and by an agent with its request. Each checks ownership and then claims.
\<close>

datatype entry = ById string | ByRequest string | InSession string string | ForPrincipal string string
  | ForPrincipalInSession string string string | AgentRequest string string

fun enter :: "exec_env \<Rightarrow> exec_answers \<Rightarrow> entry \<Rightarrow> execution_result handler" where
  "enter env x (ById gid) = claim_and_run env x gid"
| "enter env x (ByRequest req) = execute_capability_by_request_id env x req"
| "enter env x (InSession gid session) = execute_capability_in_session env x gid session"
| "enter env x (ForPrincipal gid owner) = execute_capability_for_principal env x gid owner"
| "enter env x (ForPrincipalInSession gid session owner) = execute_capability_for_principal_in_session env x gid session owner"
| "enter env x (AgentRequest req owner) = execute_request_for_principal env x req owner"

text \<open>Every entry either refuses without a write or is the claim of one grant, which the caller owns where it has to.\<close>

definition owns :: "entry \<Rightarrow> string \<Rightarrow> stored_grant \<Rightarrow> bool" where
  "owns e gid g = (case e of
      ById i \<Rightarrow> i = gid
    | ByRequest req \<Rightarrow> sg_request_id g = req
    | InSession i session \<Rightarrow> i = gid \<and> sg_session g = session
    | ForPrincipal i owner \<Rightarrow> i = gid \<and> sg_principal g = Some owner
    | ForPrincipalInSession i session owner \<Rightarrow> i = gid \<and> sg_session g = session \<and> sg_principal g = Some owner
    | AgentRequest req owner \<Rightarrow> sg_request_id g = req \<and> sg_principal g = Some owner)"

lemma resolve_cases:
  "resolve_grant_id_by_request_id req st = (st', r) \<Longrightarrow> st' = st \<and> (case r of Inl _ \<Rightarrow> True
     | Inr gid \<Rightarrow> \<exists>g. bs_grants st gid = Some g \<and> sg_request_id g = req)"
  by (auto simp: resolve_grant_id_by_request_id_def ok_or_def split: option.splits sum.splits dest!: found_member)

lemma enter_cases:
  "(\<exists>err. enter env x e st = (st, Inl err)) \<or>
   (\<exists>gid. enter env x e st = claim_and_run env x gid st \<and> (\<forall>g. bs_grants st gid = Some g \<longrightarrow> owns e gid g))"
proof (cases e)
  case (ByRequest req)
  obtain st1 r where res: "resolve_grant_id_by_request_id req st = (st1, r)" by fastforce
  from resolve_cases[OF res] show ?thesis
    by (cases r) (auto simp: ByRequest execute_capability_by_request_id_def then_do_def res owns_def intro!: exI[of _ "projr r"])
next
  case (AgentRequest req owner)
  obtain st1 r where res: "resolve_grant_id_by_request_id req st = (st1, r)" by fastforce
  from resolve_cases[OF res] show ?thesis
    by (cases r) (auto simp: AgentRequest execute_request_for_principal_def require_supplied_session_open_def require_principal_def then_do_def res owns_def load_grant_def
        unless_def refuse_def give_def ok_or_def split: option.splits if_splits intro!: exI[of _ "projr r"])
qed (auto simp: owns_def execute_capability_in_session_def execute_capability_for_principal_def
  execute_capability_for_principal_in_session_def require_session_def require_principal_def then_do_def load_grant_def unless_def
  refuse_def give_def ok_or_def split: option.splits if_splits)

text \<open>
  One step: the clock goes on (never back), writes begin to fail or to work, some other part of the
  broker records a row that is neither a terminal row nor a release, a grant is
  stored under new identifiers, or a debit is given back because its grant will not be stored, a capability is
  requested by one of the ways in, under new identifiers, a grant is run
  through one of its entries, or one of the sweeps and boot passes runs. What a request or a
  run meets is arbitrary, but for the clock of a run.
\<close>

inductive life_step :: "exec_env \<Rightarrow> int \<times> broker_store \<Rightarrow> int \<times> broker_store \<Rightarrow> bool" for env where
  Tick: "clock \<le> clock' \<Longrightarrow> life_step env (clock, st) (clock', st)"
| Faults: "life_step env (clock, st) (clock, st\<lparr>bs_faults := fs\<rparr>)"
| OtherRow: "\<not> terminal_row r \<Longrightarrow> ar_type r \<noteq> ''budget_release'' \<Longrightarrow>
    life_step env (clock, st) (clock, st\<lparr>bs_log := bs_log st @ [r]\<rparr>)"
| Store: "fresh_ids st gid (gd_request_id d) \<Longrightarrow> gd_status d \<noteq> Executed \<Longrightarrow>
    life_step env (clock, st) (clock, fst (insert_grant env d gid now stamp st))"
| Ask: "qe_exec q = env \<Longrightarrow> fresh_ids st (qa_grant_id a) (qa_request_id a) \<Longrightarrow>
    life_step env (clock, st) (clock, fst (ask q a req w st))"
| Run: "clock \<le> xa_now_expiry x \<Longrightarrow> life_step env (clock, st) (clock, fst (enter env x e st))"
| SweepLeases: "life_step env (clock, st) (clock, fst (sweep_overdue_leases env now st))"
| Reconcile: "life_step env (clock, st) (clock, reconcile_terminal_executions_on_boot env st)"
| SweepRequested: "life_step env (clock, st) (clock, sweep_expired_requested_grants env now st)"
| Cutover: "life_step env (clock, st) (clock, fst (terminalize_pre_sentence_grants_on_boot env st))"
| MintAbandoned: "bs_grants st gid = None \<Longrightarrow>
    life_step env (clock, st) (clock, fst (release_budget env gid EvidenceStaleBeforeGrant st))"
| SweepMints: "clock \<le> now \<Longrightarrow> life_step env (clock, st) (now, fst (sweep_expired_mints env now st))"

definition empty_store :: "broker_store \<Rightarrow> bool" where
  "empty_store st \<longleftrightarrow> bs_grants st = Map.empty \<and> bs_log st = [] \<and> bs_calls st = []"

definition life_state :: "int \<times> broker_store \<Rightarrow> bool" where
  "life_state s = life_inv (fst s) (snd s)"

lemma abandoned_mint_keeps: "life_inv clock st \<Longrightarrow> bs_grants st gid = None \<Longrightarrow> life_inv clock (fst (release_budget env gid cause st))"
  by (rule spec_final[OF spec_release]) (auto simp: grant_settled_def spendable_def life_inv_def calls_ok_def)

lemma life_step_keeps:
  assumes "life_step env s t" "life_state s"
  shows "life_state t"
  using assms
proof cases
  case (Run clock x st e)
  from enter_cases[of env x e st] Run assms(2) claim_and_run_keeps[of clock st x env] show ?thesis by (auto simp: life_state_def)
qed (use assms(2) in \<open>auto simp: life_state_def intro: inv_clock inv_row row_fits_other insert_keeps ask_keeps sweeps_keep cutover_keeps
  sweep_mints_keep abandoned_mint_keeps\<close>)

lemma empty_start: "empty_store (snd s) \<Longrightarrow> life_state s"
  by (simp add: life_state_def empty_store_def life_inv_defs)

text \<open>The invariant holds in every state the system reaches.\<close>

interpretation life: invariant_system "\<lambda>s. empty_store (snd s)" "life_step env" life_state for env
  by unfold_locales (use empty_start life_step_keeps in blast)+

lemma life_reachable: "empty_store st0 \<Longrightarrow> (life_step env)\<^sup>*\<^sup>* (clock0, st0) (clock, st) \<Longrightarrow> life_inv clock st"
  using life.inv_reachable[of "(clock0, st0)" env "(clock, st)"] by (simp add: life_state_def)

text \<open>
  C3. A grant reaches its provider at most once. In every state the broker reaches from an empty store -
  through requests and runs by any entry with any answers, sweeps, boot passes, lost writes and crashes between writes -
  no grant occurs twice among the effects, and each that occurs is a stored grant that was claimed.
\<close>

theorem grants_are_single_use:
  assumes "empty_store st0" "(life_step env)\<^sup>*\<^sup>* (clock0, st0) (clock, st)"
  shows "distinct (bs_calls st) \<and> list_all (\<lambda>i. case bs_grants st i of None \<Rightarrow> False | Some g \<Rightarrow> claimed g) (bs_calls st)"
  using life_reachable[OF assms(1,2)] assms
  by (auto simp: life_inv_def calls_ok_def list_all_iff)


text \<open>
  C9. The log does not lie about an effect. In every reachable state, a terminal row that speaks of a stored
  grant or of its request and says that the provider was not called is true: the grant is not among the
  effects and can no longer be claimed. And a grant is never executed without a terminal row for it.
\<close>

theorem terminal_rows_are_true:
  assumes "empty_store st0" "(life_step env)\<^sup>*\<^sup>* (clock0, st0) (clock, st)" "bs_grants st gid = Some g"
  shows "(list_ex (refused_before gid (sg_request_id g)) (bs_log st) \<longrightarrow> gid \<notin> set (bs_calls st) \<and> sg_status g \<noteq> Approved) \<and>
    (sg_status g = Executed \<longrightarrow> list_ex (terminal_for gid (sg_request_id g)) (bs_log st))"
  using life_reachable[OF assms(1,2)] assms
  by (auto simp: life_inv_def refusals_ok_def executed_ok_def)

section \<open>A run that meets no obstacle ends\<close>

lemma quiet_write: "bs_faults st = [] \<Longrightarrow> write_store f st = (f st, Ok ())"
  by (cases st) (simp add: write_store_def)

lemma quiet_record: "bs_faults st = [] \<Longrightarrow> \<exists>r. record_row env s ty data secrets st = (st\<lparr>bs_log := bs_log st @ [r]\<rparr>, Ok ()) \<and>
    ar_type r = ty \<and> ar_data r = redacted_for_record data secrets"
  unfolding record_row_def by (rule exI, rule conjI, simp only: quiet_write, rule conjI) simp_all

lemma quiet_update: "bs_faults st = [] \<Longrightarrow> bs_grants st gid = Some g \<Longrightarrow> sg_status g \<in> set from \<Longrightarrow>
    update_grant gid from f st = (st\<lparr>bs_grants := (bs_grants st)(gid \<mapsto> f g)\<rparr>, Ok True)"
  by (simp add: update_grant_def then_do_def quiet_write give_def)

lemma quiet_retain: "bs_faults st = [] \<Longrightarrow> \<exists>rows a. retain_artifact env x g r st = (st\<lparr>bs_log := bs_log st @ rows\<rparr>, Ok a)"
proof -
  assume q: "bs_faults st = []"
  have "\<exists>rows v. store_artifact_capped env x g st = (st\<lparr>bs_log := bs_log st @ rows\<rparr>, v)"
  proof (cases "xa_staged x")
    case None
    then show ?thesis by (intro exI[of _ "[]"]) (simp add: store_artifact_capped_def then_do_def lift_result_def)
  next
    case (Some t)
    show ?thesis
    proof (cases "ee_secrets env")
      case None
      then show ?thesis using Some
        by (intro exI[of _ "[]"]) (simp add: store_artifact_capped_def then_do_def lift_result_def all_secrets_def split_def)
    next
      case (Some secrets)
      with \<open>xa_staged x = _\<close> q show ?thesis
        by (simp add: store_artifact_capped_def then_do_def lift_result_def all_secrets_def split_def record_row_def quiet_write give_def)
          blast
    qed
  qed
  then obtain rows v where art: "store_artifact_capped env x g st = (st\<lparr>bs_log := bs_log st @ rows\<rparr>, v)" by blast
  show ?thesis
  proof (cases "pr_retained r")
    case None
    then show ?thesis by (intro exI[of _ "[]"]) (simp add: retain_artifact_def)
  next
    case (Some n)
    then show ?thesis by (intro exI[of _ rows]; cases v) (simp_all add: retain_artifact_def art)
  qed
qed

definition unobstructed :: "exec_env \<Rightarrow> exec_answers \<Rightarrow> stored_grant \<Rightarrow> money_metadata \<Rightarrow> checked_call \<Rightarrow> provider_reply \<Rightarrow> bool" where
  "unobstructed env x g money call reply \<longleftrightarrow> ee_secrets env \<noteq> None \<and> cleared env x g \<and> xa_reply x = Inr reply \<and>
     (case cc_evidence call of NoEvidence _ \<Rightarrow> True | ProviderResolved e \<Rightarrow> xa_now_lease x \<le> re_mint_deadline_epoch e) \<and>
     (case ee_templates env (sg_provider g) (sg_action g) of None \<Rightarrow> True
      | Some l \<Rightarrow> tf_has_preconditions l \<longrightarrow> credential_generation (cc_evidence call) \<noteq> None) \<and>
     (pi_requires_credential (cc_provider call) \<longrightarrow> xa_credential_opens x) \<and>
     (effect_id money \<noteq> None \<longrightarrow> pr_proof reply \<noteq> None)"

lemma quiet_phases:
  assumes "unobstructed env x g money call reply"
  shows "check_after_claim env x gid g secrets st = (st, Ok ())"
    "run_preconditions env x (cc_evidence call) gid g money secrets st = (st, Ok ())"
    "invoke env x call gid g st = (st\<lparr>bs_calls := bs_calls st @ [gid]\<rparr>, Ok (True, Inr reply))"
    "\<exists>effect. effect_fields money reply = Ok effect"
  using assms
  by (auto simp: unobstructed_def cleared_def check_after_claim_def run_preconditions_def give_def invoke_def egress_def call_provider_def
      effect_fields_def split: option.splits)

lemma quiet_start:
  assumes "bs_faults st = []" "json_parse (ee_json env) (sg_resource_json g) = Some v"
  shows "\<exists>r. record_effect_start env x call gid g money secrets st = (st\<lparr>bs_log := bs_log st @ [r]\<rparr>, Ok ())"
  using quiet_record[OF assms(1)] assms(2) by (fastforce simp: record_effect_start_def then_do_def lift_result_def Let_def)

lemma quiet_claim:
  assumes "bs_faults st = []" "bs_grants st gid = Some g" "sg_status g = Approved" "unobstructed env x g money call reply"
  shows "claim_grant env x (cc_evidence call) gid g st = (st\<lparr>bs_grants := (bs_grants st)(gid \<mapsto> g\<lparr>sg_status := Executing,
    sg_digest := redigest_leased (ee_keys env) gid g ''executing'' (xa_now_lease x) (lease_deadline_of (xa_now_lease x)),
    sg_lease_opened_at := Some (xa_now_lease x), sg_lease_deadline := Some (lease_deadline_of (xa_now_lease x))\<rparr>)\<rparr>, Ok ())"
  using assms quiet_update[OF assms(1,2), of "[Approved]"]
  by (auto simp: claim_grant_def Let_def unobstructed_def then_do_def give_def split: evidence_envelope.splits)

lemma quiet_reply:
  assumes "bs_faults st = []" "bs_grants st gid = Some h" "sg_status h = Executing" "effect_fields money reply = Ok effect"
  shows "\<exists>st' res. finish_reply env x gid g money secrets True reply st = (st', Ok res) \<and> bs_calls st' = bs_calls st \<and>
    er_ok res = pr_ok reply \<and> bs_grants st' gid = Some (h\<lparr>sg_status := Executed,
      sg_digest := redigest_leased (ee_keys env) gid g ''executed'' (xa_now_lease x) (lease_deadline_of (xa_now_lease x))\<rparr>) \<and>
    (\<exists>r. last (bs_log st') = r \<and> bs_log st' \<noteq> [] \<and> terminal_row r)"
proof -
  obtain rows a where ret: "retain_artifact env x g reply st = (st\<lparr>bs_log := bs_log st @ rows\<rparr>, Ok a)"
    using quiet_retain[OF assms(1)] by blast
  let ?st1 = "st\<lparr>bs_log := bs_log st @ rows\<rparr>"
  let ?ty = "if pr_ok reply then ''provider_action_succeeded'' else ''provider_action_failed''"
  let ?data = "reply_data x gid g True reply (redacted (pr_result reply) secrets) effect a
    (wire_stats_of env reply (redacted (pr_result reply) secrets))
    (receipt_stamp (sg_request_id g) (case redacted (JObject (pr_envelope reply)) secrets of JObject es \<Rightarrow> es | _ \<Rightarrow> []))"
  have q1: "bs_faults ?st1 = []" using assms(1) by simp
  obtain r where rec: "record_row env (Some (sg_session g)) ?ty ?data secrets ?st1 = (?st1\<lparr>bs_log := bs_log ?st1 @ [r]\<rparr>, Ok ())" "ar_type r = ?ty"
    using quiet_record[OF q1, of env "Some (sg_session g)" ?ty ?data secrets] by blast
  have tr: "terminal_row r" using rec(2) by (simp add: terminal_row_def)
  let ?st2 = "?st1\<lparr>bs_log := bs_log ?st1 @ [r]\<rparr>"
  have flip: "flip_executed env gid g (xa_now_lease x) (lease_deadline_of (xa_now_lease x)) ?st2 =
      (?st2\<lparr>bs_grants := (bs_grants ?st2)(gid \<mapsto> h\<lparr>sg_status := Executed,
        sg_digest := redigest_leased (ee_keys env) gid g ''executed'' (xa_now_lease x) (lease_deadline_of (xa_now_lease x))\<rparr>)\<rparr>, Ok True)"
    unfolding flip_executed_def by (rule quiet_update) (use assms in simp_all)
  show ?thesis
    unfolding finish_reply_def Let_def then_do_def ret prod.case sum.case lift_result_def assms(4) map_sum.simps rec(1) flip give_def
    using tr by simp
qed

text \<open>A row with the same action and effect data passes when it carries its own digest.\<close>

lemma signed_passes:
  assumes "assert_grant_integrity k J mc templates gid g = Ok ()" "sg_digest h = redigest k gid h (status_str (sg_status h))"
    and "sg_money_json h = sg_money_json g" "sg_provider h = sg_provider g" "sg_action h = sg_action g"
  shows "assert_grant_integrity k J mc templates gid h = Ok ()"
  using assms(1) unfolding assert_grant_integrity_def constant_time_eq_iff assms(2-5) by (simp split: if_splits)

lemma admit_parses: "admit_claim env x gid st = (st', Inr (g, money, call)) \<Longrightarrow> \<exists>v. json_parse (ee_json env) (sg_resource_json g) = Some v"
proof -
  assume a: "admit_claim env x gid st = (st', Inr (g, money, call))"
  obtain st1 where "check_call env x gid g money st1 = (st', Inr call)"
    using a unfolding admit_claim_def then_do_Ok handler_Ok by blast
  then obtain c res where "from_stored (ee_json env) (sg_resource_json g) c = Ok res"
    unfolding check_call_def Let_def then_do_Ok handler_Ok by blast
  then show ?thesis by (auto simp: from_stored_def split: option.splits)
qed

lemma quiet_run:
  assumes "admit_claim env x gid st = (st, Inr (g, money, call))" "bs_faults st = []" "unobstructed env x g money call reply"
  shows "\<exists>st' res h. claim_and_run env x gid st = (st', Ok res) \<and> er_ok res = pr_ok reply \<and> bs_calls st' = bs_calls st @ [gid] \<and>
    bs_grants st' gid = Some h \<and> sg_status h = Executed \<and> bs_log st' \<noteq> [] \<and> terminal_row (last (bs_log st')) \<and>
    assert_grant_integrity (ee_keys env) (ee_json env) (ee_money env) (ee_templates env) gid h = Ok ()"
proof -
  note ok = admit_Ok[OF assms(1)]
  obtain vault where vault: "ee_secrets env = Some vault" using assms(3) by (auto simp: unobstructed_def)
  define opened where "opened = xa_now_lease x"
  define deadline where "deadline = lease_deadline_of opened"
  define claimed where "claimed = g\<lparr>sg_status := Executing, sg_digest := redigest_leased (ee_keys env) gid g ''executing'' opened deadline,
    sg_lease_opened_at := Some opened, sg_lease_deadline := Some deadline\<rparr>"
  have ap: "sg_status g = Approved" using ok(3) by (simp add: authorised_def)
  define st1 where "st1 = st\<lparr>bs_grants := (bs_grants st)(gid \<mapsto> claimed)\<rparr>"
  have cl: "claim_grant env x (cc_evidence call) gid g st = (st1, Ok ())"
    using quiet_claim[OF assms(2) ok(2) ap assms(3)] by (simp add: st1_def claimed_def opened_def deadline_def)
  obtain v where "json_parse (ee_json env) (sg_resource_json g) = Some v" using admit_parses[OF assms(1)] by blast
  then obtain r where start: "record_effect_start env x call gid g money (run_secrets money vault) st1 = (st1\<lparr>bs_log := bs_log st1 @ [r]\<rparr>, Ok ())"
    using quiet_start[of st1] assms(2) by (fastforce simp: st1_def)
  let ?st2 = "st1\<lparr>bs_log := bs_log st1 @ [r], bs_calls := bs_calls st1 @ [gid]\<rparr>"
  obtain effect where eff: "effect_fields money reply = Ok effect" using quiet_phases(4)[OF assms(3)] by blast
  have "bs_faults ?st2 = []" "bs_grants ?st2 gid = Some claimed" "sg_status claimed = Executing"
    using assms(2) by (simp_all add: st1_def claimed_def)
  from quiet_reply[OF this eff, of env x g "run_secrets money vault"] obtain st' res where
    fin: "finish_reply env x gid g money (run_secrets money vault) True reply ?st2 = (st', Ok res)" "bs_calls st' = bs_calls st @ [gid]"
      "er_ok res = pr_ok reply" "bs_grants st' gid = Some (claimed\<lparr>sg_status := Executed,
        sg_digest := redigest_leased (ee_keys env) gid g ''executed'' opened deadline\<rparr>)" "bs_log st' \<noteq> []" "terminal_row (last (bs_log st'))"
    by (auto simp: st1_def opened_def deadline_def)
  have "claim_and_run env x gid st = (st', Ok res)"
    using fin(1) by (simp add: claim_and_run_def run_claimed_def then_do_def assms(1) all_secrets_def lift_result_def vault Let_def cl
        quiet_phases[OF assms(3)] start)
  moreover have "assert_grant_integrity (ee_keys env) (ee_json env) (ee_money env) (ee_templates env) gid
      (claimed\<lparr>sg_status := Executed, sg_digest := redigest_leased (ee_keys env) gid g ''executed'' opened deadline\<rparr>) = Ok ()"
    by (rule signed_passes[of _ _ _ _ gid g])
      (use ok(3) in \<open>simp_all add: authorised_def claimed_def redigest_def redigest_leased_def grant_digest_def grant_preimage_def status_str_def\<close>)
  ultimately show ?thesis using fin(2-6) by (intro exI[of _ st'] exI[of _ res]) simp
qed

text \<open>
  C33. A run that nothing stands in the way of ends well. When the checks admit the claim, no write fails,
  the authority has not moved, no lockdown sets in, the preconditions pass, the credential opens and the
  provider answers, the run answers with the provider's verdict, has handed the grant over exactly once,
  and leaves it executed, with its terminal row last in the log and with a digest that passes the
  integrity check.
\<close>

theorem run_completes:
  assumes "admit_claim env x gid st = (st, Inr (g, money, call))" "bs_faults st = []" "unobstructed env x g money call reply"
  shows "\<exists>st' res h. claim_and_run env x gid st = (st', Ok res) \<and> er_ok res = pr_ok reply \<and> bs_calls st' = bs_calls st @ [gid] \<and>
    bs_grants st' gid = Some h \<and> sg_status h = Executed \<and> bs_log st' \<noteq> [] \<and> terminal_row (last (bs_log st')) \<and>
    assert_grant_integrity (ee_keys env) (ee_json env) (ee_money env) (ee_templates env) gid h = Ok ()"
  using quiet_run[OF assms] .

section \<open>Witnesses\<close>

definition demo_contract :: action_contract where
  "demo_contract = \<lparr>ac_provider = ''p'', ac_action = ''a'', ac_schema = [], ac_consumes = [], ac_execution_targets = [],
     ac_relations = [], ac_open = True\<rparr>"

definition demo_env :: exec_env where
  "demo_env = \<lparr>ee_keys = \<lparr>gk_hmac = (\<lambda>_ _. []), gk_key = []\<rparr>,
     ee_json = \<lparr>json_parse = (\<lambda>_. Some (JObject [])), json_print = (\<lambda>_. ''{}'')\<rparr>,
     ee_money = \<lparr>mc_to_value = (\<lambda>_. JObject []), mc_from_value = (\<lambda>_. Some money_none)\<rparr>,
     ee_templates = (\<lambda>_ _. None), ee_descriptors = (\<lambda>_. Some ''h''), ee_evidence_of = (\<lambda>_. Some (NoEvidence 1)),
     ee_verified = (\<lambda>_. True), ee_like_text = (\<lambda>_ _. True),
     ee_fresh = (\<lambda>n. ''e''), ee_like = (\<lambda>_ _ _. False), ee_secrets = Some [], ee_enforce_availability = False,
     ee_provider = (\<lambda>_. Some \<lparr>pi_contract = (\<lambda>_. Some demo_contract), pi_canonicalize = (\<lambda>_ _. Some (resource_from_map [])),
       pi_requires_credential = False\<rparr>),
     ee_profile = (\<lambda>_. None), ee_sha = (\<lambda>_. [])\<rparr>"

definition demo_draft :: grant_draft where
  "demo_draft = \<lparr>gd_request_id = ''q1'', gd_session = ''s1'', gd_provider = ''p'', gd_action = ''a'', gd_resource = resource_from_map [],
     gd_evidence_json = ''{}'', gd_money_json = ''{}'', gd_status = Approved, gd_decision = AllowGrant, gd_principal = Some ''me'',
     gd_authority = ''d1'', gd_expiry_override = None\<rparr>"

definition demo_answers :: "int \<Rightarrow> exec_answers" where
  "demo_answers now = \<lparr>xa_locked_claim = False, xa_locked_post_claim = False, xa_locked_egress = False, xa_barrier_refuses = False,
     xa_now_expiry = now, xa_now_retry = now, xa_now_evidence = now, xa_now_lease = now, xa_authority_pre = Some ''d1'',
     xa_authority_post = Some ''d1'', xa_generation_current = None, xa_preconditions = CheckPassed, xa_credential_opens = True,
     xa_reply = Inr \<lparr>pr_ok = True, pr_result = JNull, pr_retained = None, pr_envelope = [], pr_failure_class = None, pr_proof = None\<rparr>,
     xa_executing_session = None, xa_pid = None, xa_require_session_open = False, xa_peer_uid = None, xa_attempted_at = ''t'', xa_staged = None, xa_error_text = []\<rparr>"

definition demo_empty :: broker_store where
  "demo_empty = \<lparr>bs_ids = [], bs_grants = Map.empty, bs_requests = [], bs_sessions = [], bs_log = [], bs_faults = [], bs_calls = []\<rparr>"

definition demo_debit :: audit_row where
  "demo_debit = \<lparr>ar_rowid = 1, ar_id = ''m1'', ar_session = Some ''s1'', ar_type = ''budget_mint'',
     ar_data = JObject [(''grant_id'', JString ''g1''), (''aggregate_id'', JString ''a1'')]\<rparr>"

definition demo_stored :: broker_store where
  "demo_stored = fst (insert_grant demo_env demo_draft ''g1'' 0 ''noon'' (demo_empty\<lparr>bs_log := [demo_debit]\<rparr>))"

definition demo_grant :: stored_grant where
  "demo_grant = \<lparr>sg_request_id = ''q1'', sg_session = ''s1'', sg_provider = ''p'', sg_action = ''a'', sg_resource_json = ''{}'',
     sg_evidence_json = ''{}'', sg_money_json = ''{}'', sg_status = Approved, sg_decision = ''allow'', sg_policy_fingerprint = ''d1'',
     sg_digest = [], sg_expiry = Some 600, sg_principal = Some ''me'', sg_template_hash = None, sg_descriptor_hash = ''h'',
     sg_approved_by_kind = Some ''sentence'', sg_approver = None, sg_approved_at = Some ''noon'', sg_lease_opened_at = None,
     sg_lease_deadline = None\<rparr>"

definition demo_call :: checked_call where
  "demo_call = \<lparr>cc_provider = \<lparr>pi_contract = (\<lambda>_. Some demo_contract), pi_canonicalize = (\<lambda>_ _. Some (resource_from_map [])),
       pi_requires_credential = False\<rparr>, cc_contract = demo_contract, cc_resource = resource_from_map [], cc_evidence = NoEvidence 1\<rparr>"

lemmas demo_handlers = then_do_def give_def refuse_def lift_result_def unless_def load_grant_def write_store_def all_secrets_def

lemma demo_digest [simp]: "redigest (ee_keys demo_env) gid g status = []" "redigest_leased (ee_keys demo_env) gid g status o1 o2 = []"
  by (simp_all add: redigest_def redigest_leased_def grant_digest_def demo_env_def hex_def)

lemma demo_canonical: "canonical_json (ee_json demo_env) (JObject []) = ''{}''"
  by simp

lemma demo_stored_eq: "demo_stored = \<lparr>bs_ids = [''g1''], bs_grants = [''g1'' \<mapsto> demo_grant], bs_requests = [], bs_sessions = [], bs_log = [demo_debit], bs_faults = [], bs_calls = []\<rparr>"
proof -
  have "drafted_grant demo_env demo_draft ''g1'' ''h'' 0 ''noon'' = demo_grant"
    by (simp add: drafted_grant_def Let_def) (simp add: demo_grant_def demo_draft_def demo_env_def to_canonical_json_def decision_str_def GRANT_TTL_SECS_def)
  moreover have "json_parse (ee_json demo_env) t = Some (JObject [])" "ee_descriptors demo_env p = Some ''h''" for t p
    by (simp_all add: demo_env_def)
  ultimately show ?thesis
    by (simp add: demo_stored_def insert_grant_def demo_handlers demo_empty_def demo_draft_def[unfolded grant_draft.defs])
qed

lemma demo_env_fields [simp]: "json_parse (ee_json demo_env) t = Some (JObject [])" "ee_templates demo_env p a = None"
  "ee_descriptors demo_env p = Some ''h''" "ee_evidence_of demo_env v = Some (NoEvidence 1)" "ee_secrets demo_env = Some []"
  "\<not> ee_enforce_availability demo_env" "mc_from_value (ee_money demo_env) v = Some money_none"
  by (simp_all add: demo_env_def)

lemma demo_reads:
  "money_from_canonical_json (ee_json demo_env) (ee_money demo_env) ''{}'' = Ok money_none"
  "integrity demo_env ''g1'' demo_grant = give ()"
  "evidence_from_canonical_json demo_env ''{}'' = Ok (NoEvidence 1)"
proof -
  show money: "money_from_canonical_json (ee_json demo_env) (ee_money demo_env) ''{}'' = Ok money_none"
    by (simp add: money_from_canonical_json_def demo_canonical money_none_def)
  show "integrity demo_env ''g1'' demo_grant = give ()"
    by (rule ext) (simp add: integrity_def lift_result_def give_def assert_grant_integrity_def constant_time_eq_iff money
        demo_grant_def[unfolded stored_grant.defs] money_none_def)
  show "evidence_from_canonical_json demo_env ''{}'' = Ok (NoEvidence 1)"
    by (simp add: evidence_from_canonical_json_def demo_canonical EVIDENCE_ENVELOPE_VERSION_def)
qed

lemma demo_admit:
  assumes "now \<le> 600"
  shows "admit_claim demo_env (demo_answers now) ''g1'' demo_stored = (demo_stored, Inr (demo_grant, money_none, demo_call))"
proof -
  note money = demo_reads(1) and integ = demo_reads(2) and ev = demo_reads(3)
  note g = demo_grant_def and x = demo_answers_def[of now]
  have checks: "provider_is_product_disabled demo_env (sg_provider demo_grant) (sg_action demo_grant) = False"
    "check_status ''g1'' demo_grant = give ()" "check_provenance demo_env ''g1'' demo_grant = give ()"
    "check_authority_before demo_env (demo_answers now) ''g1'' demo_grant = give ()"
    "\<And>ev. check_recipe demo_env ev ''g1'' demo_grant = give ()"
    "check_deadline demo_env ''g1'' demo_grant (sg_expiry demo_grant) (xa_now_expiry (demo_answers now)) = give ()"
    "check_deadline demo_env ''g1'' demo_grant (retry_deadline_epoch money_none) (xa_now_retry (demo_answers now)) = give ()"
    using assms by (simp_all add: provider_is_product_disabled_def check_status_def status_refusal_def check_provenance_def
        check_authority_before_def check_recipe_def check_deadline_def g x money_none_def)
  have call: "check_call demo_env (demo_answers now) ''g1'' demo_grant money_none = give demo_call"
  proof -
    have "ee_provider demo_env p = Some (cc_provider demo_call)" for p by (simp add: demo_env_def demo_call_def)
    moreover have "from_stored (ee_json demo_env) t demo_contract = Ok (resource_from_map [])" for t
      by (simp add: from_stored_def demo_contract_def)
    moreover have "verify_grant_evidence demo_env (demo_answers now) demo_grant (resource_from_map []) = Ok (NoEvidence 1)"
      using ev by (simp add: verify_grant_evidence_def action_evidence_id_def g)
    ultimately show ?thesis
      by (intro ext) (simp add: check_call_def Let_def demo_handlers money_none_def g demo_call_def)
  qed
  have "evidence_from_canonical_json demo_env (sg_evidence_json demo_grant) = Ok (NoEvidence 1)"
    "money_from_canonical_json (ee_json demo_env) (ee_money demo_env) (sg_money_json demo_grant) = Ok money_none"
    using ev money by (simp_all add: g)
  then show ?thesis
    by (simp add: admit_claim_def read_money_def demo_handlers integ[unfolded demo_handlers] checks[unfolded demo_handlers]
        call[unfolded demo_handlers] demo_stored_eq) (simp add: x)
qed

definition demo_reply :: provider_reply where
  "demo_reply = \<lparr>pr_ok = True, pr_result = JNull, pr_retained = None, pr_envelope = [], pr_failure_class = None, pr_proof = None\<rparr>"

lemma demo_unobstructed: "unobstructed demo_env (demo_answers 100) demo_grant money_none demo_call demo_reply"
  by (simp add: unobstructed_def cleared_def demo_answers_def demo_reply_def demo_call_def demo_grant_def money_none_def)

definition demo_done :: broker_store where
  "demo_done = fst (claim_and_run demo_env (demo_answers 100) ''g1'' demo_stored)"

theorem run_completes_witness:
  "bs_calls demo_done = [''g1''] \<and> (\<exists>h. bs_grants demo_done ''g1'' = Some h \<and> sg_status h = Executed) \<and>
   snd (claim_and_run demo_env (demo_answers 100) ''g1'' demo_stored) \<noteq> Err StoreFault"
  using run_completes[OF demo_admit _ demo_unobstructed] by (auto simp: demo_done_def demo_stored_eq)

lemma demo_executed:
  "bs_calls demo_done = [''g1'']" "\<exists>h. bs_grants demo_done ''g1'' = Some h \<and> sg_status h = Executed"
  using quiet_run[OF demo_admit _ demo_unobstructed] by (auto simp: demo_done_def demo_stored_eq)

text \<open>The states of the story are reachable: the debit is recorded, the grant is stored, and it is run or expires.\<close>

lemma demo_reach: "empty_store demo_empty" "(life_step demo_env)\<^sup>*\<^sup>* (0, demo_empty) (0, demo_stored)"
proof -
  show "empty_store demo_empty" by (simp add: empty_store_def demo_empty_def)
  have debit: "life_step demo_env (0, demo_empty) (0, demo_empty\<lparr>bs_log := bs_log demo_empty @ [demo_debit]\<rparr>)"
    by (rule OtherRow) (simp_all add: demo_debit_def terminal_row_def)
  have "fresh_ids (demo_empty\<lparr>bs_log := [demo_debit]\<rparr>) ''g1'' (gd_request_id demo_draft)"
    by (simp add: fresh_ids_def plain_def demo_empty_def demo_draft_def demo_debit_def terminal_row_def)
  then have "life_step demo_env (0, demo_empty\<lparr>bs_log := [demo_debit]\<rparr>) (0, demo_stored)"
    unfolding demo_stored_def by (rule Store) (simp add: demo_draft_def)
  with debit show "(life_step demo_env)\<^sup>*\<^sup>* (0, demo_empty) (0, demo_stored)"
    by (simp add: demo_empty_def)
qed

lemma demo_reach_run: "(life_step demo_env)\<^sup>*\<^sup>* (0, demo_empty) (0, fst (claim_and_run demo_env (demo_answers now) ''g1'' demo_stored))"
  if "0 \<le> now"
proof -
  have "life_step demo_env (0, demo_stored) (0, fst (enter demo_env (demo_answers now) (ById ''g1'') demo_stored))"
    by (rule Run) (use that in \<open>simp add: demo_answers_def\<close>)
  with demo_reach(2) show ?thesis by simp
qed

theorem grants_are_single_use_witness: "distinct (bs_calls demo_done)"
  using grants_are_single_use[OF demo_reach(1), of demo_env 0 0 demo_done] demo_reach_run[of 100] by (simp add: demo_done_def)

theorem egress_authorised_witness: "authorised demo_env (demo_answers 100) ''g1'' demo_grant money_none \<and> cleared demo_env (demo_answers 100) demo_grant"
proof -
  obtain st r where run: "claim_and_run demo_env (demo_answers 100) ''g1'' demo_stored = (st, r)" by fastforce
  then have "bs_calls st \<noteq> bs_calls demo_stored" using demo_executed(1) by (simp add: demo_done_def demo_stored_eq)
  from egress_authorised[OF run this] obtain g money where "bs_grants demo_stored ''g1'' = Some g"
    "authorised demo_env (demo_answers 100) ''g1'' g money" "cleared demo_env (demo_answers 100) g" by blast
  then have "authorised demo_env (demo_answers 100) ''g1'' demo_grant money" "cleared demo_env (demo_answers 100) demo_grant"
    by (simp_all add: demo_stored_eq)
  moreover have "money = money_none" using calculation(1) admit_Ok(3)[OF demo_admit[of 100]] by (simp add: authorised_def)
  ultimately show ?thesis by simp
qed

theorem terminal_rows_are_true_witness: "\<exists>h. bs_grants demo_done ''g1'' = Some h \<and> list_ex (terminal_for ''g1'' (sg_request_id h)) (bs_log demo_done)"
proof -
  obtain h where "bs_grants demo_done ''g1'' = Some h" "sg_status h = Executed" using demo_executed by blast
  with terminal_rows_are_true[OF demo_reach(1), of demo_env 0 0 demo_done] demo_reach_run[of 100] show ?thesis by (simp add: demo_done_def)
qed

definition demo_expired :: broker_store where
  "demo_expired = fst (claim_and_run demo_env (demo_answers 1000) ''g1'' demo_stored)"

lemma demo_release: "list_ex (releases ''g1'') (bs_log demo_expired)"
proof -
  let ?exp = "demo_grant\<lparr>sg_status := Expired, sg_digest := []\<rparr>"
  let ?st = "demo_stored\<lparr>bs_grants := (bs_grants demo_stored)(''g1'' \<mapsto> ?exp)\<rparr>"
  have q: "bs_faults demo_stored = []" "bs_grants demo_stored ''g1'' = Some demo_grant" by (simp_all add: demo_stored_eq)
  have f: "sg_expiry demo_grant = Some 600" "sg_status demo_grant = Approved" "sg_money_json demo_grant = ''{}''" "sg_evidence_json demo_grant = ''{}''"
    "xa_now_expiry (demo_answers 1000) = 1000" "\<not> xa_locked_claim (demo_answers 1000)" "\<not> xa_barrier_refuses (demo_answers 1000)"
    by (simp_all add: demo_grant_def demo_answers_def)
  have upd: "update_grant ''g1'' any_status (\<lambda>row. row\<lparr>sg_status := Expired,
      sg_digest := redigest (ee_keys demo_env) ''g1'' demo_grant ''expired''\<rparr>) demo_stored = (?st, Ok True)"
    using quiet_update[OF q, of any_status] by (simp add: any_status_def demo_grant_def)
  obtain r where r: "record_row demo_env (Some (sg_session demo_grant)) ''grant_expired'' (JObject [(''grant_id'', JString ''g1'')]) [] ?st =
      (?st\<lparr>bs_log := bs_log ?st @ [r]\<rparr>, Ok ())" "ar_type r = ''grant_expired''"
    using quiet_record[of ?st] q(1) by fastforce
  let ?st2 = "?st\<lparr>bs_log := bs_log ?st @ [r]\<rparr>"
  have ref: "budget_mint_ref_for_grant (ee_verified demo_env) (bs_log ?st2) ''g1'' = Ok (Some (''m1'', ''a1''))"
    using r(2) by (simp add: budget_mint_ref_for_grant_def demo_env_def demo_stored_eq demo_debit_def jstr_def jget_def)
  obtain r2 where r2: "record_row demo_env None ''budget_release'' (release_data ''m1'' ''a1'' ''g1'' ExpiredUnclaimed) [] ?st2 =
      (?st2\<lparr>bs_log := bs_log ?st2 @ [r2]\<rparr>, Ok ())" "ar_type r2 = ''budget_release''"
      "ar_data r2 = redacted_for_record (release_data ''m1'' ''a1'' ''g1'' ExpiredUnclaimed) []"
    using quiet_record[of ?st2] q(1) by fastforce
  have "release_budget demo_env ''g1'' ExpiredUnclaimed ?st2 = (?st2\<lparr>bs_log := bs_log ?st2 @ [r2]\<rparr>, Ok ())"
    using ref r2(1) by (simp add: release_budget_def budget_release_exists_def then_do_def all_secrets_def lift_result_def)
      (simp add: demo_env_def list_ex_iff)
  then have "expire_grant demo_env ''g1'' demo_grant demo_stored = (?st2\<lparr>bs_log := bs_log ?st2 @ [r2]\<rparr>, Ok ())"
    using upd r(1) by (simp add: expire_grant_def then_do_def all_secrets_def lift_result_def) (simp add: demo_grant_def)
  then have "check_deadline demo_env ''g1'' demo_grant (sg_expiry demo_grant) (xa_now_expiry (demo_answers 1000)) demo_stored =
      (?st2\<lparr>bs_log := bs_log ?st2 @ [r2]\<rparr>, Err (ExecuteRefused GrantExpired))"
    by (simp add: check_deadline_def then_do_def refuse_def f)
  then have "demo_expired = ?st2\<lparr>bs_log := bs_log ?st2 @ [r2]\<rparr>"
    using demo_reads q(2)
    by (simp add: demo_expired_def claim_and_run_def admit_claim_def demo_handlers read_money_def check_status_def status_refusal_def
        provider_is_product_disabled_def f)
  from arg_cong[OF this, of bs_log] have log: "bs_log demo_expired = bs_log demo_stored @ [r, r2]" by simp
  have "releases ''g1'' r2"
    using r2(2,3) by (simp add: releases_def release_data_def redacted_for_record_def redacted_def redact_value_def jstr_def jget_def)
  then show ?thesis by (simp add: log list_ex_append)
qed


end
