(* ===== verification/Spec2Isabelle.thy ===== *)
theory Spec2Isabelle
  imports Sentence_Widen Discovery_Exact Ledger_Storage Quiesce_Barrier Grant_Lifecycle
begin

text \<open>
  Cermet decides typed provider effects against a corpus of sentences, meters the budget and rate
  clauses of a sentence in an append-only ledger, and executes what is allowed with credentials the
  requester never holds. This development models the part of the program that decides, and the part
  that carries a decision out: the language crate \<^verbatim>\<open>crates/cermet-lang\<close>, and of \<^verbatim>\<open>crates/cermet-core\<close>
  the meter, the gate, the audit log, the maintenance barrier, and the life of a grant from its insertion
  through its claim and its effect to its terminal record.

  \<^bold>\<open>Parts and theories.\<close>

  \<^item> \<open>Cermet_Prelude\<close>: results, checked \<^verbatim>\<open>i64\<close> arithmetic, text as Rust's \<^verbatim>\<open>str\<close> treats it,
    ordered maps, and the locale \<open>invariant_system\<close> (what every step keeps holds of every reachable
    state).
  \<^item> \<open>Cermet_Contract\<close> (\<^verbatim>\<open>contract.rs\<close>): scalars, action contracts and their consistency check, the
    frozen resource. A resource that reloads from storage conforms to its contract, and a conforming
    one survives its canonical JSON.
  \<^item> \<open>Cermet_Sets\<close> (\<^verbatim>\<open>sets.rs\<close>): content-addressed set expansions. The interface of the resolver
    trait is the locale \<open>set_resolver\<close>, interpreted on the catalog resolver and on the empty one;
    expansion is the closure of the include relation.
  \<^item> \<open>Sentence_Syntax\<close> (\<^verbatim>\<open>sentence.rs\<close>): rules, lexer, parser, printer, structural check.
    \<open>Sentence_Codec\<close>: the printer and the parser are inverse on exactly the rules the grammar spells.
  \<^item> \<open>Sentence_Eval\<close> (\<^verbatim>\<open>sentence.rs\<close>): the evaluator. The loop is characterised in the locale
    \<open>rule_scan\<close> - first blocking rule, first admitting rule - and the laws of a corpus are its
    lemmas at the interpretation \<open>decision\<close>.
  \<^item> \<open>Sentence_Widen\<close> (\<^verbatim>\<open>sentence.rs\<close>): containment of rules, widening of a rule for a denied
    request, the suggestion printed as a shell command.
  \<^item> \<open>Sentence_Corpus\<close> (\<^verbatim>\<open>sentence.rs\<close>): admission of a corpus. Custody code sees it through the
    locale \<open>corpus_admission\<close>, interpreted on \<open>prepare_sentence_authority\<close>.
  \<^item> \<open>Sentence_Discovery\<close> (\<^verbatim>\<open>sentence.rs\<close>): whether some completion of a request shape would be
    allowed, decided on boxes of atoms. \<open>Discovery_Meaning\<close> gives boxes and atoms their meaning,
    \<open>Discovery_Sound\<close> follows the shape loop, and \<open>Discovery_Exact\<close> relates the answer to the
    evaluator: sound for every composition of shapes, exact for an action on a closed contract.
  \<^item> \<open>Budget_Ledger\<close> (\<^verbatim>\<open>cermet-core/src/budget.rs\<close>): windows, resolution digest and the pure
    decision. The ledger of one aggregate grows by \<open>ledger_step\<close>; it is an \<open>invariant_system\<close>, whose
    invariant gives the cap.
  \<^item> \<open>Budget_Gate\<close> (\<^verbatim>\<open>cermet-core/src/broker/budget.rs\<close>, \<^verbatim>\<open>audit.rs\<close>): the mint gate, the rows it
    writes and reads, release, expiry sweep and retry. Its operations on the log refine the steps of
    the ledger.
  \<^item> \<open>Cermet_Redaction\<close> (\<^verbatim>\<open>cermet-core/src/redaction.rs\<close>): replacement of vault secrets in values and
    in raw bytes. A secret that cannot overlap the marker is gone from the output; the byte splicer
    ends and is the reference replacement.
  \<^item> \<open>Audit_Log\<close> (\<^verbatim>\<open>cermet-core/src/audit.rs\<close>): the append-only table with its keyed hash chain. A log
    grows by \<open>log_step\<close> - append, durable append, loss of power - and is an \<open>invariant_system\<close>: it
    verifies in every reachable state, durable rows stay, and two intact chains with one head have
    one history. Every reader that demands evidence is one scan, so all of them agree.
  \<^item> \<open>Ledger_Storage\<close>: the gate's rows as the log stores them. A stored mint is one step of the pure
    meter and is counted after every later append and loss of power.
  \<^item> \<open>Audit_Effects\<close> (\<^verbatim>\<open>audit.rs\<close>, \<^verbatim>\<open>types.rs\<close>, \<^verbatim>\<open>views.rs\<close>): the projections that do not verify -
    failure classes, effect signals, end times, timelines - and the state of an ended effect.
  \<^item> \<open>Quiesce_Barrier\<close> (\<^verbatim>\<open>cermet-core/src/broker/quiesce.rs\<close>,
    \<^verbatim>\<open>cermet-daemon/src/quiesce_store.rs\<close>): the maintenance barrier. The store trait is the locale
    \<open>durable_store\<close>; the file store keeps its laws under every sequence of failing calls, restarts
    and losses of power, so an acknowledged barrier blocks claims until it is ended or lapses.
  \<^item> \<open>Grant_Record\<close> (\<^verbatim>\<open>broker/mod.rs\<close>, \<^verbatim>\<open>broker/helpers.rs\<close>, \<^verbatim>\<open>money.rs\<close>): the stored grant, its money
    metadata and its keyed digest. Two rows that pass the integrity check with one digest are the same row.
  \<^item> \<open>Money_Lineage\<close> (\<^verbatim>\<open>broker/mint.rs\<close>, \<^verbatim>\<open>evidence.rs\<close>): what the log proves of a tracked effect and its
    retries. Both walks up a lineage end after at most 32 grants, by the bound in the code; a lineage that is
    called definitely unperformed has a record of that for each of its grants.
  \<^item> \<open>Grant_Execution\<close> (\<^verbatim>\<open>broker/execute.rs\<close>, \<^verbatim>\<open>broker/lifecycle.rs\<close>): claiming and running a grant, its expiry,
    the recovery of interrupted runs and the sweeps, as handlers over a store whose writes may fail.
    \<open>Grant_Contracts\<close> has their pre- and postconditions and the invariant; \<open>Grant_Lifecycle\<close> makes them the steps
    of a system, an \<open>invariant_system\<close>: a grant reaches its provider at most once and only fully authorised, a
    released debit was not spent, terminal rows are true, and an unobstructed run ends.

  \<^bold>\<open>How they interact.\<close> A candidate text is parsed, pinned to set snapshots, checked against contracts and
  stored as canonical text (\<open>Sentence_Corpus\<close> over \<open>Sentence_Syntax\<close>, \<open>Cermet_Sets\<close>,
  \<open>Cermet_Contract\<close>). A request is a canonical resource; the evaluator returns the governing rule or a
  typed denial, and a denial may carry a widening. When the governing rule has an aggregate the gate
  loads that aggregate's rows, decides, and appends a mint row before the grant exists. A run loads the
  grant, checks its digest, its authority and its evidence, passes the barrier, claims the row, announces
  the effect in the log, calls the provider, records the end and only then marks the row executed; a grant
  that ends without an effect appends a release row. A crash between two writes is settled by the boot
  passes and the sweeps from what the log proves.

  \<^bold>\<open>Conventions.\<close> A fallible function returns a sum whose left side is the error, one constructor for
  each message or error variant of the source. An \<^verbatim>\<open>i64\<close> is an \<open>int\<close> with its range written out, and
  checked operations are \<open>checked\<close>; text is a list of scalar values below 256. Every definition that
  models code is total and executable; recursion that is not structural has its termination proof,
  so no fuel is used anywhere. A handler of \<open>Grant_Execution\<close> maps the store to the store and a result; what
  one run reads of the outside - clocks, lockdown file, authority source, vault, provider - is the record
  \<open>exec_answers\<close>, about which nothing is assumed, and the writes that fail are a list in the store. Code outside the repository is a parameter: SHA-256 (\<open>sha\<close>), HMAC (\<open>au_hmac\<close>, \<open>gk_hmac\<close>), the JSON
  reader and printer (\<open>json_lib\<close>), the serialized rule (\<open>rule_json\<close>), SQLite's \<^verbatim>\<open>LIKE\<close>.
  The hypotheses on them are documented behaviour - a printed value reads back, digests are bytes,
  two named inputs do not collide - and each theorem that uses one has a witness that instantiates it.

  \<^bold>\<open>Order of the plan.\<close> Language and admission; meter and gate; the maintenance barrier; the discovery
  projection; redaction, the audit chain and its projections; the grant life cycle. Not yet here: the
  request path that mints a grant, and the frame codec of the IPC protocol.

  \<^bold>\<open>Not modelled.\<close> Templates and provider HTTP, evidence and precondition reads, git and relay
  streaming, the vault, the bytes of a stored response, the daemon's process and socket set-up, the command line and the MCP bridge:
  they move bytes between the decisions modelled here and the outside world. The operator-only
  receipts the gate writes on a denial carry no state that a later decision reads.
\<close>

section \<open>Properties across components\<close>

text \<open>
  C8. An admitted debit is never forgotten. The gate decides on the stored log; when its mint is stored,
  the ledger the gate reads from the log takes exactly one mint step of the pure meter, and whatever is
  appended later and however often power is lost, any evidence the gate loads for that aggregate
  contains the mint with its grant, debit and times. The mint must not mention a secret, and its
  redacted JSON must read back.
\<close>

theorem stored_mint_is_counted:
  assumes "budget_gate ev rj st (ledger_view (au_json lib) log) now rules p a res = GateAdmit t"
    and "sha_ok (ev_sha ev)" "ticket_in_range t"
    and "store_budget_mint lib log rfc eid session g q t secrets = Ok log'"
    and "mint_safe lib secrets (mint_data t g q)" "(log_step lib)\<^sup>*\<^sup>* log' later"
  shows "(\<exists>ra evs evs' n n'. ra_limit ra = at_limit t \<and> ra_window ra = at_window t \<and>
       load_evidence (ledger_view (au_json lib) log) (at_aggregate_id t) = Ok (evs, n) \<and>
       load_evidence (ledger_view (au_json lib) log') (at_aggregate_id t) = Ok (evs', n') \<and> ledger_step ra evs evs') \<and>
     (\<forall>evs n. load_evidence (ledger_view (au_json lib) later) (at_aggregate_id t) = Ok (evs, n) \<longrightarrow>
       (\<exists>e \<in> set evs. le_event_id e = eid \<and> le_kind e = LMint g (wp_debit (at_proof t)) (at_resolution_digest t)
          (at_decision_at_epoch t) (grant_expiry_epoch t)))"
proof -
  have "\<forall>x \<in> set (al_rows log). se_id x \<noteq> eid" using store_appends[OF assms(4,5)] by blast
  then have "\<forall>r \<in> set (ledger_view (au_json lib) log). ar_id r \<noteq> eid" using view_ids by blast
  from mint_refines[OF assms(1-3) this, of session g q] obtain ra evs evs' n n' where
    "ra_limit ra = at_limit t \<and> ra_window ra = at_window t"
    "load_evidence (ledger_view (au_json lib) log) (at_aggregate_id t) = Ok (evs, n)"
    "load_evidence (ledger_view (au_json lib) log') (at_aggregate_id t) = Ok (evs', n')" "ledger_step ra evs evs'"
    unfolding store_is_mint[OF assms(4,5)] by blast
  then show ?thesis
    using stored_mint_kept[OF assms(4,5) gate_ticket_sound[OF assms(1,2)] assms(3,6)] by blast
qed

text \<open>
  C31. What the maintenance barrier waits for, in terms of the log itself: the broker is reported
  quiescent exactly when every grant row passes its integrity check, none is executing, and every grant
  that was executed or held a lease is named by a terminal row of a log whose whole chain verifies.
\<close>

theorem quiescent_on_the_log:
  "classify_quiesce now rows (verified_snapshot lib log) = Quiescent \<longleftrightarrow>
     list_all (\<lambda>r. qr_integrity_ok r \<and> qr_status r \<noteq> ''executing'' \<and>
       (if qr_status r = ''executed'' \<or> qr_lease_opened_at r \<noteq> None
        then intact lib log \<and> list_ex (names_grant (au_json lib) (qr_id r)) (al_rows log) else True)) rows"
  by (auto simp: quiescent_rows row_at_rest_def verified_complete_def snapshot_complete list_all_iff)

section \<open>Witnesses\<close>

definition ledger_json :: json_lib where
  "ledger_json = \<lparr>json_parse = (\<lambda>t. Some (redacted_for_record (mint_data first_ticket ''g1'' ''q1'') [''hunter2''])),
                  json_print = (\<lambda>v. ''m'')\<rparr>"

definition ledger_lib :: audit_lib where
  "ledger_lib = \<lparr>au_json = ledger_json, au_hmac = (\<lambda>key x. [length x mod 256])\<rparr>"

lemma ledger_safe: "mint_safe ledger_lib [''hunter2''] (mint_data first_ticket ''g1'' ''q1'')"
  unfolding mint_safe_def reads_back_def ledger_lib_def ledger_json_def by (simp, code_simp)

lemma ledger_stored:
  "is_ok (store_budget_mint ledger_lib (empty_log [7]) (\<lambda>_. ''noon'') ''e1'' ''s1'' ''g1'' ''q1'' first_ticket [''hunter2''])"
  by (simp add: store_budget_mint_def record_at_durable_def record_with_ts_def Let_def empty_log_def is_ok_def)

theorem stored_mint_is_counted_witness:
  "\<exists>log'. store_budget_mint ledger_lib (empty_log [7]) (\<lambda>_. ''noon'') ''e1'' ''s1'' ''g1'' ''q1'' first_ticket [''hunter2''] = Ok log' \<and>
     (\<exists>ra evs evs' n'. load_evidence (ledger_view ledger_json log') zero_id = Ok (evs', n') \<and> ledger_step ra evs evs')"
proof -
  obtain log' where s: "store_budget_mint ledger_lib (empty_log [7]) (\<lambda>_. ''noon'') ''e1'' ''s1'' ''g1'' ''q1'' first_ticket
      [''hunter2''] = Ok log'" using ledger_stored unfolding is_ok_iff by blast
  have "ledger_view (au_json ledger_lib) (empty_log [7]) = []" by (simp add: ledger_view_def empty_log_def)
  then have "budget_gate meter_evaluator rj st (ledger_view (au_json ledger_lib) (empty_log [7])) 5 (sample_rules [money_rule])
      ''pay'' ''send'' money_resource = GateAdmit first_ticket" for rj st using first_gate by simp
  from stored_mint_is_counted[OF this meter_sha first_in_range s ledger_safe rtranclp.rtrancl_refl]
  have "\<exists>ra evs evs' n'. load_evidence (ledger_view ledger_json log') zero_id = Ok (evs', n') \<and> ledger_step ra evs evs'"
    by (auto simp: ledger_lib_def first_ticket_def)
  with s show ?thesis by blast
qed

definition done_json :: json_lib where
  "done_json = \<lparr>json_parse = (\<lambda>t. Some (JObject [(''grant_id'', JString ''g1'')])), json_print = (\<lambda>v. ''t'')\<rparr>"

definition done_lib :: audit_lib where
  "done_lib = \<lparr>au_json = done_json, au_hmac = (\<lambda>key x. [length x mod 256])\<rparr>"

definition done_log :: audit_log where
  "done_log = (case record_event done_lib (empty_log [7]) ''e1'' ''noon''
       \<lparr>ne_session = None, ne_type = ''provider_action_succeeded'', ne_severity = ''info'', ne_summary = ''done'',
        ne_data = JObject [(''grant_id'', JString ''g1'')], ne_secrets = []\<rparr> of
     Inl _ \<Rightarrow> empty_log [] | Inr log \<Rightarrow> log)"

theorem quiescent_on_the_log_witness:
  "classify_quiesce 5 [\<lparr>qr_id = ''g1'', qr_integrity_ok = True, qr_status = ''executed'', qr_lease_opened_at = None,
     qr_lease_deadline = None\<rparr>] (verified_snapshot done_lib done_log) = Quiescent"
proof -
  have "intact done_lib done_log \<and> list_ex (names_grant (au_json done_lib) ''g1'') (al_rows done_log)" by code_simp
  then show ?thesis by (simp add: quiescent_on_the_log)
qed

end
